(* ===== verification/Prelude.thy ===== *)
theory Prelude
  imports Main "HOL-Library.Word"
begin

text \<open>
  Shared vocabulary of the development: the machine integers of the emulator, the
  exceptions its classes throw, the run of a member function that may throw, and the
  little-endian byte views of machine words that the C++ code obtains with pointer casts
  (\<open>(char*)&value\<close>, \<open>*(uint64_t*)&buffer\<close>).
\<close>

unbundle bit_operations_syntax

section \<open>Machine integers\<close>

type_synonym u8 = "8 word"
type_synonym u16 = "16 word"
type_synonym u32 = "32 word"
type_synonym u64 = "64 word"
type_synonym u128 = "128 word"

section \<open>Exceptions\<close>

text \<open>
  One constructor per exception class that the emulator distinguishes when it catches.
  \<open>SysdarftBaseError\<close> stands for the classes derived from it that have no handler of their
  own (the classes of the assembler that are caught by name have constructors of their own),
  \<open>SubroutineAbort\<close> for
  \<open>SysdarftCPUSubroutineRequestToAbortTheCurrentInstructionExecutionProcedureDueToError\<close>
  (which inherits privately, so no handler for its base matches it), \<open>StdException\<close> for
  the exceptions of the standard library that are not derived from
  \<open>SysdarftBaseError\<close>. \<open>UndefinedBehaviour\<close> marks an operation whose result the C++
  standard leaves undefined, and \<open>Waiting\<close> a call that is still polling when the given
  schedule of the other threads ends; no handler matches either.
\<close>

datatype cpu_error =
    IllegalMemoryAccessException
  | StackOverflow
  | IllegalInstruction
  | SysdarftBadInterruption
  | SysdarftInterruptionOutOfRange
  | SysdarftDeviceIOError
  | SysdarftNoSuchDevice
  | SysdarftBaseError
  | SysdarftCodeExpressionError
  | InstructionExpressionError
  | SysdarftAssemblerError
  | SysdarftLinkerError
  | SysdarftPreProcessorError
  | SysdarftDisassemblerError
  | SubroutineAbort
  | StdException
  | UndefinedBehaviour
  | Waiting

text \<open>What \<open>catch (SysdarftBaseError &)\<close> and \<open>catch (std::exception &)\<close> match.\<close>

definition derived_from_base :: "cpu_error \<Rightarrow> bool" where
  "derived_from_base e \<longleftrightarrow> e \<notin> {SubroutineAbort, StdException, UndefinedBehaviour, Waiting}"

definition derived_from_exception :: "cpu_error \<Rightarrow> bool" where
  "derived_from_exception e \<longleftrightarrow> derived_from_base e \<or> e = StdException"

section \<open>Runs of member functions\<close>

text \<open>
  A member function maps the object's state to its outcome and the state it leaves: the
  state is kept when an exception is thrown, because C++ does not roll it back.
\<close>

type_synonym ('s, 'a) run = "'s \<Rightarrow> (cpu_error + 'a) \<times> 's"

definition returnR :: "'a \<Rightarrow> ('s, 'a) run" where
  "returnR x s = (Inr x, s)"

definition throwR :: "cpu_error \<Rightarrow> ('s, 'a) run" where
  "throwR e s = (Inl e, s)"

definition bindR :: "('s, 'a) run \<Rightarrow> ('a \<Rightarrow> ('s, 'b) run) \<Rightarrow> ('s, 'b) run" where
  "bindR m f s = (case m s of (Inl e, s') \<Rightarrow> (Inl e, s') | (Inr x, s') \<Rightarrow> f x s')"

definition thenR :: "('s, 'a) run \<Rightarrow> ('s, 'b) run \<Rightarrow> ('s, 'b) run" where
  "thenR m k = bindR m (\<lambda>_. k)"

definition tryR :: "('s, 'a) run \<Rightarrow> (cpu_error \<Rightarrow> ('s, 'a) run) \<Rightarrow> ('s, 'a) run" where
  "tryR m h s = (case m s of (Inl e, s') \<Rightarrow> h e s' | (Inr x, s') \<Rightarrow> (Inr x, s'))"

definition getR :: "('s \<Rightarrow> 'a) \<Rightarrow> ('s, 'a) run" where
  "getR f s = (Inr (f s), s)"

definition modifyR :: "('s \<Rightarrow> 's) \<Rightarrow> ('s, unit) run" where
  "modifyR f s = (Inr (), f s)"

text \<open>A range-based \<open>for\<close> over a container: the body runs once per element, in order.\<close>

fun forR :: "'x list \<Rightarrow> ('x \<Rightarrow> ('s, unit) run) \<Rightarrow> ('s, unit) run" where
  "forR [] f = returnR ()"
| "forR (x # xs) f = thenR (f x) (forR xs f)"

named_theorems run_simps \<open>evaluation of runs applied to a state\<close>

lemma returnR_run [run_simps]: "returnR x s = (Inr x, s)"
  by (simp add: returnR_def)

lemma throwR_run [run_simps]: "throwR e s = (Inl e, s)"
  by (simp add: throwR_def)

lemma getR_run [run_simps, simp]: "getR f s = (Inr (f s), s)"
  by (simp add: getR_def)

lemma modifyR_run [run_simps, simp]: "modifyR f s = (Inr (), f s)"
  by (simp add: modifyR_def)

lemma bindR_Inr [run_simps]: "m s = (Inr x, s') \<Longrightarrow> bindR m f s = f x s'"
  by (simp add: bindR_def)

lemma bindR_Inl [run_simps]: "m s = (Inl e, s') \<Longrightarrow> bindR m f s = (Inl e, s')"
  by (simp add: bindR_def)

lemma thenR_Inr [run_simps]: "m s = (Inr x, s') \<Longrightarrow> thenR m k s = k s'"
  by (simp add: thenR_def bindR_def)

lemma thenR_Inl [run_simps]: "m s = (Inl e, s') \<Longrightarrow> thenR m k s = (Inl e, s')"
  by (simp add: thenR_def bindR_def)

lemma tryR_Inr [run_simps]: "m s = (Inr x, s') \<Longrightarrow> tryR m h s = (Inr x, s')"
  by (simp add: tryR_def)

lemma tryR_Inl [run_simps]: "m s = (Inl e, s') \<Longrightarrow> tryR m h s = h e s'"
  by (simp add: tryR_def)

lemma bindR_Pair [run_simps]:
  "bindR (Pair (Inr x)) f = f x"
  "bindR (Pair (Inl e)) f = Pair (Inl e)"
  by (simp_all add: fun_eq_iff bindR_def)

lemma thenR_Pair [run_simps]:
  "thenR (Pair (Inr x)) k = k"
  "thenR (Pair (Inl e)) k = Pair (Inl e)"
  by (simp_all add: thenR_def bindR_Pair)

lemma tryR_Pair [run_simps]:
  "tryR (Pair (Inr x)) h = Pair (Inr x)"
  "tryR (Pair (Inl e)) h = h e"
  by (simp_all add: fun_eq_iff tryR_def)

lemma fst_snd_returnR [simp]:
  "fst (returnR x s) = Inr x" "snd (returnR x s) = s"
  "fst (throwR e s) = Inl e" "snd (throwR e s) = s"
  by (simp_all add: returnR_def throwR_def)

lemma bindR_returnR [simp]: "bindR (returnR x) f = f x"
  by (simp add: fun_eq_iff bindR_def returnR_def)

lemma bindR_returnR_right [simp]: "bindR m returnR = m"
  by (auto simp: fun_eq_iff bindR_def returnR_def split: prod.splits sum.splits)

lemma bindR_assoc: "bindR (bindR m f) g = bindR m (\<lambda>x. bindR (f x) g)"
  by (simp add: fun_eq_iff bindR_def split: prod.splits sum.splits)

lemma bindR_throwR [simp]: "bindR (throwR e) f = throwR e"
  by (simp add: fun_eq_iff bindR_def throwR_def)

lemma tryR_throwR [simp]: "tryR (throwR e) h = h e"
  by (simp add: fun_eq_iff tryR_def throwR_def)

lemma tryR_returnR [simp]: "tryR (returnR x) h = returnR x"
  by (simp add: fun_eq_iff tryR_def returnR_def)

lemma bindR_getR_run [run_simps, simp]: "bindR (getR g) f s = f (g s) s"
  by (simp add: bindR_def)

lemma bindR_modifyR_run [run_simps, simp]: "bindR (modifyR g) f s = f () (g s)"
  by (simp add: bindR_def)

lemma thenR_modifyR_run [run_simps, simp]: "thenR (modifyR g) k s = k (g s)"
  by (simp add: thenR_def)

lemma thenR_returnR [simp]: "thenR (returnR x) k = k"
  by (simp add: thenR_def)

lemma thenR_throwR [simp]: "thenR (throwR e) k = throwR e"
  by (simp add: thenR_def)

lemma bindR_cases:
  assumes "bindR m f s = (r, s'')"
  obtains (throws) e where "m s = (Inl e, s'')" and "r = Inl e"
  | (returns) x s' where "m s = (Inr x, s')" and "f x s' = (r, s'')"
  using assms by (auto simp: bindR_def split: prod.splits sum.splits)

lemma thenR_cases:
  assumes "thenR m k s = (r, s'')"
  obtains (throws) e where "m s = (Inl e, s'')" and "r = Inl e"
  | (returns) x s' where "m s = (Inr x, s')" and "k s' = (r, s'')"
  using assms by (auto simp: thenR_def elim: bindR_cases)

subsection \<open>State predicates kept by a run\<close>

text \<open>
  \<open>keeps P m\<close>: the run \<open>m\<close> leaves a state satisfying \<open>P\<close> whenever it starts in
  one, whether it returns or throws. The combinators keep what their parts keep.
\<close>

definition keeps :: "('s \<Rightarrow> bool) \<Rightarrow> ('s, 'a) run \<Rightarrow> bool" where
  "keeps P m \<longleftrightarrow> (\<forall>s. P s \<longrightarrow> P (snd (m s)))"

named_theorems keeps_intros \<open>runs that keep a state predicate\<close>

lemma keepsI: "(\<And>s. P s \<Longrightarrow> P (snd (m s))) \<Longrightarrow> keeps P m"
  by (simp add: keeps_def)

lemma keepsD: "keeps P m \<Longrightarrow> P s \<Longrightarrow> m s = (r, s') \<Longrightarrow> P s'"
  by (metis keeps_def snd_conv)

lemma keeps_returnR [keeps_intros]: "keeps P (returnR x)"
  by (simp add: keeps_def)

lemma keeps_throwR [keeps_intros]: "keeps P (throwR e)"
  by (simp add: keeps_def)

lemma keeps_getR [keeps_intros]: "keeps P (getR f)"
  by (simp add: keeps_def)

lemma keeps_modifyR [keeps_intros]: "(\<And>s. P s \<Longrightarrow> P (f s)) \<Longrightarrow> keeps P (modifyR f)"
  by (simp add: keeps_def)

lemma keeps_bindR [keeps_intros]:
  assumes "keeps P m" and "\<And>x. keeps P (f x)"
  shows "keeps P (bindR m f)"
  using assms by (fastforce simp: keeps_def bindR_def split: prod.split sum.split)

lemma keeps_thenR [keeps_intros]:
  assumes "keeps P m" and "keeps P k"
  shows "keeps P (thenR m k)"
  using assms by (simp add: thenR_def keeps_bindR)

lemma keeps_tryR [keeps_intros]:
  assumes "keeps P m" and "\<And>e. keeps P (h e)"
  shows "keeps P (tryR m h)"
  using assms by (fastforce simp: keeps_def tryR_def split: prod.split sum.split)

lemma keeps_forR [keeps_intros]:
  assumes "\<And>x. keeps P (f x)"
  shows "keeps P (forR xs f)"
  by (induction xs) (simp_all add: assms keeps_returnR keeps_thenR)

lemma keeps_if [keeps_intros]:
  assumes "b \<Longrightarrow> keeps P m" and "\<not> b \<Longrightarrow> keeps P k"
  shows "keeps P (if b then m else k)"
  using assms by simp

lemma keeps_case_prod [keeps_intros]:
  "(\<And>a b. x = (a, b) \<Longrightarrow> keeps P (f a b)) \<Longrightarrow> keeps P (case x of (a, b) \<Rightarrow> f a b)"
  by (cases x) simp

lemma keeps_case_option [keeps_intros]:
  "keeps P m \<Longrightarrow> (\<And>a. keeps P (f a)) \<Longrightarrow> keeps P (case x of None \<Rightarrow> m | Some a \<Rightarrow> f a)"
  by (cases x) simp_all

lemma keeps_let [keeps_intros]: "(\<And>x. x = t \<Longrightarrow> keeps P (f x)) \<Longrightarrow> keeps P (let x = t in f x)"
  by simp

section \<open>Little-endian byte views\<close>

text \<open>
  The hosts the emulator is built for (x86-64 and aarch64) are little endian: byte \<open>i\<close> of
  a variable's memory holds the bits \<open>8 * i\<close> to \<open>8 * i + 7\<close> of its value.
\<close>

definition word_to_bytes :: "nat \<Rightarrow> 'a::len word \<Rightarrow> u8 list" where
  "word_to_bytes n w = map (\<lambda>i. ucast (drop_bit (8 * i) w)) [0..<n]"

fun word_of_bytes :: "u8 list \<Rightarrow> 'a::len word" where
  "word_of_bytes [] = 0"
| "word_of_bytes (b # bs) = ucast b OR push_bit 8 (word_of_bytes bs)"

lemma length_word_to_bytes [simp]: "length (word_to_bytes n w) = n"
  by (simp add: word_to_bytes_def)

lemma take_word_to_bytes: "k \<le> n \<Longrightarrow> take k (word_to_bytes n w) = word_to_bytes k w"
  by (simp add: word_to_bytes_def take_map)

lemma nth_word_to_bytes [simp]:
  "i < n \<Longrightarrow> word_to_bytes n w ! i = ucast (drop_bit (8 * i) w)"
  by (simp add: word_to_bytes_def)

lemma word_to_bytes_eq_Nil_iff [simp]: "word_to_bytes n w = [] \<longleftrightarrow> n = 0"
  by (simp add: word_to_bytes_def)

lemma bit_word_of_bytes:
  "bit (word_of_bytes bs :: 'a::len word) i \<longleftrightarrow>
     i < LENGTH('a) \<and> i div 8 < length bs \<and> bit (bs ! (i div 8)) (i mod 8)"
proof (induction bs arbitrary: i)
  case Nil
  then show ?case by simp
next
  case (Cons b bs)
  show ?case
  proof (cases "i < 8")
    case True
    then show ?thesis
      by (auto simp: bit_or_iff bit_push_bit_iff bit_ucast_iff)
  next
    case False
    then have "\<not> bit (ucast b :: 'a word) i"
      using bit_imp_le_length [of b i] by (auto simp: bit_ucast_iff)
    moreover have "i div 8 = Suc ((i - 8) div 8)" and "i mod 8 = (i - 8) mod 8"
      using False by (simp_all add: le_div_geq le_mod_geq)
    ultimately show ?thesis
      using False Cons.IH [of "i - 8"]
      by (auto simp: bit_or_iff bit_push_bit_iff)
  qed
qed

theorem word_of_bytes_to_bytes:
  fixes w :: "'a::len word"
  assumes "LENGTH('a) \<le> 8 * n"
  shows "word_of_bytes (word_to_bytes n w) = w"
proof (rule bit_word_eqI)
  fix i
  assume i: "i < LENGTH('a)"
  with assms have "i div 8 < n" by auto
  with i show "bit (word_of_bytes (word_to_bytes n w) :: 'a word) i = bit w i"
    by (simp add: bit_word_of_bytes bit_ucast_iff bit_drop_bit_eq)
qed

theorem word_to_bytes_of_bytes:
  assumes "8 * length bs \<le> LENGTH('a::len)"
  shows "word_to_bytes (length bs) (word_of_bytes bs :: 'a word) = bs"
proof (rule nth_equalityI)
  show "length (word_to_bytes (length bs) (word_of_bytes bs :: 'a word)) = length bs"
    by simp
next
  fix i
  assume "i < length (word_to_bytes (length bs) (word_of_bytes bs :: 'a word))"
  then have i: "i < length bs" by simp
  show "word_to_bytes (length bs) (word_of_bytes bs :: 'a word) ! i = bs ! i"
  proof (rule bit_word_eqI)
    fix j
    assume j: "j < LENGTH(8)"
    have "8 * i + j < LENGTH('a)" using i j assms by simp
    moreover have "(8 * i + j) div 8 = i" and "(8 * i + j) mod 8 = j"
      using j by simp_all
    ultimately show "bit (word_to_bytes (length bs) (word_of_bytes bs :: 'a word) ! i) j
        = bit (bs ! i) j"
      using i j by (simp add: bit_ucast_iff bit_drop_bit_eq bit_word_of_bytes)
  qed
qed

text \<open>The views the code uses: one, two, four and eight bytes.\<close>

lemma word_of_bytes_u8 [simp]: "word_of_bytes (word_to_bytes (Suc 0) (w :: u8)) = w"
  using word_of_bytes_to_bytes [of "Suc 0" w] by simp

lemma word_of_bytes_u16 [simp]: "word_of_bytes (word_to_bytes 2 (w :: u16)) = w"
  by (simp add: word_of_bytes_to_bytes)

lemma word_of_bytes_u32 [simp]: "word_of_bytes (word_to_bytes 4 (w :: u32)) = w"
  by (simp add: word_of_bytes_to_bytes)

lemma word_of_bytes_u64 [simp]: "word_of_bytes (word_to_bytes 8 (w :: u64)) = w"
  by (simp add: word_of_bytes_to_bytes)

section \<open>Generic lemmas on lists and words\<close>

lemma map_upt_append:
  "i \<le> j \<Longrightarrow> j \<le> k \<Longrightarrow> map f [i..<j] @ map f [j..<k] = map f [i..<k]"
  by (metis le_add_diff_inverse map_append upt_add_eq_append)

lemma unat_of_nat_u64: "n < 2 ^ 64 \<Longrightarrow> unat (of_nat n :: u64) = n"
  by (simp add: unat_of_nat)

lemma unat_u64_less: "unat (w :: u64) < 2 ^ 64"
  using unsigned_less [of w] by simp

lemma unat_plus_no_wrap:
  fixes a b :: "'a::len word"
  assumes "unat a + unat b < 2 ^ LENGTH('a)"
  shows "unat (a + b) = unat a + unat b"
  using assms by (simp add: unat_word_ariths)

end
