(* ===== verification/Sysdarft_Memory.thy ===== *)
theory Sysdarft_Memory
  imports Prelude
begin

text \<open>
  \<open>SysdarftCPUMemoryAccess\<close> (\<open>include/SysdarftMemory.h\<close>, \<open>cpu/SysdarftMemory.cpp\<close>): the
  emulated RAM as a vector of 4 KiB blocks, reads and writes that may straddle blocks, and
  the push and pop helpers built on them. The lemmas relate the block-wise code to one flat
  byte store.
\<close>

section \<open>Layout constants\<close>

(* include/SysdarftMemory.h 50-50: BLOCK_SIZE *)
definition BLOCK_SIZE :: nat where "BLOCK_SIZE = 4096"

(* include/SysdarftMemory.h 39-39: INTERRUPTION_VECTOR *)
definition INTERRUPTION_VECTOR :: u64 where "INTERRUPTION_VECTOR = 0xA0000"
(* include/SysdarftMemory.h 40-40: INTERRUPTION_VEC_ED *)
definition INTERRUPTION_VEC_ED :: u64 where "INTERRUPTION_VEC_ED = 0xA0FFF"
(* include/SysdarftMemory.h 41-41: INTERRUPTION_VEC_LN *)
definition INTERRUPTION_VEC_LN :: u64 where
  "INTERRUPTION_VEC_LN = INTERRUPTION_VEC_ED - INTERRUPTION_VECTOR + 1"
(* include/SysdarftMemory.h 42-42: MAX_INTERRUPTION_ENTRY *)
definition MAX_INTERRUPTION_ENTRY :: u64 where
  "MAX_INTERRUPTION_ENTRY = INTERRUPTION_VEC_LN div (8 * 2)"
(* include/SysdarftMemory.h 43-43: VIDEO_MEMORY_START *)
definition VIDEO_MEMORY_START :: u64 where "VIDEO_MEMORY_START = 0xB8000"
(* include/SysdarftMemory.h 44-44: VIDEO_MEMORY_END *)
definition VIDEO_MEMORY_END :: u64 where "VIDEO_MEMORY_END = 0xB87CF"
(* include/SysdarftMemory.h 45-45: VIDEO_MEMORY_SIZE *)
definition VIDEO_MEMORY_SIZE :: u64 where
  "VIDEO_MEMORY_SIZE = VIDEO_MEMORY_END - VIDEO_MEMORY_START + 1"
(* include/SysdarftMemory.h 46-46: BIOS_START *)
definition BIOS_START :: u64 where "BIOS_START = 0xC1800"
(* include/SysdarftMemory.h 47-47: BIOS_END *)
definition BIOS_END :: u64 where "BIOS_END = 0xFFFFF"
(* include/SysdarftMemory.h 48-48: BIOS_SIZE *)
definition BIOS_SIZE :: u64 where "BIOS_SIZE = BIOS_END - BIOS_START + 1"

lemmas layout_defs = BLOCK_SIZE_def INTERRUPTION_VECTOR_def INTERRUPTION_VEC_ED_def
  INTERRUPTION_VEC_LN_def MAX_INTERRUPTION_ENTRY_def VIDEO_MEMORY_START_def
  VIDEO_MEMORY_END_def VIDEO_MEMORY_SIZE_def BIOS_START_def BIOS_END_def BIOS_SIZE_def

lemma BLOCK_SIZE_pos [simp]: "0 < BLOCK_SIZE"
  by (simp add: BLOCK_SIZE_def)

section \<open>State\<close>

text \<open>
  \<open>Memory\<close> is the \<open>std::vector\<close> of blocks; a block, a \<open>std::array\<close> of \<open>BLOCK_SIZE\<close>
  bytes, is a function of which only the arguments below \<open>BLOCK_SIZE\<close> are used. The classes
  that inherit from \<open>SysdarftCPUMemoryAccess\<close> extend the record, so every operation below
  is stated for all its extensions.
\<close>

type_synonym block = "nat \<Rightarrow> u8"

(* include/SysdarftMemory.h 64-75: SysdarftCPUMemoryAccess *)
record mem_state =
  Memory :: "block list"
  TotalMemory :: u64

text \<open>The constructor; \<open>emplace_back()\<close> value-initialises each block.\<close>

(* cpu/SysdarftMemory.cpp 26-43: SysdarftCPUMemoryAccess *)
definition new_memory :: "u64 \<Rightarrow> cpu_error + mem_state" where
  "new_memory totalMemory =
     (if totalMemory = 0 then Inl SysdarftBaseError
      else let numBlocks = unat totalMemory div BLOCK_SIZE
           in Inr \<lparr>Memory = replicate numBlocks (\<lambda>_. 0), TotalMemory = totalMemory\<rparr>)"

section \<open>Reading\<close>

text \<open>
  \<open>memcpy(dest, Memory[p].data() + off, n)\<close>: undefined outside the vector or the block.
\<close>

(* cpu/SysdarftMemory.cpp 57-59: memcpy *)
definition memcpy_from_block :: "nat \<Rightarrow> nat \<Rightarrow> nat \<Rightarrow> ('z mem_state_scheme, u8 list) run" where
  "memcpy_from_block p off n s =
     (if p < length (Memory s) \<and> off + n \<le> BLOCK_SIZE
      then (Inr (map (Memory s ! p) [off..<off + n]), s)
      else (Inl UndefinedBehaviour, s))"

text \<open>The loop over the full pages: \<open>k\<close> iterations are left and \<open>i\<close> is the loop counter.\<close>

(* cpu/SysdarftMemory.cpp 73-79: read_memory, loop over the full pages *)
fun read_full_pages :: "nat \<Rightarrow> nat \<Rightarrow> nat \<Rightarrow> ('z mem_state_scheme, u8 list) run" where
  "read_full_pages page_address i 0 = returnR []"
| "read_full_pages page_address i (Suc k) =
     bindR (memcpy_from_block (page_address + i) 0 BLOCK_SIZE) (\<lambda>b.
     bindR (read_full_pages page_address (Suc i) k) (\<lambda>bs. returnR (b @ bs)))"

(* cpu/SysdarftMemory.cpp 45-88: read_memory *)
definition read_memory :: "u64 \<Rightarrow> u64 \<Rightarrow> ('z mem_state_scheme, u8 list) run" where
  "read_memory address sz s =
     (if address > TotalMemory s \<or> address + sz > TotalMemory s
      then (Inl IllegalMemoryAccessException, s)
      else
       let page_address = unat address div BLOCK_SIZE;
           page_offset = unat address mod BLOCK_SIZE
       in if unat sz \<le> BLOCK_SIZE - page_offset
          then memcpy_from_block page_address page_offset (unat sz) s
          else
           let leftover_on_first_page = BLOCK_SIZE - page_offset;
               rest_size = unat sz - leftover_on_first_page;
               full_pages = rest_size div BLOCK_SIZE;
               leftover_on_last_page = rest_size mod BLOCK_SIZE
           in bindR (memcpy_from_block page_address page_offset leftover_on_first_page) (\<lambda>b0.
              bindR (read_full_pages page_address 1 full_pages) (\<lambda>bs.
              if leftover_on_last_page > 0
              then bindR (memcpy_from_block (page_address + full_pages + 1) 0
                            leftover_on_last_page) (\<lambda>b1. returnR (b0 @ bs @ b1))
              else returnR (b0 @ bs))) s)"

section \<open>Writing\<close>

text \<open>The lambda \<open>copy_n\<close>, with the vector access its callers make to name the block.\<close>

(* cpu/SysdarftMemory.cpp 102-115: copy_n *)
definition copy_n :: "nat \<Rightarrow> nat \<Rightarrow> u8 list \<Rightarrow> nat \<Rightarrow> ('z mem_state_scheme, unit) run" where
  "copy_n p offset src cnt s =
     (if \<not> p < length (Memory s) then (Inl UndefinedBehaviour, s)
      else if offset + cnt > BLOCK_SIZE then (Inl IllegalMemoryAccessException, s)
      else if length src < cnt then (Inl UndefinedBehaviour, s)
      else (Inr (), s\<lparr>Memory := (Memory s)[p :=
              (\<lambda>x. if offset \<le> x \<and> x < offset + cnt then src ! (x - offset)
                   else (Memory s ! p) x)]\<rparr>))"

(* cpu/SysdarftMemory.cpp 133-137: write_memory, loop over the full pages *)
fun write_full_pages ::
    "nat \<Rightarrow> nat \<Rightarrow> nat \<Rightarrow> u8 list \<Rightarrow> nat \<Rightarrow> ('z mem_state_scheme, nat) run" where
  "write_full_pages page_address i 0 src current_offset = returnR current_offset"
| "write_full_pages page_address i (Suc k) src current_offset =
     thenR (copy_n (page_address + i) 0 (drop current_offset src) BLOCK_SIZE)
       (write_full_pages page_address (Suc i) k src (current_offset + BLOCK_SIZE))"

text \<open>\<open>src\<close> is the array behind \<open>_source\<close>; \<open>sz\<close> is the count the caller passes.\<close>

(* cpu/SysdarftMemory.cpp 90-145: write_memory *)
definition write_memory :: "u64 \<Rightarrow> u8 list \<Rightarrow> u64 \<Rightarrow> ('z mem_state_scheme, unit) run" where
  "write_memory address src sz s =
     (if address > TotalMemory s \<or> address + sz > TotalMemory s
      then (Inl IllegalMemoryAccessException, s)
      else
       let page_address = unat address div BLOCK_SIZE;
           page_offset = unat address mod BLOCK_SIZE
       in if unat sz \<le> BLOCK_SIZE - page_offset
          then copy_n page_address page_offset src (unat sz) s
          else
           let leftover_on_first_page = BLOCK_SIZE - page_offset;
               rest_size = unat sz - leftover_on_first_page;
               full_pages = rest_size div BLOCK_SIZE;
               leftover_on_last_page = rest_size mod BLOCK_SIZE
           in thenR (copy_n page_address page_offset src leftover_on_first_page)
                (bindR (write_full_pages page_address 1 full_pages src leftover_on_first_page)
                   (\<lambda>current_offset.
                 if leftover_on_last_page > 0
                 then copy_n (page_address + full_pages + 1) 0 (drop current_offset src)
                        leftover_on_last_page
                 else returnR ())) s)"

section \<open>Push and pop\<close>

text \<open>
  The templates take the bytes of the value; \<open>sizeof(DataType)\<close> is their number. The
  reference parameter \<open>offset\<close> becomes a result.
\<close>

(* include/SysdarftMemory.h 77-106: push_memory_to, mpush8, mpush16, mpush32, mpush64 *)
definition push_memory_to :: "u64 \<Rightarrow> u64 \<Rightarrow> u8 list \<Rightarrow> ('z mem_state_scheme, u64) run" where
  "push_memory_to base offset val =
     (if offset < of_nat (length val) then throwR StackOverflow
      else let offset' = offset - of_nat (length val)
           in tryR (thenR (write_memory (base + offset') val (of_nat (length val)))
                      (returnR offset'))
                (\<lambda>e. if e = IllegalMemoryAccessException then throwR StackOverflow else throwR e))"

(* include/SysdarftMemory.h 108-137: pop_memory_from, mpop8, mpop16, mpop32, mpop64 *)
definition pop_memory_from :: "nat \<Rightarrow> u64 \<Rightarrow> u64 \<Rightarrow> ('z mem_state_scheme, u8 list \<times> u64) run" where
  "pop_memory_from n base offset =
     bindR (tryR (read_memory (base + offset) (of_nat n))
              (\<lambda>e. if e = IllegalMemoryAccessException then throwR StackOverflow else throwR e))
       (\<lambda>result. returnR (result, offset + of_nat n))"

section \<open>The flat view\<close>

text \<open>
  A well-formed memory has whole blocks only: what the constructor builds from a size that
  is a multiple of the block size, as \<open>main\<close> passes it (megabytes), and below the 2^63
  bytes that an allocation can have.
\<close>

definition mem_inv :: "'z mem_state_scheme \<Rightarrow> bool" where
  "mem_inv s \<longleftrightarrow> unat (TotalMemory s) = BLOCK_SIZE * length (Memory s)
     \<and> 0 < length (Memory s) \<and> unat (TotalMemory s) < 2 ^ 63"

definition flat :: "'z mem_state_scheme \<Rightarrow> nat \<Rightarrow> u8" where
  "flat s a = (Memory s ! (a div BLOCK_SIZE)) (a mod BLOCK_SIZE)"

definition flat_write :: "nat \<Rightarrow> u8 list \<Rightarrow> (nat \<Rightarrow> u8) \<Rightarrow> nat \<Rightarrow> u8" where
  "flat_write a bs f x = (if a \<le> x \<and> x < a + length bs then bs ! (x - a) else f x)"

text \<open>An access the checks let through and that names at least one existing block.\<close>

definition in_memory :: "'z mem_state_scheme \<Rightarrow> u64 \<Rightarrow> nat \<Rightarrow> bool" where
  "in_memory s a n \<longleftrightarrow> unat a + n \<le> unat (TotalMemory s) \<and> unat a < unat (TotalMemory s)"

lemma flat_write_append:
  "flat_write (a + length xs) ys (flat_write a xs f) = flat_write a (xs @ ys) f"
  by (auto simp: fun_eq_iff flat_write_def nth_append)

lemma flat_write_Nil [simp]: "flat_write a [] f = f"
  by (auto simp: fun_eq_iff flat_write_def)

lemma flat_write_same: "map (flat_write a bs f) [a..<a + length bs] = bs"
  by (rule nth_equalityI) (simp_all add: flat_write_def)

lemma flat_write_other:
  assumes "b + n \<le> a \<or> a + length bs \<le> b"
  shows "map (flat_write a bs f) [b..<b + n] = map f [b..<b + n]"
  using assms by (auto simp: flat_write_def)

subsection \<open>Reads\<close>

lemma memcpy_from_block_flat:
  assumes "p < length (Memory s)" and "off + n \<le> BLOCK_SIZE"
  shows "memcpy_from_block p off n s =
    (Inr (map (flat s) [p * BLOCK_SIZE + off..<p * BLOCK_SIZE + off + n]), s)"
proof -
  have "map (Memory s ! p) [off..<off + n] =
      map (flat s) [p * BLOCK_SIZE + off..<p * BLOCK_SIZE + off + n]"
    using assms by (auto intro!: nth_equalityI simp: flat_def add.assoc div_mult_self3)
  with assms show ?thesis by (simp add: memcpy_from_block_def)
qed

lemma read_full_pages_flat:
  assumes "page_address + i + k \<le> length (Memory s)"
  shows "read_full_pages page_address i k s =
    (Inr (map (flat s) [(page_address + i) * BLOCK_SIZE..<(page_address + i + k) * BLOCK_SIZE]), s)"
  using assms
proof (induction k arbitrary: i)
  case 0
  then show ?case by (simp add: returnR_def)
next
  case (Suc k)
  let ?a = "(page_address + i) * BLOCK_SIZE"
  have first: "memcpy_from_block (page_address + i) 0 BLOCK_SIZE s =
      (Inr (map (flat s) [?a..<?a + BLOCK_SIZE]), s)"
    using Suc.prems memcpy_from_block_flat [of "page_address + i" s 0 BLOCK_SIZE] by simp
  have rest: "read_full_pages page_address (Suc i) k s =
      (Inr (map (flat s) [?a + BLOCK_SIZE..<(page_address + i + Suc k) * BLOCK_SIZE]), s)"
    using Suc.IH [of "Suc i"] Suc.prems by (simp add: algebra_simps)
  have "map (flat s) [?a..<?a + BLOCK_SIZE]
      @ map (flat s) [?a + BLOCK_SIZE..<(page_address + i + Suc k) * BLOCK_SIZE]
      = map (flat s) [?a..<(page_address + i + Suc k) * BLOCK_SIZE]"
    by (rule map_upt_append) (simp_all add: algebra_simps)
  then show ?case
    using first rest by (simp add: bindR_def returnR_def)
qed

lemma range_check_iff:
  assumes "mem_inv s" and "n < 2 ^ 63"
  shows "(address > TotalMemory s \<or> address + of_nat n > TotalMemory s)
    \<longleftrightarrow> unat (TotalMemory s) < unat address + n"
proof (cases "address > TotalMemory s")
  case True
  then show ?thesis by (simp add: word_less_nat_alt)
next
  case False
  then have le: "unat address \<le> unat (TotalMemory s)"
    by (simp add: word_less_nat_alt)
  have n: "unat (of_nat n :: u64) = n"
    using assms(2) by (simp add: unat_of_nat_u64)
  have "unat address + n < 2 ^ 64"
    using le assms by (simp add: mem_inv_def)
  then have "unat (address + of_nat n) = unat address + n"
    using n by (simp add: unat_plus_no_wrap)
  with False show ?thesis by (simp add: word_less_nat_alt)
qed

lemma in_memory_passes:
  assumes "mem_inv s" and "in_memory s address n"
  shows "\<not> (address > TotalMemory s \<or> address + of_nat n > TotalMemory s)"
    and "unat (of_nat n :: u64) = n"
proof -
  have n: "n < 2 ^ 63" using assms by (auto simp: mem_inv_def in_memory_def)
  show "\<not> (address > TotalMemory s \<or> address + of_nat n > TotalMemory s)"
    using range_check_iff [OF assms(1) n] assms(2) by (simp add: in_memory_def)
  show "unat (of_nat n :: u64) = n"
    using n by (simp add: unat_of_nat_u64)
qed

lemma next_page:
  fixes a :: nat
  shows "a div BLOCK_SIZE * BLOCK_SIZE + a mod BLOCK_SIZE + (BLOCK_SIZE - a mod BLOCK_SIZE)
    = (a div BLOCK_SIZE + 1) * BLOCK_SIZE"
    and "a \<le> (a div BLOCK_SIZE + 1) * BLOCK_SIZE"
proof -
  let ?B = BLOCK_SIZE
  have off: "a mod ?B < ?B" and a: "a = a div ?B * ?B + a mod ?B" by simp_all
  have m: "(a div ?B + 1) * ?B = a div ?B * ?B + ?B"
    by (simp only: distrib_right mult_1_left)
  show "a div ?B * ?B + a mod ?B + (?B - a mod ?B) = (a div ?B + 1) * ?B"
    using m off by linarith
  show "a \<le> (a div ?B + 1) * ?B"
    using m off a by linarith
qed

lemma last_page_bounds:
  fixes a n L :: nat
  assumes "a + n \<le> BLOCK_SIZE * L" and "BLOCK_SIZE - a mod BLOCK_SIZE < n"
  defines "rest \<equiv> n - (BLOCK_SIZE - a mod BLOCK_SIZE)"
  shows "a div BLOCK_SIZE + 1 + rest div BLOCK_SIZE \<le> L"
    and "0 < rest mod BLOCK_SIZE \<Longrightarrow> a div BLOCK_SIZE + rest div BLOCK_SIZE + 1 < L"
    and "a + n = (a div BLOCK_SIZE + 1 + rest div BLOCK_SIZE) * BLOCK_SIZE + rest mod BLOCK_SIZE"
proof -
  let ?B = BLOCK_SIZE
  have off: "a mod ?B < ?B" by simp
  have a: "a = a div ?B * ?B + a mod ?B" by simp
  have n: "n = (?B - a mod ?B) + rest" using assms by simp
  have r: "rest = rest div ?B * ?B + rest mod ?B" by simp
  have "a + n = a div ?B * ?B + a mod ?B + (?B - a mod ?B) + (rest div ?B * ?B + rest mod ?B)"
    using a n r by linarith
  also have "\<dots> = a div ?B * ?B + ?B + (rest div ?B * ?B + rest mod ?B)"
    using off by linarith
  also have "\<dots> = (a div ?B + 1 + rest div ?B) * ?B + rest mod ?B"
    by (simp only: distrib_right mult_1_left add.assoc add.left_commute add.commute)
  finally show e: "a + n = (a div ?B + 1 + rest div ?B) * ?B + rest mod ?B" .
  then have le: "(a div ?B + 1 + rest div ?B) * ?B + rest mod ?B \<le> L * ?B"
    using assms(1) by (simp add: mult.commute)
  then have "(a div ?B + 1 + rest div ?B) * ?B \<le> L * ?B" by linarith
  then show "a div ?B + 1 + rest div ?B \<le> L"
    by (simp only: mult_le_cancel2 BLOCK_SIZE_pos simp_thms)
  assume "0 < rest mod ?B"
  moreover have "(a div ?B + rest div ?B + 1) * ?B = (a div ?B + 1 + rest div ?B) * ?B"
    by (simp only: ac_simps)
  ultimately have "(a div ?B + rest div ?B + 1) * ?B < L * ?B"
    using le by linarith
  then show "a div ?B + rest div ?B + 1 < L"
    by (simp only: mult_less_cancel2 BLOCK_SIZE_pos simp_thms)
qed

lemma read_memory_flat:
  assumes inv: "mem_inv s" and acc: "in_memory s address n"
  shows "read_memory address (of_nat n) s =
    (Inr (map (flat s) [unat address..<unat address + n]), s)"
proof -
  let ?a = "unat address" and ?B = BLOCK_SIZE
  let ?p = "?a div ?B" and ?off = "?a mod ?B"
  note chk = in_memory_passes [OF inv acc]
  have bound: "?a + n \<le> ?B * length (Memory s)" and lt: "?a < length (Memory s) * ?B"
    using inv acc by (simp_all add: mem_inv_def in_memory_def mult.commute)
  have p: "?p < length (Memory s)"
    using lt by (rule less_mult_imp_div_less)
  have a: "?p * ?B + ?off = ?a" by simp
  have off: "?off < ?B" by simp
  show ?thesis
  proof (cases "n \<le> ?B - ?off")
    case True
    then have "?off + n \<le> ?B" using off by linarith
    then have "memcpy_from_block ?p ?off n s =
        (Inr (map (flat s) [?a..<?a + n]), s)"
      using memcpy_from_block_flat [OF p, of ?off n] a by simp
    with True chk show ?thesis by (simp add: read_memory_def)
  next
    case False
    let ?l = "?B - ?off"
    let ?rest = "n - ?l"
    let ?f = "?rest div ?B" and ?r = "?rest mod ?B"
    have big: "?l < n" using False by simp
    note pg = last_page_bounds [OF bound big]
    define b0 where "b0 = map (flat s) [?a..<(?p + 1) * ?B]"
    define bs where "bs = map (flat s) [(?p + 1) * ?B..<(?p + 1 + ?f) * ?B]"
    define b1 where "b1 = map (flat s) [(?p + 1 + ?f) * ?B..<?a + n]"
    have first: "memcpy_from_block ?p ?off ?l s = (Inr b0, s)"
      using memcpy_from_block_flat [OF p, of ?off ?l] off a next_page(1) [of ?a]
      by (simp add: b0_def)
    have full: "read_full_pages ?p 1 ?f s = (Inr bs, s)"
      unfolding bs_def by (rule read_full_pages_flat) (rule pg(1))
    have end_le: "(?p + 1 + ?f) * ?B \<le> ?a + n" using pg(3) by linarith
    have "b0 @ bs = map (flat s) [?a..<(?p + 1 + ?f) * ?B]"
      unfolding b0_def bs_def by (rule map_upt_append [OF next_page(2)]) simp
    moreover have "?a \<le> (?p + 1 + ?f) * ?B"
      by (rule order_trans [OF next_page(2) [of ?a]]) simp
    ultimately have "(b0 @ bs) @ b1 = map (flat s) [?a..<?a + n]"
      unfolding b1_def using map_upt_append [OF _ end_le, of ?a "flat s"] by simp
    then have all: "b0 @ bs @ b1 = map (flat s) [?a..<?a + n]" by simp
    show ?thesis
    proof (cases "0 < ?r")
      case True
      have "(?p + ?f + 1) * ?B + 0 + ?r = ?a + n" using pg(3) by (simp only: ac_simps add_0_right)
      moreover have "(?p + ?f + 1) * ?B = (?p + 1 + ?f) * ?B" by (simp only: ac_simps)
      ultimately have last: "memcpy_from_block (?p + ?f + 1) 0 ?r s = (Inr b1, s)"
        using memcpy_from_block_flat [OF pg(2) [OF True], of 0 ?r]
        by (simp only: b1_def add_0_right) simp
      from chk False True first full last all show ?thesis
        by (simp add: read_memory_def Let_def bindR_def returnR_def)
    next
      case zero: False
      with pg(3) have "b1 = []" by (simp add: b1_def)
      with chk False zero first full all show ?thesis
        by (simp add: read_memory_def Let_def bindR_def returnR_def)
    qed
  qed
qed

subsection \<open>Writes\<close>

text \<open>
  The effect of a write: the flat view changes at the written bytes, and nothing else of
  the object changes.
\<close>

definition writes_bytes ::
    "'z mem_state_scheme \<Rightarrow> nat \<Rightarrow> u8 list \<Rightarrow> 'z mem_state_scheme \<Rightarrow> bool" where
  "writes_bytes s a bs s' \<longleftrightarrow> flat s' = flat_write a bs (flat s)
     \<and> s' = s\<lparr>Memory := Memory s'\<rparr> \<and> length (Memory s') = length (Memory s)"

lemma writes_bytes_Nil: "writes_bytes s a [] s"
  by (simp add: writes_bytes_def)

lemma writes_bytes_length: "writes_bytes s a bs s' \<Longrightarrow> length (Memory s') = length (Memory s)"
  by (simp add: writes_bytes_def)

lemma writes_bytes_flat: "writes_bytes s a bs s' \<Longrightarrow> flat s' = flat_write a bs (flat s)"
  by (simp add: writes_bytes_def)

lemma writes_bytes_TotalMemory: "writes_bytes s a bs s' \<Longrightarrow> TotalMemory s' = TotalMemory s"
  unfolding writes_bytes_def by (metis mem_state.select_convs(2) mem_state.surjective
      mem_state.update_convs(1))

lemma writes_bytes_mem_inv: "writes_bytes s a bs s' \<Longrightarrow> mem_inv s' \<longleftrightarrow> mem_inv s"
  by (simp add: mem_inv_def writes_bytes_TotalMemory writes_bytes_length)

lemma writes_bytes_in_memory: "writes_bytes s a bs s' \<Longrightarrow> in_memory s' b n \<longleftrightarrow> in_memory s b n"
  by (simp add: in_memory_def writes_bytes_TotalMemory)

lemma writes_bytes_append:
  assumes "writes_bytes s a xs s1" and "writes_bytes s1 (a + length xs) ys s2"
  shows "writes_bytes s a (xs @ ys) s2"
proof -
  have "s2 = s\<lparr>Memory := Memory s2\<rparr>"
    using assms unfolding writes_bytes_def
    by (metis mem_state.surjective mem_state.update_convs(1))
  with assms show ?thesis
    by (simp add: writes_bytes_def flat_write_append)
qed

lemma copy_n_flat:
  assumes "p < length (Memory s)" and "off + n \<le> BLOCK_SIZE" and "n \<le> length src"
  shows "\<exists>s'. copy_n p off src n s = (Inr (), s')
    \<and> writes_bytes s (p * BLOCK_SIZE + off) (take n src) s'"
proof -
  let ?m = "(Memory s)[p := (\<lambda>x. if off \<le> x \<and> x < off + n then src ! (x - off)
                                 else (Memory s ! p) x)]"
  let ?s' = "s\<lparr>Memory := ?m\<rparr>"
  have "flat ?s' = flat_write (p * BLOCK_SIZE + off) (take n src) (flat s)"
  proof
    fix x
    let ?q = "x div BLOCK_SIZE" and ?r = "x mod BLOCK_SIZE"
    have x: "x = ?q * BLOCK_SIZE + ?r" and r: "?r < BLOCK_SIZE" by simp_all
    show "flat ?s' x = flat_write (p * BLOCK_SIZE + off) (take n src) (flat s) x"
    proof (cases "?q = p")
      case True
      have x': "x = p * BLOCK_SIZE + ?r" using x True by simp
      have "x - (p * BLOCK_SIZE + off) = ?r - off" using x' by linarith
      moreover have "p * BLOCK_SIZE + off \<le> x \<and> x < p * BLOCK_SIZE + off + n \<longleftrightarrow>
          off \<le> ?r \<and> ?r < off + n"
        using x' by linarith
      ultimately show ?thesis
        using assms True by (auto simp: flat_def flat_write_def)
    next
      case False
      have "\<not> (p * BLOCK_SIZE + off \<le> x \<and> x < p * BLOCK_SIZE + off + n)"
      proof
        assume h: "p * BLOCK_SIZE + off \<le> x \<and> x < p * BLOCK_SIZE + off + n"
        then have "p * BLOCK_SIZE \<le> x" and "x < p * BLOCK_SIZE + BLOCK_SIZE"
          using assms(2) by linarith+
        then have "?q = p"
          by (metis add.commute div_nat_eqI mult.commute mult_Suc)
        with False show False by simp
      qed
      with assms False show ?thesis
        by (auto simp: flat_def flat_write_def)
    qed
  qed
  then have "writes_bytes s (p * BLOCK_SIZE + off) (take n src) ?s'"
    by (simp add: writes_bytes_def)
  moreover have "copy_n p off src n s = (Inr (), ?s')"
    using assms by (simp add: copy_n_def)
  ultimately show ?thesis by blast
qed

lemma write_full_pages_flat:
  assumes "page_address + i + k \<le> length (Memory s)"
    and "cur + k * BLOCK_SIZE \<le> length src"
  shows "\<exists>s'. write_full_pages page_address i k src cur s = (Inr (cur + k * BLOCK_SIZE), s')
    \<and> writes_bytes s ((page_address + i) * BLOCK_SIZE) (take (k * BLOCK_SIZE) (drop cur src)) s'"
  using assms
proof (induction k arbitrary: i cur s)
  case 0
  then show ?case by (simp add: returnR_def writes_bytes_Nil)
next
  case (Suc k)
  let ?B = BLOCK_SIZE and ?a = "(page_address + i) * BLOCK_SIZE"
  have B: "?B \<le> length (drop cur src)" and "page_address + i < length (Memory s)"
    using Suc.prems by simp_all
  then obtain s1 where s1: "copy_n (page_address + i) 0 (drop cur src) ?B s = (Inr (), s1)"
      "writes_bytes s ?a (take ?B (drop cur src)) s1"
    using copy_n_flat [of "page_address + i" s 0 ?B "drop cur src"] by auto
  have "page_address + Suc i + k \<le> length (Memory s1)" and "cur + ?B + k * ?B \<le> length src"
    using Suc.prems s1(2) by (simp_all add: writes_bytes_length)
  from Suc.IH [OF this] obtain s2 where
    s2: "write_full_pages page_address (Suc i) k src (cur + ?B) s1
        = (Inr (cur + ?B + k * ?B), s2)"
      "writes_bytes s1 ((page_address + Suc i) * ?B) (take (k * ?B) (drop (cur + ?B) src)) s2"
    by blast
  have "(page_address + Suc i) * ?B = ?a + length (take ?B (drop cur src))"
    using B by simp
  then have "writes_bytes s ?a
      (take ?B (drop cur src) @ take (k * ?B) (drop (cur + ?B) src)) s2"
    using s1(2) s2(2) writes_bytes_append by metis
  moreover have "take ?B (drop cur src) @ take (k * ?B) (drop (cur + ?B) src)
      = take (Suc k * ?B) (drop cur src)"
    using take_add [of ?B "k * ?B" "drop cur src"] by (simp add: add.commute)
  moreover have "write_full_pages page_address i (Suc k) src cur s
      = (Inr (cur + Suc k * ?B), s2)"
    using s1(1) s2(1) by (simp add: thenR_def bindR_def add.assoc)
  ultimately show ?case by auto
qed

lemma write_memory_flat:
  assumes inv: "mem_inv s" and acc: "in_memory s address n" and len: "n \<le> length src"
  shows "\<exists>s'. write_memory address src (of_nat n) s = (Inr (), s')
    \<and> writes_bytes s (unat address) (take n src) s'"
proof -
  let ?a = "unat address" and ?B = BLOCK_SIZE
  let ?p = "?a div ?B" and ?off = "?a mod ?B"
  note chk = in_memory_passes [OF inv acc]
  have bound: "?a + n \<le> ?B * length (Memory s)" and lt: "?a < length (Memory s) * ?B"
    using inv acc by (simp_all add: mem_inv_def in_memory_def mult.commute)
  have p: "?p < length (Memory s)"
    using lt by (rule less_mult_imp_div_less)
  have a: "?p * ?B + ?off = ?a" by simp
  have off: "?off < ?B" by simp
  show ?thesis
  proof (cases "n \<le> ?B - ?off")
    case True
    then have "?off + n \<le> ?B" using off by linarith
    from copy_n_flat [OF p this len] True chk a show ?thesis
      by (simp add: write_memory_def)
  next
    case False
    define l where "l = ?B - ?off"
    define f where "f = (n - l) div ?B"
    define r where "r = (n - l) mod ?B"
    have big: "?B - ?off < n" using False by simp
    note pg = last_page_bounds [OF bound big, folded l_def, folded f_def r_def]
    have n: "n = l + (f * ?B + r)" using big by (simp add: l_def f_def r_def)
    have run: "write_memory address src (of_nat n) s =
        thenR (copy_n ?p ?off src l) (bindR (write_full_pages ?p 1 f src l) (\<lambda>current_offset.
          if r > 0 then copy_n (?p + f + 1) 0 (drop current_offset src) r else returnR ())) s"
      unfolding l_def f_def r_def write_memory_def Let_def chk(2)
      using chk(1) False by (simp only: if_False)
    have "?off + l \<le> ?B" and l: "l \<le> length src" using off big len by (simp_all add: l_def)
    from copy_n_flat [OF p this] obtain s1 where s1:
      "copy_n ?p ?off src l s = (Inr (), s1)" "writes_bytes s ?a (take l src) s1"
      unfolding a by blast
    have lf: "l + f * ?B \<le> length src" using n len by linarith
    have "?p + 1 + f \<le> length (Memory s1)" using pg(1) writes_bytes_length [OF s1(2)] by simp
    from write_full_pages_flat [OF this lf] obtain s2 where s2:
      "write_full_pages ?p 1 f src l s1 = (Inr (l + f * ?B), s2)"
      "writes_bytes s1 ((?p + 1) * ?B) (take (f * ?B) (drop l src)) s2"
      by blast
    have "?a + length (take l src) = (?p + 1) * ?B"
      using next_page(1) [of ?a] a l by (simp add: l_def)
    then have w2: "writes_bytes s ?a (take (l + f * ?B) src) s2"
      using writes_bytes_append [OF s1(2)] s2(2) by (simp only: take_add [of l])
    show ?thesis
    proof (cases "0 < r")
      case True
      have "?p + f + 1 < length (Memory s2)"
        using pg(2) [OF True] writes_bytes_length [OF w2] by simp
      moreover have "r \<le> length (drop (l + f * ?B) src)"
        unfolding length_drop using n len by linarith
      ultimately obtain s3 where s3:
        "copy_n (?p + f + 1) 0 (drop (l + f * ?B) src) r s2 = (Inr (), s3)"
        "writes_bytes s2 ((?p + f + 1) * ?B) (take r (drop (l + f * ?B) src)) s3"
        using copy_n_flat [of "?p + f + 1" s2 0 r "drop (l + f * ?B) src"]
        by (auto simp: r_def order_less_imp_le)
      have e1: "length (take (l + f * ?B) src) = l + f * ?B"
        using lf by simp
      have "(?p + f + 1) * ?B + r = ?a + n" using pg(3) by (simp only: ac_simps)
      then have "?a + length (take (l + f * ?B) src) = (?p + f + 1) * ?B"
        unfolding e1 using n by linarith
      then have "writes_bytes s ?a (take (l + f * ?B + r) src) s3"
        using writes_bytes_append [OF w2] s3(2) by (simp only: take_add [of "l + f * ?B"])
      moreover have "l + f * ?B + r = n" using n by linarith
      ultimately have "writes_bytes s ?a (take n src) s3" by simp
      with True s1(1) s2(1) s3(1) show ?thesis
        by (simp add: run bindR_def thenR_def)
    next
      case zero: False
      then have "l + f * ?B = n" using n by linarith
      with w2 have "writes_bytes s ?a (take n src) s2" by simp
      with zero s1(1) s2(1) show ?thesis
        by (simp add: run bindR_def thenR_def returnR_def)
    qed
  qed
qed

subsection \<open>Rejected accesses and what every access keeps\<close>

lemma read_memory_rejects:
  assumes "mem_inv s" and "n < 2 ^ 63" and "unat (TotalMemory s) < unat address + n"
  shows "read_memory address (of_nat n) s = (Inl IllegalMemoryAccessException, s)"
  using range_check_iff [OF assms(1,2), of address] assms(3)
  by (simp add: read_memory_def)

lemma write_memory_rejects:
  assumes "mem_inv s" and "n < 2 ^ 63" and "unat (TotalMemory s) < unat address + n"
  shows "write_memory address src (of_nat n) s = (Inl IllegalMemoryAccessException, s)"
  using range_check_iff [OF assms(1,2), of address] assms(3)
  by (simp add: write_memory_def)

lemma memcpy_from_block_state [simp]: "snd (memcpy_from_block p off n s) = s"
  by (simp add: memcpy_from_block_def)

lemma snd_bindR_same:
  assumes "\<And>s. snd (m s) = s" and "\<And>x s. snd (f x s) = s"
  shows "snd (bindR m f s) = s"
  using assms by (simp add: bindR_def split: prod.split sum.split) (metis snd_conv)

lemma read_full_pages_state [simp]: "snd (read_full_pages p i k s) = s"
  by (induction k arbitrary: i s) (simp_all add: snd_bindR_same)

lemma read_memory_state [simp]: "snd (read_memory address sz s) = s"
  by (auto simp: read_memory_def Let_def intro!: snd_bindR_same)

lemma read_memory_state_eq: "read_memory address sz s = (r, s') \<Longrightarrow> s' = s"
  by (metis read_memory_state snd_conv)

text \<open>A write, accepted or not, changes the contents of the blocks only.\<close>

definition memory_only :: "'z mem_state_scheme \<Rightarrow> 'z mem_state_scheme \<Rightarrow> bool" where
  "memory_only s s' \<longleftrightarrow> (\<exists>m. s' = s\<lparr>Memory := m\<rparr> \<and> length m = length (Memory s))"

lemma memory_only_refl [simp]: "memory_only s s"
  unfolding memory_only_def by (rule exI [of _ "Memory s"]) simp

lemma memory_only_trans: "memory_only s s' \<Longrightarrow> memory_only s' s'' \<Longrightarrow> memory_only s s''"
  by (auto simp: memory_only_def)

lemma memory_only_mem_inv: "memory_only s s' \<Longrightarrow> mem_inv s' \<longleftrightarrow> mem_inv s"
  by (auto simp: memory_only_def mem_inv_def)

lemma memory_only_bindR:
  assumes "memory_only s (snd (m s))" and "\<And>x s'. m s = (Inr x, s') \<Longrightarrow> memory_only s' (snd (f x s'))"
  shows "memory_only s (snd (bindR m f s))"
  using assms by (auto simp: bindR_def split: prod.split sum.split intro: memory_only_trans)

lemma copy_n_memory_only [simp]: "memory_only s (snd (copy_n p off src n s))"
  by (auto simp: copy_n_def memory_only_def intro: exI [of _ "Memory s"])

lemma write_full_pages_memory_only [simp]:
  "memory_only s (snd (write_full_pages p i k src cur s))"
  by (induction k arbitrary: i cur s) (auto simp: thenR_def intro!: memory_only_bindR)

lemma write_memory_memory_only [simp]: "memory_only s (snd (write_memory address src sz s))"
  by (auto simp: write_memory_def thenR_def Let_def intro!: memory_only_bindR)

lemma keeps_mem_inv_read [keeps_intros]: "keeps mem_inv (read_memory address sz)"
  by (simp add: keeps_def)

lemma keeps_mem_inv_write [keeps_intros]: "keeps mem_inv (write_memory address src sz)"
  using memory_only_mem_inv [OF write_memory_memory_only] by (auto simp: keeps_def)

section \<open>The contract of the memory\<close>

text \<open>
  What the rest of the emulator relies on: a checked, byte-addressed store of \<open>total\<close>
  bytes with the view \<open>view\<close>. The lemmas of the context are the facts its clients use.
\<close>

locale byte_memory =
  fixes rd :: "u64 \<Rightarrow> nat \<Rightarrow> ('s, u8 list) run"
    and wr :: "u64 \<Rightarrow> u8 list \<Rightarrow> ('s, unit) run"
    and inv :: "'s \<Rightarrow> bool"
    and total :: "'s \<Rightarrow> nat"
    and view :: "'s \<Rightarrow> nat \<Rightarrow> u8"
  assumes total_bound: "inv s \<Longrightarrow> total s < 2 ^ 63"
    and read_ok: "inv s \<Longrightarrow> unat a + n \<le> total s \<Longrightarrow> unat a < total s \<Longrightarrow>
          rd a n s = (Inr (map (view s) [unat a..<unat a + n]), s)"
    and read_rejects: "inv s \<Longrightarrow> n < 2 ^ 63 \<Longrightarrow> total s < unat a + n \<Longrightarrow>
          rd a n s = (Inl IllegalMemoryAccessException, s)"
    and write_ok: "inv s \<Longrightarrow> unat a + length bs \<le> total s \<Longrightarrow> unat a < total s \<Longrightarrow>
          \<exists>s'. wr a bs s = (Inr (), s') \<and> inv s' \<and> total s' = total s
            \<and> view s' = flat_write (unat a) bs (view s)"
    and write_rejects: "inv s \<Longrightarrow> length bs < 2 ^ 63 \<Longrightarrow> total s < unat a + length bs \<Longrightarrow>
          wr a bs s = (Inl IllegalMemoryAccessException, s)"
begin

lemma write_read_same:
  assumes "inv s" and "unat a + length bs \<le> total s" and "unat a < total s"
  shows "thenR (wr a bs) (rd a (length bs)) s = (Inr bs, snd (wr a bs s))"
proof -
  from write_ok [OF assms] obtain s' where s': "wr a bs s = (Inr (), s')" "inv s'"
    "total s' = total s" "view s' = flat_write (unat a) bs (view s)" by blast
  have "rd a (length bs) s' = (Inr bs, s')"
    using read_ok [OF s'(2)] s'(3,4) assms by (simp add: flat_write_same)
  with s'(1) show ?thesis by (simp add: thenR_def bindR_def)
qed

lemma write_read_disjoint:
  assumes "inv s" and "unat a + length bs \<le> total s" and "unat a < total s"
    and "unat b + n \<le> total s" and "unat b < total s"
    and "unat b + n \<le> unat a \<or> unat a + length bs \<le> unat b"
  shows "fst (thenR (wr a bs) (rd b n) s) = fst (rd b n s)"
proof -
  from write_ok [OF assms(1-3)] obtain s' where s': "wr a bs s = (Inr (), s')" "inv s'"
    "total s' = total s" "view s' = flat_write (unat a) bs (view s)" by blast
  have "fst (rd b n s') = fst (rd b n s)"
    using read_ok [OF s'(2), of b n] read_ok [OF assms(1), of b n] s'(3,4) assms(4,5)
      flat_write_other [OF assms(6)] by simp
  with s'(1) show ?thesis by (simp add: thenR_def bindR_def)
qed

text \<open>Exactly the accesses inside the memory succeed.\<close>

lemma write_succeeds_iff:
  assumes "inv s" and "bs \<noteq> []" and "length bs < 2 ^ 63"
  shows "fst (wr a bs s) = Inr () \<longleftrightarrow> unat a + length bs \<le> total s"
proof (cases "unat a + length bs \<le> total s")
  case True
  moreover from True assms(2) have "unat a < total s" by (cases bs) auto
  ultimately show ?thesis using write_ok [OF assms(1) True] by auto
next
  case False
  then show ?thesis using write_rejects [OF assms(1,3), of a] by simp
qed

end

interpretation ram: byte_memory
  "\<lambda>a n. read_memory a (of_nat n)" "\<lambda>a bs. write_memory a bs (of_nat (length bs))"
  "mem_inv :: 'z mem_state_scheme \<Rightarrow> bool" "\<lambda>s. unat (TotalMemory s)" flat
proof (unfold_locales)
  fix s :: "'z mem_state_scheme" and a :: u64 and bs :: "u8 list"
  assume inv: "mem_inv s" and "unat a + length bs \<le> unat (TotalMemory s)"
    and "unat a < unat (TotalMemory s)"
  then have "in_memory s a (length bs)" by (simp add: in_memory_def)
  from write_memory_flat [OF inv this order_refl]
  show "\<exists>s'. write_memory a bs (of_nat (length bs)) s = (Inr (), s') \<and> mem_inv s'
      \<and> unat (TotalMemory s') = unat (TotalMemory s)
      \<and> flat s' = flat_write (unat a) bs (flat s)"
    using inv writes_bytes_mem_inv writes_bytes_TotalMemory writes_bytes_flat by fastforce
qed (simp_all add: read_memory_flat in_memory_def read_memory_rejects write_memory_rejects
    mem_inv_def)

section \<open>The stack discipline of push and pop\<close>

lemma push_memory_to_ok:
  assumes inv: "mem_inv s" and room: "length val \<le> unat offset" and val: "val \<noteq> []"
    and top: "unat base + unat offset \<le> unat (TotalMemory s)"
  shows "\<exists>s'. push_memory_to base offset val s = (Inr (offset - of_nat (length val)), s')
    \<and> writes_bytes s (unat base + (unat offset - length val)) val s'"
proof -
  have tm: "unat (TotalMemory s) < 2 ^ 63" using inv by (simp add: mem_inv_def)
  have n: "length val < 2 ^ 63" using room top tm by linarith
  then have len: "unat (of_nat (length val) :: u64) = length val" by (simp add: unat_of_nat_u64)
  have le: "\<not> offset < of_nat (length val)" using room len by (simp add: word_less_nat_alt)
  let ?o = "offset - of_nat (length val)"
  have o: "unat ?o = unat offset - length val"
    using le len by (metis linorder_not_less unat_sub)
  have "unat base + unat ?o < 2 ^ 64" using o top tm by simp
  then have a: "unat (base + ?o) = unat base + (unat offset - length val)"
    using o by (simp add: unat_plus_no_wrap)
  have "in_memory s (base + ?o) (length val)"
    using a top room val by (cases val) (auto simp: in_memory_def)
  from write_memory_flat [OF inv this order_refl] obtain s' where s':
    "write_memory (base + ?o) val (of_nat (length val)) s = (Inr (), s')"
    "writes_bytes s (unat (base + ?o)) val s'" by auto
  then have "push_memory_to base offset val s = (Inr ?o, s')"
    using le by (simp add: push_memory_to_def Let_def tryR_def thenR_def bindR_def returnR_def)
  with s'(2) a show ?thesis by auto
qed

lemma pop_memory_from_ok:
  assumes inv: "mem_inv s" and pos: "0 < n"
    and top: "unat base + unat offset + n \<le> unat (TotalMemory s)"
  shows "pop_memory_from n base offset s =
    (Inr (map (flat s) [unat base + unat offset..<unat base + unat offset + n],
          offset + of_nat n), s)"
proof -
  have tm: "unat (TotalMemory s) < 2 ^ 63" using inv by (simp add: mem_inv_def)
  then have "unat base + unat offset < 2 ^ 64" using top by simp
  then have a: "unat (base + offset) = unat base + unat offset"
    by (simp add: unat_plus_no_wrap)
  have "in_memory s (base + offset) n"
    using a top pos by (simp add: in_memory_def)
  from read_memory_flat [OF inv this] a show ?thesis
    by (simp add: pop_memory_from_def tryR_def bindR_def returnR_def)
qed

lemma push_memory_to_overflows:
  assumes "mem_inv s" and "unat offset < length val" and "length val < 2 ^ 63"
  shows "push_memory_to base offset val s = (Inl StackOverflow, s)"
proof -
  have "unat (of_nat (length val) :: u64) = length val"
    using assms(3) by (simp add: unat_of_nat_u64)
  then show ?thesis
    using assms(2) by (simp add: push_memory_to_def word_less_nat_alt throwR_def)
qed

lemma pop_memory_from_overflows:
  assumes "mem_inv s" and "n < 2 ^ 63"
    and "unat (TotalMemory s) < unat (base + offset) + n"
  shows "pop_memory_from n base offset s = (Inl StackOverflow, s)"
  using read_memory_rejects [OF assms]
  by (simp add: pop_memory_from_def tryR_def bindR_def throwR_def)

lemma keeps_mem_inv_push [keeps_intros]: "keeps mem_inv (push_memory_to base offset val)"
  unfolding push_memory_to_def Let_def by (intro keeps_intros)

lemma keeps_mem_inv_pop [keeps_intros]: "keeps mem_inv (pop_memory_from n base offset)"
  unfolding pop_memory_from_def by (intro keeps_intros)

section \<open>Properties\<close>

text \<open>
  C2: reads and writes that stay inside the memory refine one flat byte store, also when
  they straddle blocks: a read returns the bytes of the flat view and changes nothing, a
  write replaces exactly the addressed bytes of the view and no other field.
\<close>

theorem memory_refines_flat_store:
  assumes "mem_inv s" and "unat a < unat (TotalMemory s)"
    and "unat a + n \<le> unat (TotalMemory s)" and "n \<le> length src"
  shows "read_memory a (of_nat n) s = (Inr (map (flat s) [unat a..<unat a + n]), s)
    \<and> (\<exists>m. write_memory a src (of_nat n) s = (Inr (), s\<lparr>Memory := m\<rparr>)
          \<and> mem_inv (s\<lparr>Memory := m\<rparr>)
          \<and> flat (s\<lparr>Memory := m\<rparr>) = flat_write (unat a) (take n src) (flat s))"
proof
  have acc: "in_memory s a n" using assms by (simp add: in_memory_def)
  show "read_memory a (of_nat n) s = (Inr (map (flat s) [unat a..<unat a + n]), s)"
    using assms(1) acc by (rule read_memory_flat)
  from write_memory_flat [OF assms(1) acc assms(4)] obtain s' where
    s': "write_memory a src (of_nat n) s = (Inr (), s')"
      "writes_bytes s (unat a) (take n src) s'" by blast
  moreover from s'(2) have "s' = s\<lparr>Memory := Memory s'\<rparr>" by (simp add: writes_bytes_def)
  ultimately show "\<exists>m. write_memory a src (of_nat n) s = (Inr (), s\<lparr>Memory := m\<rparr>)
      \<and> mem_inv (s\<lparr>Memory := m\<rparr>)
      \<and> flat (s\<lparr>Memory := m\<rparr>) = flat_write (unat a) (take n src) (flat s)"
    using assms(1) by (metis writes_bytes_flat writes_bytes_mem_inv)
qed

text \<open>Two blocks of zeroes, for the concrete instances below.\<close>

definition two_blocks :: mem_state where
  "two_blocks = \<lparr>Memory = [\<lambda>_. 0, \<lambda>_. 0], TotalMemory = 8192\<rparr>"

lemma two_blocks_inv: "mem_inv two_blocks" "TotalMemory two_blocks = 8192"
  by (simp_all add: two_blocks_def mem_inv_def BLOCK_SIZE_def)

theorem memory_refines_flat_store_witness:
  "read_memory 4094 4 two_blocks = (Inr (map (flat two_blocks) [4094..<4098]), two_blocks)
   \<and> (\<exists>m. write_memory 4094 [1, 2, 3, 4] 4 two_blocks = (Inr (), two_blocks\<lparr>Memory := m\<rparr>)
         \<and> mem_inv (two_blocks\<lparr>Memory := m\<rparr>)
         \<and> flat (two_blocks\<lparr>Memory := m\<rparr>) = flat_write 4094 [1, 2, 3, 4] (flat two_blocks))"
  using memory_refines_flat_store [of two_blocks 4094 4 "[1, 2, 3, 4]"]
  by (simp add: two_blocks_inv del: upt_rec_numeral)

text \<open>
  A read after a write returns the written bytes where it covers them, and is not
  affected by a write to other addresses.
\<close>

theorem memory_read_after_write:
  assumes "mem_inv s" and "unat a < unat (TotalMemory s)"
    and "unat a + length bs \<le> unat (TotalMemory s)"
    and "unat b < unat (TotalMemory s)" and "unat b + n \<le> unat (TotalMemory s)"
    and "unat b + n \<le> unat a \<or> unat a + length bs \<le> unat b"
  shows "fst (thenR (write_memory a bs (of_nat (length bs)))
               (read_memory a (of_nat (length bs))) s) = Inr bs
    \<and> fst (thenR (write_memory a bs (of_nat (length bs))) (read_memory b (of_nat n)) s)
        = fst (read_memory b (of_nat n) s)"
  using ram.write_read_same [OF assms(1,3,2)]
    ram.write_read_disjoint [OF assms(1,3,2,5,4,6)] by simp

theorem memory_read_after_write_witness:
  "fst (thenR (write_memory 4094 [1, 2, 3, 4] 4) (read_memory 4094 4) two_blocks)
     = Inr [1, 2, 3, 4]
   \<and> fst (thenR (write_memory 4094 [1, 2, 3, 4] 4) (read_memory 4098 8) two_blocks)
     = fst (read_memory 4098 8 two_blocks)"
  using memory_read_after_write [of two_blocks 4094 "[1, 2, 3, 4]" 4098 8]
  by (simp add: two_blocks_inv)

text \<open>
  C40: an access that reaches past the end of the memory raises
  \<open>IllegalMemoryAccessException\<close> and leaves the whole object as it was.
\<close>

theorem memory_rejects_out_of_range:
  assumes "mem_inv s" and "n < 2 ^ 63" and "unat (TotalMemory s) < unat a + n"
  shows "read_memory a (of_nat n) s = (Inl IllegalMemoryAccessException, s)
    \<and> write_memory a src (of_nat n) s = (Inl IllegalMemoryAccessException, s)"
  using read_memory_rejects [OF assms] write_memory_rejects [OF assms] by simp

theorem memory_rejects_out_of_range_witness:
  "read_memory 8190 4 two_blocks = (Inl IllegalMemoryAccessException, two_blocks)
   \<and> write_memory 8190 [1, 2, 3, 4] 4 two_blocks
     = (Inl IllegalMemoryAccessException, two_blocks)"
  using memory_rejects_out_of_range [of two_blocks 4 8190 "[1, 2, 3, 4]"]
  by (simp add: two_blocks_inv)

text \<open>
  A value pushed at an offset that leaves room for it is what the next pop returns, the
  offset is back where it was, and the bytes outside the pushed slot are kept.
\<close>

theorem push_pop_round_trip:
  assumes "mem_inv s" and "val \<noteq> []" and "length val \<le> unat offset"
    and "unat base + unat offset \<le> unat (TotalMemory s)"
  shows "\<exists>s'. push_memory_to base offset val s = (Inr (offset - of_nat (length val)), s')
    \<and> pop_memory_from (length val) base (offset - of_nat (length val)) s'
        = (Inr (val, offset), s')
    \<and> (\<forall>x. x < unat base + (unat offset - length val) \<or> unat base + unat offset \<le> x
          \<longrightarrow> flat s' x = flat s x)"
proof -
  let ?n = "length val" and ?o = "offset - of_nat (length val) :: u64"
  from push_memory_to_ok [OF assms(1,3,2,4)] obtain s' where
    s': "push_memory_to base offset val s = (Inr ?o, s')"
    and w: "writes_bytes s (unat base + (unat offset - ?n)) val s'" by blast
  have "?n < 2 ^ 64" using assms(3) unat_u64_less [of offset] by linarith
  then have "unat (of_nat ?n :: u64) = ?n" by (rule unat_of_nat_u64)
  then have o: "unat ?o = unat offset - ?n"
    using assms(3) by (metis unat_sub word_le_nat_alt)
  have inv: "mem_inv s'" and tm: "TotalMemory s' = TotalMemory s"
    using w assms(1) by (simp_all add: writes_bytes_mem_inv writes_bytes_TotalMemory)
  have "pop_memory_from ?n base ?o s' = (Inr (val, offset), s')"
    using pop_memory_from_ok [OF inv, of ?n base ?o] o tm assms(2-4)
      flat_write_same [of "unat base + (unat offset - ?n)" val "flat s"]
    by (simp add: writes_bytes_flat [OF w])
  moreover have "\<forall>x. x < unat base + (unat offset - ?n) \<or> unat base + unat offset \<le> x
      \<longrightarrow> flat s' x = flat s x"
    using assms(3) by (auto simp: writes_bytes_flat [OF w] flat_write_def)
  ultimately show ?thesis using s' by blast
qed

theorem push_pop_round_trip_witness:
  "\<exists>s'. push_memory_to 4000 100 (word_to_bytes 8 (0x1122334455667788 :: u64)) two_blocks
          = (Inr 92, s')
    \<and> pop_memory_from 8 4000 92 s' = (Inr (word_to_bytes 8 (0x1122334455667788 :: u64), 100), s')
    \<and> (\<forall>x. x < 4092 \<or> 4100 \<le> x \<longrightarrow> flat s' x = flat two_blocks x)"
  using push_pop_round_trip [of two_blocks "word_to_bytes 8 (0x1122334455667788 :: u64)" 100 4000]
  by (simp add: two_blocks_inv)

end
