(* ===== verification/Sysdarft_Register.thy ===== *)
theory Sysdarft_Register
  imports Sysdarft_Memory
begin

text \<open>
  \<open>SysdarftRegister\<close> (\<open>include/SysdarftRegister.h\<close>): the register file as a record with
  the leaf members of \<open>struct sysdarft_register_t\<close>, the register classes that alias them
  (a 64-bit register made of bytes, of 16-bit or of 32-bit registers), the \<open>load\<close> and
  \<open>store\<close> templates, and the 256-byte image that the pushes of the whole file write. The
  lemmas show the get/put laws per class, the aliasing, and the round trip of the image.
\<close>

section \<open>Data\<close>

text \<open>
  The bit-fields of the flag register; GCC and Clang allocate them from the least
  significant bit on. A field of one bit is a Boolean.
\<close>

(* include/SysdarftRegister.h 98-111: FlagRegister *)
record flag_register =
  Carry :: bool
  Overflow :: bool
  LargerThan :: bool
  LessThan :: bool
  Equal :: bool
  InterruptionMask :: bool
  CurrentPrivilegeLevel :: "2 word"
  ProtectedModeEnabled :: bool
  PagingEnabled :: bool
  flag_reserved :: "54 word"

(* include/SysdarftRegister.h 42-131: sysdarft_register_t *)
record sysdarft_register_t =
  R0 :: u8
  R1 :: u8
  R2 :: u8
  R3 :: u8
  R4 :: u8
  R5 :: u8
  R6 :: u8
  R7 :: u8
  ExtendedRegister4 :: u16
  ExtendedRegister5 :: u16
  ExtendedRegister6 :: u16
  ExtendedRegister7 :: u16
  HalfExtendedRegister4 :: u32
  HalfExtendedRegister5 :: u32
  HalfExtendedRegister6 :: u32
  HalfExtendedRegister7 :: u32
  FullyExtendedRegister4 :: u64
  FullyExtendedRegister5 :: u64
  FullyExtendedRegister6 :: u64
  FullyExtendedRegister7 :: u64
  FullyExtendedRegister8 :: u64
  FullyExtendedRegister9 :: u64
  FullyExtendedRegister10 :: u64
  FullyExtendedRegister11 :: u64
  FullyExtendedRegister12 :: u64
  FullyExtendedRegister13 :: u64
  FullyExtendedRegister14 :: u64
  FullyExtendedRegister15 :: u64
  FlagRegister :: flag_register
  StackBase :: u64
  StackPointer :: u64
  CodeBase :: u64
  InstructionPointer :: u64
  DataBase :: u64
  DataPointer :: u64
  ExtendedBase :: u64
  ExtendedPointer :: u64
  CurrentProcedureStackPreservationSpace :: u64
  SelectorSpaceStart :: u64
  SelectorSPaceSize :: u64
  R_reserved1 :: u64
  R_reserved2 :: u64
  R_reserved3 :: u64
  R_reserved4 :: u64

section \<open>Registers that alias others\<close>

text \<open>
  \<open>*(uint64_t*)(&FER0)\<close> and its like: the little-endian value of the bytes of a nested
  structure, and the store through such a pointer. \<open>join2\<close> and its halves are the view of
  a structure with two members of the same width.
\<close>

definition join2 :: "'b::len word \<Rightarrow> 'b word \<Rightarrow> 'a::len word" where
  "join2 lo hi = ucast lo OR push_bit LENGTH('b) (ucast hi)"

definition low_half :: "'a::len word \<Rightarrow> 'b::len word" where
  "low_half w = ucast w"

definition high_half :: "'a::len word \<Rightarrow> 'b::len word" where
  "high_half w = ucast (drop_bit LENGTH('b) w)"

definition get_EXR0 :: "sysdarft_register_t \<Rightarrow> u16" where
  "get_EXR0 r = join2 (R0 r) (R1 r)"

definition put_EXR0 :: "u16 \<Rightarrow> sysdarft_register_t \<Rightarrow> sysdarft_register_t" where
  "put_EXR0 v r = (r\<lparr>R0 := low_half v\<rparr>)\<lparr>R1 := high_half v\<rparr>"

definition get_EXR1 :: "sysdarft_register_t \<Rightarrow> u16" where
  "get_EXR1 r = join2 (R2 r) (R3 r)"

definition put_EXR1 :: "u16 \<Rightarrow> sysdarft_register_t \<Rightarrow> sysdarft_register_t" where
  "put_EXR1 v r = (r\<lparr>R2 := low_half v\<rparr>)\<lparr>R3 := high_half v\<rparr>"

definition get_EXR2 :: "sysdarft_register_t \<Rightarrow> u16" where
  "get_EXR2 r = join2 (R4 r) (R5 r)"

definition put_EXR2 :: "u16 \<Rightarrow> sysdarft_register_t \<Rightarrow> sysdarft_register_t" where
  "put_EXR2 v r = (r\<lparr>R4 := low_half v\<rparr>)\<lparr>R5 := high_half v\<rparr>"

definition get_EXR3 :: "sysdarft_register_t \<Rightarrow> u16" where
  "get_EXR3 r = join2 (R6 r) (R7 r)"

definition put_EXR3 :: "u16 \<Rightarrow> sysdarft_register_t \<Rightarrow> sysdarft_register_t" where
  "put_EXR3 v r = (r\<lparr>R6 := low_half v\<rparr>)\<lparr>R7 := high_half v\<rparr>"

definition get_HER0 :: "sysdarft_register_t \<Rightarrow> u32" where
  "get_HER0 r = join2 (get_EXR0 r) (get_EXR1 r)"

definition put_HER0 :: "u32 \<Rightarrow> sysdarft_register_t \<Rightarrow> sysdarft_register_t" where
  "put_HER0 v r = put_EXR1 (high_half v) (put_EXR0 (low_half v) r)"

definition get_HER1 :: "sysdarft_register_t \<Rightarrow> u32" where
  "get_HER1 r = join2 (get_EXR2 r) (get_EXR3 r)"

definition put_HER1 :: "u32 \<Rightarrow> sysdarft_register_t \<Rightarrow> sysdarft_register_t" where
  "put_HER1 v r = put_EXR3 (high_half v) (put_EXR2 (low_half v) r)"

definition get_HER2 :: "sysdarft_register_t \<Rightarrow> u32" where
  "get_HER2 r = join2 (ExtendedRegister4 r) (ExtendedRegister5 r)"

definition put_HER2 :: "u32 \<Rightarrow> sysdarft_register_t \<Rightarrow> sysdarft_register_t" where
  "put_HER2 v r = (r\<lparr>ExtendedRegister4 := low_half v\<rparr>)\<lparr>ExtendedRegister5 := high_half v\<rparr>"

definition get_HER3 :: "sysdarft_register_t \<Rightarrow> u32" where
  "get_HER3 r = join2 (ExtendedRegister6 r) (ExtendedRegister7 r)"

definition put_HER3 :: "u32 \<Rightarrow> sysdarft_register_t \<Rightarrow> sysdarft_register_t" where
  "put_HER3 v r = (r\<lparr>ExtendedRegister6 := low_half v\<rparr>)\<lparr>ExtendedRegister7 := high_half v\<rparr>"

definition get_FER0 :: "sysdarft_register_t \<Rightarrow> u64" where
  "get_FER0 r = join2 (get_HER0 r) (get_HER1 r)"

definition put_FER0 :: "u64 \<Rightarrow> sysdarft_register_t \<Rightarrow> sysdarft_register_t" where
  "put_FER0 v r = put_HER1 (high_half v) (put_HER0 (low_half v) r)"

definition get_FER1 :: "sysdarft_register_t \<Rightarrow> u64" where
  "get_FER1 r = join2 (get_HER2 r) (get_HER3 r)"

definition put_FER1 :: "u64 \<Rightarrow> sysdarft_register_t \<Rightarrow> sysdarft_register_t" where
  "put_FER1 v r = put_HER3 (high_half v) (put_HER2 (low_half v) r)"

definition get_FER2 :: "sysdarft_register_t \<Rightarrow> u64" where
  "get_FER2 r = join2 (HalfExtendedRegister4 r) (HalfExtendedRegister5 r)"

definition put_FER2 :: "u64 \<Rightarrow> sysdarft_register_t \<Rightarrow> sysdarft_register_t" where
  "put_FER2 v r = (r\<lparr>HalfExtendedRegister4 := low_half v\<rparr>)\<lparr>HalfExtendedRegister5 := high_half v\<rparr>"

definition get_FER3 :: "sysdarft_register_t \<Rightarrow> u64" where
  "get_FER3 r = join2 (HalfExtendedRegister6 r) (HalfExtendedRegister7 r)"

definition put_FER3 :: "u64 \<Rightarrow> sysdarft_register_t \<Rightarrow> sysdarft_register_t" where
  "put_FER3 v r = (r\<lparr>HalfExtendedRegister6 := low_half v\<rparr>)\<lparr>HalfExtendedRegister7 := high_half v\<rparr>"

lemmas alias_defs =
  get_EXR0_def put_EXR0_def
  get_EXR1_def put_EXR1_def
  get_EXR2_def put_EXR2_def
  get_EXR3_def put_EXR3_def
  get_HER0_def put_HER0_def
  get_HER1_def put_HER1_def
  get_HER2_def put_HER2_def
  get_HER3_def put_HER3_def
  get_FER0_def put_FER0_def
  get_FER1_def put_FER1_def
  get_FER2_def put_FER2_def
  get_FER3_def put_FER3_def

section \<open>Load and store\<close>

text \<open>
  \<open>load<Class, Index>()\<close> and \<open>store<Class, Index>(v)\<close>, one function per class with the index
  as an argument. The last branch throws \<open>UnknownRegisterIdentification\<close>.
\<close>

(* include/SysdarftRegister.h 270-306: load<FullyExtendedRegister> *)
definition load_FullyExtendedRegister :: "nat \<Rightarrow> sysdarft_register_t \<Rightarrow> cpu_error + u64" where
  "load_FullyExtendedRegister i r =
     (if i = 0 then Inr (get_FER0 r) else
      if i = 1 then Inr (get_FER1 r) else
      if i = 2 then Inr (get_FER2 r) else
      if i = 3 then Inr (get_FER3 r) else
      if i = 4 then Inr (FullyExtendedRegister4 r) else
      if i = 5 then Inr (FullyExtendedRegister5 r) else
      if i = 6 then Inr (FullyExtendedRegister6 r) else
      if i = 7 then Inr (FullyExtendedRegister7 r) else
      if i = 8 then Inr (FullyExtendedRegister8 r) else
      if i = 9 then Inr (FullyExtendedRegister9 r) else
      if i = 10 then Inr (FullyExtendedRegister10 r) else
      if i = 11 then Inr (FullyExtendedRegister11 r) else
      if i = 12 then Inr (FullyExtendedRegister12 r) else
      if i = 13 then Inr (FullyExtendedRegister13 r) else
      if i = 14 then Inr (FullyExtendedRegister14 r) else
      if i = 15 then Inr (FullyExtendedRegister15 r) else
      Inl SysdarftBaseError)"

(* include/SysdarftRegister.h 429-461: store<FullyExtendedRegister> *)
definition store_FullyExtendedRegister ::
    "nat \<Rightarrow> u64 \<Rightarrow> sysdarft_register_t \<Rightarrow> cpu_error + sysdarft_register_t" where
  "store_FullyExtendedRegister i v r =
     (if i = 0 then Inr (put_FER0 v r) else
      if i = 1 then Inr (put_FER1 v r) else
      if i = 2 then Inr (put_FER2 v r) else
      if i = 3 then Inr (put_FER3 v r) else
      if i = 4 then Inr (r\<lparr>FullyExtendedRegister4 := v\<rparr>) else
      if i = 5 then Inr (r\<lparr>FullyExtendedRegister5 := v\<rparr>) else
      if i = 6 then Inr (r\<lparr>FullyExtendedRegister6 := v\<rparr>) else
      if i = 7 then Inr (r\<lparr>FullyExtendedRegister7 := v\<rparr>) else
      if i = 8 then Inr (r\<lparr>FullyExtendedRegister8 := v\<rparr>) else
      if i = 9 then Inr (r\<lparr>FullyExtendedRegister9 := v\<rparr>) else
      if i = 10 then Inr (r\<lparr>FullyExtendedRegister10 := v\<rparr>) else
      if i = 11 then Inr (r\<lparr>FullyExtendedRegister11 := v\<rparr>) else
      if i = 12 then Inr (r\<lparr>FullyExtendedRegister12 := v\<rparr>) else
      if i = 13 then Inr (r\<lparr>FullyExtendedRegister13 := v\<rparr>) else
      if i = 14 then Inr (r\<lparr>FullyExtendedRegister14 := v\<rparr>) else
      if i = 15 then Inr (r\<lparr>FullyExtendedRegister15 := v\<rparr>) else
      Inl SysdarftBaseError)"

(* include/SysdarftRegister.h 308-328: load<HalfExtendedRegister> *)
definition load_HalfExtendedRegister :: "nat \<Rightarrow> sysdarft_register_t \<Rightarrow> cpu_error + u32" where
  "load_HalfExtendedRegister i r =
     (if i = 0 then Inr (get_HER0 r) else
      if i = 1 then Inr (get_HER1 r) else
      if i = 2 then Inr (get_HER2 r) else
      if i = 3 then Inr (get_HER3 r) else
      if i = 4 then Inr (HalfExtendedRegister4 r) else
      if i = 5 then Inr (HalfExtendedRegister5 r) else
      if i = 6 then Inr (HalfExtendedRegister6 r) else
      if i = 7 then Inr (HalfExtendedRegister7 r) else
      Inl SysdarftBaseError)"

(* include/SysdarftRegister.h 463-479: store<HalfExtendedRegister> *)
definition store_HalfExtendedRegister ::
    "nat \<Rightarrow> u32 \<Rightarrow> sysdarft_register_t \<Rightarrow> cpu_error + sysdarft_register_t" where
  "store_HalfExtendedRegister i v r =
     (if i = 0 then Inr (put_HER0 v r) else
      if i = 1 then Inr (put_HER1 v r) else
      if i = 2 then Inr (put_HER2 v r) else
      if i = 3 then Inr (put_HER3 v r) else
      if i = 4 then Inr (r\<lparr>HalfExtendedRegister4 := v\<rparr>) else
      if i = 5 then Inr (r\<lparr>HalfExtendedRegister5 := v\<rparr>) else
      if i = 6 then Inr (r\<lparr>HalfExtendedRegister6 := v\<rparr>) else
      if i = 7 then Inr (r\<lparr>HalfExtendedRegister7 := v\<rparr>) else
      Inl SysdarftBaseError)"

(* include/SysdarftRegister.h 330-350: load<ExtendedRegister> *)
definition load_ExtendedRegister :: "nat \<Rightarrow> sysdarft_register_t \<Rightarrow> cpu_error + u16" where
  "load_ExtendedRegister i r =
     (if i = 0 then Inr (get_EXR0 r) else
      if i = 1 then Inr (get_EXR1 r) else
      if i = 2 then Inr (get_EXR2 r) else
      if i = 3 then Inr (get_EXR3 r) else
      if i = 4 then Inr (ExtendedRegister4 r) else
      if i = 5 then Inr (ExtendedRegister5 r) else
      if i = 6 then Inr (ExtendedRegister6 r) else
      if i = 7 then Inr (ExtendedRegister7 r) else
      Inl SysdarftBaseError)"

(* include/SysdarftRegister.h 481-497: store<ExtendedRegister> *)
definition store_ExtendedRegister ::
    "nat \<Rightarrow> u16 \<Rightarrow> sysdarft_register_t \<Rightarrow> cpu_error + sysdarft_register_t" where
  "store_ExtendedRegister i v r =
     (if i = 0 then Inr (put_EXR0 v r) else
      if i = 1 then Inr (put_EXR1 v r) else
      if i = 2 then Inr (put_EXR2 v r) else
      if i = 3 then Inr (put_EXR3 v r) else
      if i = 4 then Inr (r\<lparr>ExtendedRegister4 := v\<rparr>) else
      if i = 5 then Inr (r\<lparr>ExtendedRegister5 := v\<rparr>) else
      if i = 6 then Inr (r\<lparr>ExtendedRegister6 := v\<rparr>) else
      if i = 7 then Inr (r\<lparr>ExtendedRegister7 := v\<rparr>) else
      Inl SysdarftBaseError)"

(* include/SysdarftRegister.h 352-368: load<Register> *)
definition load_Register :: "nat \<Rightarrow> sysdarft_register_t \<Rightarrow> cpu_error + u8" where
  "load_Register i r =
     (if i = 0 then Inr (R0 r) else
      if i = 1 then Inr (R1 r) else
      if i = 2 then Inr (R2 r) else
      if i = 3 then Inr (R3 r) else
      if i = 4 then Inr (R4 r) else
      if i = 5 then Inr (R5 r) else
      if i = 6 then Inr (R6 r) else
      if i = 7 then Inr (R7 r) else
      Inl SysdarftBaseError)"

(* include/SysdarftRegister.h 499-515: store<Register> *)
definition store_Register ::
    "nat \<Rightarrow> u8 \<Rightarrow> sysdarft_register_t \<Rightarrow> cpu_error + sysdarft_register_t" where
  "store_Register i v r =
     (if i = 0 then Inr (r\<lparr>R0 := v\<rparr>) else
      if i = 1 then Inr (r\<lparr>R1 := v\<rparr>) else
      if i = 2 then Inr (r\<lparr>R2 := v\<rparr>) else
      if i = 3 then Inr (r\<lparr>R3 := v\<rparr>) else
      if i = 4 then Inr (r\<lparr>R4 := v\<rparr>) else
      if i = 5 then Inr (r\<lparr>R5 := v\<rparr>) else
      if i = 6 then Inr (r\<lparr>R6 := v\<rparr>) else
      if i = 7 then Inr (r\<lparr>R7 := v\<rparr>) else
      Inl SysdarftBaseError)"

text \<open>
  The classes of a single 64-bit register (\<open>StackBaseType\<close> and so on), of the flag
  register and of the whole file are the fields of the record and the record itself. The
  constructor value-initialises \<open>Registers\<close> and sets the instruction pointer.
\<close>

definition new_flags :: flag_register where
  "new_flags = \<lparr>Carry = False, Overflow = False, LargerThan = False, LessThan = False,
     Equal = False, InterruptionMask = False, CurrentPrivilegeLevel = 0,
     ProtectedModeEnabled = False, PagingEnabled = False, flag_reserved = 0\<rparr>"

(* include/SysdarftRegister.h 557-559: SysdarftRegister *)
definition new_registers :: sysdarft_register_t where
  "new_registers = \<lparr>
     R0 = 0, R1 = 0, R2 = 0, R3 = 0, R4 = 0, R5 = 0, R6 = 0, R7 = 0, ExtendedRegister4 = 0,
     ExtendedRegister5 = 0, ExtendedRegister6 = 0, ExtendedRegister7 = 0,
     HalfExtendedRegister4 = 0, HalfExtendedRegister5 = 0, HalfExtendedRegister6 = 0,
     HalfExtendedRegister7 = 0, FullyExtendedRegister4 = 0, FullyExtendedRegister5 = 0,
     FullyExtendedRegister6 = 0, FullyExtendedRegister7 = 0, FullyExtendedRegister8 = 0,
     FullyExtendedRegister9 = 0, FullyExtendedRegister10 = 0, FullyExtendedRegister11 = 0,
     FullyExtendedRegister12 = 0, FullyExtendedRegister13 = 0, FullyExtendedRegister14 = 0,
     FullyExtendedRegister15 = 0, FlagRegister = new_flags, StackBase = 0, StackPointer = 0,
     CodeBase = 0, InstructionPointer = BIOS_START, DataBase = 0, DataPointer = 0,
     ExtendedBase = 0, ExtendedPointer = 0, CurrentProcedureStackPreservationSpace = 0,
     SelectorSpaceStart = 0, SelectorSPaceSize = 0, R_reserved1 = 0, R_reserved2 = 0,
     R_reserved3 = 0, R_reserved4 = 0\<rparr>"

section \<open>The image in memory\<close>

text \<open>
  The structure has no padding: it is 32 words of 8 bytes. A push of the whole file copies
  these 256 bytes, a pop reads them back.
\<close>

definition flags_to_word :: "flag_register \<Rightarrow> u64" where
  "flags_to_word f = of_bool (Carry f) OR push_bit 1 (of_bool (Overflow f))
     OR push_bit 2 (of_bool (LargerThan f)) OR push_bit 3 (of_bool (LessThan f))
     OR push_bit 4 (of_bool (Equal f)) OR push_bit 5 (of_bool (InterruptionMask f))
     OR push_bit 6 (ucast (CurrentPrivilegeLevel f))
     OR push_bit 8 (of_bool (ProtectedModeEnabled f)) OR push_bit 9 (of_bool (PagingEnabled f))
     OR push_bit 10 (ucast (flag_reserved f))"

definition flags_of_word :: "u64 \<Rightarrow> flag_register" where
  "flags_of_word w = \<lparr>Carry = bit w 0, Overflow = bit w 1, LargerThan = bit w 2,
     LessThan = bit w 3, Equal = bit w 4, InterruptionMask = bit w 5,
     CurrentPrivilegeLevel = ucast (drop_bit 6 w), ProtectedModeEnabled = bit w 8,
     PagingEnabled = bit w 9, flag_reserved = ucast (drop_bit 10 w)\<rparr>"

definition register_words :: "sysdarft_register_t \<Rightarrow> u64 list" where
  "register_words r = [
     get_FER0 r, get_FER1 r, get_FER2 r, get_FER3 r, FullyExtendedRegister4 r,
     FullyExtendedRegister5 r, FullyExtendedRegister6 r, FullyExtendedRegister7 r,
     FullyExtendedRegister8 r, FullyExtendedRegister9 r, FullyExtendedRegister10 r,
     FullyExtendedRegister11 r, FullyExtendedRegister12 r, FullyExtendedRegister13 r,
     FullyExtendedRegister14 r, FullyExtendedRegister15 r, flags_to_word (FlagRegister r),
     StackBase r, StackPointer r, CodeBase r, InstructionPointer r, DataBase r, DataPointer r,
     ExtendedBase r, ExtendedPointer r, CurrentProcedureStackPreservationSpace r,
     SelectorSpaceStart r, SelectorSPaceSize r, R_reserved1 r, R_reserved2 r, R_reserved3 r,
     R_reserved4 r]"

definition register_of_words :: "u64 list \<Rightarrow> sysdarft_register_t" where
  "register_of_words ws = \<lparr>
     R0 = low_half (low_half (low_half (ws ! 0) :: u32) :: u16),
     R1 = high_half (low_half (low_half (ws ! 0) :: u32) :: u16),
     R2 = low_half (high_half (low_half (ws ! 0) :: u32) :: u16),
     R3 = high_half (high_half (low_half (ws ! 0) :: u32) :: u16),
     R4 = low_half (low_half (high_half (ws ! 0) :: u32) :: u16),
     R5 = high_half (low_half (high_half (ws ! 0) :: u32) :: u16),
     R6 = low_half (high_half (high_half (ws ! 0) :: u32) :: u16),
     R7 = high_half (high_half (high_half (ws ! 0) :: u32) :: u16),
     ExtendedRegister4 = low_half (low_half (ws ! 1) :: u32),
     ExtendedRegister5 = high_half (low_half (ws ! 1) :: u32),
     ExtendedRegister6 = low_half (high_half (ws ! 1) :: u32),
     ExtendedRegister7 = high_half (high_half (ws ! 1) :: u32),
     HalfExtendedRegister4 = low_half (ws ! 2), HalfExtendedRegister5 = high_half (ws ! 2),
     HalfExtendedRegister6 = low_half (ws ! 3), HalfExtendedRegister7 = high_half (ws ! 3),
     FullyExtendedRegister4 = ws ! 4, FullyExtendedRegister5 = ws ! 5,
     FullyExtendedRegister6 = ws ! 6, FullyExtendedRegister7 = ws ! 7,
     FullyExtendedRegister8 = ws ! 8, FullyExtendedRegister9 = ws ! 9,
     FullyExtendedRegister10 = ws ! 10, FullyExtendedRegister11 = ws ! 11,
     FullyExtendedRegister12 = ws ! 12, FullyExtendedRegister13 = ws ! 13,
     FullyExtendedRegister14 = ws ! 14, FullyExtendedRegister15 = ws ! 15,
     FlagRegister = flags_of_word (ws ! 16), StackBase = ws ! 17, StackPointer = ws ! 18,
     CodeBase = ws ! 19, InstructionPointer = ws ! 20, DataBase = ws ! 21,
     DataPointer = ws ! 22, ExtendedBase = ws ! 23, ExtendedPointer = ws ! 24,
     CurrentProcedureStackPreservationSpace = ws ! 25, SelectorSpaceStart = ws ! 26,
     SelectorSPaceSize = ws ! 27, R_reserved1 = ws ! 28, R_reserved2 = ws ! 29,
     R_reserved3 = ws ! 30, R_reserved4 = ws ! 31\<rparr>"

definition register_bytes :: "sysdarft_register_t \<Rightarrow> u8 list" where
  "register_bytes r = concat (map (word_to_bytes 8) (register_words r))"

definition register_of_bytes :: "u8 list \<Rightarrow> sysdarft_register_t" where
  "register_of_bytes bs =
     register_of_words (map (\<lambda>i. word_of_bytes (take 8 (drop (8 * i) bs))) [0..<32])"

section \<open>Halves\<close>

lemma join2_halves:
  fixes w :: "'a::len word"
  assumes "LENGTH('a) \<le> LENGTH('b::len) + LENGTH('b)"
  shows "join2 (low_half w :: 'b word) (high_half w) = w"
  by (rule bit_word_eqI)
    (use assms in \<open>auto simp: join2_def low_half_def high_half_def bit_or_iff bit_push_bit_iff
       bit_ucast_iff bit_drop_bit_eq not_le\<close>)

lemma low_half_join2:
  fixes lo hi :: "'b::len word"
  assumes "LENGTH('b) \<le> LENGTH('a::len)"
  shows "low_half (join2 lo hi :: 'a word) = lo"
  by (rule bit_word_eqI)
    (use assms in \<open>auto simp: join2_def low_half_def bit_or_iff bit_push_bit_iff bit_ucast_iff\<close>)

lemma high_half_join2:
  fixes lo hi :: "'b::len word"
  assumes "LENGTH('b) + LENGTH('b) \<le> LENGTH('a::len)"
  shows "high_half (join2 lo hi :: 'a word) = hi"
  by (rule bit_word_eqI)
    (use assms in \<open>auto simp: join2_def high_half_def bit_or_iff bit_push_bit_iff
       bit_ucast_iff bit_drop_bit_eq dest: bit_imp_le_length\<close>)

lemma join2_u16 [simp]:
  "join2 (low_half (w :: u16) :: u8) (high_half w) = w"
  "low_half (join2 (lo :: u8) hi :: u16) = lo" "high_half (join2 (lo :: u8) hi :: u16) = hi"
  by (simp_all add: join2_halves low_half_join2 high_half_join2)

lemma join2_u32 [simp]:
  "join2 (low_half (w :: u32) :: u16) (high_half w) = w"
  "low_half (join2 (lo :: u16) hi :: u32) = lo" "high_half (join2 (lo :: u16) hi :: u32) = hi"
  by (simp_all add: join2_halves low_half_join2 high_half_join2)

lemma join2_u64 [simp]:
  "join2 (low_half (w :: u64) :: u32) (high_half w) = w"
  "low_half (join2 (lo :: u32) hi :: u64) = lo" "high_half (join2 (lo :: u32) hi :: u64) = hi"
  by (simp_all add: join2_halves low_half_join2 high_half_join2)

lemma word_to_bytes_join2_gen:
  fixes lo hi :: "'b::len word"
  assumes "LENGTH('b) = 8 * n" and "8 * (n + n) \<le> LENGTH('a::len)"
  shows "word_to_bytes (n + n) (join2 lo hi :: 'a word) = word_to_bytes n lo @ word_to_bytes n hi"
proof (rule nth_equalityI)
  fix i
  assume "i < length (word_to_bytes (n + n) (join2 lo hi :: 'a word))"
  then have i: "i < n + n" by simp
  show "word_to_bytes (n + n) (join2 lo hi :: 'a word) ! i
      = (word_to_bytes n lo @ word_to_bytes n hi) ! i"
  proof (rule bit_word_eqI)
    fix j
    assume j: "j < LENGTH(8)"
    have e: "i < n \<Longrightarrow> \<not> 8 * n \<le> 8 * i + j" and f: "\<not> i < n \<Longrightarrow> 8 * n \<le> 8 * i + j"
      and g: "8 * i + j - 8 * n = 8 * (i - n) + j \<or> i < n"
      using j by auto
    have "8 * i + j < LENGTH('a)" using i j assms(2) by simp
    then show "bit (word_to_bytes (n + n) (join2 lo hi :: 'a word) ! i) j
        = bit ((word_to_bytes n lo @ word_to_bytes n hi) ! i) j"
      using i j e f g assms(1)
      by (auto simp: nth_append join2_def bit_or_iff bit_push_bit_iff bit_ucast_iff
          bit_drop_bit_eq dest: bit_imp_le_length)
  qed
qed simp

lemma word_to_bytes_join2:
  "word_to_bytes 8 (join2 (a :: u32) b :: u64) = word_to_bytes 4 a @ word_to_bytes 4 b"
  "word_to_bytes 4 (join2 (c :: u16) d :: u32) = word_to_bytes 2 c @ word_to_bytes 2 d"
  "word_to_bytes 2 (join2 (e :: u8) f :: u16) = [e, f]"
proof -
  show "word_to_bytes 8 (join2 (a :: u32) b :: u64) = word_to_bytes 4 a @ word_to_bytes 4 b"
    using word_to_bytes_join2_gen [of 4 a b, where ?'a = 64] by simp
  show "word_to_bytes 4 (join2 (c :: u16) d :: u32) = word_to_bytes 2 c @ word_to_bytes 2 d"
    using word_to_bytes_join2_gen [of 2 c d, where ?'a = 32] by simp
  show "word_to_bytes 2 (join2 (e :: u8) f :: u16) = [e, f]"
    using word_to_bytes_join2_gen [of 1 e f, where ?'a = 16]
    by (simp add: word_to_bytes_def numeral_2_eq_2)
qed

section \<open>The get/put laws of a register class\<close>

text \<open>
  The contract the decoder and the instructions rely on: a class has \<open>n\<close> registers that
  can be read and written independently of each other.
\<close>

locale register_class =
  fixes n :: nat
    and ld :: "nat \<Rightarrow> 'r \<Rightarrow> cpu_error + 'v"
    and st :: "nat \<Rightarrow> 'v \<Rightarrow> 'r \<Rightarrow> cpu_error + 'r"
  assumes load_defined: "i < n \<Longrightarrow> \<exists>v. ld i r = Inr v"
    and store_defined: "i < n \<Longrightarrow> \<exists>r'. st i v r = Inr r'"
    and load_store_same: "i < n \<Longrightarrow> st i v r = Inr r' \<Longrightarrow> ld i r' = Inr v"
    and load_store_other: "i < n \<Longrightarrow> j < n \<Longrightarrow> i \<noteq> j \<Longrightarrow> st i v r = Inr r' \<Longrightarrow> ld j r' = ld j r"
    and unknown_index: "n \<le> i \<Longrightarrow> ld i r = Inl SysdarftBaseError \<and> st i v r = Inl SysdarftBaseError"
begin

lemma load_store:
  assumes "i < n" and "j < n" and "st i v r = Inr r'"
  shows "ld j r' = (if j = i then Inr v else ld j r)"
  using assms load_store_same load_store_other by (cases "j = i") auto

lemma store_exchange:
  assumes "i < n" and "j < n" and "ld i r = Inr x" and "ld j r = Inr y"
    and "st i y r = Inr r1" and "st j x r1 = Inr r2"
  shows "ld i r2 = Inr y \<and> ld j r2 = Inr x
    \<and> (\<forall>k<n. k \<noteq> i \<longrightarrow> k \<noteq> j \<longrightarrow> ld k r2 = ld k r)"
  using assms by (auto simp: load_store [OF assms(1) _ assms(5)] load_store [OF assms(2) _ assms(6)])

end

lemma less_8_iff:
  "i < 8 \<longleftrightarrow> i = 7 \<or> i = 6 \<or> i = 5 \<or> i = 4 \<or> i = 3 \<or> i = 2 \<or> i = Suc 0 \<or> i = 0"
  by presburger

lemma less_16_iff:
  "i < (16 :: nat) \<longleftrightarrow> (i = 15 \<or> i = 14 \<or> i = 13 \<or> i = 12) \<or> (i = 11 \<or> i = 10 \<or> i = 9 \<or> i = 8)
     \<or> i < 8"
  by presburger

lemmas register_index_iffs = less_16_iff less_8_iff

text \<open>The templates at each index.\<close>

lemma load_Register_simps [simp]:
  "load_Register 0 r = Inr (R0 r)"
  "load_Register (Suc 0) r = Inr (R1 r)"
  "load_Register 2 r = Inr (R2 r)"
  "load_Register 3 r = Inr (R3 r)"
  "load_Register 4 r = Inr (R4 r)"
  "load_Register 5 r = Inr (R5 r)"
  "load_Register 6 r = Inr (R6 r)"
  "load_Register 7 r = Inr (R7 r)"
  by (simp_all add: load_Register_def)

lemma store_Register_simps [simp]:
  "store_Register 0 v r = Inr (r\<lparr>R0 := v\<rparr>)"
  "store_Register (Suc 0) v r = Inr (r\<lparr>R1 := v\<rparr>)"
  "store_Register 2 v r = Inr (r\<lparr>R2 := v\<rparr>)"
  "store_Register 3 v r = Inr (r\<lparr>R3 := v\<rparr>)"
  "store_Register 4 v r = Inr (r\<lparr>R4 := v\<rparr>)"
  "store_Register 5 v r = Inr (r\<lparr>R5 := v\<rparr>)"
  "store_Register 6 v r = Inr (r\<lparr>R6 := v\<rparr>)"
  "store_Register 7 v r = Inr (r\<lparr>R7 := v\<rparr>)"
  by (simp_all add: store_Register_def)

lemma load_ExtendedRegister_simps [simp]:
  "load_ExtendedRegister 0 r = Inr (get_EXR0 r)"
  "load_ExtendedRegister (Suc 0) r = Inr (get_EXR1 r)"
  "load_ExtendedRegister 2 r = Inr (get_EXR2 r)"
  "load_ExtendedRegister 3 r = Inr (get_EXR3 r)"
  "load_ExtendedRegister 4 r = Inr (ExtendedRegister4 r)"
  "load_ExtendedRegister 5 r = Inr (ExtendedRegister5 r)"
  "load_ExtendedRegister 6 r = Inr (ExtendedRegister6 r)"
  "load_ExtendedRegister 7 r = Inr (ExtendedRegister7 r)"
  by (simp_all add: load_ExtendedRegister_def)

lemma store_ExtendedRegister_simps [simp]:
  "store_ExtendedRegister 0 v r = Inr (put_EXR0 v r)"
  "store_ExtendedRegister (Suc 0) v r = Inr (put_EXR1 v r)"
  "store_ExtendedRegister 2 v r = Inr (put_EXR2 v r)"
  "store_ExtendedRegister 3 v r = Inr (put_EXR3 v r)"
  "store_ExtendedRegister 4 v r = Inr (r\<lparr>ExtendedRegister4 := v\<rparr>)"
  "store_ExtendedRegister 5 v r = Inr (r\<lparr>ExtendedRegister5 := v\<rparr>)"
  "store_ExtendedRegister 6 v r = Inr (r\<lparr>ExtendedRegister6 := v\<rparr>)"
  "store_ExtendedRegister 7 v r = Inr (r\<lparr>ExtendedRegister7 := v\<rparr>)"
  by (simp_all add: store_ExtendedRegister_def)

lemma load_HalfExtendedRegister_simps [simp]:
  "load_HalfExtendedRegister 0 r = Inr (get_HER0 r)"
  "load_HalfExtendedRegister (Suc 0) r = Inr (get_HER1 r)"
  "load_HalfExtendedRegister 2 r = Inr (get_HER2 r)"
  "load_HalfExtendedRegister 3 r = Inr (get_HER3 r)"
  "load_HalfExtendedRegister 4 r = Inr (HalfExtendedRegister4 r)"
  "load_HalfExtendedRegister 5 r = Inr (HalfExtendedRegister5 r)"
  "load_HalfExtendedRegister 6 r = Inr (HalfExtendedRegister6 r)"
  "load_HalfExtendedRegister 7 r = Inr (HalfExtendedRegister7 r)"
  by (simp_all add: load_HalfExtendedRegister_def)

lemma store_HalfExtendedRegister_simps [simp]:
  "store_HalfExtendedRegister 0 v r = Inr (put_HER0 v r)"
  "store_HalfExtendedRegister (Suc 0) v r = Inr (put_HER1 v r)"
  "store_HalfExtendedRegister 2 v r = Inr (put_HER2 v r)"
  "store_HalfExtendedRegister 3 v r = Inr (put_HER3 v r)"
  "store_HalfExtendedRegister 4 v r = Inr (r\<lparr>HalfExtendedRegister4 := v\<rparr>)"
  "store_HalfExtendedRegister 5 v r = Inr (r\<lparr>HalfExtendedRegister5 := v\<rparr>)"
  "store_HalfExtendedRegister 6 v r = Inr (r\<lparr>HalfExtendedRegister6 := v\<rparr>)"
  "store_HalfExtendedRegister 7 v r = Inr (r\<lparr>HalfExtendedRegister7 := v\<rparr>)"
  by (simp_all add: store_HalfExtendedRegister_def)

lemma load_FullyExtendedRegister_simps [simp]:
  "load_FullyExtendedRegister 0 r = Inr (get_FER0 r)"
  "load_FullyExtendedRegister (Suc 0) r = Inr (get_FER1 r)"
  "load_FullyExtendedRegister 2 r = Inr (get_FER2 r)"
  "load_FullyExtendedRegister 3 r = Inr (get_FER3 r)"
  "load_FullyExtendedRegister 4 r = Inr (FullyExtendedRegister4 r)"
  "load_FullyExtendedRegister 5 r = Inr (FullyExtendedRegister5 r)"
  "load_FullyExtendedRegister 6 r = Inr (FullyExtendedRegister6 r)"
  "load_FullyExtendedRegister 7 r = Inr (FullyExtendedRegister7 r)"
  "load_FullyExtendedRegister 8 r = Inr (FullyExtendedRegister8 r)"
  "load_FullyExtendedRegister 9 r = Inr (FullyExtendedRegister9 r)"
  "load_FullyExtendedRegister 10 r = Inr (FullyExtendedRegister10 r)"
  "load_FullyExtendedRegister 11 r = Inr (FullyExtendedRegister11 r)"
  "load_FullyExtendedRegister 12 r = Inr (FullyExtendedRegister12 r)"
  "load_FullyExtendedRegister 13 r = Inr (FullyExtendedRegister13 r)"
  "load_FullyExtendedRegister 14 r = Inr (FullyExtendedRegister14 r)"
  "load_FullyExtendedRegister 15 r = Inr (FullyExtendedRegister15 r)"
  by (simp_all add: load_FullyExtendedRegister_def)

lemma store_FullyExtendedRegister_simps [simp]:
  "store_FullyExtendedRegister 0 v r = Inr (put_FER0 v r)"
  "store_FullyExtendedRegister (Suc 0) v r = Inr (put_FER1 v r)"
  "store_FullyExtendedRegister 2 v r = Inr (put_FER2 v r)"
  "store_FullyExtendedRegister 3 v r = Inr (put_FER3 v r)"
  "store_FullyExtendedRegister 4 v r = Inr (r\<lparr>FullyExtendedRegister4 := v\<rparr>)"
  "store_FullyExtendedRegister 5 v r = Inr (r\<lparr>FullyExtendedRegister5 := v\<rparr>)"
  "store_FullyExtendedRegister 6 v r = Inr (r\<lparr>FullyExtendedRegister6 := v\<rparr>)"
  "store_FullyExtendedRegister 7 v r = Inr (r\<lparr>FullyExtendedRegister7 := v\<rparr>)"
  "store_FullyExtendedRegister 8 v r = Inr (r\<lparr>FullyExtendedRegister8 := v\<rparr>)"
  "store_FullyExtendedRegister 9 v r = Inr (r\<lparr>FullyExtendedRegister9 := v\<rparr>)"
  "store_FullyExtendedRegister 10 v r = Inr (r\<lparr>FullyExtendedRegister10 := v\<rparr>)"
  "store_FullyExtendedRegister 11 v r = Inr (r\<lparr>FullyExtendedRegister11 := v\<rparr>)"
  "store_FullyExtendedRegister 12 v r = Inr (r\<lparr>FullyExtendedRegister12 := v\<rparr>)"
  "store_FullyExtendedRegister 13 v r = Inr (r\<lparr>FullyExtendedRegister13 := v\<rparr>)"
  "store_FullyExtendedRegister 14 v r = Inr (r\<lparr>FullyExtendedRegister14 := v\<rparr>)"
  "store_FullyExtendedRegister 15 v r = Inr (r\<lparr>FullyExtendedRegister15 := v\<rparr>)"
  by (simp_all add: store_FullyExtendedRegister_def)

lemma Register_other:
  assumes "i < 8" and "j < 8" and "i \<noteq> j" and "store_Register i v r = Inr r'"
  shows "load_Register j r' = load_Register j r"
  using assms unfolding register_index_iffs
  by (elim disjE; hypsubst; simp add: alias_defs) (auto simp: alias_defs)

interpretation byte_regs: register_class 8 load_Register store_Register
proof unfold_locales
  fix i :: nat and v and r :: sysdarft_register_t
  assume i: "i < 8"
  then show "\<exists>x. load_Register i r = Inr x" and "\<exists>r'. store_Register i v r = Inr r'"
    unfolding register_index_iffs by (elim disjE; simp)+
  fix r'
  assume "store_Register i v r = Inr r'"
  with i show "load_Register i r' = Inr v"
    unfolding register_index_iffs by (elim disjE; hypsubst; simp add: alias_defs) (auto simp: alias_defs)
next
  fix i :: nat and v and r :: sysdarft_register_t
  assume "8 \<le> i"
  then show "load_Register i r = Inl SysdarftBaseError \<and> store_Register i v r = Inl SysdarftBaseError"
    by (simp add: load_Register_def store_Register_def)
qed (rule Register_other)

lemma ExtendedRegister_other:
  assumes "i < 8" and "j < 8" and "i \<noteq> j" and "store_ExtendedRegister i v r = Inr r'"
  shows "load_ExtendedRegister j r' = load_ExtendedRegister j r"
  using assms unfolding register_index_iffs
  by (elim disjE; hypsubst; simp add: alias_defs) (auto simp: alias_defs)

interpretation word_regs: register_class 8 load_ExtendedRegister store_ExtendedRegister
proof unfold_locales
  fix i :: nat and v and r :: sysdarft_register_t
  assume i: "i < 8"
  then show "\<exists>x. load_ExtendedRegister i r = Inr x" and "\<exists>r'. store_ExtendedRegister i v r = Inr r'"
    unfolding register_index_iffs by (elim disjE; simp)+
  fix r'
  assume "store_ExtendedRegister i v r = Inr r'"
  with i show "load_ExtendedRegister i r' = Inr v"
    unfolding register_index_iffs by (elim disjE; hypsubst; simp add: alias_defs) (auto simp: alias_defs)
next
  fix i :: nat and v and r :: sysdarft_register_t
  assume "8 \<le> i"
  then show "load_ExtendedRegister i r = Inl SysdarftBaseError \<and> store_ExtendedRegister i v r = Inl SysdarftBaseError"
    by (simp add: load_ExtendedRegister_def store_ExtendedRegister_def)
qed (rule ExtendedRegister_other)

lemma HalfExtendedRegister_other:
  assumes "i < 8" and "j < 8" and "i \<noteq> j" and "store_HalfExtendedRegister i v r = Inr r'"
  shows "load_HalfExtendedRegister j r' = load_HalfExtendedRegister j r"
  using assms unfolding register_index_iffs
  by (elim disjE; hypsubst; simp add: alias_defs) (auto simp: alias_defs)

interpretation dword_regs: register_class 8 load_HalfExtendedRegister store_HalfExtendedRegister
proof unfold_locales
  fix i :: nat and v and r :: sysdarft_register_t
  assume i: "i < 8"
  then show "\<exists>x. load_HalfExtendedRegister i r = Inr x" and "\<exists>r'. store_HalfExtendedRegister i v r = Inr r'"
    unfolding register_index_iffs by (elim disjE; simp)+
  fix r'
  assume "store_HalfExtendedRegister i v r = Inr r'"
  with i show "load_HalfExtendedRegister i r' = Inr v"
    unfolding register_index_iffs by (elim disjE; hypsubst; simp add: alias_defs) (auto simp: alias_defs)
next
  fix i :: nat and v and r :: sysdarft_register_t
  assume "8 \<le> i"
  then show "load_HalfExtendedRegister i r = Inl SysdarftBaseError \<and> store_HalfExtendedRegister i v r = Inl SysdarftBaseError"
    by (simp add: load_HalfExtendedRegister_def store_HalfExtendedRegister_def)
qed (rule HalfExtendedRegister_other)

lemma FullyExtendedRegister_other:
  assumes "i < 16" and "j < 16" and "i \<noteq> j" and "store_FullyExtendedRegister i v r = Inr r'"
  shows "load_FullyExtendedRegister j r' = load_FullyExtendedRegister j r"
  using assms unfolding register_index_iffs
  by (elim disjE; hypsubst; simp add: alias_defs) (auto simp: alias_defs)

interpretation qword_regs: register_class 16 load_FullyExtendedRegister store_FullyExtendedRegister
proof unfold_locales
  fix i :: nat and v and r :: sysdarft_register_t
  assume i: "i < 16"
  then show "\<exists>x. load_FullyExtendedRegister i r = Inr x" and "\<exists>r'. store_FullyExtendedRegister i v r = Inr r'"
    unfolding register_index_iffs by (elim disjE; simp)+
  fix r'
  assume "store_FullyExtendedRegister i v r = Inr r'"
  with i show "load_FullyExtendedRegister i r' = Inr v"
    unfolding register_index_iffs by (elim disjE; hypsubst; simp add: alias_defs) (auto simp: alias_defs)
next
  fix i :: nat and v and r :: sysdarft_register_t
  assume "16 \<le> i"
  then show "load_FullyExtendedRegister i r = Inl SysdarftBaseError \<and> store_FullyExtendedRegister i v r = Inl SysdarftBaseError"
    by (simp add: load_FullyExtendedRegister_def store_FullyExtendedRegister_def)
qed (rule FullyExtendedRegister_other)

section \<open>The image\<close>

lemma flags_round_trip [simp]: "flags_of_word (flags_to_word f) = f"
proof -
  have [simp]: "bit (flags_to_word f) 0 = Carry f" "bit (flags_to_word f) (Suc 0) = Overflow f"
    "bit (flags_to_word f) 2 = LargerThan f" "bit (flags_to_word f) 3 = LessThan f"
    "bit (flags_to_word f) 4 = Equal f" "bit (flags_to_word f) 5 = InterruptionMask f"
    "bit (flags_to_word f) 8 = ProtectedModeEnabled f" "bit (flags_to_word f) 9 = PagingEnabled f"
    by (auto simp: flags_to_word_def bit_or_iff bit_push_bit_iff bit_ucast_iff bit_of_bool_iff
        dest: bit_imp_le_length)
  have cpl: "ucast (drop_bit 6 (flags_to_word f)) = CurrentPrivilegeLevel f"
    by (rule bit_word_eqI)
      (auto simp: flags_to_word_def bit_or_iff bit_push_bit_iff bit_ucast_iff bit_of_bool_iff
        bit_drop_bit_eq bit_2_iff dest: bit_imp_le_length)
  have "ucast (drop_bit 10 (flags_to_word f)) = flag_reserved f"
    by (rule bit_word_eqI)
      (auto simp: flags_to_word_def bit_or_iff bit_push_bit_iff bit_ucast_iff bit_of_bool_iff
        bit_drop_bit_eq bit_2_iff dest: bit_imp_le_length)
  with cpl show ?thesis by (simp add: flags_of_word_def)
qed

lemma length_register_words [simp]: "length (register_words r) = 32"
  by (simp add: register_words_def)

lemma register_words_round_trip [simp]: "register_of_words (register_words r) = r"
  by (simp add: register_of_words_def register_words_def alias_defs nth_Cons')

lemma take_drop_concat_chunks:
  assumes "\<And>x. length (f x) = k" and "i < length xs"
  shows "take k (drop (k * i) (concat (map f xs))) = f (xs ! i)"
  using assms(2)
proof (induction xs arbitrary: i)
  case (Cons x xs)
  then show ?case using assms(1) by (cases i) simp_all
qed simp

lemma length_register_bytes [simp]: "length (register_bytes r) = 256"
  by (simp add: register_bytes_def register_words_def)

lemma register_bytes_round_trip [simp]: "register_of_bytes (register_bytes r) = r"
proof -
  have "map (\<lambda>i. word_of_bytes (take 8 (drop (8 * i) (register_bytes r)))) [0..<32]
      = register_words r"
    by (rule nth_equalityI) (simp_all add: register_bytes_def take_drop_concat_chunks)
  then show ?thesis by (simp only: register_of_bytes_def register_words_round_trip)
qed

section \<open>Properties\<close>

text \<open>
  The registers of each class (16 64-bit, 8 32-bit, 8 16-bit and 8 byte registers) are
  independent cells: a store succeeds for the indices of the class, the next load of the
  same index returns the stored value, and a load of another index of the class is not
  affected.
\<close>

theorem register_load_store:
  assumes "i < 16" and "j < 16" and "k < 8" and "l < 8"
  shows "(\<exists>r'. store_FullyExtendedRegister i a r = Inr r' \<and>
        load_FullyExtendedRegister j r' = (if j = i then Inr a else load_FullyExtendedRegister j r))
    \<and> (\<exists>r'. store_HalfExtendedRegister k b r = Inr r' \<and>
        load_HalfExtendedRegister l r' = (if l = k then Inr b else load_HalfExtendedRegister l r))
    \<and> (\<exists>r'. store_ExtendedRegister k c r = Inr r' \<and>
        load_ExtendedRegister l r' = (if l = k then Inr c else load_ExtendedRegister l r))
    \<and> (\<exists>r'. store_Register k d r = Inr r' \<and>
        load_Register l r' = (if l = k then Inr d else load_Register l r))"
proof (intro conjI)
  show "\<exists>r'. store_FullyExtendedRegister i a r = Inr r' \<and>
      load_FullyExtendedRegister j r' = (if j = i then Inr a else load_FullyExtendedRegister j r)"
    using qword_regs.store_defined qword_regs.load_store assms by blast
  show "\<exists>r'. store_HalfExtendedRegister k b r = Inr r' \<and>
      load_HalfExtendedRegister l r' = (if l = k then Inr b else load_HalfExtendedRegister l r)"
    using dword_regs.store_defined dword_regs.load_store assms by blast
  show "\<exists>r'. store_ExtendedRegister k c r = Inr r' \<and>
      load_ExtendedRegister l r' = (if l = k then Inr c else load_ExtendedRegister l r)"
    using word_regs.store_defined word_regs.load_store assms by blast
  show "\<exists>r'. store_Register k d r = Inr r' \<and>
      load_Register l r' = (if l = k then Inr d else load_Register l r)"
    using byte_regs.store_defined byte_regs.load_store assms by blast
qed

theorem register_load_store_witness:
  "(\<exists>r'. store_FullyExtendedRegister 1 0x1122334455667788 new_registers = Inr r' \<and>
      load_FullyExtendedRegister 1 r' = Inr 0x1122334455667788)
   \<and> (\<exists>r'. store_Register 3 0xFF new_registers = Inr r' \<and>
      load_Register 4 r' = load_Register 4 new_registers)"
  using register_load_store [where i = 1 and j = 1 and k = 3 and l = 4
      and a = "0x1122334455667788" and d = "0xFF" and r = new_registers]
  by (simp del: store_Register_simps load_Register_simps store_FullyExtendedRegister_simps
      load_FullyExtendedRegister_simps)

text \<open>
  The narrow registers alias the wide ones, little endian. The 64-bit register 0 holds
  the byte registers 0 to 7 from its least significant byte on, and storing to it is
  storing its bytes to them; register 1 holds the 16-bit registers 4 to 7, registers 2
  and 3 the 32-bit registers 4 to 7.
\<close>

theorem register_aliasing:
  "word_to_bytes 8 (get_FER0 r) = [R0 r, R1 r, R2 r, R3 r, R4 r, R5 r, R6 r, R7 r]
   \<and> get_FER0 (put_FER0 v r) = v
   \<and> put_FER0 v r = r\<lparr>
       R0 := ucast v, R1 := ucast (drop_bit 8 v), R2 := ucast (drop_bit 16 v),
       R3 := ucast (drop_bit 24 v), R4 := ucast (drop_bit 32 v), R5 := ucast (drop_bit 40 v),
       R6 := ucast (drop_bit 48 v), R7 := ucast (drop_bit 56 v)\<rparr>
   \<and> word_to_bytes 8 (get_FER1 r) = word_to_bytes 2 (ExtendedRegister4 r)
       @ word_to_bytes 2 (ExtendedRegister5 r) @ word_to_bytes 2 (ExtendedRegister6 r)
       @ word_to_bytes 2 (ExtendedRegister7 r)
   \<and> word_to_bytes 8 (get_FER2 r) = word_to_bytes 4 (HalfExtendedRegister4 r)
       @ word_to_bytes 4 (HalfExtendedRegister5 r)
   \<and> word_to_bytes 8 (get_FER3 r) = word_to_bytes 4 (HalfExtendedRegister6 r)
       @ word_to_bytes 4 (HalfExtendedRegister7 r)"
proof (intro conjI)
  show "word_to_bytes 8 (get_FER0 r) = [R0 r, R1 r, R2 r, R3 r, R4 r, R5 r, R6 r, R7 r]"
    by (simp add: alias_defs word_to_bytes_join2)
  show "get_FER0 (put_FER0 v r) = v"
    by (simp add: alias_defs)
  show "word_to_bytes 8 (get_FER1 r) = word_to_bytes 2 (ExtendedRegister4 r)
       @ word_to_bytes 2 (ExtendedRegister5 r) @ word_to_bytes 2 (ExtendedRegister6 r)
       @ word_to_bytes 2 (ExtendedRegister7 r)"
    by (simp add: alias_defs word_to_bytes_join2)
  show "word_to_bytes 8 (get_FER2 r) = word_to_bytes 4 (HalfExtendedRegister4 r)
       @ word_to_bytes 4 (HalfExtendedRegister5 r)"
    and "word_to_bytes 8 (get_FER3 r) = word_to_bytes 4 (HalfExtendedRegister6 r)
       @ word_to_bytes 4 (HalfExtendedRegister7 r)"
    by (simp_all add: alias_defs word_to_bytes_join2)
  have h [simp]: "low_half (low_half (low_half v :: u32) :: u16) = (ucast v :: u8)"
    "high_half (low_half (low_half v :: u32) :: u16) = (ucast (drop_bit 8 v) :: u8)"
    "low_half (high_half (low_half v :: u32) :: u16) = (ucast (drop_bit 16 v) :: u8)"
    "high_half (high_half (low_half v :: u32) :: u16) = (ucast (drop_bit 24 v) :: u8)"
    "low_half (low_half (high_half v :: u32) :: u16) = (ucast (drop_bit 32 v) :: u8)"
    "high_half (low_half (high_half v :: u32) :: u16) = (ucast (drop_bit 40 v) :: u8)"
    "low_half (high_half (high_half v :: u32) :: u16) = (ucast (drop_bit 48 v) :: u8)"
    "high_half (high_half (high_half v :: u32) :: u16) = (ucast (drop_bit 56 v) :: u8)"
    by (rule bit_word_eqI, auto simp: low_half_def high_half_def bit_ucast_iff bit_drop_bit_eq)+
  show "put_FER0 v r = r\<lparr>
       R0 := ucast v, R1 := ucast (drop_bit 8 v), R2 := ucast (drop_bit 16 v),
       R3 := ucast (drop_bit 24 v), R4 := ucast (drop_bit 32 v), R5 := ucast (drop_bit 40 v),
       R6 := ucast (drop_bit 48 v), R7 := ucast (drop_bit 56 v)\<rparr>"
    by (simp add: alias_defs)
qed

text \<open>
  The image of the register file that pushes and interrupts write to memory is 256
  bytes long and determines the whole file, the bit-fields of the flag register included:
  reading it back restores every register.
\<close>

theorem register_image_round_trip:
  "length (register_bytes r) = 256 \<and> register_of_bytes (register_bytes r) = r"
  by simp

end
