(* ===== verification/Curses_UI.thy ===== *)
theory Curses_UI
  imports Sysdarft_Memory
begin

text \<open>
  \<open>SysdarftCursesUI\<close> (\<open>include/SysdarftCursesUI.h\<close>, \<open>SysdarftCursesUI.cpp\<close>): the 80 by 25
  text screen that lives in the emulated memory, the cursor, the keyboard buffer and the
  flags that the input threads set. Drawing on the terminal is modelled by the picture that
  the last \<open>refresh()\<close> left; the calls of ncurses and SFML themselves are not.
\<close>

section \<open>State\<close>

(* include/SysdarftCursesUI.h 40-40: V_WIDTH *)
definition V_WIDTH :: int where "V_WIDTH = 80"
(* include/SysdarftCursesUI.h 41-41: V_HEIGHT *)
definition V_HEIGHT :: int where "V_HEIGHT = 25"

text \<open>
  \<open>video_memory\<close> points to block 184 of the memory, whose first byte has the address
  \<open>VIDEO_MEMORY_START\<close>. \<open>screen\<close> is the picture on the terminal: the characters drawn
  and the place of the cursor in it.
\<close>

(* include/SysdarftCursesUI.h 43-109: SysdarftCursesUI *)
record ui_state = mem_state +
  translate_cr_to_lf :: bool
  SystemHalted :: bool
  KeyboardIntAbort :: bool
  CtrlZShutdownRequested :: bool
  cursor_x :: int
  cursor_y :: int
  GUI_cursor_x :: int
  GUI_cursor_y :: int
  GUI_cursor_visible :: bool
  offset_x :: int
  offset_y :: int
  is_inited :: bool
  vsb :: bool
  sound_running :: bool
  sound_thread_pool :: nat
  captured_input :: "int list"
  screen :: "u8 list \<times> int \<times> int"

definition video_block :: nat where "video_block = 184"

section \<open>Construction\<close>

text \<open>
  The constructor, after the one of the memory: indexing the vector at block 184 is
  undefined when the memory is smaller than that. The decompression of the bell sound is
  not modelled.
\<close>

(* SysdarftCursesUI.cpp 41-71: SysdarftCursesUI *)
definition new_ui :: "u64 \<Rightarrow> cpu_error + ui_state" where
  "new_ui memory = (case new_memory memory of
     Inl e \<Rightarrow> Inl e
   | Inr m \<Rightarrow>
      if \<not> video_block < length (Memory m) then Inl UndefinedBehaviour
      else Inr (mem_state.extend
        (m\<lparr>Memory := (Memory m)[video_block :=
             (\<lambda>i. if i < nat (V_HEIGHT * V_WIDTH) then 32 else (Memory m ! video_block) i)]\<rparr>)
        (ui_state.fields False False False False 0 0 0 0 True 0 0 False True False 0 []
           ([], 0, 0))))"

section \<open>Drawing\<close>

(* include/SysdarftCursesUI.h 101-104: video_at *)
definition video_at :: "int \<Rightarrow> int \<Rightarrow> 'z ui_state_scheme \<Rightarrow> u8" where
  "video_at x y s = (Memory s ! video_block) (nat (y * V_WIDTH + x))"

definition set_video :: "int \<Rightarrow> int \<Rightarrow> u8 \<Rightarrow> 'z ui_state_scheme \<Rightarrow> 'z ui_state_scheme" where
  "set_video x y c s = s\<lparr>Memory := (Memory s)[video_block :=
     (Memory s ! video_block)(nat (y * V_WIDTH + x) := c)]\<rparr>"

(* SysdarftCursesUI.cpp 271-292: render_screen *)
definition render_screen :: "'z ui_state_scheme \<Rightarrow> 'z ui_state_scheme" where
  "render_screen s = (if \<not> is_inited s then s
     else s\<lparr>screen := (concat (map (\<lambda>y. map (\<lambda>x. video_at x y s) [0..V_WIDTH - 1])
                               [0..V_HEIGHT - 1]), cursor_x s, cursor_y s)\<rparr>)"

(* SysdarftCursesUI.cpp 251-269: recalc_offsets *)
definition recalc_offsets :: "int \<Rightarrow> int \<Rightarrow> 'z ui_state_scheme \<Rightarrow> 'z ui_state_scheme" where
  "recalc_offsets rows cols s =
     s\<lparr>offset_x := (if cols \<ge> V_WIDTH then (cols - V_WIDTH) div 2 else 0),
       offset_y := (if rows \<ge> V_HEIGHT then (rows - V_HEIGHT) div 2 else 0)\<rparr>"

(* SysdarftCursesUI.cpp 192-196: set_cursor_visibility *)
definition set_cursor_visibility :: "bool \<Rightarrow> 'z ui_state_scheme \<Rightarrow> 'z ui_state_scheme" where
  "set_cursor_visibility visible s = s\<lparr>GUI_cursor_visible := visible, vsb := visible\<rparr>"

text \<open>
  \<open>rows\<close> and \<open>cols\<close> are the size of the terminal that \<open>getmaxyx\<close> reports. The check of the
  result of \<open>clear()\<close>, which ncurses documents to be \<open>OK\<close>, is not modelled.
\<close>

(* SysdarftCursesUI.cpp 94-135: initialize *)
definition initialize :: "int \<Rightarrow> int \<Rightarrow> 'z ui_state_scheme \<Rightarrow> 'z ui_state_scheme" where
  "initialize rows cols s = (if is_inited s then s
     else set_cursor_visibility True (render_screen (recalc_offsets rows cols (s\<lparr>is_inited := True\<rparr>))))"

(* SysdarftCursesUI.cpp 137-158: start_again *)
definition start_again :: "int \<Rightarrow> int \<Rightarrow> 'z ui_state_scheme \<Rightarrow> 'z ui_state_scheme" where
  "start_again rows cols s = (if is_inited s then s
     else render_screen (recalc_offsets rows cols (s\<lparr>is_inited := True\<rparr>)))"

(* SysdarftCursesUI.cpp 166-172: cleanup *)
definition cleanup :: "'z ui_state_scheme \<Rightarrow> 'z ui_state_scheme" where
  "cleanup s = (if is_inited s then s\<lparr>is_inited := False\<rparr> else s)"

(* SysdarftCursesUI.cpp 160-164: ringbell *)
definition ringbell :: "'z ui_state_scheme \<Rightarrow> 'z ui_state_scheme" where
  "ringbell s = s\<lparr>sound_running := True, sound_thread_pool := sound_thread_pool s + 1\<rparr>"

definition clamp :: "int \<Rightarrow> int \<Rightarrow> int \<Rightarrow> int" where
  "clamp v lo hi = (if v < lo then lo else if hi < v then hi else v)"

(* SysdarftCursesUI.cpp 174-190: set_cursor *)
definition set_cursor :: "int \<Rightarrow> int \<Rightarrow> 'z ui_state_scheme \<Rightarrow> 'z ui_state_scheme" where
  "set_cursor x y s =
     (let s' = s\<lparr>cursor_x := clamp x 0 (V_WIDTH - 1), cursor_y := clamp y 0 (V_HEIGHT - 1),
                 GUI_cursor_x := x, GUI_cursor_y := y\<rparr>
      in if \<not> is_inited s' then s'
         else s'\<lparr>screen := (fst (screen s'), cursor_x s', cursor_y s')\<rparr>)"

text \<open>\<open>memcpy\<close> of row \<open>i + 1\<close> over row \<open>i\<close>, for the rows in turn.\<close>

(* SysdarftCursesUI.cpp 221-224: newline, loop *)
fun scroll_rows :: "nat \<Rightarrow> nat \<Rightarrow> block \<Rightarrow> block" where
  "scroll_rows i 0 b = b"
| "scroll_rows i (Suc k) b =
     scroll_rows (Suc i) k (\<lambda>x. if i * nat V_WIDTH \<le> x \<and> x < (i + 1) * nat V_WIDTH
                                then b (x + nat V_WIDTH) else b x)"

(* SysdarftCursesUI.cpp 217-237: newline *)
definition newline :: "'z ui_state_scheme \<Rightarrow> 'z ui_state_scheme" where
  "newline s =
     (if cursor_y s = V_HEIGHT - 1 then
        let b = scroll_rows 0 (nat (V_HEIGHT - 1)) (Memory s ! video_block);
            b' = (\<lambda>x. if nat ((V_HEIGHT - 1) * V_WIDTH) \<le> x \<and> x < nat (V_HEIGHT * V_WIDTH)
                      then 32 else b x);
            s' = s\<lparr>Memory := (Memory s)[video_block := b'], cursor_x := 0\<rparr>
        in render_screen (set_cursor (cursor_x s') (cursor_y s') s')
      else
        let s' = s\<lparr>cursor_x := 0, cursor_y := cursor_y s + 1\<rparr>
        in set_cursor (cursor_x s') (cursor_y s') s')"

(* SysdarftCursesUI.cpp 198-215: teletype *)
definition teletype :: "u8 \<Rightarrow> 'z ui_state_scheme \<Rightarrow> 'z ui_state_scheme" where
  "teletype txt s =
     (let current_x = cursor_x s;
          current_y = cursor_y s;
          s = set_video current_x current_y txt s;
          current_x = current_x + 1
      in render_screen (if current_x \<ge> V_WIDTH then newline s
                        else set_cursor current_x current_y s))"

(* SysdarftCursesUI.cpp 239-249: handle_resize *)
definition handle_resize :: "int \<Rightarrow> int \<Rightarrow> 'z ui_state_scheme \<Rightarrow> 'z ui_state_scheme" where
  "handle_resize rows cols s = (if \<not> is_inited s then s
     else render_screen (recalc_offsets rows cols s))"

section \<open>Keyboard\<close>

text \<open>
  The switch on a key, the same in the console thread and in the GUI thread;
  \<open>monitor_console_input\<close> runs it for every key but \<open>NO_KEY\<close>, which is -1 too.
\<close>

(* SysdarftCursesUI.cpp 346-368: gui_input_handler *)
definition gui_input_handler :: "int \<Rightarrow> 'z ui_state_scheme \<Rightarrow> 'z ui_state_scheme" where
  "gui_input_handler keyCode s =
     (if keyCode = -1 then s
      else if keyCode = 3 then s\<lparr>KeyboardIntAbort := True\<rparr>
      else if keyCode = 26 then s\<lparr>CtrlZShutdownRequested := True\<rparr>
      else if keyCode = 29 then s\<lparr>SystemHalted := True\<rparr>
      else s\<lparr>captured_input := captured_input s @ [keyCode]\<rparr>)"

(* SysdarftCursesUI.cpp 384-388: flush_input_buffer *)
definition flush_input_buffer :: "'z ui_state_scheme \<Rightarrow> 'z ui_state_scheme" where
  "flush_input_buffer s = s\<lparr>captured_input := []\<rparr>"

(* SysdarftCursesUI.cpp 390-400: get_input *)
definition get_input :: "'z ui_state_scheme \<Rightarrow> int \<times> 'z ui_state_scheme" where
  "get_input s = (case captured_input s of
     [] \<Rightarrow> (-1, s)
   | k # ks \<Rightarrow> (k, s\<lparr>captured_input := ks\<rparr>))"

(* SysdarftCursesUI.cpp 402-407: try_add_input *)
definition try_add_input :: "int \<Rightarrow> 'z ui_state_scheme \<Rightarrow> 'z ui_state_scheme" where
  "try_add_input k s = s\<lparr>captured_input := captured_input s @ [k]\<rparr>"

(* SysdarftCursesUI.cpp 370-375: video_memory_puller *)
definition video_memory_puller :: "('z ui_state_scheme, u8 list) run" where
  "video_memory_puller = read_memory VIDEO_MEMORY_START VIDEO_MEMORY_SIZE"

section \<open>Invariant and flat view\<close>

definition ui_inv :: "'z ui_state_scheme \<Rightarrow> bool" where
  "ui_inv s \<longleftrightarrow> mem_inv s \<and> video_block < length (Memory s)
     \<and> 0 \<le> cursor_x s \<and> cursor_x s < V_WIDTH \<and> 0 \<le> cursor_y s \<and> cursor_y s < V_HEIGHT"

text \<open>The address of a character cell, and the cell the cursor is on.\<close>

abbreviation video_base :: nat where "video_base \<equiv> unat VIDEO_MEMORY_START"

definition cursor_cell :: "'z ui_state_scheme \<Rightarrow> nat" where
  "cursor_cell s = nat (cursor_y s * V_WIDTH + cursor_x s)"

lemmas screen_size_defs = V_WIDTH_def V_HEIGHT_def

lemma video_base_eq: "video_base = video_block * BLOCK_SIZE"
  by (simp add: VIDEO_MEMORY_START_def video_block_def BLOCK_SIZE_def)

lemma flat_update_block:
  assumes "p < length (Memory s)"
  shows "flat (s\<lparr>Memory := (Memory s)[p := b]\<rparr>) a =
    (if a div BLOCK_SIZE = p then b (a mod BLOCK_SIZE) else flat s a)"
  using assms by (simp add: flat_def)

lemma mem_inv_update_block [simp]:
  "mem_inv (s\<lparr>Memory := (Memory s)[p := b]\<rparr>) = mem_inv s"
  by (simp add: mem_inv_def)

lemma video_cell_block:
  assumes "c < BLOCK_SIZE"
  shows "a div BLOCK_SIZE = video_block \<and> a mod BLOCK_SIZE = c \<longleftrightarrow> a = video_base + c"
proof
  assume h: "a div BLOCK_SIZE = video_block \<and> a mod BLOCK_SIZE = c"
  then show "a = video_base + c"
    using div_mult_mod_eq [of a BLOCK_SIZE] by (simp add: video_base_eq)
qed (use assms in \<open>simp add: video_base_eq\<close>)

lemma set_video_flat:
  assumes "video_block < length (Memory s)" and "nat (y * V_WIDTH + x) < BLOCK_SIZE"
  shows "flat (set_video x y c s) = (flat s)(video_base + nat (y * V_WIDTH + x) := c)"
proof
  fix a
  show "flat (set_video x y c s) a = ((flat s)(video_base + nat (y * V_WIDTH + x) := c)) a"
    using video_cell_block [OF assms(2), of a] assms(1)
    by (auto simp: set_video_def flat_update_block) (auto simp: flat_def)
qed

lemma scroll_rows_apply:
  "scroll_rows i k b x =
     (if i * nat V_WIDTH \<le> x \<and> x < (i + k) * nat V_WIDTH then b (x + nat V_WIDTH) else b x)"
proof (induction k arbitrary: i b)
  case (Suc k)
  then show ?case by (auto simp: V_WIDTH_def)
qed simp

text \<open>
  The picture: \<open>render_screen\<close> draws the 2000 cells row by row.
\<close>

lemma concat_rows:
  assumes "0 \<le> w"
  shows "concat (map (\<lambda>y. map (\<lambda>x. f (nat (y * w + x))) [0..w - 1]) [0..int h - 1])
    = map f [0..<h * nat w]"
proof (induction h)
  case (Suc h)
  have upto: "[0..int (Suc h) - 1] = [0..int h - 1] @ [int h]"
    by (simp add: upto_rec2)
  have row: "map (\<lambda>x. f (nat (int h * w + x))) [0..w - 1] = map f [h * nat w..<h * nat w + nat w]"
  proof (rule nth_equalityI)
    fix i
    assume "i < length (map (\<lambda>x. f (nat (int h * w + x))) [0..w - 1])"
    then have "int i < w" by simp
    moreover have "nat (int h * w + int i) = h * nat w + i"
      using assms by (simp add: nat_add_distrib nat_mult_distrib)
    ultimately show "map (\<lambda>x. f (nat (int h * w + x))) [0..w - 1] ! i
        = map f [h * nat w..<h * nat w + nat w] ! i"
      using nth_upto [of 0 i "w - 1"] by simp
  qed (use assms in simp)
  have "map f [0..<h * nat w] @ map f [h * nat w..<h * nat w + nat w] = map f [0..<Suc h * nat w]"
    by (simp add: map_upt_append add.commute)
  with Suc.IH upto row show ?case by simp
qed simp

lemma render_screen_picture:
  assumes "video_block < length (Memory s)" and "is_inited s"
  shows "screen (render_screen s) =
    (map (\<lambda>i. flat s (video_base + i)) [0..<2000], cursor_x s, cursor_y s)"
proof -
  have "concat (map (\<lambda>y. map (\<lambda>x. video_at x y s) [0..V_WIDTH - 1]) [0..V_HEIGHT - 1])
      = map (Memory s ! video_block) [0..<2000]"
    using concat_rows [of 80 "Memory s ! video_block" 25]
    by (simp add: video_at_def screen_size_defs)
  also have "\<dots> = map (\<lambda>i. flat s (video_base + i)) [0..<2000]"
    by (auto simp: flat_def video_base_eq BLOCK_SIZE_def)
  finally show ?thesis using assms(2) by (simp add: render_screen_def)
qed

text \<open>Drawing and moving the cursor leave everything else alone.\<close>

lemma render_screen_simps [simp]:
  "Memory (render_screen s) = Memory s" "TotalMemory (render_screen s) = TotalMemory s"
  "cursor_x (render_screen s) = cursor_x s" "cursor_y (render_screen s) = cursor_y s"
  "is_inited (render_screen s) = is_inited s" "flat (render_screen s) = flat s"
  "ui_inv (render_screen s) = ui_inv s" "cursor_cell (render_screen s) = cursor_cell s"
  "captured_input (render_screen s) = captured_input s"
  by (auto simp: render_screen_def fun_eq_iff flat_def ui_inv_def mem_inv_def cursor_cell_def)

lemma set_cursor_simps [simp]:
  "Memory (set_cursor x y s) = Memory s" "TotalMemory (set_cursor x y s) = TotalMemory s"
  "cursor_x (set_cursor x y s) = clamp x 0 79" "cursor_y (set_cursor x y s) = clamp y 0 24"
  "is_inited (set_cursor x y s) = is_inited s" "flat (set_cursor x y s) = flat s"
  "captured_input (set_cursor x y s) = captured_input s"
  by (auto simp: set_cursor_def Let_def fun_eq_iff flat_def screen_size_defs)

lemma ui_inv_set_cursor:
  "mem_inv s \<Longrightarrow> video_block < length (Memory s) \<Longrightarrow> ui_inv (set_cursor x y s)"
  by (simp add: ui_inv_def mem_inv_def screen_size_defs clamp_def)

lemma newline_row:
  assumes "ui_inv s" and "cursor_y s < V_HEIGHT - 1"
  shows "ui_inv (newline s) \<and> flat (newline s) = flat s \<and> cursor_x (newline s) = 0
    \<and> cursor_y (newline s) = cursor_y s + 1 \<and> is_inited (newline s) = is_inited s"
  using assms ui_inv_set_cursor [of "s\<lparr>cursor_x := 0, cursor_y := cursor_y s + 1\<rparr>"]
  by (auto simp: newline_def ui_inv_def clamp_def screen_size_defs fun_eq_iff flat_def mem_inv_def)

lemma newline_scrolls:
  assumes "ui_inv s" and "cursor_y s = V_HEIGHT - 1"
  shows "ui_inv (newline s) \<and> cursor_x (newline s) = 0 \<and> cursor_y (newline s) = cursor_y s
    \<and> is_inited (newline s) = is_inited s
    \<and> flat (newline s) = (\<lambda>a. if video_base \<le> a \<and> a < video_base + 1920 then flat s (a + 80)
        else if video_base + 1920 \<le> a \<and> a < video_base + 2000 then 32 else flat s a)"
proof -
  define b where "b = (\<lambda>x. if 1920 \<le> x \<and> x < 2000 then 32
    else scroll_rows 0 24 (Memory s ! video_block) x)"
  define s' where "s' = s\<lparr>Memory := (Memory s)[video_block := b], cursor_x := 0\<rparr>"
  have n: "newline s = render_screen (set_cursor 0 (cursor_y s) s')"
    using assms(2) by (simp add: newline_def s'_def b_def Let_def screen_size_defs)
  have vb: "video_block < length (Memory s)" using assms(1) by (simp add: ui_inv_def)
  have "flat s' a = (if video_base \<le> a \<and> a < video_base + 1920 then flat s (a + 80)
      else if video_base + 1920 \<le> a \<and> a < video_base + 2000 then 32 else flat s a)" for a
  proof (cases "a div BLOCK_SIZE = video_block")
    case True
    then have a: "a = video_base + a mod BLOCK_SIZE" and m: "a mod BLOCK_SIZE < BLOCK_SIZE"
      using div_mult_mod_eq [of a BLOCK_SIZE] by (simp_all add: video_base_eq)
    have fs: "flat s' a = b (a mod BLOCK_SIZE)"
      using True vb by (simp add: s'_def flat_def)
    have mod80: "flat s (a + 80) = (Memory s ! video_block) (a mod BLOCK_SIZE + 80)"
      if "a mod BLOCK_SIZE < 1920"
    proof -
      have "a mod BLOCK_SIZE + 80 < BLOCK_SIZE" using that by (simp add: BLOCK_SIZE_def)
      from video_cell_block [OF this, of "a + 80"] a show ?thesis by (simp add: flat_def)
    qed
    show ?thesis
      unfolding fs using a mod80 True
      by (auto simp: b_def scroll_rows_apply V_WIDTH_def flat_def)
  next
    case False
    have "\<not> (video_base \<le> a \<and> a < video_base + 2000)"
    proof
      assume h: "video_base \<le> a \<and> a < video_base + 2000"
      then have "a - video_base < BLOCK_SIZE" and "a = video_base + (a - video_base)"
        by (simp only: BLOCK_SIZE_def, linarith, linarith)
      with video_cell_block False show False by blast
    qed
    with False show ?thesis by (auto simp: s'_def flat_def)
  qed
  then have "flat s' = (\<lambda>a. if video_base \<le> a \<and> a < video_base + 1920 then flat s (a + 80)
      else if video_base + 1920 \<le> a \<and> a < video_base + 2000 then 32 else flat s a)" by blast
  moreover have "ui_inv (set_cursor 0 (cursor_y s) s')"
    using assms(1) vb by (intro ui_inv_set_cursor) (simp_all add: s'_def ui_inv_def mem_inv_def)
  ultimately show ?thesis
    using assms by (simp add: n clamp_def screen_size_defs s'_def)
qed

text \<open>The move to the next cell after a character was stored.\<close>

lemma advance_cell:
  fixes s :: "'z ui_state_scheme"
  assumes inv: "ui_inv s"
  defines "p \<equiv> cursor_cell s"
    and "s2 \<equiv> (if cursor_x s + 1 \<ge> V_WIDTH then newline s
               else set_cursor (cursor_x s + 1) (cursor_y s) s)"
  shows "p \<le> 1999 \<and> ui_inv s2 \<and> cursor_cell s2 = (if p < 1999 then p + 1 else 1920)
    \<and> is_inited s2 = is_inited s \<and> flat s2 = (if p < 1999 then flat s
        else (\<lambda>a. if video_base \<le> a \<and> a < video_base + 1920 then flat s (a + 80)
                  else if video_base + 1920 \<le> a \<and> a < video_base + 2000 then 32 else flat s a))"
proof -
  have b: "0 \<le> cursor_x s" "cursor_x s < 80" "0 \<le> cursor_y s" "cursor_y s < 25"
    using inv by (simp_all add: ui_inv_def screen_size_defs)
  have p: "p = nat (cursor_y s * V_WIDTH + cursor_x s)" by (simp add: p_def cursor_cell_def)
  have "cursor_y s * 80 + cursor_x s \<le> 24 * 80 + 79" using b by linarith
  then have p_le: "p \<le> 1999" using b by (simp add: p screen_size_defs)
  consider (middle) "cursor_x s \<noteq> 79" | (last_column) "cursor_x s = 79" "cursor_y s < 24"
    | (last_cell) "cursor_x s = 79" "cursor_y s = 24" using b by linarith
  then show ?thesis
  proof cases
    case middle
    then have x: "cursor_x s + 1 \<le> 79" using b by linarith
    then have s2: "s2 = set_cursor (cursor_x s + 1) (cursor_y s) s"
      by (simp add: s2_def screen_size_defs)
    have "p < 1999" using x b by (simp add: p screen_size_defs)
    moreover have "ui_inv s2"
      unfolding s2 using inv by (intro ui_inv_set_cursor) (simp_all add: ui_inv_def)
    moreover have "cursor_cell s2 = p + 1"
      using x b by (simp add: s2 cursor_cell_def clamp_def p screen_size_defs)
    ultimately show ?thesis by (simp add: s2)
  next
    case last_column
    then have "s2 = newline s" and "p < 1999"
      using b by (simp_all add: s2_def p screen_size_defs)
    with newline_row [OF inv] last_column b show ?thesis
      by (simp add: cursor_cell_def p screen_size_defs)
  next
    case last_cell
    then have "s2 = newline s" and "p = 1999" by (simp_all add: s2_def p screen_size_defs)
    with newline_scrolls [OF inv] last_cell show ?thesis
      by (simp add: screen_size_defs cursor_cell_def)
  qed
qed

section \<open>Properties\<close>

text \<open>
  Printing a character writes it to the cell under the cursor and moves the cursor to
  the next cell. On the last cell of the screen the picture scrolls up by one row, the last
  row becomes blank and the cursor goes to its start. No byte outside the 2000 cells of the
  video memory changes, the cursor stays on the screen, and when curses is active the
  terminal shows the new contents.
\<close>

theorem teletype_prints:
  fixes s :: "'z ui_state_scheme" and c :: u8
  assumes "ui_inv s"
  defines "p \<equiv> cursor_cell s" and "s' \<equiv> teletype c s"
  shows "ui_inv s'
    \<and> cursor_cell s' = (if p < 1999 then p + 1 else 1920)
    \<and> flat s' = (let f = (flat s)(video_base + p := c) in
        if p < 1999 then f
        else (\<lambda>a. if video_base \<le> a \<and> a < video_base + 1920 then f (a + 80)
                  else if video_base + 1920 \<le> a \<and> a < video_base + 2000 then 32 else f a))
    \<and> (is_inited s \<longrightarrow>
        screen s' = (map (\<lambda>i. flat s' (video_base + i)) [0..<2000], cursor_x s', cursor_y s'))"
proof -
  define s1 where "s1 = set_video (cursor_x s) (cursor_y s) c s"
  have inv1: "ui_inv s1" and same: "cursor_x s1 = cursor_x s" "cursor_y s1 = cursor_y s"
    "is_inited s1 = is_inited s" "cursor_cell s1 = p"
    using assms(1) by (simp_all add: s1_def set_video_def ui_inv_def mem_inv_def cursor_cell_def p_def)
  note adv = advance_cell [OF inv1, unfolded same]
  have f1: "flat s1 = (flat s)(video_base + p := c)"
    using set_video_flat [of s "cursor_y s" "cursor_x s" c] adv assms(1)
    by (simp add: s1_def BLOCK_SIZE_def p_def cursor_cell_def ui_inv_def)
  have s': "s' = render_screen (if cursor_x s + 1 \<ge> V_WIDTH then newline s1
      else set_cursor (cursor_x s + 1) (cursor_y s) s1)" (is "_ = render_screen ?s2")
    by (simp add: s'_def teletype_def s1_def Let_def)
  from adv have "is_inited s \<longrightarrow> screen s' = (map (\<lambda>i. flat ?s2 (video_base + i)) [0..<2000],
      cursor_x ?s2, cursor_y ?s2)"
    unfolding s' by (intro impI render_screen_picture) (simp_all add: ui_inv_def)
  with adv show ?thesis
    by (auto simp: s' f1 Let_def)
qed

text \<open>A screen over 1 MiB of zeroes with the cursor on its last cell, for the instance below.\<close>

definition last_cell_ui :: ui_state where
  "last_cell_ui = mem_state.extend
     \<lparr>Memory = replicate 256 (\<lambda>_. 0), TotalMemory = 0x100000\<rparr>
     (ui_state.fields False False False False 79 24 79 24 True 0 0 True True False 0 [] ([], 0, 0))"

lemma last_cell_ui_inv: "ui_inv last_cell_ui" "cursor_cell last_cell_ui = 1999"
  by (simp_all add: last_cell_ui_def mem_state.extend_def ui_state.fields_def ui_inv_def mem_inv_def
      video_block_def screen_size_defs BLOCK_SIZE_def cursor_cell_def)

theorem teletype_prints_witness:
  "ui_inv (teletype 65 last_cell_ui) \<and> cursor_cell (teletype 65 last_cell_ui) = 1920
   \<and> flat (teletype 65 last_cell_ui) (video_base + 1919) = 65
   \<and> flat (teletype 65 last_cell_ui) (video_base + 1999) = 32"
  using teletype_prints [OF last_cell_ui_inv(1), of 65]
  by (simp add: last_cell_ui_inv(2) Let_def)

text \<open>
  C22: keys reach the program in the order they were typed: what is added by the input
  threads, control keys apart, is returned by \<open>get_input\<close> first in, first out, -1 stands
  for an empty buffer, and flushing empties it.
\<close>

theorem keyboard_fifo:
  assumes "k \<notin> {-1, 3, 26, 29}"
  shows "captured_input (gui_input_handler k s) = captured_input s @ [k]
    \<and> captured_input (try_add_input k s) = captured_input s @ [k]
    \<and> (captured_input s = [] \<longrightarrow> get_input s = (-1, s)
          \<and> get_input (gui_input_handler k s) = (k, s))
    \<and> (captured_input s = j # js \<longrightarrow> get_input s = (j, s\<lparr>captured_input := js\<rparr>)
          \<and> fst (get_input (gui_input_handler k s)) = j
          \<and> captured_input (snd (get_input (gui_input_handler k s))) = js @ [k])
    \<and> get_input (flush_input_buffer s) = (-1, flush_input_buffer s)"
  using assms by (auto simp: gui_input_handler_def try_add_input_def get_input_def
      flush_input_buffer_def split: list.split)

theorem keyboard_fifo_witness:
  "captured_input (gui_input_handler 66 (gui_input_handler 65 last_cell_ui)) = [65, 66]
   \<and> fst (get_input (gui_input_handler 66 (gui_input_handler 65 last_cell_ui))) = 65"
  using keyboard_fifo [of 66 "gui_input_handler 65 last_cell_ui" 65 "[]"]
    keyboard_fifo [of 65 last_cell_ui]
  by (simp add: last_cell_ui_def mem_state.extend_def ui_state.fields_def)

end
