(* ===== verification/Instruction_Set.thy ===== *)
theory Instruction_Set
  imports Prelude
begin

text \<open>
  The instruction table (\<open>include/InstructionSet.h\<close>) and the width and operand prefixes of
  the binary code (\<open>include/EncodingDecoding.h\<close>), shared by the CPU's decoder, the
  assembler and the disassembler.
\<close>

section \<open>Opcodes\<close>

(* include/InstructionSet.h 33-33: OPCODE_NOP *)
definition OPCODE_NOP :: u8 where "OPCODE_NOP = 0x00"
(* include/InstructionSet.h 34-34: OPCODE_ADD *)
definition OPCODE_ADD :: u8 where "OPCODE_ADD = 0x01"
(* include/InstructionSet.h 35-35: OPCODE_ADC *)
definition OPCODE_ADC :: u8 where "OPCODE_ADC = 0x02"
(* include/InstructionSet.h 36-36: OPCODE_SUB *)
definition OPCODE_SUB :: u8 where "OPCODE_SUB = 0x03"
(* include/InstructionSet.h 37-37: OPCODE_SBB *)
definition OPCODE_SBB :: u8 where "OPCODE_SBB = 0x04"
(* include/InstructionSet.h 38-38: OPCODE_IMUL *)
definition OPCODE_IMUL :: u8 where "OPCODE_IMUL = 0x05"
(* include/InstructionSet.h 39-39: OPCODE_MUL *)
definition OPCODE_MUL :: u8 where "OPCODE_MUL = 0x06"
(* include/InstructionSet.h 40-40: OPCODE_IDIV *)
definition OPCODE_IDIV :: u8 where "OPCODE_IDIV = 0x07"
(* include/InstructionSet.h 41-41: OPCODE_DIV *)
definition OPCODE_DIV :: u8 where "OPCODE_DIV = 0x08"
(* include/InstructionSet.h 42-42: OPCODE_NEG *)
definition OPCODE_NEG :: u8 where "OPCODE_NEG = 0x09"
(* include/InstructionSet.h 43-43: OPCODE_CMP *)
definition OPCODE_CMP :: u8 where "OPCODE_CMP = 0x0A"
(* include/InstructionSet.h 44-44: OPCODE_INC *)
definition OPCODE_INC :: u8 where "OPCODE_INC = 0x0B"
(* include/InstructionSet.h 45-45: OPCODE_DEC *)
definition OPCODE_DEC :: u8 where "OPCODE_DEC = 0x0C"
(* include/InstructionSet.h 47-47: OPCODE_AND *)
definition OPCODE_AND :: u8 where "OPCODE_AND = 0x10"
(* include/InstructionSet.h 48-48: OPCODE_OR *)
definition OPCODE_OR :: u8 where "OPCODE_OR = 0x11"
(* include/InstructionSet.h 49-49: OPCODE_XOR *)
definition OPCODE_XOR :: u8 where "OPCODE_XOR = 0x12"
(* include/InstructionSet.h 50-50: OPCODE_NOT *)
definition OPCODE_NOT :: u8 where "OPCODE_NOT = 0x13"
(* include/InstructionSet.h 51-51: OPCODE_SHL *)
definition OPCODE_SHL :: u8 where "OPCODE_SHL = 0x14"
(* include/InstructionSet.h 52-52: OPCODE_SHR *)
definition OPCODE_SHR :: u8 where "OPCODE_SHR = 0x15"
(* include/InstructionSet.h 53-53: OPCODE_ROL *)
definition OPCODE_ROL :: u8 where "OPCODE_ROL = 0x16"
(* include/InstructionSet.h 54-54: OPCODE_ROR *)
definition OPCODE_ROR :: u8 where "OPCODE_ROR = 0x17"
(* include/InstructionSet.h 55-55: OPCODE_RCL *)
definition OPCODE_RCL :: u8 where "OPCODE_RCL = 0x18"
(* include/InstructionSet.h 56-56: OPCODE_RCR *)
definition OPCODE_RCR :: u8 where "OPCODE_RCR = 0x19"
(* include/InstructionSet.h 58-58: OPCODE_MOV *)
definition OPCODE_MOV :: u8 where "OPCODE_MOV = 0x20"
(* include/InstructionSet.h 59-59: OPCODE_XCHG *)
definition OPCODE_XCHG :: u8 where "OPCODE_XCHG = 0x21"
(* include/InstructionSet.h 60-60: OPCODE_PUSH *)
definition OPCODE_PUSH :: u8 where "OPCODE_PUSH = 0x22"
(* include/InstructionSet.h 61-61: OPCODE_POP *)
definition OPCODE_POP :: u8 where "OPCODE_POP = 0x23"
(* include/InstructionSet.h 62-62: OPCODE_PUSHALL *)
definition OPCODE_PUSHALL :: u8 where "OPCODE_PUSHALL = 0x24"
(* include/InstructionSet.h 63-63: OPCODE_POPALL *)
definition OPCODE_POPALL :: u8 where "OPCODE_POPALL = 0x25"
(* include/InstructionSet.h 64-64: OPCODE_ENTER *)
definition OPCODE_ENTER :: u8 where "OPCODE_ENTER = 0x26"
(* include/InstructionSet.h 65-65: OPCODE_LEAVE *)
definition OPCODE_LEAVE :: u8 where "OPCODE_LEAVE = 0x27"
(* include/InstructionSet.h 66-66: OPCODE_MOVS *)
definition OPCODE_MOVS :: u8 where "OPCODE_MOVS = 0x28"
(* include/InstructionSet.h 67-67: OPCODE_LEA *)
definition OPCODE_LEA :: u8 where "OPCODE_LEA = 0x29"
(* include/InstructionSet.h 69-69: OPCODE_JMP *)
definition OPCODE_JMP :: u8 where "OPCODE_JMP = 0x30"
(* include/InstructionSet.h 70-70: OPCODE_CALL *)
definition OPCODE_CALL :: u8 where "OPCODE_CALL = 0x31"
(* include/InstructionSet.h 71-71: OPCODE_RET *)
definition OPCODE_RET :: u8 where "OPCODE_RET = 0x32"
(* include/InstructionSet.h 72-72: OPCODE_JE *)
definition OPCODE_JE :: u8 where "OPCODE_JE = 0x33"
(* include/InstructionSet.h 73-73: OPCODE_JNE *)
definition OPCODE_JNE :: u8 where "OPCODE_JNE = 0x34"
(* include/InstructionSet.h 74-74: OPCODE_JB *)
definition OPCODE_JB :: u8 where "OPCODE_JB = 0x35"
(* include/InstructionSet.h 75-75: OPCODE_JL *)
definition OPCODE_JL :: u8 where "OPCODE_JL = 0x36"
(* include/InstructionSet.h 76-76: OPCODE_JBE *)
definition OPCODE_JBE :: u8 where "OPCODE_JBE = 0x37"
(* include/InstructionSet.h 77-77: OPCODE_JLE *)
definition OPCODE_JLE :: u8 where "OPCODE_JLE = 0x38"
(* include/InstructionSet.h 78-78: OPCODE_INT *)
definition OPCODE_INT :: u8 where "OPCODE_INT = 0x39"
(* include/InstructionSet.h 79-79: OPCODE_INT3 *)
definition OPCODE_INT3 :: u8 where "OPCODE_INT3 = 0x3A"
(* include/InstructionSet.h 80-80: OPCODE_IRET *)
definition OPCODE_IRET :: u8 where "OPCODE_IRET = 0x3B"
(* include/InstructionSet.h 81-81: OPCODE_JC *)
definition OPCODE_JC :: u8 where "OPCODE_JC = 0x3C"
(* include/InstructionSet.h 82-82: OPCODE_JNC *)
definition OPCODE_JNC :: u8 where "OPCODE_JNC = 0x3D"
(* include/InstructionSet.h 83-83: OPCODE_JO *)
definition OPCODE_JO :: u8 where "OPCODE_JO = 0x3E"
(* include/InstructionSet.h 84-84: OPCODE_JNO *)
definition OPCODE_JNO :: u8 where "OPCODE_JNO = 0x3F"
(* include/InstructionSet.h 85-85: OPCODE_LOOP *)
definition OPCODE_LOOP :: u8 where "OPCODE_LOOP = 0x60"
(* include/InstructionSet.h 87-87: OPCODE_HLT *)
definition OPCODE_HLT :: u8 where "OPCODE_HLT = 0x40"
(* include/InstructionSet.h 88-88: OPCODE_IGNI *)
definition OPCODE_IGNI :: u8 where "OPCODE_IGNI = 0x41"
(* include/InstructionSet.h 89-89: OPCODE_ALWI *)
definition OPCODE_ALWI :: u8 where "OPCODE_ALWI = 0x42"
(* include/InstructionSet.h 91-91: OPCODE_IN *)
definition OPCODE_IN :: u8 where "OPCODE_IN = 0x50"
(* include/InstructionSet.h 92-92: OPCODE_OUT *)
definition OPCODE_OUT :: u8 where "OPCODE_OUT = 0x51"
(* include/InstructionSet.h 93-93: OPCODE_INS *)
definition OPCODE_INS :: u8 where "OPCODE_INS = 0x52"
(* include/InstructionSet.h 94-94: OPCODE_OUTS *)
definition OPCODE_OUTS :: u8 where "OPCODE_OUTS = 0x53"

lemmas opcode_defs =
  OPCODE_NOP_def OPCODE_ADD_def OPCODE_ADC_def OPCODE_SUB_def OPCODE_SBB_def OPCODE_IMUL_def
  OPCODE_MUL_def OPCODE_IDIV_def OPCODE_DIV_def OPCODE_NEG_def OPCODE_CMP_def OPCODE_INC_def
  OPCODE_DEC_def OPCODE_AND_def OPCODE_OR_def OPCODE_XOR_def OPCODE_NOT_def OPCODE_SHL_def
  OPCODE_SHR_def OPCODE_ROL_def OPCODE_ROR_def OPCODE_RCL_def OPCODE_RCR_def OPCODE_MOV_def
  OPCODE_XCHG_def OPCODE_PUSH_def OPCODE_POP_def OPCODE_PUSHALL_def OPCODE_POPALL_def
  OPCODE_ENTER_def OPCODE_LEAVE_def OPCODE_MOVS_def OPCODE_LEA_def OPCODE_JMP_def
  OPCODE_CALL_def OPCODE_RET_def OPCODE_JE_def OPCODE_JNE_def OPCODE_JB_def OPCODE_JL_def
  OPCODE_JBE_def OPCODE_JLE_def OPCODE_INT_def OPCODE_INT3_def OPCODE_IRET_def OPCODE_JC_def
  OPCODE_JNC_def OPCODE_JO_def OPCODE_JNO_def OPCODE_LOOP_def OPCODE_HLT_def OPCODE_IGNI_def
  OPCODE_ALWI_def OPCODE_IN_def OPCODE_OUT_def OPCODE_INS_def OPCODE_OUTS_def

section \<open>Prefixes\<close>

text \<open>\<open>_8bit_prefix\<close> and its like are the decimal digits of the width written in BCD.\<close>

(* include/EncodingDecoding.h 65-65: _8bit_prefix *)
definition prefix_8bit :: u8 where "prefix_8bit = 0x08"
(* include/EncodingDecoding.h 67-67: _16bit_prefix *)
definition prefix_16bit :: u8 where "prefix_16bit = 0x16"
(* include/EncodingDecoding.h 69-69: _32bit_prefix *)
definition prefix_32bit :: u8 where "prefix_32bit = 0x32"
(* include/EncodingDecoding.h 71-71: _64bit_prefix *)
definition prefix_64bit :: u8 where "prefix_64bit = 0x64"
(* include/EncodingDecoding.h 74-74: REGISTER_PREFIX *)
definition REGISTER_PREFIX :: u8 where "REGISTER_PREFIX = 0x01"
(* include/EncodingDecoding.h 76-76: CONSTANT_PREFIX *)
definition CONSTANT_PREFIX :: u8 where "CONSTANT_PREFIX = 0x02"
(* include/EncodingDecoding.h 78-78: MEMORY_PREFIX *)
definition MEMORY_PREFIX :: u8 where "MEMORY_PREFIX = 0x03"
(* include/EncodingDecoding.h 81-81: R_StackBase *)
definition R_StackBase :: u8 where "R_StackBase = 0xA0"
(* include/EncodingDecoding.h 83-83: R_StackPointer *)
definition R_StackPointer :: u8 where "R_StackPointer = 0xA1"
(* include/EncodingDecoding.h 85-85: R_CodeBase *)
definition R_CodeBase :: u8 where "R_CodeBase = 0xA2"
(* include/EncodingDecoding.h 87-87: R_DataBase *)
definition R_DataBase :: u8 where "R_DataBase = 0xA3"
(* include/EncodingDecoding.h 89-89: R_DataPointer *)
definition R_DataPointer :: u8 where "R_DataPointer = 0xA4"
(* include/EncodingDecoding.h 91-91: R_ExtendedBase *)
definition R_ExtendedBase :: u8 where "R_ExtendedBase = 0xA5"
(* include/EncodingDecoding.h 93-93: R_ExtendedPointer *)
definition R_ExtendedPointer :: u8 where "R_ExtendedPointer = 0xA6"

lemmas prefix_defs = prefix_8bit_def prefix_16bit_def prefix_32bit_def prefix_64bit_def
  REGISTER_PREFIX_def CONSTANT_PREFIX_def MEMORY_PREFIX_def
  R_StackBase_def R_StackPointer_def R_CodeBase_def R_DataBase_def
  R_DataPointer_def R_ExtendedBase_def R_ExtendedPointer_def

text \<open>The four width prefixes and the number of bytes they stand for.\<close>

definition is_width :: "u8 \<Rightarrow> bool" where
  "is_width w \<longleftrightarrow> w = prefix_8bit \<or> w = prefix_16bit \<or> w = prefix_32bit \<or> w = prefix_64bit"

definition width_bytes :: "u8 \<Rightarrow> nat" where
  "width_bytes w = (if w = prefix_8bit then 1 else if w = prefix_16bit then 2
     else if w = prefix_32bit then 4 else 8)"

lemma prefix_distinct [simp]:
  "prefix_8bit \<noteq> prefix_16bit" "prefix_8bit \<noteq> prefix_32bit" "prefix_8bit \<noteq> prefix_64bit"
  "prefix_16bit \<noteq> prefix_8bit" "prefix_16bit \<noteq> prefix_32bit" "prefix_16bit \<noteq> prefix_64bit"
  "prefix_32bit \<noteq> prefix_8bit" "prefix_32bit \<noteq> prefix_16bit" "prefix_32bit \<noteq> prefix_64bit"
  "prefix_64bit \<noteq> prefix_8bit" "prefix_64bit \<noteq> prefix_16bit" "prefix_64bit \<noteq> prefix_32bit"
  by (simp_all add: prefix_defs)

lemmas special_register_defs = R_StackBase_def R_StackPointer_def R_CodeBase_def R_DataBase_def
  R_DataPointer_def R_ExtendedBase_def R_ExtendedPointer_def

lemma is_width_simps [simp]:
  "is_width prefix_8bit" "is_width prefix_16bit" "is_width prefix_32bit" "is_width prefix_64bit"
  by (simp_all add: is_width_def)

section \<open>The table\<close>

text \<open>
  One entry per mnemonic: the opcode, the number of operands and whether a width byte
  follows the opcode. The map is unordered; the list keeps the order of the initialiser,
  in which \<open>IRET\<close> occurs twice. The groups are those the source separates.
\<close>

record instruction_entry =
  mnemonic :: string
  entry_opcode :: u8
  argument_count :: nat
  require_width :: bool

(* include/InstructionSet.h 97-188: instruction_map *)
definition arithmetic_instructions :: "instruction_entry list" where
  "arithmetic_instructions = [
     \<lparr>mnemonic = ''NOP'', entry_opcode = OPCODE_NOP, argument_count = 0, require_width = False\<rparr>,
     \<lparr>mnemonic = ''ADD'', entry_opcode = OPCODE_ADD, argument_count = 2, require_width = True\<rparr>,
     \<lparr>mnemonic = ''ADC'', entry_opcode = OPCODE_ADC, argument_count = 2, require_width = True\<rparr>,
     \<lparr>mnemonic = ''SUB'', entry_opcode = OPCODE_SUB, argument_count = 2, require_width = True\<rparr>,
     \<lparr>mnemonic = ''SBB'', entry_opcode = OPCODE_SBB, argument_count = 2, require_width = True\<rparr>,
     \<lparr>mnemonic = ''IMUL'', entry_opcode = OPCODE_IMUL, argument_count = 1, require_width = True\<rparr>,
     \<lparr>mnemonic = ''MUL'', entry_opcode = OPCODE_MUL, argument_count = 1, require_width = True\<rparr>,
     \<lparr>mnemonic = ''IDIV'', entry_opcode = OPCODE_IDIV, argument_count = 1, require_width = True\<rparr>,
     \<lparr>mnemonic = ''DIV'', entry_opcode = OPCODE_DIV, argument_count = 1, require_width = True\<rparr>,
     \<lparr>mnemonic = ''NEG'', entry_opcode = OPCODE_NEG, argument_count = 1, require_width = True\<rparr>,
     \<lparr>mnemonic = ''CMP'', entry_opcode = OPCODE_CMP, argument_count = 2, require_width = True\<rparr>,
     \<lparr>mnemonic = ''INC'', entry_opcode = OPCODE_INC, argument_count = 1, require_width = True\<rparr>,
     \<lparr>mnemonic = ''DEC'', entry_opcode = OPCODE_DEC, argument_count = 1, require_width = True\<rparr>]"

(* include/InstructionSet.h 190-260: instruction_map *)
definition logic_instructions :: "instruction_entry list" where
  "logic_instructions = [
     \<lparr>mnemonic = ''AND'', entry_opcode = OPCODE_AND, argument_count = 2, require_width = True\<rparr>,
     \<lparr>mnemonic = ''OR'', entry_opcode = OPCODE_OR, argument_count = 2, require_width = True\<rparr>,
     \<lparr>mnemonic = ''XOR'', entry_opcode = OPCODE_XOR, argument_count = 2, require_width = True\<rparr>,
     \<lparr>mnemonic = ''NOT'', entry_opcode = OPCODE_NOT, argument_count = 1, require_width = True\<rparr>,
     \<lparr>mnemonic = ''SHL'', entry_opcode = OPCODE_SHL, argument_count = 2, require_width = True\<rparr>,
     \<lparr>mnemonic = ''SHR'', entry_opcode = OPCODE_SHR, argument_count = 2, require_width = True\<rparr>,
     \<lparr>mnemonic = ''ROL'', entry_opcode = OPCODE_ROL, argument_count = 2, require_width = True\<rparr>,
     \<lparr>mnemonic = ''ROR'', entry_opcode = OPCODE_ROR, argument_count = 2, require_width = True\<rparr>,
     \<lparr>mnemonic = ''RCL'', entry_opcode = OPCODE_RCL, argument_count = 2, require_width = True\<rparr>,
     \<lparr>mnemonic = ''RCR'', entry_opcode = OPCODE_RCR, argument_count = 2, require_width = True\<rparr>]"

(* include/InstructionSet.h 262-332: instruction_map *)
definition data_instructions :: "instruction_entry list" where
  "data_instructions = [
     \<lparr>mnemonic = ''MOV'', entry_opcode = OPCODE_MOV, argument_count = 2, require_width = True\<rparr>,
     \<lparr>mnemonic = ''XCHG'', entry_opcode = OPCODE_XCHG, argument_count = 2, require_width = True\<rparr>,
     \<lparr>mnemonic = ''PUSH'', entry_opcode = OPCODE_PUSH, argument_count = 1, require_width = True\<rparr>,
     \<lparr>mnemonic = ''POP'', entry_opcode = OPCODE_POP, argument_count = 1, require_width = True\<rparr>,
     \<lparr>mnemonic = ''PUSHALL'', entry_opcode = OPCODE_PUSHALL, argument_count = 0, require_width = False\<rparr>,
     \<lparr>mnemonic = ''POPALL'', entry_opcode = OPCODE_POPALL, argument_count = 0, require_width = False\<rparr>,
     \<lparr>mnemonic = ''ENTER'', entry_opcode = OPCODE_ENTER, argument_count = 1, require_width = True\<rparr>,
     \<lparr>mnemonic = ''LEAVE'', entry_opcode = OPCODE_LEAVE, argument_count = 0, require_width = False\<rparr>,
     \<lparr>mnemonic = ''MOVS'', entry_opcode = OPCODE_MOVS, argument_count = 0, require_width = False\<rparr>,
     \<lparr>mnemonic = ''LEA'', entry_opcode = OPCODE_LEA, argument_count = 2, require_width = False\<rparr>]"

(* include/InstructionSet.h 334-460: instruction_map *)
definition control_instructions :: "instruction_entry list" where
  "control_instructions = [
     \<lparr>mnemonic = ''JMP'', entry_opcode = OPCODE_JMP, argument_count = 2, require_width = False\<rparr>,
     \<lparr>mnemonic = ''CALL'', entry_opcode = OPCODE_CALL, argument_count = 2, require_width = False\<rparr>,
     \<lparr>mnemonic = ''RET'', entry_opcode = OPCODE_RET, argument_count = 0, require_width = False\<rparr>,
     \<lparr>mnemonic = ''JE'', entry_opcode = OPCODE_JE, argument_count = 2, require_width = False\<rparr>,
     \<lparr>mnemonic = ''JNE'', entry_opcode = OPCODE_JNE, argument_count = 2, require_width = False\<rparr>,
     \<lparr>mnemonic = ''JB'', entry_opcode = OPCODE_JB, argument_count = 2, require_width = False\<rparr>,
     \<lparr>mnemonic = ''JL'', entry_opcode = OPCODE_JL, argument_count = 2, require_width = False\<rparr>,
     \<lparr>mnemonic = ''JBE'', entry_opcode = OPCODE_JBE, argument_count = 2, require_width = False\<rparr>,
     \<lparr>mnemonic = ''JLE'', entry_opcode = OPCODE_JLE, argument_count = 2, require_width = False\<rparr>,
     \<lparr>mnemonic = ''INT'', entry_opcode = OPCODE_INT, argument_count = 1, require_width = False\<rparr>,
     \<lparr>mnemonic = ''INT3'', entry_opcode = OPCODE_INT3, argument_count = 0, require_width = False\<rparr>,
     \<lparr>mnemonic = ''IRET'', entry_opcode = OPCODE_IRET, argument_count = 0, require_width = False\<rparr>,
     \<lparr>mnemonic = ''JC'', entry_opcode = OPCODE_JC, argument_count = 2, require_width = False\<rparr>,
     \<lparr>mnemonic = ''JNC'', entry_opcode = OPCODE_JNC, argument_count = 2, require_width = False\<rparr>,
     \<lparr>mnemonic = ''JO'', entry_opcode = OPCODE_JO, argument_count = 2, require_width = False\<rparr>,
     \<lparr>mnemonic = ''JNO'', entry_opcode = OPCODE_JNO, argument_count = 2, require_width = False\<rparr>,
     \<lparr>mnemonic = ''IRET'', entry_opcode = OPCODE_IRET, argument_count = 0, require_width = False\<rparr>,
     \<lparr>mnemonic = ''LOOP'', entry_opcode = OPCODE_LOOP, argument_count = 2, require_width = False\<rparr>]"

(* include/InstructionSet.h 462-483: instruction_map *)
definition misc_instructions :: "instruction_entry list" where
  "misc_instructions = [
     \<lparr>mnemonic = ''HLT'', entry_opcode = OPCODE_HLT, argument_count = 0, require_width = False\<rparr>,
     \<lparr>mnemonic = ''IGNI'', entry_opcode = OPCODE_IGNI, argument_count = 0, require_width = False\<rparr>,
     \<lparr>mnemonic = ''ALWI'', entry_opcode = OPCODE_ALWI, argument_count = 0, require_width = False\<rparr>]"

(* include/InstructionSet.h 485-513: instruction_map *)
definition io_instructions :: "instruction_entry list" where
  "io_instructions = [
     \<lparr>mnemonic = ''IN'', entry_opcode = OPCODE_IN, argument_count = 2, require_width = True\<rparr>,
     \<lparr>mnemonic = ''OUT'', entry_opcode = OPCODE_OUT, argument_count = 2, require_width = True\<rparr>,
     \<lparr>mnemonic = ''INS'', entry_opcode = OPCODE_INS, argument_count = 1, require_width = True\<rparr>,
     \<lparr>mnemonic = ''OUTS'', entry_opcode = OPCODE_OUTS, argument_count = 1, require_width = True\<rparr>]"

definition instruction_map :: "instruction_entry list" where
  "instruction_map = arithmetic_instructions @ logic_instructions @ data_instructions
     @ control_instructions @ misc_instructions @ io_instructions"

lemmas instruction_table_defs = instruction_map_def arithmetic_instructions_def logic_instructions_def
  data_instructions_def control_instructions_def misc_instructions_def io_instructions_def

text \<open>The search loop of the decoders: the first entry with the opcode.\<close>

definition find_opcode :: "u8 \<Rightarrow> instruction_entry option" where
  "find_opcode opc = List.find (\<lambda>e. entry_opcode e = opc) instruction_map"

definition find_mnemonic :: "string \<Rightarrow> instruction_entry option" where
  "find_mnemonic m = List.find (\<lambda>e. mnemonic e = m) instruction_map"

section \<open>Consistency of the table\<close>

lemma distinct_opcodes: "distinct (map entry_opcode (remdups instruction_map))"
  by code_simp

lemma distinct_mnemonics: "distinct (map mnemonic (remdups instruction_map))"
  by code_simp

lemma distinct_map_inj:
  "distinct (map f xs) \<Longrightarrow> x \<in> set xs \<Longrightarrow> y \<in> set xs \<Longrightarrow> f x = f y \<Longrightarrow> x = y"
  by (simp add: distinct_map inj_on_def)

lemma find_unique:
  assumes "x \<in> set xs" and "P x" and "\<And>y. y \<in> set xs \<Longrightarrow> P y \<Longrightarrow> y = x"
  shows "List.find P xs = Some x"
proof (cases "List.find P xs")
  case None
  then show ?thesis using assms(1,2) by (simp add: find_None_iff)
next
  case (Some y)
  then have "y \<in> set xs" and "P y" by (auto simp: find_Some_iff)
  with Some assms(3) show ?thesis by simp
qed

text \<open>
  In the instruction table an opcode stands for one instruction and a mnemonic for one
  opcode. So the search of the decoder, which walks an unordered map, does not depend on the
  order, and encoding a mnemonic and decoding the opcode gives the same entry back.
\<close>

theorem instruction_table_unambiguous:
  assumes "e \<in> set instruction_map"
  shows "find_opcode (entry_opcode e) = Some e \<and> find_mnemonic (mnemonic e) = Some e
    \<and> (\<forall>e'\<in>set instruction_map. entry_opcode e' = entry_opcode e \<or> mnemonic e' = mnemonic e
          \<longrightarrow> e' = e)"
proof -
  have uo: "e' = e" if "e' \<in> set instruction_map" "entry_opcode e' = entry_opcode e" for e'
    using distinct_map_inj [OF distinct_opcodes] that assms by simp
  have um: "e' = e" if "e' \<in> set instruction_map" "mnemonic e' = mnemonic e" for e'
    using distinct_map_inj [OF distinct_mnemonics] that assms by simp
  have "find_opcode (entry_opcode e) = Some e"
    unfolding find_opcode_def using assms uo by (intro find_unique) auto
  moreover have "find_mnemonic (mnemonic e) = Some e"
    unfolding find_mnemonic_def using assms um by (intro find_unique) auto
  ultimately show ?thesis using uo um by blast
qed

theorem instruction_table_unambiguous_witness:
  "find_opcode 0x20 = Some \<lparr>mnemonic = ''MOV'', entry_opcode = OPCODE_MOV, argument_count = 2,
     require_width = True\<rparr>"
proof -
  have "\<lparr>mnemonic = ''MOV'', entry_opcode = OPCODE_MOV, argument_count = 2, require_width = True\<rparr>
      \<in> set instruction_map"
    by (simp add: instruction_map_def data_instructions_def)
  from instruction_table_unambiguous [OF this, THEN conjunct1] show ?thesis
    by (simp add: OPCODE_MOV_def)
qed

end
