(* ===== verification/Operand_Decoder.thy ===== *)
theory Operand_Decoder
  imports Sysdarft_Register Curses_UI Instruction_Set
begin

text \<open>
  The instruction decoder of the CPU (\<open>include/SysdarftCPUDecoder.h\<close>,
  \<open>cpu/SysdarftCPUDecoder.cpp\<close>): fetching code bytes, decoding register, constant and
  memory operands, reading and writing an operand, and decoding a whole instruction. It is
  the release build, without \<open>__DEBUG__\<close>; the literals of the operands, which only that
  build prints, are left out.
\<close>

section \<open>State\<close>

text \<open>\<open>DecoderDataAccess\<close> joins the register file with the memory and the display.\<close>

(* include/SysdarftCPUDecoder.h 77-82: DecoderDataAccess *)
record decoder_state = ui_state +
  Registers :: sysdarft_register_t

definition load :: "(sysdarft_register_t \<Rightarrow> 'a) \<Rightarrow> ('z decoder_state_scheme, 'a) run" where
  "load f = getR (\<lambda>s. f (Registers s))"

definition store :: "(sysdarft_register_t \<Rightarrow> sysdarft_register_t) \<Rightarrow> ('z decoder_state_scheme, unit) run" where
  "store f = modifyR (\<lambda>s. s\<lparr>Registers := f (Registers s)\<rparr>)"

section \<open>Fetching code\<close>

(* include/SysdarftCPUDecoder.h 84-93: pop_code_and_inc_ip *)
definition pop_code :: "nat \<Rightarrow> ('z decoder_state_scheme, u8 list) run" where
  "pop_code n =
     bindR (load CodeBase) (\<lambda>CB.
     bindR (load InstructionPointer) (\<lambda>IP.
     bindR (pop_memory_from n CB IP) (\<lambda>(result, IP').
     thenR (store (\<lambda>r. r\<lparr>InstructionPointer := IP'\<rparr>)) (returnR result))))"

(* include/SysdarftCPUDecoder.h 95-97: pop_code8 *)
definition pop_code8 :: "('z decoder_state_scheme, u8) run" where
  "pop_code8 = bindR (pop_code 1) (\<lambda>bs. returnR (word_of_bytes bs))"

(* include/SysdarftCPUDecoder.h 99-101: pop_code16 *)
definition pop_code16 :: "('z decoder_state_scheme, u16) run" where
  "pop_code16 = bindR (pop_code 2) (\<lambda>bs. returnR (word_of_bytes bs))"

(* include/SysdarftCPUDecoder.h 103-105: pop_code32 *)
definition pop_code32 :: "('z decoder_state_scheme, u32) run" where
  "pop_code32 = bindR (pop_code 4) (\<lambda>bs. returnR (word_of_bytes bs))"

(* include/SysdarftCPUDecoder.h 107-109: pop_code64 *)
definition pop_code64 :: "('z decoder_state_scheme, u64) run" where
  "pop_code64 = bindR (pop_code 8) (\<lambda>bs. returnR (word_of_bytes bs))"

section \<open>Operands\<close>

text \<open>
  \<open>OperandReferenceTable\<close> after a successful decode, by its kind: a register (width and
  index byte), a constant with its width, or a memory cell with its computed address and
  width. A table whose kind is \<open>NaO\<close> never leaves the constructor.
\<close>

(* include/SysdarftCPUDecoder.h 115-144: OperandType *)
datatype operand =
    RegisterOperand (RegisterWidthBCD: u8) (RegisterIndex: u8)
  | ConstantOperand (ConstantValue: u64) (ConstantWidth: u8)
  | MemoryOperand (MemoryAddress: u64) (MemoryWidthBCD: u8)

text \<open>Raising the error of a register access, or going on with its value.\<close>

definition liftE :: "cpu_error + 'a \<Rightarrow> ('s, 'a) run" where
  "liftE x = (case x of Inl e \<Rightarrow> throwR e | Inr v \<Rightarrow> returnR v)"

definition map_result :: "('a \<Rightarrow> 'b) \<Rightarrow> cpu_error + 'a \<Rightarrow> cpu_error + 'b" where
  "map_result f x = (case x of Inl e \<Rightarrow> Inl e | Inr v \<Rightarrow> Inr (f v))"

(* cpu/SysdarftCPUDecoder.cpp 27-95: do_access_register_based_on_table *)
definition do_access_register_based_on_table :: "u8 \<Rightarrow> u8 \<Rightarrow> sysdarft_register_t \<Rightarrow> cpu_error + u64" where
  "do_access_register_based_on_table width idx r =
     (if width = prefix_8bit then
        if unat idx < 8 then map_result ucast (load_Register (unat idx) r)
        else Inl IllegalInstruction
      else if width = prefix_16bit then
        if unat idx < 8 then map_result ucast (load_ExtendedRegister (unat idx) r)
        else Inl IllegalInstruction
      else if width = prefix_32bit then
        if unat idx < 8 then map_result ucast (load_HalfExtendedRegister (unat idx) r)
        else Inl IllegalInstruction
      else if width = prefix_64bit then
        if unat idx < 16 then load_FullyExtendedRegister (unat idx) r
        else if idx = R_StackBase then Inr (StackBase r)
        else if idx = R_StackPointer then Inr (StackPointer r)
        else if idx = R_CodeBase then Inr (CodeBase r)
        else if idx = R_DataBase then Inr (DataBase r)
        else if idx = R_DataPointer then Inr (DataPointer r)
        else if idx = R_ExtendedBase then Inr (ExtendedBase r)
        else if idx = R_ExtendedPointer then Inr (ExtendedPointer r)
        else Inl IllegalInstruction
      else Inl IllegalInstruction)"

(* cpu/SysdarftCPUDecoder.cpp 360-432: store_value_to_register_based_on_table *)
definition store_value_to_register_based_on_table ::
    "u8 \<Rightarrow> u8 \<Rightarrow> u64 \<Rightarrow> sysdarft_register_t \<Rightarrow> cpu_error + sysdarft_register_t" where
  "store_value_to_register_based_on_table width idx v r =
     (if width = prefix_8bit then
        if unat idx < 8 then store_Register (unat idx) (ucast v) r
        else Inl IllegalInstruction
      else if width = prefix_16bit then
        if unat idx < 8 then store_ExtendedRegister (unat idx) (ucast v) r
        else Inl IllegalInstruction
      else if width = prefix_32bit then
        if unat idx < 8 then store_HalfExtendedRegister (unat idx) (ucast v) r
        else Inl IllegalInstruction
      else if width = prefix_64bit then
        if unat idx < 16 then store_FullyExtendedRegister (unat idx) v r
        else if idx = R_StackBase then Inr (r\<lparr>StackBase := v\<rparr>)
        else if idx = R_StackPointer then Inr (r\<lparr>StackPointer := v\<rparr>)
        else if idx = R_CodeBase then Inr (r\<lparr>CodeBase := v\<rparr>)
        else if idx = R_DataBase then Inr (r\<lparr>DataBase := v\<rparr>)
        else if idx = R_DataPointer then Inr (r\<lparr>DataPointer := v\<rparr>)
        else if idx = R_ExtendedBase then Inr (r\<lparr>ExtendedBase := v\<rparr>)
        else if idx = R_ExtendedPointer then Inr (r\<lparr>ExtendedPointer := v\<rparr>)
        else Inl IllegalInstruction
      else Inl IllegalInstruction)"

definition read_register :: "u8 \<Rightarrow> u8 \<Rightarrow> ('z decoder_state_scheme, u64) run" where
  "read_register width idx =
     bindR (load (do_access_register_based_on_table width idx)) liftE"

definition write_register :: "u8 \<Rightarrow> u8 \<Rightarrow> u64 \<Rightarrow> ('z decoder_state_scheme, unit) run" where
  "write_register width idx v =
     bindR (bindR (load (store_value_to_register_based_on_table width idx v)) liftE)
       (\<lambda>r. store (\<lambda>_. r))"

subsection \<open>Decoding\<close>

(* cpu/SysdarftCPUDecoder.cpp 97-130: do_decode_register_without_prefix *)
definition do_decode_register_without_prefix :: "('z decoder_state_scheme, u8 \<times> u8) run" where
  "do_decode_register_without_prefix =
     bindR pop_code8 (\<lambda>width. bindR pop_code8 (\<lambda>register_index. returnR (width, register_index)))"

(* cpu/SysdarftCPUDecoder.cpp 132-174: do_decode_constant_without_prefix *)
definition do_decode_constant_without_prefix :: "('z decoder_state_scheme, u64 \<times> u8) run" where
  "do_decode_constant_without_prefix =
     bindR pop_code8 (\<lambda>prefix.
     bindR (if prefix = prefix_8bit then bindR pop_code8 (\<lambda>n. returnR (ucast n))
            else if prefix = prefix_16bit then bindR pop_code16 (\<lambda>n. returnR (ucast n))
            else if prefix = prefix_32bit then bindR pop_code32 (\<lambda>n. returnR (ucast n))
            else if prefix = prefix_64bit then pop_code64
            else throwR IllegalInstruction)
       (\<lambda>num. returnR (num, prefix)))"

(* cpu/SysdarftCPUDecoder.cpp 176-191: check_msb *)
definition check_msb :: "'a::len word \<Rightarrow> bool" where
  "check_msb data \<longleftrightarrow> drop_bit (LENGTH('a) - 1) data AND 1 = 1"

(* cpu/SysdarftCPUDecoder.cpp 193-210: convert_to_64bit_signed *)
definition convert_to_64bit_signed :: "'a::len word \<Rightarrow> u64" where
  "convert_to_64bit_signed data =
     ucast data OR (if LENGTH('a) = 8 then 0xFFFFFFFFFFFFFF00
       else if LENGTH('a) = 16 then 0xFFFFFFFFFFFF0000
       else if LENGTH('a) = 32 then 0xFFFFFFFF00000000 else 0)"

text \<open>
  The second offset, signed at the width it was given in. The 64-bit word stands for the
  \<open>int64_t\<close>: the sum it enters is computed modulo 2^64.
\<close>

(* cpu/SysdarftCPUDecoder.cpp 252-259: do_decode_memory_without_prefix, off2 *)
definition signed_offset :: "u8 \<Rightarrow> u64 \<Rightarrow> cpu_error + u64" where
  "signed_offset width val =
     (if width = prefix_8bit then
        Inr (if check_msb (ucast val :: u8) then convert_to_64bit_signed (ucast val :: u8) else val)
      else if width = prefix_16bit then
        Inr (if check_msb (ucast val :: u16) then convert_to_64bit_signed (ucast val :: u16) else val)
      else if width = prefix_32bit then
        Inr (if check_msb (ucast val :: u32) then convert_to_64bit_signed (ucast val :: u32) else val)
      else if width = prefix_64bit then
        Inr (if check_msb val then convert_to_64bit_signed val else val)
      else Inl IllegalInstruction)"

(* cpu/SysdarftCPUDecoder.cpp 219-240: decode_each_parameter *)
definition decode_each_parameter :: "('z decoder_state_scheme, u64) run" where
  "decode_each_parameter =
     bindR pop_code8 (\<lambda>prefix.
     if prefix = REGISTER_PREFIX then
       bindR do_decode_register_without_prefix (\<lambda>(width, idx). read_register width idx)
     else if prefix = CONSTANT_PREFIX then
       bindR do_decode_constant_without_prefix (\<lambda>(num, _). returnR num)
     else throwR IllegalInstruction)"

(* cpu/SysdarftCPUDecoder.cpp 246-280: do_decode_memory_without_prefix, third parameter *)
definition decode_signed_parameter :: "('z decoder_state_scheme, u64) run" where
  "decode_signed_parameter =
     bindR pop_code8 (\<lambda>prefix.
     if prefix = REGISTER_PREFIX then
       bindR do_decode_register_without_prefix (\<lambda>(width, idx).
       bindR (read_register width idx) (\<lambda>val. liftE (signed_offset width val)))
     else if prefix = CONSTANT_PREFIX then
       bindR do_decode_constant_without_prefix (\<lambda>(val, width). liftE (signed_offset width val))
     else throwR IllegalInstruction)"

(* cpu/SysdarftCPUDecoder.cpp 282-292: do_decode_memory_without_prefix, ratio *)
definition decode_ratio :: "u8 \<Rightarrow> cpu_error + u64" where
  "decode_ratio ratio_bcd =
     (if ratio_bcd = 0x01 then Inr 1 else if ratio_bcd = 0x02 then Inr 2
      else if ratio_bcd = 0x04 then Inr 4 else if ratio_bcd = 0x08 then Inr 8
      else if ratio_bcd = 0x16 then Inr 16 else Inl IllegalInstruction)"

(* cpu/SysdarftCPUDecoder.cpp 212-318: do_decode_memory_without_prefix *)
definition do_decode_memory_without_prefix :: "('z decoder_state_scheme, operand) run" where
  "do_decode_memory_without_prefix =
     bindR pop_code8 (\<lambda>WidthBCD.
     bindR decode_each_parameter (\<lambda>base.
     bindR decode_each_parameter (\<lambda>off1.
     bindR decode_signed_parameter (\<lambda>off2.
     bindR pop_code8 (\<lambda>ratio_bcd.
     bindR (liftE (decode_ratio ratio_bcd)) (\<lambda>ratio.
     let calculated_address = (base + off1 + off2) * ratio
     in if \<not> is_width WidthBCD then throwR IllegalInstruction
        else returnR (MemoryOperand calculated_address WidthBCD)))))))"

(* cpu/SysdarftCPUDecoder.cpp 320-339: do_decode_operand *)
definition do_decode_operand :: "('z decoder_state_scheme, operand) run" where
  "do_decode_operand =
     bindR pop_code8 (\<lambda>prefix.
     if prefix = REGISTER_PREFIX then
       bindR do_decode_register_without_prefix (\<lambda>(w, i). returnR (RegisterOperand w i))
     else if prefix = CONSTANT_PREFIX then
       bindR do_decode_constant_without_prefix (\<lambda>(n, w). returnR (ConstantOperand n w))
     else if prefix = MEMORY_PREFIX then do_decode_memory_without_prefix
     else throwR IllegalInstruction)"

subsection \<open>Access\<close>

(* include/SysdarftCPUDecoder.h 148-164: do_access_width_specified_access_memory_based_on_table *)
definition do_access_memory :: "u64 \<Rightarrow> u8 \<Rightarrow> ('z decoder_state_scheme, u64) run" where
  "do_access_memory addr width =
     (if \<not> is_width width then throwR IllegalInstruction
      else bindR (pop_memory_from (width_bytes width) 0 addr) (\<lambda>(bs, _). returnR (word_of_bytes bs)))"

(* cpu/SysdarftCPUDecoder.cpp 341-349: do_access_operand_based_on_table *)
fun get_val :: "operand \<Rightarrow> ('z decoder_state_scheme, u64) run" where
  "get_val (RegisterOperand w i) = read_register w i"
| "get_val (MemoryOperand a w) = do_access_memory a w"
| "get_val (ConstantOperand v w) = returnR v"

(* include/SysdarftCPUDecoder.h 179-179: get_effective_addr *)
fun get_effective_addr :: "operand \<Rightarrow> u64" where
  "get_effective_addr (MemoryOperand a w) = a"
| "get_effective_addr (RegisterOperand w i) = 0"
| "get_effective_addr (ConstantOperand v w) = 0"

(* cpu/SysdarftCPUDecoder.cpp 434-450: store_value_to_memory_based_on_table *)
definition store_value_to_memory :: "u64 \<Rightarrow> u8 \<Rightarrow> u64 \<Rightarrow> ('z decoder_state_scheme, unit) run" where
  "store_value_to_memory addr width v =
     (if \<not> is_width width then throwR IllegalInstruction
      else write_memory addr (word_to_bytes 8 v) (of_nat (width_bytes width)))"

(* cpu/SysdarftCPUDecoder.cpp 351-358: store_value_to_operand_based_on_table *)
fun set_val :: "operand \<Rightarrow> u64 \<Rightarrow> ('z decoder_state_scheme, unit) run" where
  "set_val (RegisterOperand w i) v = write_register w i v"
| "set_val (MemoryOperand a w) v = store_value_to_memory a w v"
| "set_val (ConstantOperand c w) v = throwR IllegalInstruction"

section \<open>Instructions\<close>

(* include/SysdarftCPUDecoder.h 279-290: ActiveInstructionType *)
record active_instruction =
  opcode :: u8
  width :: u8
  operands :: "operand list"

fun decode_operands :: "nat \<Rightarrow> ('z decoder_state_scheme, operand list) run" where
  "decode_operands 0 = returnR []"
| "decode_operands (Suc n) =
     bindR do_decode_operand (\<lambda>x. bindR (decode_operands n) (\<lambda>xs. returnR (x # xs)))"

(* cpu/SysdarftCPUDecoder.cpp 452-517: pop_instruction_from_ip_and_increase_ip *)
definition pop_instruction_from_ip_and_increase_ip ::
    "('z decoder_state_scheme, active_instruction) run" where
  "pop_instruction_from_ip_and_increase_ip =
     bindR pop_code8 (\<lambda>instruction.
     case find_opcode instruction of
       None \<Rightarrow> throwR IllegalInstruction
     | Some e \<Rightarrow>
         bindR (if require_width e
                then bindR pop_code8 (\<lambda>w. if is_width w then returnR w else throwR IllegalInstruction)
                else returnR 0) (\<lambda>w.
         bindR (decode_operands (argument_count e)) (\<lambda>ops.
         returnR \<lparr>opcode = instruction, width = w, operands = ops\<rparr>)))"

section \<open>Runs of register and code accesses\<close>

lemma load_run [run_simps, simp]: "load f s = (Inr (f (Registers s)), s)"
  by (simp add: load_def)

lemma store_run [run_simps, simp]: "store f s = (Inr (), s\<lparr>Registers := f (Registers s)\<rparr>)"
  by (simp add: store_def)

lemma bindR_load_run [run_simps, simp]: "bindR (load f) k s = k (f (Registers s)) s"
  by (simp add: bindR_def)

lemma thenR_store_run [run_simps, simp]:
  "thenR (store f) k s = k (s\<lparr>Registers := f (Registers s)\<rparr>)"
  by (simp add: thenR_def bindR_def)

lemma liftE_simps [run_simps, simp]: "liftE (Inr v) = returnR v" "liftE (Inl e) = throwR e"
  by (simp_all add: liftE_def)

lemma map_result_simps [simp]: "map_result f (Inr v) = Inr (f v)" "map_result f (Inl e) = Inl e"
  by (simp_all add: map_result_def)

lemma map_result_eq_Inr [simp]: "map_result f x = Inr y \<longleftrightarrow> (\<exists>v. x = Inr v \<and> y = f v)"
  by (auto simp: map_result_def split: sum.split)

lemma flat_Registers_update [simp]:
  "flat (s\<lparr>Registers := r\<rparr>) = flat s" "mem_inv (s\<lparr>Registers := r\<rparr>) = mem_inv s"
  by (simp_all add: fun_eq_iff flat_def mem_inv_def)

text \<open>
  \<open>code_at s bs\<close>: the bytes \<open>bs\<close> are the next code to fetch; \<open>advance n s\<close> moves the
  instruction pointer past \<open>n\<close> of them.
\<close>

definition code_address :: "'z decoder_state_scheme \<Rightarrow> nat" where
  "code_address s = unat (CodeBase (Registers s)) + unat (InstructionPointer (Registers s))"

definition code_at :: "'z decoder_state_scheme \<Rightarrow> u8 list \<Rightarrow> bool" where
  "code_at s bs \<longleftrightarrow> mem_inv s \<and> code_address s + length bs \<le> unat (TotalMemory s)
     \<and> map (flat s) [code_address s..<code_address s + length bs] = bs"

definition advance :: "nat \<Rightarrow> 'z decoder_state_scheme \<Rightarrow> 'z decoder_state_scheme" where
  "advance n s = s\<lparr>Registers := (Registers s)
     \<lparr>InstructionPointer := InstructionPointer (Registers s) + of_nat n\<rparr>\<rparr>"

lemma advance_simps [simp]:
  "advance 0 s = s" "advance m (advance n s) = advance (n + m) s"
  "flat (advance n s) = flat s" "mem_inv (advance n s) = mem_inv s"
  "TotalMemory (advance n s) = TotalMemory s" "Memory (advance n s) = Memory s"
  "CodeBase (Registers (advance n s)) = CodeBase (Registers s)"
  by (simp_all add: advance_def add.assoc)

lemma Registers_advance:
  "Registers (advance n s) = (Registers s)
     \<lparr>InstructionPointer := InstructionPointer (Registers s) + of_nat n\<rparr>"
  by (simp add: advance_def)

lemma code_at_Nil [simp]: "code_at s bs \<Longrightarrow> code_at s []"
  by (simp add: code_at_def)

lemma code_address_advance:
  assumes "mem_inv s" and "code_address s + n \<le> unat (TotalMemory s)"
  shows "code_address (advance n s) = code_address s + n"
proof -
  have "unat (InstructionPointer (Registers s)) + n < 2 ^ 64" and n: "n < 2 ^ 64"
    using assms by (simp_all add: mem_inv_def code_address_def)
  then have "unat (InstructionPointer (Registers s) + of_nat n)
      = unat (InstructionPointer (Registers s)) + n"
    by (simp add: unat_plus_no_wrap unat_of_nat_u64)
  then show ?thesis by (simp add: code_address_def advance_def)
qed

lemma code_at_append:
  assumes "code_at s (xs @ ys)"
  shows "code_at s xs" and "code_at (advance (length xs) s) ys"
proof -
  let ?a = "code_address s"
  have inv: "mem_inv s" and le: "?a + length xs + length ys \<le> unat (TotalMemory s)"
    and bytes: "map (flat s) [?a..<?a + length xs + length ys] = xs @ ys"
    using assms by (simp_all add: code_at_def add.assoc)
  have "map (flat s) [?a..<?a + length xs] @ map (flat s) [?a + length xs..<?a + length xs + length ys]
      = xs @ ys"
    unfolding bytes [symmetric] by (rule map_upt_append) simp_all
  then have b: "map (flat s) [?a..<?a + length xs] = xs"
    "map (flat s) [?a + length xs..<?a + length xs + length ys] = ys"
    by (simp_all add: append_eq_append_conv)
  show "code_at s xs" using inv le b by (simp add: code_at_def)
  have "code_address (advance (length xs) s) = ?a + length xs"
    using inv le by (intro code_address_advance) simp_all
  with inv le b show "code_at (advance (length xs) s) ys" by (simp add: code_at_def)
qed

lemma pop_code_at:
  assumes "code_at s bs" and "bs \<noteq> []"
  shows "pop_code (length bs) s = (Inr bs, advance (length bs) s)"
proof -
  let ?r = "Registers s"
  have "mem_inv s" and "map (flat s) [code_address s..<code_address s + length bs] = bs"
    and "code_address s + length bs \<le> unat (TotalMemory s)"
    using assms(1) by (simp_all add: code_at_def)
  with assms(2) have "pop_memory_from (length bs) (CodeBase ?r) (InstructionPointer ?r) s
      = (Inr (bs, InstructionPointer ?r + of_nat (length bs)), s)"
    using pop_memory_from_ok [of s "length bs" "CodeBase ?r" "InstructionPointer ?r"]
    by (simp add: code_address_def)
  then show ?thesis
    by (simp add: pop_code_def bindR_def advance_def returnR_def)
qed

text \<open>Fetching a value of 1, 2, 4 or 8 bytes; the rest of the code is what follows.\<close>

lemma pop_code8_at:
  assumes "code_at s (b # bs)"
  shows "pop_code8 s = (Inr b, advance 1 s)" and "code_at (advance 1 s) bs"
  using code_at_append [of s "[b]" bs] pop_code_at [of s "[b]"] assms
  by (simp_all add: pop_code8_def bindR_def returnR_def)

lemma pop_code16_at:
  assumes "code_at s (word_to_bytes 2 (w :: u16) @ bs)"
  shows "pop_code16 s = (Inr w, advance 2 s)" and "code_at (advance 2 s) bs"
  using code_at_append [OF assms] pop_code_at [of s "word_to_bytes 2 w"]
  by (simp_all add: pop_code16_def bindR_def returnR_def)

lemma pop_code32_at:
  assumes "code_at s (word_to_bytes 4 (w :: u32) @ bs)"
  shows "pop_code32 s = (Inr w, advance 4 s)" and "code_at (advance 4 s) bs"
  using code_at_append [OF assms] pop_code_at [of s "word_to_bytes 4 w"]
  by (simp_all add: pop_code32_def bindR_def returnR_def)

lemma pop_code64_at:
  assumes "code_at s (word_to_bytes 8 (w :: u64) @ bs)"
  shows "pop_code64 s = (Inr w, advance 8 s)" and "code_at (advance 8 s) bs"
  using code_at_append [OF assms] pop_code_at [of s "word_to_bytes 8 w"]
  by (simp_all add: pop_code64_def bindR_def returnR_def)

section \<open>The second offset is sign-extended\<close>

lemma check_msb_iff: "check_msb w \<longleftrightarrow> bit w (LENGTH('a) - 1)" for w :: "'a::len word"
  by (simp add: check_msb_def and_one_eq bit_iff_odd_drop_bit odd_iff_mod_2_eq_one)

lemma convert_to_64bit_signed_eq:
  fixes w :: "'a::len word"
  assumes "LENGTH('a) \<in> {8, 16, 32}"
  shows "convert_to_64bit_signed w = ucast w OR NOT (mask LENGTH('a))"
proof -
  have m: "(0xFFFFFFFFFFFFFF00 :: u64) = NOT (mask 8)" "(0xFFFFFFFFFFFF0000 :: u64) = NOT (mask 16)"
    "(0xFFFFFFFF00000000 :: u64) = NOT (mask 32)" by (simp_all add: mask_eq_exp_minus_1)
  show ?thesis unfolding convert_to_64bit_signed_def m using assms by auto
qed

lemma sign_extend_cases:
  fixes w :: "'a::len word"
  assumes "LENGTH('a) \<in> {8, 16, 32}"
  shows "(if check_msb w then convert_to_64bit_signed w else ucast w) = (scast w :: u64)"
proof (rule bit_word_eqI)
  fix n
  assume n: "n < LENGTH(64)"
  have top: "n < LENGTH('a) \<Longrightarrow> LENGTH('a) - 1 \<le> n \<Longrightarrow> n = LENGTH('a) - 1"
    by linarith
  have s: "bit (scast w :: u64) n \<longleftrightarrow> bit w (min (LENGTH('a) - 1) n)"
    using n by (simp add: bit_signed_iff)
  show "bit (if check_msb w then convert_to_64bit_signed w else ucast w) n
      = bit (scast w :: u64) n"
    unfolding s convert_to_64bit_signed_eq [OF assms] using n top bit_imp_le_length [of w n]
    by (auto simp: check_msb_iff bit_or_iff bit_not_iff bit_mask_iff bit_ucast_iff min_def
        dest: bit_imp_le_length)
qed

lemma signed_offset_widths:
  "signed_offset prefix_8bit (ucast (a :: u8)) = Inr (scast a)
   \<and> signed_offset prefix_16bit (ucast (b :: u16)) = Inr (scast b)
   \<and> signed_offset prefix_32bit (ucast (c :: u32)) = Inr (scast c)
   \<and> signed_offset prefix_64bit d = Inr d"
proof -
  have [simp]: "ucast (ucast x :: u64) = x" for x :: u8
    by (rule bit_word_eqI) (simp add: bit_ucast_iff)
  have [simp]: "ucast (ucast x :: u64) = x" for x :: u16
    by (rule bit_word_eqI) (simp add: bit_ucast_iff)
  have [simp]: "ucast (ucast x :: u64) = x" for x :: u32
    by (rule bit_word_eqI) (simp add: bit_ucast_iff)
  have "convert_to_64bit_signed d = d" by (simp add: convert_to_64bit_signed_def)
  then have "signed_offset prefix_64bit d = Inr d" by (simp add: signed_offset_def)
  moreover have "signed_offset prefix_8bit (ucast a) = Inr (scast a)"
    using sign_extend_cases [of a] by (simp add: signed_offset_def split: if_splits)
  moreover have "signed_offset prefix_16bit (ucast b) = Inr (scast b)"
    using sign_extend_cases [of b] by (simp add: signed_offset_def split: if_splits)
  moreover have "signed_offset prefix_32bit (ucast c) = Inr (scast c)"
    using sign_extend_cases [of c] by (simp add: signed_offset_def split: if_splits)
  ultimately show ?thesis by blast
qed

text \<open>
  The second offset of a memory operand is sign-extended from the width it is written
  in: an 8, 16 or 32-bit register or constant that is negative at its width moves the
  address down.
\<close>

theorem signed_offset_sign_extends:
  "signed_offset prefix_8bit (ucast (a :: u8)) = Inr (scast a)
   \<and> signed_offset prefix_16bit (ucast (b :: u16)) = Inr (scast b)
   \<and> signed_offset prefix_32bit (ucast (c :: u32)) = Inr (scast c)
   \<and> signed_offset prefix_64bit d = Inr d"
  by (rule signed_offset_widths)

section \<open>Reading back a written operand\<close>

text \<open>The operands that can be written, and the width of an operand.\<close>

definition special_register :: "u8 \<Rightarrow> bool" where
  "special_register i \<longleftrightarrow> i \<in> {R_StackBase, R_StackPointer, R_CodeBase, R_DataBase, R_DataPointer,
     R_ExtendedBase, R_ExtendedPointer}"

definition valid_register :: "u8 \<Rightarrow> u8 \<Rightarrow> bool" where
  "valid_register w i \<longleftrightarrow> is_width w \<and>
     (if w = prefix_64bit then unat i < 16 \<or> special_register i else unat i < 8)"

fun writable :: "'z decoder_state_scheme \<Rightarrow> operand \<Rightarrow> bool" where
  "writable s (RegisterOperand w i) \<longleftrightarrow> valid_register w i"
| "writable s (MemoryOperand a w) \<longleftrightarrow> is_width w \<and> unat a + width_bytes w \<le> unat (TotalMemory s)"
| "writable s (ConstantOperand v w) \<longleftrightarrow> False"

fun operand_width :: "operand \<Rightarrow> u8" where
  "operand_width (RegisterOperand w i) = w"
| "operand_width (MemoryOperand a w) = w"
| "operand_width (ConstantOperand v w) = w"

definition truncate_to :: "u8 \<Rightarrow> u64 \<Rightarrow> u64" where
  "truncate_to w v = take_bit (8 * width_bytes w) v"

lemma width_bytes_simps [simp]:
  "width_bytes prefix_8bit = 1" "width_bytes prefix_16bit = 2" "width_bytes prefix_32bit = 4"
  "width_bytes prefix_64bit = 8"
  by (simp_all add: width_bytes_def prefix_defs)

lemma is_width_cases:
  assumes "is_width w"
  obtains (w8) "w = prefix_8bit" | (w16) "w = prefix_16bit" | (w32) "w = prefix_32bit"
  | (w64) "w = prefix_64bit"
  using assms by (auto simp: is_width_def)

lemma width_bytes_bounds: "0 < width_bytes w" "width_bytes w \<le> 8"
  by (simp_all add: width_bytes_def)

lemma truncate_to_simps:
  "truncate_to prefix_8bit v = ucast (ucast v :: u8)"
  "truncate_to prefix_16bit v = ucast (ucast v :: u16)"
  "truncate_to prefix_32bit v = ucast (ucast v :: u32)"
  "truncate_to prefix_64bit v = v"
  unfolding truncate_to_def
  by (rule bit_word_eqI, auto simp: bit_take_bit_iff bit_ucast_iff)+

lemma word_of_bytes_take:
  fixes v :: u64
  assumes "n \<le> 8"
  shows "word_of_bytes (take n (word_to_bytes 8 v)) = take_bit (8 * n) v"
proof (rule bit_word_eqI)
  fix i
  assume i: "i < LENGTH(64)"
  have "i div 8 < n \<longleftrightarrow> i < 8 * n" by (simp add: div_less_iff_less_mult mult.commute)
  with i assms show "bit (word_of_bytes (take n (word_to_bytes 8 v)) :: u64) i = bit (take_bit (8 * n) v) i"
    by (auto simp: bit_word_of_bytes bit_take_bit_iff bit_ucast_iff bit_drop_bit_eq min_def)
qed

lemma special_register_index: "special_register i \<Longrightarrow> \<not> unat i < 16"
  by (auto simp: special_register_def prefix_defs)

lemma register_write_read:
  assumes "valid_register w i"
  shows "\<exists>r'. store_value_to_register_based_on_table w i v r = Inr r'
    \<and> do_access_register_based_on_table w i r' = Inr (truncate_to w v)"
proof -
  have w: "is_width w" using assms by (simp add: valid_register_def)
  note defs = store_value_to_register_based_on_table_def do_access_register_based_on_table_def
    truncate_to_simps
  from w show ?thesis
  proof (cases rule: is_width_cases)
    case w8
    with assms have "unat i < 8" by (simp add: valid_register_def)
    with byte_regs.store_defined [OF this, of "ucast v" r] byte_regs.load_store_same [OF this] w8
    show ?thesis by (auto simp: defs)
  next
    case w16
    with assms have "unat i < 8" by (simp add: valid_register_def)
    with word_regs.store_defined [OF this, of "ucast v" r] word_regs.load_store_same [OF this] w16
    show ?thesis by (auto simp: defs)
  next
    case w32
    with assms have "unat i < 8" by (simp add: valid_register_def)
    with dword_regs.store_defined [OF this, of "ucast v" r] dword_regs.load_store_same [OF this] w32
    show ?thesis by (auto simp: defs)
  next
    case w64
    show ?thesis
    proof (cases "unat i < 16")
      case True
      with qword_regs.store_defined [OF True, of v r] qword_regs.load_store_same [OF True] w64
      show ?thesis by (auto simp: defs)
    next
      case False
      with assms w64 have "special_register i" by (simp add: valid_register_def)
      with False w64 show ?thesis
        by (auto simp: defs special_register_def special_register_defs)
    qed
  qed
qed

lemma read_register_run:
  "read_register w i s = (do_access_register_based_on_table w i (Registers s), s)"
  by (auto simp: read_register_def liftE_def returnR_def throwR_def split: sum.split)

lemma write_register_run:
  "write_register w i v s = (case store_value_to_register_based_on_table w i v (Registers s) of
     Inl e \<Rightarrow> (Inl e, s) | Inr r \<Rightarrow> (Inr (), s\<lparr>Registers := r\<rparr>))"
  by (simp add: write_register_def bindR_def liftE_def returnR_def throwR_def split: sum.split)

lemma memory_operand_write_read:
  assumes inv: "mem_inv s" and w: "is_width w"
    and top: "unat a + width_bytes w \<le> unat (TotalMemory s)"
  shows "\<exists>s'. store_value_to_memory a w v s = (Inr (), s')
    \<and> writes_bytes s (unat a) (take (width_bytes w) (word_to_bytes 8 v)) s'
    \<and> do_access_memory a w s' = (Inr (truncate_to w v), s')"
proof -
  let ?n = "width_bytes w" and ?bs = "take (width_bytes w) (word_to_bytes 8 v)"
  note n = width_bytes_bounds [of w]
  have "in_memory s a ?n" using top n by (simp add: in_memory_def)
  from write_memory_flat [OF inv this, of "word_to_bytes 8 v"] n obtain s' where
    s': "write_memory a (word_to_bytes 8 v) (of_nat ?n) s = (Inr (), s')"
      "writes_bytes s (unat a) ?bs s'" by auto
  have inv': "mem_inv s'" and tm: "TotalMemory s' = TotalMemory s"
    using s'(2) inv by (simp_all add: writes_bytes_mem_inv writes_bytes_TotalMemory)
  have len: "length ?bs = ?n" using n by simp
  have "pop_memory_from ?n 0 a s' = (Inr (?bs, a + of_nat ?n), s')"
    using pop_memory_from_ok [OF inv' n(1), of 0 a] tm top
      flat_write_same [of "unat a" ?bs "flat s", unfolded len]
    by (simp add: writes_bytes_flat [OF s'(2)])
  moreover have "word_of_bytes ?bs = truncate_to w v"
    unfolding truncate_to_def using n(2) by (rule word_of_bytes_take)
  ultimately show ?thesis
    using s' w by (simp add: store_value_to_memory_def do_access_memory_def bindR_def returnR_def)
qed

lemma set_val_get_val:
  assumes "mem_inv s" and "writable s x"
  shows "\<exists>s'. set_val x v s = (Inr (), s')
    \<and> get_val x s' = (Inr (truncate_to (operand_width x) v), s')
    \<and> (case x of
         RegisterOperand w i \<Rightarrow> s' = s\<lparr>Registers := Registers s'\<rparr>
       | MemoryOperand a w \<Rightarrow> s' = s\<lparr>Memory := Memory s'\<rparr>
           \<and> flat s' = flat_write (unat a) (take (width_bytes w) (word_to_bytes 8 v)) (flat s)
       | ConstantOperand c w \<Rightarrow> False)"
proof (cases x)
  case (RegisterOperand w i)
  with assms(2) have "valid_register w i" by simp
  from register_write_read [OF this, of v "Registers s"] obtain r' where
    "store_value_to_register_based_on_table w i v (Registers s) = Inr r'"
    "do_access_register_based_on_table w i r' = Inr (truncate_to w v)" by blast
  then show ?thesis
    using RegisterOperand by (simp add: write_register_run read_register_run)
next
  case (MemoryOperand a w)
  with assms memory_operand_write_read [OF assms(1), of w a v] show ?thesis
    by (auto simp: writes_bytes_def)
next
  case (ConstantOperand c w)
  with assms(2) show ?thesis by simp
qed


text \<open>A machine with two blocks of zeroes, for the concrete instances.\<close>

definition small_decoder :: decoder_state where
  "small_decoder = ui_state.extend
     (mem_state.extend \<lparr>Memory = [\<lambda>_. 0, \<lambda>_. 0], TotalMemory = 8192\<rparr>
       (ui_state.fields False False False False 0 0 0 0 True 0 0 False True False 0 [] ([], 0, 0)))
     (decoder_state.fields new_registers)"

lemma small_decoder_simps [simp]:
  "mem_inv small_decoder" "TotalMemory small_decoder = 8192"
  "Registers small_decoder = new_registers" "Memory small_decoder = [\<lambda>_. 0, \<lambda>_. 0]"
  by (simp_all add: small_decoder_def ui_state.extend_def mem_state.extend_def ui_state.fields_def
      decoder_state.fields_def mem_inv_def BLOCK_SIZE_def)


end
