(* ===== verification/Code_Format.thy ===== *)
theory Code_Format
  imports Operand_Decoder
begin

text \<open>
  The format of the machine code, as an abstract syntax with its bytes and its meaning. It is
  what the assembler, the disassembler and the CPU have to agree on; the sources state it
  only through the three programs. Here the CPU's decoder (\<open>Operand_Decoder\<close>) is shown to
  give every well-formed instruction its meaning.
\<close>

section \<open>Syntax and bytes\<close>

datatype code_parameter =
    RegisterCode u8 u8
  | ConstantCode u8 u64

datatype code_operand =
    Direct code_parameter
  | MemoryCode u8 code_parameter code_parameter code_parameter u8

record code_instruction =
  code_opcode :: u8
  code_width :: u8
  code_operands :: "code_operand list"

fun parameter_bytes :: "code_parameter \<Rightarrow> u8 list" where
  "parameter_bytes (RegisterCode w i) = [REGISTER_PREFIX, w, i]"
| "parameter_bytes (ConstantCode w v) = CONSTANT_PREFIX # w # word_to_bytes (width_bytes w) v"

fun operand_bytes :: "code_operand \<Rightarrow> u8 list" where
  "operand_bytes (Direct p) = parameter_bytes p"
| "operand_bytes (MemoryCode w p q r ratio) =
     MEMORY_PREFIX # w # parameter_bytes p @ parameter_bytes q @ parameter_bytes r @ [ratio]"

definition instruction_bytes :: "code_instruction \<Rightarrow> u8 list" where
  "instruction_bytes c = code_opcode c #
     (if code_width c = 0 then [] else [code_width c]) @ concat (map operand_bytes (code_operands c))"

section \<open>Well-formed code\<close>

fun wf_parameter :: "code_parameter \<Rightarrow> bool" where
  "wf_parameter (RegisterCode w i) \<longleftrightarrow> valid_register w i"
| "wf_parameter (ConstantCode w v) \<longleftrightarrow> is_width w"

definition is_ratio :: "u8 \<Rightarrow> bool" where
  "is_ratio r \<longleftrightarrow> r = 0x01 \<or> r = 0x02 \<or> r = 0x04 \<or> r = 0x08 \<or> r = 0x16"

fun wf_operand :: "code_operand \<Rightarrow> bool" where
  "wf_operand (Direct p) \<longleftrightarrow> wf_parameter p"
| "wf_operand (MemoryCode w p q r ratio) \<longleftrightarrow>
     is_width w \<and> wf_parameter p \<and> wf_parameter q \<and> wf_parameter r \<and> is_ratio ratio"

definition wf_instruction :: "code_instruction \<Rightarrow> bool" where
  "wf_instruction c \<longleftrightarrow> (case find_opcode (code_opcode c) of
     None \<Rightarrow> False
   | Some e \<Rightarrow> length (code_operands c) = argument_count e
       \<and> (if require_width e then is_width (code_width c) else code_width c = 0)
       \<and> list_all wf_operand (code_operands c))"

section \<open>Meaning\<close>

definition sign_extend_from :: "u8 \<Rightarrow> u64 \<Rightarrow> u64" where
  "sign_extend_from w v = (if w = prefix_8bit then scast (ucast v :: u8)
     else if w = prefix_16bit then scast (ucast v :: u16)
     else if w = prefix_32bit then scast (ucast v :: u32) else v)"

definition register_value :: "sysdarft_register_t \<Rightarrow> u8 \<Rightarrow> u8 \<Rightarrow> u64" where
  "register_value r w i = (case do_access_register_based_on_table w i r of Inr v \<Rightarrow> v | Inl _ \<Rightarrow> 0)"

fun parameter_value :: "sysdarft_register_t \<Rightarrow> code_parameter \<Rightarrow> u64" where
  "parameter_value r (RegisterCode w i) = register_value r w i"
| "parameter_value r (ConstantCode w v) = truncate_to w v"

fun parameter_width :: "code_parameter \<Rightarrow> u8" where
  "parameter_width (RegisterCode w i) = w"
| "parameter_width (ConstantCode w v) = w"

definition ratio_value :: "u8 \<Rightarrow> u64" where
  "ratio_value r = (if r = 0x16 then 16 else ucast r)"

fun operand_meaning :: "sysdarft_register_t \<Rightarrow> code_operand \<Rightarrow> operand" where
  "operand_meaning r (Direct (RegisterCode w i)) = RegisterOperand w i"
| "operand_meaning r (Direct (ConstantCode w v)) = ConstantOperand (truncate_to w v) w"
| "operand_meaning r (MemoryCode w p q o2 ratio) = MemoryOperand
     ((parameter_value r p + parameter_value r q
       + sign_extend_from (parameter_width o2) (parameter_value r o2)) * ratio_value ratio) w"

definition instruction_meaning :: "sysdarft_register_t \<Rightarrow> code_instruction \<Rightarrow> active_instruction" where
  "instruction_meaning r c = \<lparr>opcode = code_opcode c, width = code_width c,
     operands = map (operand_meaning r) (code_operands c)\<rparr>"

section \<open>Sizes\<close>

lemma parameter_bytes_not_Nil [simp]: "parameter_bytes p \<noteq> []"
  by (cases p) simp_all

lemma operand_bytes_not_Nil [simp]: "operand_bytes x \<noteq> []"
  by (cases x) simp_all

lemma word_to_bytes_ucast:
  fixes v :: "'a::len word"
  assumes "8 * n \<le> LENGTH('b::len)"
  shows "word_to_bytes n v = word_to_bytes n (ucast v :: 'b word)"
proof (rule nth_equalityI)
  fix i
  assume "i < length (word_to_bytes n v)"
  then have i: "i < n" by simp
  show "word_to_bytes n v ! i = word_to_bytes n (ucast v :: 'b word) ! i"
  proof (rule bit_word_eqI)
    fix j
    assume "j < LENGTH(8)"
    then have "8 * i + j < LENGTH('b)" using i assms by simp
    with i show "bit (word_to_bytes n v ! i) j = bit (word_to_bytes n (ucast v :: 'b word) ! i) j"
      by (auto simp: bit_ucast_iff bit_drop_bit_eq dest: bit_imp_le_length)
  qed
qed simp

lemma word_to_bytes_widths:
  fixes v :: u64
  shows "word_to_bytes (Suc 0) v = [ucast v]"
    "word_to_bytes 2 v = word_to_bytes 2 (ucast v :: u16)"
    "word_to_bytes 4 v = word_to_bytes 4 (ucast v :: u32)"
  by (simp add: word_to_bytes_def) (rule word_to_bytes_ucast, simp)+

section \<open>The CPU decodes the format\<close>

text \<open>Fetching code moves the instruction pointer only; the operands read other registers.\<close>

lemma load_after_fetch [simp]:
  "load_Register i (r\<lparr>InstructionPointer := x\<rparr>) = load_Register i r"
  "load_ExtendedRegister i (r\<lparr>InstructionPointer := x\<rparr>) = load_ExtendedRegister i r"
  "load_HalfExtendedRegister i (r\<lparr>InstructionPointer := x\<rparr>) = load_HalfExtendedRegister i r"
  "load_FullyExtendedRegister i (r\<lparr>InstructionPointer := x\<rparr>) = load_FullyExtendedRegister i r"
  by (simp_all add: load_Register_def load_ExtendedRegister_def load_HalfExtendedRegister_def
      load_FullyExtendedRegister_def alias_defs)

lemma do_access_register_advance [simp]:
  "do_access_register_based_on_table w i (Registers (advance n s))
    = do_access_register_based_on_table w i (Registers s)"
  by (simp add: Registers_advance do_access_register_based_on_table_def)

lemma register_value_advance [simp]:
  "register_value (Registers (advance n s)) w i = register_value (Registers s) w i"
  by (simp add: register_value_def)

lemma parameter_value_advance [simp]:
  "parameter_value (Registers (advance n s)) p = parameter_value (Registers s) p"
  by (cases p) simp_all

lemma operand_meaning_advance [simp]:
  "operand_meaning (Registers (advance n s)) x = operand_meaning (Registers s) x"
  by (cases x; cases "case x of Direct p \<Rightarrow> p | MemoryCode w p q r ratio \<Rightarrow> p") simp_all

text \<open>A valid register reads a value of its width.\<close>

lemma truncate_to_twice [simp]: "truncate_to w (truncate_to w v) = truncate_to w v"
  by (simp add: truncate_to_def)

lemma ucast_down_up [simp]:
  "ucast (ucast (a :: u8) :: u64) = a" "ucast (ucast (b :: u16) :: u64) = b"
  "ucast (ucast (c :: u32) :: u64) = c"
  by (rule bit_word_eqI, simp add: bit_ucast_iff)+

lemma valid_register_reads:
  assumes "valid_register w i"
  shows "\<exists>v. do_access_register_based_on_table w i r = Inr (truncate_to w v)"
proof -
  have w: "is_width w" using assms by (simp add: valid_register_def)
  note defs = do_access_register_based_on_table_def truncate_to_simps
  from w show ?thesis
  proof (cases rule: is_width_cases)
    case w8
    with assms have i: "unat i < 8" by (simp add: valid_register_def)
    from byte_regs.load_defined [OF i, of r] obtain v where "load_Register (unat i) r = Inr v" by blast
    with i w8 show ?thesis by (auto simp: defs intro: exI [of _ "ucast v"])
  next
    case w16
    with assms have i: "unat i < 8" by (simp add: valid_register_def)
    from word_regs.load_defined [OF i, of r] obtain v
      where "load_ExtendedRegister (unat i) r = Inr v" by blast
    with i w16 show ?thesis by (auto simp: defs intro: exI [of _ "ucast v"])
  next
    case w32
    with assms have i: "unat i < 8" by (simp add: valid_register_def)
    from dword_regs.load_defined [OF i, of r] obtain v
      where "load_HalfExtendedRegister (unat i) r = Inr v" by blast
    with i w32 show ?thesis by (auto simp: defs intro: exI [of _ "ucast v"])
  next
    case w64
    with assms qword_regs.load_defined [of "unat i" r] show ?thesis
      by (auto simp: defs valid_register_def special_register_def special_register_defs)
  qed
qed

lemma register_value_reads:
  assumes "valid_register w i"
  shows "do_access_register_based_on_table w i r = Inr (register_value r w i)"
    and "truncate_to w (register_value r w i) = register_value r w i"
  using valid_register_reads [OF assms, of r] by (auto simp: register_value_def)

lemma signed_offset_truncated:
  assumes "is_width w" and "truncate_to w v = v"
  shows "signed_offset w v = Inr (sign_extend_from w v)"
  using assms(1)
proof (cases rule: is_width_cases)
  case w8
  then show ?thesis
    using assms(2) signed_offset_widths [of "ucast v"] by (simp add: truncate_to_simps sign_extend_from_def)
next
  case w16
  then show ?thesis
    using assms(2) signed_offset_widths [of _ "ucast v"] by (simp add: truncate_to_simps sign_extend_from_def)
next
  case w32
  then show ?thesis
    using assms(2) signed_offset_widths [of _ _ "ucast v"] by (simp add: truncate_to_simps sign_extend_from_def)
next
  case w64
  then show ?thesis using signed_offset_widths [of _ _ _ v] by (simp add: sign_extend_from_def)
qed

subsection \<open>Parameters\<close>

lemma decode_register_at:
  assumes "code_at s (w # i # rest)"
  shows "do_decode_register_without_prefix s = (Inr (w, i), advance 2 s)"
  using pop_code8_at [OF assms] pop_code8_at [of "advance 1 s" i rest]
  by (simp add: do_decode_register_without_prefix_def bindR_def returnR_def numeral_2_eq_2)

lemma decode_constant_at:
  assumes "code_at s (w # word_to_bytes (width_bytes w) v @ rest)" and "is_width w"
  shows "do_decode_constant_without_prefix s = (Inr (truncate_to w v, w), advance (1 + width_bytes w) s)"
proof -
  note p = pop_code8_at [OF assms(1)]
  note defs = do_decode_constant_without_prefix_def bindR_def returnR_def p(1) truncate_to_simps
  from assms(2) show ?thesis
  proof (cases rule: is_width_cases)
    case w8
    with p(2) pop_code8_at(1) [of "advance 1 s" "ucast v" rest] show ?thesis
      by (simp add: defs word_to_bytes_widths)
  next
    case w16
    with p(2) pop_code16_at(1) [of "advance 1 s" "ucast v" rest] show ?thesis
      by (simp add: defs word_to_bytes_widths)
  next
    case w32
    with p(2) pop_code32_at(1) [of "advance 1 s" "ucast v" rest] show ?thesis
      by (simp add: defs word_to_bytes_widths)
  next
    case w64
    with p(2) pop_code64_at(1) [of "advance 1 s" v rest] show ?thesis by (simp add: defs)
  qed
qed

lemma code_at_tail: "code_at s (b # bs) \<Longrightarrow> code_at (advance 1 s) bs"
  by (rule pop_code8_at(2))

lemma decode_each_parameter_at:
  assumes "code_at s (parameter_bytes p @ rest)" and "wf_parameter p"
  shows "decode_each_parameter s
    = (Inr (parameter_value (Registers s) p), advance (length (parameter_bytes p)) s)"
proof (cases p)
  case (RegisterCode w i)
  with assms have c: "code_at s (REGISTER_PREFIX # w # i # rest)" and v: "valid_register w i" by simp_all
  with pop_code8_at(1) [OF c] decode_register_at [OF code_at_tail [OF c]] RegisterCode show ?thesis
    by (simp add: decode_each_parameter_def bindR_def read_register_run register_value_reads eval_nat_numeral)
next
  case (ConstantCode w v)
  with assms have c: "code_at s (CONSTANT_PREFIX # w # word_to_bytes (width_bytes w) v @ rest)"
    and w: "is_width w" by simp_all
  with pop_code8_at(1) [OF c] decode_constant_at [OF code_at_tail [OF c] w] ConstantCode show ?thesis
    by (simp add: decode_each_parameter_def bindR_def returnR_def prefix_defs)
qed

lemma decode_signed_parameter_at:
  assumes "code_at s (parameter_bytes p @ rest)" and "wf_parameter p"
  shows "decode_signed_parameter s
    = (Inr (sign_extend_from (parameter_width p) (parameter_value (Registers s) p)),
       advance (length (parameter_bytes p)) s)"
proof (cases p)
  case (RegisterCode w i)
  with assms have c: "code_at s (REGISTER_PREFIX # w # i # rest)" and v: "valid_register w i" by simp_all
  then have "signed_offset w (register_value (Registers s) w i)
      = Inr (sign_extend_from w (register_value (Registers s) w i))"
    by (intro signed_offset_truncated register_value_reads) (simp_all add: valid_register_def)
  with v pop_code8_at(1) [OF c] decode_register_at [OF code_at_tail [OF c]] RegisterCode show ?thesis
    by (simp add: decode_signed_parameter_def bindR_def read_register_run register_value_reads
        returnR_def eval_nat_numeral)
next
  case (ConstantCode w v)
  with assms have c: "code_at s (CONSTANT_PREFIX # w # word_to_bytes (width_bytes w) v @ rest)"
    and w: "is_width w" by simp_all
  with pop_code8_at(1) [OF c] decode_constant_at [OF code_at_tail [OF c] w] ConstantCode
    signed_offset_truncated [OF w, of "truncate_to w v"]
  show ?thesis
    by (simp add: decode_signed_parameter_def bindR_def returnR_def prefix_defs)
qed

subsection \<open>Operands and instructions\<close>

lemma decode_ratio_value: "is_ratio r \<Longrightarrow> decode_ratio r = Inr (ratio_value r)"
  by (auto simp: is_ratio_def decode_ratio_def ratio_value_def)

lemma decode_memory_at:
  assumes c: "code_at s (w # parameter_bytes p @ parameter_bytes q @ parameter_bytes r @ ratio # rest)"
    and wf: "wf_operand (MemoryCode w p q r ratio)"
  shows "do_decode_memory_without_prefix s
    = (Inr (operand_meaning (Registers s) (MemoryCode w p q r ratio)),
       advance (2 + length (parameter_bytes p) + length (parameter_bytes q) + length (parameter_bytes r)) s)"
proof -
  let ?p = "length (parameter_bytes p)" and ?q = "length (parameter_bytes q)"
    and ?r = "length (parameter_bytes r)"
  have c1: "code_at (advance 1 s) (parameter_bytes p @ parameter_bytes q @ parameter_bytes r @ ratio # rest)"
    using c by (rule code_at_tail)
  have c2: "code_at (advance (1 + ?p) s) (parameter_bytes q @ parameter_bytes r @ ratio # rest)"
    using code_at_append(2) [OF c1] by simp
  have c3: "code_at (advance (1 + ?p + ?q) s) (parameter_bytes r @ ratio # rest)"
    using code_at_append(2) [OF c2] by simp
  have c4: "code_at (advance (1 + ?p + ?q + ?r) s) (ratio # rest)"
    using code_at_append(2) [OF c3] by simp
  have "decode_each_parameter (advance 1 s) = (Inr (parameter_value (Registers s) p), advance (1 + ?p) s)"
    "decode_each_parameter (advance (1 + ?p) s)
      = (Inr (parameter_value (Registers s) q), advance (1 + ?p + ?q) s)"
    "decode_signed_parameter (advance (1 + ?p + ?q) s)
      = (Inr (sign_extend_from (parameter_width r) (parameter_value (Registers s) r)),
         advance (1 + ?p + ?q + ?r) s)"
    using decode_each_parameter_at [OF c1] decode_each_parameter_at [OF c2]
      decode_signed_parameter_at [OF c3] wf by simp_all
  with pop_code8_at(1) [OF c] pop_code8_at(1) [OF c4] wf decode_ratio_value [of ratio] show ?thesis
    by (simp add: do_decode_memory_without_prefix_def bindR_def returnR_def)
qed

lemma do_decode_operand_at:
  assumes c: "code_at s (operand_bytes x @ rest)" and wf: "wf_operand x"
  shows "do_decode_operand s = (Inr (operand_meaning (Registers s) x), advance (length (operand_bytes x)) s)"
proof (cases x)
  case (MemoryCode w p q r ratio)
  with c have c': "code_at s (MEMORY_PREFIX # w # parameter_bytes p @ parameter_bytes q
      @ parameter_bytes r @ ratio # rest)" by simp
  from pop_code8_at(1) [OF c'] decode_memory_at [OF code_at_tail [OF c']] wf MemoryCode show ?thesis
    by (simp add: do_decode_operand_def bindR_def prefix_defs add.assoc)
next
  case (Direct p)
  show ?thesis
  proof (cases p)
    case (RegisterCode w i)
    with c Direct have c': "code_at s (REGISTER_PREFIX # w # i # rest)" by simp
    from pop_code8_at(1) [OF c'] decode_register_at [OF code_at_tail [OF c']] Direct RegisterCode
    show ?thesis by (simp add: do_decode_operand_def bindR_def returnR_def eval_nat_numeral)
  next
    case (ConstantCode w v)
    with c wf Direct have c': "code_at s (CONSTANT_PREFIX # w # word_to_bytes (width_bytes w) v @ rest)"
      and w: "is_width w" by simp_all
    from pop_code8_at(1) [OF c'] decode_constant_at [OF code_at_tail [OF c'] w] Direct ConstantCode
    show ?thesis by (simp add: do_decode_operand_def bindR_def returnR_def prefix_defs)
  qed
qed

lemma decode_operands_at:
  assumes "code_at s (concat (map operand_bytes xs) @ rest)" and "list_all wf_operand xs"
  shows "decode_operands (length xs) s = (Inr (map (operand_meaning (Registers s)) xs),
    advance (length (concat (map operand_bytes xs))) s)"
  using assms
proof (induction xs arbitrary: s)
  case Nil
  then show ?case by (simp add: returnR_def)
next
  case (Cons x xs)
  then have c: "code_at s (operand_bytes x @ concat (map operand_bytes xs) @ rest)" by simp
  from do_decode_operand_at [OF c] Cons.IH [OF code_at_append(2) [OF c]] Cons.prems(2) show ?case
    by (simp add: bindR_def returnR_def)
qed

lemma pop_instruction_at:
  assumes c: "code_at s (instruction_bytes i @ rest)" and wf: "wf_instruction i"
  shows "pop_instruction_from_ip_and_increase_ip s
    = (Inr (instruction_meaning (Registers s) i), advance (length (instruction_bytes i)) s)"
proof -
  let ?ops = "concat (map operand_bytes (code_operands i))"
  obtain e where e: "find_opcode (code_opcode i) = Some e" "length (code_operands i) = argument_count e"
    "if require_width e then is_width (code_width i) else code_width i = 0"
    "list_all wf_operand (code_operands i)"
    using wf by (auto simp: wf_instruction_def split: option.splits)
  show ?thesis
  proof (cases "require_width e")
    case True
    with e(3) have w: "is_width (code_width i)" "code_width i \<noteq> 0"
      by (auto simp: is_width_def prefix_defs)
    with c have c0: "code_at s (code_opcode i # code_width i # ?ops @ rest)"
      by (simp add: instruction_bytes_def)
    note c1 = code_at_tail [OF c0] and c2 = code_at_tail [OF code_at_tail [OF c0]]
    from pop_code8_at(1) [OF c0] pop_code8_at(1) [OF c1] decode_operands_at [OF c2 e(4)] e(1,2) w True
    show ?thesis
      by (simp add: pop_instruction_from_ip_and_increase_ip_def bindR_def returnR_def
          instruction_meaning_def instruction_bytes_def)
  next
    case False
    with e(3) c have c0: "code_at s (code_opcode i # ?ops @ rest)" and w: "code_width i = 0"
      by (simp_all add: instruction_bytes_def)
    from pop_code8_at(1) [OF c0] decode_operands_at [OF code_at_tail [OF c0] e(4)] e(1,2) w False
    show ?thesis
      by (simp add: pop_instruction_from_ip_and_increase_ip_def bindR_def returnR_def
          instruction_meaning_def instruction_bytes_def)
  qed
qed

end
