(* ===== verification/Cxx_Strings.thy ===== *)
theory Cxx_Strings
  imports Prelude "HOL-Library.Sublist" "HOL-Library.Code_Target_Nat"
begin

text \<open>
  The part of the C++ library that the assembler, the disassembler and the debugger use on
  strings: character classes of the classic locale, printing numbers in base 10 and 16,
  \<open>strtoull\<close> and \<open>strtoll\<close>, and the string helpers of the repository
  (\<open>remove_space\<close>, \<open>capitalization\<close> in \<open>include/EncodingDecoding.h\<close>, \<open>replace_all\<close> in
  \<open>coding/Assembler.cpp\<close>).
\<close>

section \<open>Characters\<close>

abbreviation char_code :: "char \<Rightarrow> nat" where "char_code c \<equiv> of_char c"

definition isprint :: "char \<Rightarrow> bool" where
  "isprint c \<longleftrightarrow> 32 \<le> char_code c \<and> char_code c < 127"

definition isspace :: "char \<Rightarrow> bool" where
  "isspace c \<longleftrightarrow> char_code c = 32 \<or> 9 \<le> char_code c \<and> char_code c \<le> 13"

definition isdigit :: "char \<Rightarrow> bool" where
  "isdigit c \<longleftrightarrow> 48 \<le> char_code c \<and> char_code c \<le> 57"

definition toupper :: "char \<Rightarrow> char" where
  "toupper c = (if 97 \<le> char_code c \<and> char_code c \<le> 122 then char_of (char_code c - 32) else c)"

definition byte_char :: "u8 \<Rightarrow> char" where
  "byte_char b = char_of (unat b)"

text \<open>A \<open>std::string\<close> made of an array of characters ends before the first zero.\<close>

definition c_string :: "u8 list \<Rightarrow> string" where
  "c_string bytes = map byte_char (takeWhile (\<lambda>b. b \<noteq> 0) bytes)"

section \<open>Numbers\<close>

text \<open>The digits are upper case, as under \<open>std::uppercase\<close>.\<close>

definition digit_char :: "nat \<Rightarrow> char" where
  "digit_char d = char_of (if d < 10 then 48 + d else 55 + d)"

fun to_base :: "nat \<Rightarrow> nat \<Rightarrow> string" where
  "to_base b n = (if n < b \<or> b \<le> 1 then [digit_char n]
     else to_base b (n div b) @ [digit_char (n mod b)])"

declare to_base.simps [simp del]

abbreviation to_string :: "nat \<Rightarrow> string" where "to_string n \<equiv> to_base 10 n"

abbreviation to_hex :: "nat \<Rightarrow> string" where "to_hex n \<equiv> to_base 16 n"

text \<open>\<open>std::setw\<close> with \<open>std::setfill\<close>.\<close>

definition pad_left :: "nat \<Rightarrow> char \<Rightarrow> string \<Rightarrow> string" where
  "pad_left w c s = replicate (w - length s) c @ s"

text \<open>The value of a digit; 36 when the character is none.\<close>

definition digit_val :: "char \<Rightarrow> nat" where
  "digit_val c = (let n = char_code c in
     if 48 \<le> n \<and> n \<le> 57 then n - 48
     else if 65 \<le> n \<and> n \<le> 90 then n - 55
     else if 97 \<le> n \<and> n \<le> 122 then n - 87 else 36)"

definition of_digits :: "nat \<Rightarrow> string \<Rightarrow> nat" where
  "of_digits b s = foldl (\<lambda>a c. a * b + digit_val c) 0 s"

text \<open>
  What \<open>strtoull\<close> and \<open>strtoll\<close> read: blanks, a sign, for base 16 an optional \<open>0x\<close>, and
  digits; the result is the sign and the digits. Without digits nothing is consumed.
\<close>

definition scan_sign :: "string \<Rightarrow> bool \<times> string" where
  "scan_sign s = (case s of
     [] \<Rightarrow> (False, [])
   | c # cs \<Rightarrow> if c = CHR ''-'' then (True, cs) else if c = CHR ''+'' then (False, cs) else (False, s))"

definition scan_prefix :: "nat \<Rightarrow> string \<Rightarrow> string" where
  "scan_prefix b s = (case s of
     z # x # d # ds \<Rightarrow> if b = 16 \<and> z = CHR ''0'' \<and> toupper x = CHR ''X'' \<and> digit_val d < 16
                      then d # ds else s
   | _ \<Rightarrow> s)"

definition scan_number :: "nat \<Rightarrow> string \<Rightarrow> bool \<times> string" where
  "scan_number b s = (case scan_sign (dropWhile isspace s) of
     (neg, t) \<Rightarrow> (neg, takeWhile (\<lambda>c. digit_val c < b) (scan_prefix b t)))"

text \<open>\<open>None\<close> when no number is found: \<open>endptr\<close> is the start, and the value 0.\<close>

definition strtoull :: "nat \<Rightarrow> string \<Rightarrow> u64 option" where
  "strtoull b s = (case scan_number b s of
     (neg, ds) \<Rightarrow> if ds = [] then None
       else if of_digits b ds \<ge> 2 ^ 64 then Some (- 1)
       else Some (if neg then - of_nat (of_digits b ds) else of_nat (of_digits b ds)))"

definition strtoll :: "nat \<Rightarrow> string \<Rightarrow> int" where
  "strtoll b s = (case scan_number b s of
     (neg, ds) \<Rightarrow> if neg then max (- (2 ^ 63)) (- int (of_digits b ds))
       else min (2 ^ 63 - 1) (int (of_digits b ds)))"

section \<open>String helpers\<close>

(* include/EncodingDecoding.h 289-293: remove_space *)
definition remove_space :: "string \<Rightarrow> string" where
  "remove_space str = filter (\<lambda>c. c \<noteq> CHR '' '') str"

(* include/EncodingDecoding.h 305-310: capitalization *)
definition capitalization :: "string \<Rightarrow> string" where
  "capitalization input = map toupper input"

text \<open>
  \<open>replace_scan\<close> is the loop: at the first occurrence of the target the replacement is put
  in its place, and the search goes on behind it.
\<close>

(* coding/Assembler.cpp 37-41: replace_all, while loop *)
fun replace_scan :: "string \<Rightarrow> string \<Rightarrow> string \<Rightarrow> string" where
  "replace_scan target replacement [] = []"
| "replace_scan target replacement (c # cs) =
     (if target \<noteq> [] \<and> prefix target (c # cs)
      then replacement @ replace_scan target replacement (drop (length target - 1) cs)
      else c # replace_scan target replacement cs)"

(* coding/Assembler.cpp 26-42: replace_all *)
definition replace_all :: "string \<Rightarrow> string \<Rightarrow> string \<Rightarrow> string" where
  "replace_all original target replacement =
     (if target = [] then original
      else if target = '' '' \<and> replacement = []
      then replace_scan target replacement (filter (\<lambda>c. c \<noteq> CHR '' '') original)
      else replace_scan target replacement original)"

text \<open>\<open>std::string::find\<close>\<close>

definition occurs :: "string \<Rightarrow> string \<Rightarrow> bool" where "occurs t s \<longleftrightarrow> sublist t s"

section \<open>Lemmas\<close>

subsection \<open>Digits\<close>

lemma char_code_char_of [simp]: "n < 256 \<Longrightarrow> char_code (char_of n) = n"
  by simp

lemma digit_val_digit_char [simp]: "d < 36 \<Longrightarrow> digit_val (digit_char d) = d"
  by (auto simp: digit_val_def digit_char_def Let_def)

lemma digit_char_simps [simp]:
  "digit_char 0 = CHR ''0''" "digit_char (Suc 0) = CHR ''1''" "digit_char 2 = CHR ''2''" "digit_char 3 = CHR ''3''"
  "digit_char 4 = CHR ''4''" "digit_char 5 = CHR ''5''" "digit_char 6 = CHR ''6''" "digit_char 7 = CHR ''7''"
  "digit_char 8 = CHR ''8''" "digit_char 9 = CHR ''9''" "digit_char 10 = CHR ''A''" "digit_char 11 = CHR ''B''"
  "digit_char 12 = CHR ''C''" "digit_char 13 = CHR ''D''" "digit_char 14 = CHR ''E''" "digit_char 15 = CHR ''F''"
  by (code_simp)+

lemma digit_char_class:
  assumes "d < 36"
  shows "digit_char d \<noteq> CHR '' ''" "\<not> isspace (digit_char d)" "toupper (digit_char d) = digit_char d"
    "digit_char d \<noteq> CHR ''-''" "digit_char d \<noteq> CHR ''+''" "isprint (digit_char d)"
proof -
  have "char_code (digit_char d) = (if d < 10 then 48 + d else 55 + d)"
    using assms by (simp add: digit_char_def)
  then have c: "48 \<le> char_code (digit_char d)" "char_code (digit_char d) \<le> 90"
    using assms by (auto split: if_splits)
  then show "digit_char d \<noteq> CHR '' ''" "\<not> isspace (digit_char d)" "toupper (digit_char d) = digit_char d"
    "digit_char d \<noteq> CHR ''-''" "digit_char d \<noteq> CHR ''+''" "isprint (digit_char d)"
    by (auto simp: isspace_def toupper_def isprint_def)
qed

lemma isdigit_digit_char: "d < 36 \<Longrightarrow> isdigit (digit_char d) \<longleftrightarrow> d < 10"
  by (simp add: isdigit_def digit_char_def)

lemma isdigit_iff: "isdigit c \<longleftrightarrow> digit_val c < 10"
  by (auto simp: isdigit_def digit_val_def Let_def)

lemma digit_char_digit_val: "isdigit c \<Longrightarrow> digit_char (digit_val c) = c"
  by (auto simp: isdigit_def digit_val_def digit_char_def Let_def)

lemma to_base_not_Nil [simp]: "to_base b n \<noteq> []"
  by (subst to_base.simps) simp

lemma to_base_digits:
  assumes "2 \<le> b"
  shows "\<forall>c\<in>set (to_base b n). \<exists>d<b. c = digit_char d"
  using assms
proof (induction b n rule: to_base.induct)
  case (1 b n)
  then have m: "n mod b < b" by simp
  with 1 show ?case by (subst to_base.simps) (auto intro: exI [of _ "n mod b"])
qed

lemma to_base_all:
  assumes "2 \<le> b" and "\<And>d. d < b \<Longrightarrow> P (digit_char d)"
  shows "list_all P (to_base b n)"
  using to_base_digits [OF assms(1), of n] assms(2) by (auto simp: list_all_iff)

lemma of_digits_snoc [simp]: "of_digits b (s @ [c]) = of_digits b s * b + digit_val c"
  by (simp add: of_digits_def)

lemma of_digits_to_base [simp]: "2 \<le> b \<Longrightarrow> b \<le> 36 \<Longrightarrow> of_digits b (to_base b n) = n"
proof (induction b n rule: to_base.induct)
  case (1 b n)
  then have "n mod b < 36" using mod_less_divisor [of b n] by linarith
  with 1 show ?case
    by (subst to_base.simps) (simp add: of_digits_def [of b "[digit_char n]"])
qed

lemma takeWhile_to_base:
  assumes "2 \<le> b" and "b \<le> 36" and "rest = [] \<or> \<not> digit_val (hd rest) < b"
  shows "takeWhile (\<lambda>c. digit_val c < b) (to_base b n @ rest) = to_base b n"
proof -
  have "list_all (\<lambda>c. digit_val c < b) (to_base b n)"
    using assms by (intro to_base_all) auto
  moreover from assms(3) have "takeWhile (\<lambda>c. digit_val c < b) rest = []"
    by (cases rest) auto
  ultimately show ?thesis by (simp add: list_all_iff)
qed

lemma to_base_head:
  assumes "2 \<le> b" and "b \<le> 36"
  obtains c cs where "to_base b n = c # cs" "\<not> isspace c" "c \<noteq> CHR ''-''" "c \<noteq> CHR ''+''"
    "digit_val c < b"
proof -
  obtain c cs where c: "to_base b n = c # cs" by (cases "to_base b n") auto
  with to_base_digits [OF assms(1), of n] obtain d where d: "d < b" "c = digit_char d" by auto
  then have "d < 36" using assms(2) by simp
  with digit_char_class [of d] d c that show thesis by simp
qed

lemma scan_prefix_base10 [simp]: "scan_prefix 10 s = s"
  by (simp add: scan_prefix_def split: list.splits)

lemma scan_number_decimal:
  assumes "rest = [] \<or> \<not> digit_val (hd rest) < 10"
  shows "scan_number 10 (to_string n @ rest) = (False, to_string n)"
proof -
  obtain c cs where c: "to_string n = c # cs" "\<not> isspace c" "c \<noteq> CHR ''-''" "c \<noteq> CHR ''+''"
    by (rule to_base_head [of 10 n]) simp_all
  then have "scan_sign (dropWhile isspace (to_string n @ rest)) = (False, to_string n @ rest)"
    by (simp add: scan_sign_def)
  with takeWhile_to_base [of 10 rest n] assms show ?thesis by (simp add: scan_number_def)
qed

lemma strtoull_decimal:
  assumes "n < 2 ^ 64" and "rest = [] \<or> \<not> digit_val (hd rest) < 10"
  shows "strtoull 10 (to_string n @ rest) = Some (of_nat n)"
  using assms by (simp add: strtoull_def scan_number_decimal)

lemma strtoll_decimal:
  assumes "n < 2 ^ 63" and "rest = [] \<or> \<not> digit_val (hd rest) < 10"
  shows "strtoll 10 (to_string n @ rest) = int n"
  using assms by (simp add: strtoll_def scan_number_decimal)

lemma strtoull_hexadecimal:
  assumes "n < 2 ^ 64"
  shows "strtoull 16 (''0x'' @ to_hex n) = Some (of_nat n)"
proof -
  obtain c cs where c: "to_hex n = c # cs" "digit_val c < 16" by (rule to_base_head [of 16 n]) simp_all
  have "toupper (CHR ''x'') = CHR ''X''" by code_simp
  then have "scan_prefix 16 (''0x'' @ to_hex n) = to_hex n"
    using c by (simp add: scan_prefix_def)
  moreover have "scan_sign (dropWhile isspace (''0x'' @ to_hex n)) = (False, ''0x'' @ to_hex n)"
    by (simp add: scan_sign_def isspace_def)
  ultimately have "scan_number 16 (''0x'' @ to_hex n) = (False, to_hex n)"
    using takeWhile_to_base [of 16 "[]" n] by (simp add: scan_number_def)
  with assms show ?thesis by (simp add: strtoull_def)
qed

subsection \<open>Replacement\<close>

lemma replace_scan_absent:
  assumes "t \<notin> set s"
  shows "replace_scan (t # ts) rep s = s"
  using assms by (induction s) auto

lemma replace_all_absent: "t \<notin> set s \<Longrightarrow> replace_all s (t # ts) rep = s"
  by (auto simp: replace_all_def replace_scan_absent filter_id_conv)

lemma replace_all_whole:
  assumes "t \<noteq> []"
  shows "replace_all t t rep = rep"
proof -
  obtain c cs where t: "t = c # cs" using assms by (cases t) auto
  show ?thesis
  proof (cases "t = '' '' \<and> rep = []")
    case True
    then show ?thesis by (simp add: replace_all_def)
  next
    case False
    with t show ?thesis by (simp add: replace_all_def)
  qed
qed

lemma remove_space_simps [simp]:
  "remove_space (s @ t) = remove_space s @ remove_space t"
  "remove_space (remove_space s) = remove_space s"
  by (simp_all add: remove_space_def)

lemma remove_space_id: "CHR '' '' \<notin> set s \<Longrightarrow> remove_space s = s"
  by (auto simp: remove_space_def filter_id_conv)

lemma capitalization_simps [simp]:
  "capitalization (s @ t) = capitalization s @ capitalization t"
  "length (capitalization s) = length s"
  by (simp_all add: capitalization_def)

lemma toupper_idem [simp]: "toupper (toupper c) = toupper c"
proof (cases "97 \<le> char_code c \<and> char_code c \<le> 122")
  case True
  then have "char_code c - 32 < 256" by linarith
  with True have "char_code (toupper c) = char_code c - 32" by (simp add: toupper_def)
  then have "\<not> 97 \<le> char_code (toupper c)" using True by linarith
  then show ?thesis by (simp add: toupper_def [of "toupper c"])
next
  case False
  then have "toupper c = c" by (auto simp: toupper_def)
  then show ?thesis by simp
qed

lemma capitalization_idem [simp]: "capitalization (capitalization s) = capitalization s"
  by (simp add: capitalization_def)

end
