(* ===== verification/Debugger_Operand.thy ===== *)
theory Debugger_Operand
  imports Code_Format Cxx_Strings
begin

text \<open>
  The operands of the debugging console (\<open>SysdarftConsole/debugger_operand.h\<close>,
  \<open>SysdarftConsole/debugger_operand.cpp\<close>): a second decoder for operands, which takes its
  bytes from a vector in place of the code at the instruction pointer, and reads and writes
  the operand in the running machine. It is the release build: the literal of a constant is
  set under \<open>__DEBUG__\<close> only.
\<close>

section \<open>Taking bytes\<close>

text \<open>
  The members that change while an operand is decoded: the bytes that are left, last one
  first, and the literal of \<open>OperandReferenceTable\<close>.
\<close>

(* SysdarftConsole/debugger_operand.h 54-82: debugger_operand_type *)
record debugger_operand_state =
  operand_expression :: "u8 list"
  operand_literal :: string

(* SysdarftConsole/debugger_operand.h 113-123: pop_code, pop8 *)
definition dbg_pop8 :: "(debugger_operand_state, u8) run" where
  "dbg_pop8 =
     bindR (getR operand_expression) (\<lambda>v.
     if v \<noteq> [] then thenR (modifyR (operand_expression_update butlast)) (returnR (last v))
     else throwR IllegalInstruction)"

fun dbg_pop_bytes :: "nat \<Rightarrow> (debugger_operand_state, u8 list) run" where
  "dbg_pop_bytes 0 = returnR []"
| "dbg_pop_bytes (Suc n) = bindR dbg_pop8 (\<lambda>b. bindR (dbg_pop_bytes n) (\<lambda>bs. returnR (b # bs)))"

text \<open>The number before it is cast to \<open>NumTypeIdentifier\<close>.\<close>

(* SysdarftConsole/debugger_operand.h 109-136: pop_code *)
definition dbg_pop_code :: "nat \<Rightarrow> (debugger_operand_state, u64) run" where
  "dbg_pop_code bit_size =
     bindR (getR operand_expression) (\<lambda>v.
     if bit_size div 8 \<le> length v
     then bindR (dbg_pop_bytes (bit_size div 8)) (\<lambda>bs. returnR (word_of_bytes bs))
     else throwR IllegalInstruction)"

text \<open>
  \<open>NumTypeIdentifier\<close> names the type a number is cast to. For 32 and 64 bits it is
  \<open>uint16_t\<close>, as for 16.
\<close>

(* SysdarftConsole/debugger_operand.h 138-140: pop_code8 *)
definition dbg_pop_code8 :: "(debugger_operand_state, u8) run" where
  "dbg_pop_code8 = bindR (dbg_pop_code 8) (\<lambda>v. returnR (ucast v))"

(* SysdarftConsole/debugger_operand.h 142-144: pop_code16 *)
definition dbg_pop_code16 :: "(debugger_operand_state, u16) run" where
  "dbg_pop_code16 = bindR (dbg_pop_code 16) (\<lambda>v. returnR (ucast v))"

(* SysdarftConsole/debugger_operand.h 146-148: pop_code32 *)
definition dbg_pop_code32 :: "(debugger_operand_state, u32) run" where
  "dbg_pop_code32 = bindR (dbg_pop_code 32) (\<lambda>v. returnR (ucast (ucast v :: u16)))"

(* SysdarftConsole/debugger_operand.h 150-152: pop_code64 *)
definition dbg_pop_code64 :: "(debugger_operand_state, u64) run" where
  "dbg_pop_code64 = bindR (dbg_pop_code 64) (\<lambda>v. returnR (ucast (ucast v :: u16)))"

definition set_literal :: "string \<Rightarrow> (debugger_operand_state, unit) run" where
  "set_literal lit = modifyR (operand_literal_update (\<lambda>_. lit))"

section \<open>Decoding\<close>

text \<open>
  The registers are those of the machine the operand refers to; nothing changes them while
  the operand is decoded.
\<close>

(* SysdarftConsole/debugger_operand.cpp 28-96: do_access_register_based_on_table *)
definition dbg_access_register :: "sysdarft_register_t \<Rightarrow> u8 \<Rightarrow> u8 \<Rightarrow> (debugger_operand_state, u64) run" where
  "dbg_access_register r w register_index =
     liftE
      (if w = prefix_8bit then
        if unat register_index < 8 then map_result ucast (load_Register (unat register_index) r)
        else Inl IllegalInstruction
      else if w = prefix_16bit then
        if unat register_index < 8 then map_result ucast (load_ExtendedRegister (unat register_index) r)
        else Inl IllegalInstruction
      else if w = prefix_32bit then
        if unat register_index < 8 then map_result ucast (load_HalfExtendedRegister (unat register_index) r)
        else Inl IllegalInstruction
      else if w = prefix_64bit then
        if unat register_index < 16 then load_FullyExtendedRegister (unat register_index) r
        else if register_index = R_StackBase then Inr (StackBase r)
        else if register_index = R_StackPointer then Inr (StackPointer r)
        else if register_index = R_CodeBase then Inr (CodeBase r)
        else if register_index = R_DataBase then Inr (DataBase r)
        else if register_index = R_DataPointer then Inr (DataPointer r)
        else if register_index = R_ExtendedBase then Inr (ExtendedBase r)
        else if register_index = R_ExtendedPointer then Inr (ExtendedPointer r)
        else Inl IllegalInstruction
      else Inl IllegalInstruction)"

definition dbg_register_literal :: "u8 \<Rightarrow> u8 \<Rightarrow> string option" where
  "dbg_register_literal w register_index =
     (if w = prefix_64bit \<and> 15 < register_index then
        if register_index = R_StackBase then Some ''%SB''
        else if register_index = R_StackPointer then Some ''%SP''
        else if register_index = R_CodeBase then Some ''%CB''
        else if register_index = R_DataBase then Some ''%DB''
        else if register_index = R_DataPointer then Some ''%DP''
        else if register_index = R_ExtendedBase then Some ''%EB''
        else if register_index = R_ExtendedPointer then Some ''%EP''
        else None
      else if w = prefix_8bit then Some (''%R'' @ to_string (unat register_index))
      else if w = prefix_16bit then Some (''%EXR'' @ to_string (unat register_index))
      else if w = prefix_32bit then Some (''%HER'' @ to_string (unat register_index))
      else if w = prefix_64bit then Some (''%FER'' @ to_string (unat register_index))
      else None)"

(* SysdarftConsole/debugger_operand.cpp 98-129: do_decode_register_without_prefix *)
definition dbg_decode_register :: "(debugger_operand_state, u8 \<times> u8) run" where
  "dbg_decode_register =
     bindR dbg_pop_code8 (\<lambda>w.
     bindR dbg_pop_code8 (\<lambda>register_index.
     case dbg_register_literal w register_index of
       None \<Rightarrow> throwR IllegalInstruction
     | Some lit \<Rightarrow> thenR (set_literal lit) (returnR (w, register_index))))"

(* SysdarftConsole/debugger_operand.cpp 131-173: do_decode_constant_without_prefix *)
definition dbg_decode_constant :: "(debugger_operand_state, u64 \<times> u8) run" where
  "dbg_decode_constant =
     bindR dbg_pop_code8 (\<lambda>prefix.
     bindR (if prefix = prefix_8bit then bindR dbg_pop_code8 (\<lambda>n. returnR (ucast n))
            else if prefix = prefix_16bit then bindR dbg_pop_code16 (\<lambda>n. returnR (ucast n))
            else if prefix = prefix_32bit then bindR dbg_pop_code32 (\<lambda>n. returnR (ucast n))
            else if prefix = prefix_64bit then dbg_pop_code64
            else throwR IllegalInstruction)
       (\<lambda>num. returnR (num, prefix)))"

(* SysdarftConsole/debugger_operand.cpp 194-209: check_msb *)
definition dbg_check_msb :: "'a::len word \<Rightarrow> bool" where
  "dbg_check_msb data \<longleftrightarrow> drop_bit (LENGTH('a) - 1) data AND 1 = 1"

(* SysdarftConsole/debugger_operand.cpp 175-192: convert_to_64bit_signed *)
definition dbg_convert_to_64bit_signed :: "'a::len word \<Rightarrow> u64" where
  "dbg_convert_to_64bit_signed data =
     ucast data OR (if LENGTH('a) = 8 then 0xFFFFFFFFFFFFFF00
       else if LENGTH('a) = 16 then 0xFFFFFFFFFFFF0000
       else if LENGTH('a) = 32 then 0xFFFFFFFF00000000 else 0)"

(* SysdarftConsole/debugger_operand.cpp 246-252: do_decode_memory_without_prefix, off2 *)
definition dbg_signed_offset :: "u8 \<Rightarrow> u64 \<Rightarrow> cpu_error + u64" where
  "dbg_signed_offset w val =
     (if w = prefix_8bit then
        Inr (if dbg_check_msb (ucast val :: u8) then dbg_convert_to_64bit_signed (ucast val :: u8) else val)
      else if w = prefix_16bit then
        Inr (if dbg_check_msb (ucast val :: u16) then dbg_convert_to_64bit_signed (ucast val :: u16) else val)
      else if w = prefix_32bit then
        Inr (if dbg_check_msb (ucast val :: u32) then dbg_convert_to_64bit_signed (ucast val :: u32) else val)
      else if w = prefix_64bit then
        Inr (if dbg_check_msb val then dbg_convert_to_64bit_signed val else val)
      else Inl IllegalInstruction)"

(* SysdarftConsole/debugger_operand.cpp 218-234: decode_each_parameter *)
definition dbg_decode_each_parameter :: "sysdarft_register_t \<Rightarrow> (debugger_operand_state, u64 \<times> string) run" where
  "dbg_decode_each_parameter r =
     bindR dbg_pop_code8 (\<lambda>prefix.
     bindR (if prefix = REGISTER_PREFIX
            then bindR dbg_decode_register (\<lambda>(w, idx). dbg_access_register r w idx)
            else if prefix = CONSTANT_PREFIX then bindR dbg_decode_constant (\<lambda>(num, _). returnR num)
            else throwR IllegalInstruction)
       (\<lambda>val. bindR (getR operand_literal) (\<lambda>lit. returnR (val, lit))))"

text \<open>\<open>std::to_string\<close> of the signed second offset.\<close>

definition signed_text :: "u64 \<Rightarrow> string" where
  "signed_text v = (if sint v < 0 then ''-'' @ to_string (nat (- sint v)) else to_string (nat (sint v)))"

(* SysdarftConsole/debugger_operand.cpp 240-269: do_decode_memory_without_prefix, third parameter *)
definition dbg_decode_signed_parameter :: "sysdarft_register_t \<Rightarrow> (debugger_operand_state, u64 \<times> string) run" where
  "dbg_decode_signed_parameter r =
     bindR dbg_pop_code8 (\<lambda>prefix.
     if prefix = REGISTER_PREFIX then
       bindR dbg_decode_register (\<lambda>(w, idx).
       bindR (getR operand_literal) (\<lambda>literal3.
       bindR (dbg_access_register r w idx) (\<lambda>val.
       bindR (liftE (dbg_signed_offset w val)) (\<lambda>off2. returnR (off2, literal3)))))
     else if prefix = CONSTANT_PREFIX then
       bindR dbg_decode_constant (\<lambda>(val, w).
       bindR (liftE (dbg_signed_offset w val)) (\<lambda>off2. returnR (off2, signed_text off2)))
     else throwR IllegalInstruction)"

(* SysdarftConsole/debugger_operand.cpp 274-281: do_decode_memory_without_prefix, ratio *)
definition dbg_decode_ratio :: "u8 \<Rightarrow> cpu_error + u64" where
  "dbg_decode_ratio ratio_bcd =
     (if ratio_bcd = 0x01 then Inr 1 else if ratio_bcd = 0x02 then Inr 2
      else if ratio_bcd = 0x04 then Inr 4 else if ratio_bcd = 0x08 then Inr 8
      else if ratio_bcd = 0x16 then Inr 16 else Inl IllegalInstruction)"

definition dbg_width_literal :: "u8 \<Rightarrow> cpu_error + string" where
  "dbg_width_literal w =
     (if w = prefix_8bit then Inr ''8'' else if w = prefix_16bit then Inr ''16''
      else if w = prefix_32bit then Inr ''32'' else if w = prefix_64bit then Inr ''64''
      else Inl IllegalInstruction)"

(* SysdarftConsole/debugger_operand.cpp 211-299: do_decode_memory_without_prefix *)
definition dbg_decode_memory :: "sysdarft_register_t \<Rightarrow> (debugger_operand_state, operand) run" where
  "dbg_decode_memory r =
     bindR dbg_pop_code8 (\<lambda>WidthBCD.
     bindR (dbg_decode_each_parameter r) (\<lambda>(base, literal1).
     bindR (dbg_decode_each_parameter r) (\<lambda>(off1, literal2).
     bindR (dbg_decode_signed_parameter r) (\<lambda>(off2, literal3).
     bindR dbg_pop_code8 (\<lambda>ratio_bcd.
     bindR (liftE (dbg_decode_ratio ratio_bcd)) (\<lambda>ratio.
     let calculated_address = (base + off1 + off2) * ratio
     in bindR (liftE (dbg_width_literal WidthBCD)) (\<lambda>bits.
        thenR (set_literal (''*'' @ to_string (unat ratio) @ ''&'' @ bits
          @ ''('' @ literal1 @ '', '' @ literal2 @ '', '' @ literal3 @ '')''))
          (returnR (MemoryOperand calculated_address WidthBCD)))))))))"

(* SysdarftConsole/debugger_operand.cpp 301-318: do_decode_operand *)
definition dbg_decode_operand :: "sysdarft_register_t \<Rightarrow> (debugger_operand_state, operand) run" where
  "dbg_decode_operand r =
     bindR dbg_pop_code8 (\<lambda>prefix.
     bindR (if prefix = REGISTER_PREFIX then
              bindR dbg_decode_register (\<lambda>(w, i). returnR (RegisterOperand w i))
            else if prefix = CONSTANT_PREFIX then
              bindR dbg_decode_constant (\<lambda>(n, w). returnR (ConstantOperand n w))
            else if prefix = MEMORY_PREFIX then dbg_decode_memory r
            else throwR IllegalInstruction) (\<lambda>x.
     thenR (modifyR (operand_literal_update (\<lambda>lit. ''<'' @ lit @ ''>'' @ (case x of
         MemoryOperand a w \<Rightarrow> '' /* = 0x'' @ pad_left 16 (CHR ''0'') (to_hex (unat a)) @ '' */''
       | _ \<Rightarrow> []))))
       (returnR x)))"

(* SysdarftConsole/debugger_operand.h 159-165: debugger_operand_type *)
definition debugger_operand :: "sysdarft_register_t \<Rightarrow> u8 list \<Rightarrow> cpu_error + operand \<times> string" where
  "debugger_operand r expression =
     (case dbg_decode_operand r \<lparr>operand_expression = rev expression, operand_literal = []\<rparr> of
        (Inl e, _) \<Rightarrow> Inl e
      | (Inr x, st) \<Rightarrow> Inr (x, operand_literal st))"

section \<open>Access\<close>

text \<open>
  The memory operand is read at its address behind the data base.
\<close>

(* SysdarftConsole/debugger_operand.h 84-92: do_width_ambiguous_access_memory_based_on_table *)
definition dbg_access_memory_at :: "nat \<Rightarrow> u64 \<Rightarrow> ('z decoder_state_scheme, u64) run" where
  "dbg_access_memory_at sz DP =
     bindR (load DataBase) (\<lambda>DB.
     bindR (read_memory (DB + DP) (of_nat sz)) (\<lambda>bs. returnR (word_of_bytes bs)))"

(* SysdarftConsole/debugger_operand.cpp 441-450: do_access_width_specified_access_memory_based_on_table *)
definition dbg_access_memory :: "u64 \<Rightarrow> u8 \<Rightarrow> ('z decoder_state_scheme, u64) run" where
  "dbg_access_memory addr w =
     (if w = prefix_8bit then dbg_access_memory_at 1 addr
      else if w = prefix_16bit then dbg_access_memory_at 2 addr
      else if w = prefix_32bit then dbg_access_memory_at 4 addr
      else if w = prefix_64bit then dbg_access_memory_at 8 addr
      else throwR IllegalInstruction)"

(* SysdarftConsole/debugger_operand.cpp 320-328: do_access_operand_based_on_table *)
fun dbg_get_val :: "operand \<Rightarrow> ('z decoder_state_scheme, u64) run" where
  "dbg_get_val (RegisterOperand w i) = read_register w i"
| "dbg_get_val (MemoryOperand a w) = dbg_access_memory a w"
| "dbg_get_val (ConstantOperand v w) = returnR v"

(* SysdarftConsole/debugger_operand.cpp 339-411: store_value_to_register_based_on_table *)
definition dbg_store_register :: "u8 \<Rightarrow> u8 \<Rightarrow> u64 \<Rightarrow> ('z decoder_state_scheme, unit) run" where
  "dbg_store_register w register_index value =
     bindR (load (\<lambda>r.
      if w = prefix_8bit then
        if unat register_index < 8 then store_Register (unat register_index) (ucast value) r
        else Inl IllegalInstruction
      else if w = prefix_16bit then
        if unat register_index < 8 then store_ExtendedRegister (unat register_index) (ucast value) r
        else Inl IllegalInstruction
      else if w = prefix_32bit then
        if unat register_index < 8 then store_HalfExtendedRegister (unat register_index) (ucast value) r
        else Inl IllegalInstruction
      else if w = prefix_64bit then
        if unat register_index < 16 then store_FullyExtendedRegister (unat register_index) value r
        else if register_index = R_StackBase then Inr (r\<lparr>StackBase := value\<rparr>)
        else if register_index = R_StackPointer then Inr (r\<lparr>StackPointer := value\<rparr>)
        else if register_index = R_CodeBase then Inr (r\<lparr>CodeBase := value\<rparr>)
        else if register_index = R_DataBase then Inr (r\<lparr>DataBase := value\<rparr>)
        else if register_index = R_DataPointer then Inr (r\<lparr>DataPointer := value\<rparr>)
        else if register_index = R_ExtendedBase then Inr (r\<lparr>ExtendedBase := value\<rparr>)
        else if register_index = R_ExtendedPointer then Inr (r\<lparr>ExtendedPointer := value\<rparr>)
        else Inl IllegalInstruction
      else Inl IllegalInstruction)) (\<lambda>x.
     bindR (liftE x) (\<lambda>r. store (\<lambda>_. r)))"

text \<open>It is written at its address itself: the data base is commented out.\<close>

(* SysdarftConsole/debugger_operand.cpp 413-439: store_value_to_memory_based_on_table *)
definition dbg_store_memory :: "u64 \<Rightarrow> u8 \<Rightarrow> u64 \<Rightarrow> ('z decoder_state_scheme, unit) run" where
  "dbg_store_memory addr w value =
     (if w = prefix_8bit then write_memory addr (word_to_bytes 8 value) 1
      else if w = prefix_16bit then write_memory addr (word_to_bytes 8 value) 2
      else if w = prefix_32bit then write_memory addr (word_to_bytes 8 value) 4
      else if w = prefix_64bit then write_memory addr (word_to_bytes 8 value) 8
      else throwR IllegalInstruction)"

(* SysdarftConsole/debugger_operand.cpp 330-337: store_value_to_operand_based_on_table *)
fun dbg_set_val :: "operand \<Rightarrow> u64 \<Rightarrow> ('z decoder_state_scheme, unit) run" where
  "dbg_set_val (RegisterOperand w i) v = dbg_store_register w i v"
| "dbg_set_val (MemoryOperand a w) v = dbg_store_memory a w v"
| "dbg_set_val (ConstantOperand c w) v = throwR IllegalInstruction"

section \<open>The same tables as the CPU's\<close>

text \<open>
  Where the debugger repeats a table of the CPU's decoder, the two agree.
\<close>

lemma dbg_access_register_eq:
  "dbg_access_register r w i = liftE (do_access_register_based_on_table w i r)"
  unfolding dbg_access_register_def do_access_register_based_on_table_def by (rule refl)

lemma dbg_store_register_eq: "dbg_store_register w i v = write_register w i v"
  unfolding dbg_store_register_def write_register_def store_value_to_register_based_on_table_def
  by (simp add: fun_eq_iff bindR_assoc)

lemma dbg_signed_offset_eq: "dbg_signed_offset w v = signed_offset w v"
  unfolding dbg_signed_offset_def signed_offset_def dbg_check_msb_def check_msb_def
    dbg_convert_to_64bit_signed_def convert_to_64bit_signed_def by (rule refl)

lemma dbg_decode_ratio_eq: "dbg_decode_ratio b = decode_ratio b"
  unfolding dbg_decode_ratio_def decode_ratio_def by (rule refl)

lemma dbg_width_literal_ok: "is_width w \<Longrightarrow> \<exists>t. dbg_width_literal w = Inr t"
  by (auto simp: is_width_def dbg_width_literal_def)

lemma dbg_register_literal_ok: "valid_register w i \<Longrightarrow> \<exists>t. dbg_register_literal w i = Some t"
  by (auto simp: valid_register_def dbg_register_literal_def is_width_def special_register_def
      word_less_nat_alt)

section \<open>Decoding the code format\<close>

definition dbg_state :: "u8 list \<Rightarrow> string \<Rightarrow> debugger_operand_state" where
  "dbg_state bs lit = \<lparr>operand_expression = rev bs, operand_literal = lit\<rparr>"

lemma dbg_pop8_run [run_simps]: "dbg_pop8 (dbg_state (b # bs) lit) = (Inr b, dbg_state bs lit)"
  by (simp add: dbg_pop8_def dbg_state_def run_simps)

lemma dbg_state_sel [simp]:
  "operand_literal (dbg_state bs lit) = lit" "length (operand_expression (dbg_state bs lit)) = length bs"
  "operand_literal_update f (dbg_state bs lit) = dbg_state bs (f lit)"
  by (simp_all add: dbg_state_def)

lemma dbg_pop_bytes_run [run_simps]:
  "dbg_pop_bytes (length xs) (dbg_state (xs @ bs) lit) = (Inr xs, dbg_state bs lit)"
proof (induction xs)
  case Nil
  show ?case by (simp add: returnR_def)
next
  case (Cons x xs)
  then show ?case using dbg_pop8_run [of x "xs @ bs" lit] by (simp add: run_simps)
qed

lemma dbg_pop_code_run:
  assumes "length xs = n div 8"
  shows "dbg_pop_code n (dbg_state (xs @ bs) lit) = (Inr (word_of_bytes xs), dbg_state bs lit)"
  using assms dbg_pop_bytes_run [of xs bs lit] by (simp add: dbg_pop_code_def run_simps)

lemma dbg_pop_code8_run [run_simps]:
  "dbg_pop_code8 (dbg_state (b # bs) lit) = (Inr b, dbg_state bs lit)"
  using dbg_pop_code_run [of "[b]" 8 bs lit]
  by (simp add: dbg_pop_code8_def run_simps)

text \<open>The constants of an operand as the debugger reads them: only their low 16 bits.\<close>

fun low16_parameter :: "code_parameter \<Rightarrow> code_parameter" where
  "low16_parameter (RegisterCode w i) = RegisterCode w i"
| "low16_parameter (ConstantCode w v) = ConstantCode w (take_bit 16 v)"

fun low16 :: "code_operand \<Rightarrow> code_operand" where
  "low16 (Direct p) = Direct (low16_parameter p)"
| "low16 (MemoryCode w p q r ratio) =
     MemoryCode w (low16_parameter p) (low16_parameter q) (low16_parameter r) ratio"

lemma word_of_bytes_word_to_bytes:
  fixes v :: u64
  assumes "n \<le> 8"
  shows "word_of_bytes (word_to_bytes n v) = take_bit (8 * n) v"
  using word_of_bytes_take [OF assms, of v] take_word_to_bytes [OF assms, of v] by simp

lemma dbg_pop_word_run:
  fixes v :: u64
  shows
    "dbg_pop_code8 (dbg_state (word_to_bytes (Suc 0) v @ bs) lit) = (Inr (ucast v), dbg_state bs lit)"
    "dbg_pop_code16 (dbg_state (word_to_bytes 2 v @ bs) lit) = (Inr (ucast v), dbg_state bs lit)"
    "dbg_pop_code32 (dbg_state (word_to_bytes 4 v @ bs) lit)
       = (Inr (ucast (ucast v :: u16)), dbg_state bs lit)"
    "dbg_pop_code64 (dbg_state (word_to_bytes 8 v @ bs) lit)
       = (Inr (ucast (ucast v :: u16)), dbg_state bs lit)"
proof -
  have run: "dbg_pop_code (8 * n) (dbg_state (word_to_bytes n v @ bs) lit)
      = (Inr (take_bit (8 * n) v), dbg_state bs lit)" if "n \<le> 8" for n
    using dbg_pop_code_run [of "word_to_bytes n v" "8 * n" bs lit] that
    by (simp add: word_of_bytes_word_to_bytes)
  have cast: "(ucast (take_bit 8 v) :: u8) = ucast v" "(ucast (take_bit 16 v) :: u16) = ucast v"
    "(ucast (take_bit 32 v) :: u16) = ucast v" "(ucast (take_bit 64 v) :: u16) = ucast v"
    by (rule bit_word_eqI, simp add: bit_ucast_iff bit_take_bit_iff)+
  show "dbg_pop_code8 (dbg_state (word_to_bytes (Suc 0) v @ bs) lit) = (Inr (ucast v), dbg_state bs lit)"
    "dbg_pop_code16 (dbg_state (word_to_bytes 2 v @ bs) lit) = (Inr (ucast v), dbg_state bs lit)"
    "dbg_pop_code32 (dbg_state (word_to_bytes 4 v @ bs) lit)
       = (Inr (ucast (ucast v :: u16)), dbg_state bs lit)"
    "dbg_pop_code64 (dbg_state (word_to_bytes 8 v @ bs) lit)
       = (Inr (ucast (ucast v :: u16)), dbg_state bs lit)"
    using run [of 1] run [of 2] run [of 4] run [of 8]
    by (simp_all add: dbg_pop_code8_def dbg_pop_code16_def dbg_pop_code32_def dbg_pop_code64_def
        run_simps cast)
qed

lemma truncate_low16:
  "truncate_to prefix_8bit (take_bit 16 v) = ucast (ucast v :: u8)"
  "truncate_to prefix_16bit (take_bit 16 v) = ucast (ucast v :: u16)"
  "truncate_to prefix_32bit (take_bit 16 v) = ucast (ucast (ucast v :: u16) :: u32)"
  "truncate_to prefix_64bit (take_bit 16 v) = ucast (ucast v :: u16)"
  by (rule bit_word_eqI, auto simp: truncate_to_def bit_ucast_iff bit_take_bit_iff)+

lemma dbg_decode_constant_run:
  assumes "is_width w"
  shows "dbg_decode_constant (dbg_state (w # word_to_bytes (width_bytes w) v @ bs) lit)
    = (Inr (truncate_to w (take_bit 16 v), w), dbg_state bs lit)"
  using assms
  by (cases rule: is_width_cases)
    (simp_all add: dbg_decode_constant_def run_simps dbg_pop_word_run truncate_low16)

lemma dbg_decode_register_run:
  assumes "valid_register w i"
  obtains t where "dbg_decode_register (dbg_state (w # i # bs) lit) = (Inr (w, i), dbg_state bs t)"
proof -
  from dbg_register_literal_ok [OF assms] obtain t where "dbg_register_literal w i = Some t" ..
  then have "dbg_decode_register (dbg_state (w # i # bs) lit) = (Inr (w, i), dbg_state bs t)"
    by (simp add: dbg_decode_register_def run_simps set_literal_def)
  then show thesis by (rule that)
qed

lemma dbg_access_register_run [run_simps]:
  assumes "valid_register w i"
  shows "dbg_access_register r w i st = (Inr (register_value r w i), st)"
  using register_value_reads (1) [OF assms, of r] by (simp add: dbg_access_register_eq run_simps)


lemma operand_prefix_distinct [simp]:
  "CONSTANT_PREFIX \<noteq> REGISTER_PREFIX" "MEMORY_PREFIX \<noteq> REGISTER_PREFIX" "MEMORY_PREFIX \<noteq> CONSTANT_PREFIX"
  by (simp_all add: prefix_defs)

lemma dbg_decode_each_parameter_run:
  assumes "wf_parameter p"
  obtains t u where "dbg_decode_each_parameter r (dbg_state (parameter_bytes p @ bs) lit)
    = (Inr (parameter_value r (low16_parameter p), t), dbg_state bs u)"
proof (cases p)
  case (RegisterCode w i)
  with assms have v: "valid_register w i" by simp
  from dbg_decode_register_run [OF this, of bs lit] obtain t
    where "dbg_decode_register (dbg_state (w # i # bs) lit) = (Inr (w, i), dbg_state bs t)" .
  with v RegisterCode have "dbg_decode_each_parameter r (dbg_state (parameter_bytes p @ bs) lit)
      = (Inr (parameter_value r (low16_parameter p), t), dbg_state bs t)"
    by (simp add: dbg_decode_each_parameter_def run_simps)
  then show thesis by (rule that)
next
  case (ConstantCode w v)
  with assms have "is_width w" by simp
  from dbg_decode_constant_run [OF this, of v bs lit] ConstantCode
  have "dbg_decode_each_parameter r (dbg_state (parameter_bytes p @ bs) lit)
      = (Inr (parameter_value r (low16_parameter p), lit), dbg_state bs lit)"
    by (simp add: dbg_decode_each_parameter_def run_simps)
  then show thesis by (rule that)
qed

lemma dbg_decode_signed_parameter_run:
  assumes "wf_parameter p"
  obtains t u where "dbg_decode_signed_parameter r (dbg_state (parameter_bytes p @ bs) lit)
    = (Inr (sign_extend_from (parameter_width p) (parameter_value r (low16_parameter p)), t), dbg_state bs u)"
proof (cases p)
  case (RegisterCode w i)
  with assms have v: "valid_register w i" and w: "is_width w" by (simp_all add: valid_register_def)
  have "signed_offset w (register_value r w i) = Inr (sign_extend_from w (register_value r w i))"
    using signed_offset_truncated [OF w, of "register_value r w i"] register_value_reads (2) [OF v, of r] by simp
  moreover from dbg_decode_register_run [OF v, of bs lit] obtain t
    where "dbg_decode_register (dbg_state (w # i # bs) lit) = (Inr (w, i), dbg_state bs t)" .
  ultimately have "dbg_decode_signed_parameter r (dbg_state (parameter_bytes p @ bs) lit)
      = (Inr (sign_extend_from (parameter_width p) (parameter_value r (low16_parameter p)), t), dbg_state bs t)"
    using v RegisterCode by (simp add: dbg_decode_signed_parameter_def run_simps dbg_signed_offset_eq)
  then show thesis by (rule that)
next
  case (ConstantCode w v)
  with assms have w: "is_width w" by simp
  note run = dbg_decode_constant_run [OF w, of v bs lit]
    signed_offset_truncated [OF w, of "truncate_to w (take_bit 16 v)"]
  from run ConstantCode
  have "dbg_decode_signed_parameter r (dbg_state (parameter_bytes p @ bs) lit)
      = (Inr (sign_extend_from (parameter_width p) (parameter_value r (low16_parameter p)),
          signed_text (sign_extend_from w (truncate_to w (take_bit 16 v)))), dbg_state bs lit)"
    by (simp add: dbg_decode_signed_parameter_def run_simps dbg_signed_offset_eq)
  then show thesis by (rule that)
qed

lemma dbg_decode_memory_run:
  assumes "wf_operand (MemoryCode w p q o2 ratio)"
  obtains t where "dbg_decode_memory r
      (dbg_state (w # parameter_bytes p @ parameter_bytes q @ parameter_bytes o2 @ [ratio]) lit)
    = (Inr (operand_meaning r (low16 (MemoryCode w p q o2 ratio))), dbg_state [] t)"
proof -
  have wf: "wf_parameter p" "wf_parameter q" "wf_parameter o2" and "is_ratio ratio" and "is_width w"
    using assms by simp_all
  then have ratio: "decode_ratio ratio = Inr (ratio_value ratio)" by (simp add: decode_ratio_value)
  from dbg_width_literal_ok [OF \<open>is_width w\<close>] obtain b where b: "dbg_width_literal w = Inr b" ..
  from dbg_decode_each_parameter_run [OF wf(1), of r "parameter_bytes q @ parameter_bytes o2 @ [ratio]" lit]
  obtain t1 u1 where p: "dbg_decode_each_parameter r
      (dbg_state (parameter_bytes p @ parameter_bytes q @ parameter_bytes o2 @ [ratio]) lit)
    = (Inr (parameter_value r (low16_parameter p), t1),
        dbg_state (parameter_bytes q @ parameter_bytes o2 @ [ratio]) u1)" .
  from dbg_decode_each_parameter_run [OF wf(2), of r "parameter_bytes o2 @ [ratio]" u1]
  obtain t2 u2 where q: "dbg_decode_each_parameter r (dbg_state (parameter_bytes q @ parameter_bytes o2 @ [ratio]) u1)
    = (Inr (parameter_value r (low16_parameter q), t2), dbg_state (parameter_bytes o2 @ [ratio]) u2)" .
  from dbg_decode_signed_parameter_run [OF wf(3), of r "[ratio]" u2]
  obtain t3 u3 where o2: "dbg_decode_signed_parameter r (dbg_state (parameter_bytes o2 @ [ratio]) u2)
    = (Inr (sign_extend_from (parameter_width o2) (parameter_value r (low16_parameter o2)), t3),
        dbg_state [ratio] u3)" .
  have same: "parameter_width (low16_parameter o2) = parameter_width o2" by (cases o2) simp_all
  show thesis
    by (rule that) (simp add: dbg_decode_memory_def run_simps p q o2 dbg_decode_ratio_eq ratio b same
        Let_def set_literal_def)
qed

lemma debugger_operand_decodes:
  assumes "wf_operand x"
  shows "\<exists>lit. debugger_operand r (operand_bytes x) = Inr (operand_meaning r (low16 x), lit)"
proof -
  have "\<exists>t. dbg_decode_operand r (dbg_state (operand_bytes x) []) = (Inr (operand_meaning r (low16 x)), dbg_state [] t)"
  proof (cases x)
    case (MemoryCode w p q o2 ratio)
    with assms dbg_decode_memory_run [of w p q o2 ratio r "[]"] obtain t where
      "dbg_decode_memory r (dbg_state (w # parameter_bytes p @ parameter_bytes q @ parameter_bytes o2 @ [ratio]) [])
      = (Inr (operand_meaning r (low16 x)), dbg_state [] t)" by metis
    with MemoryCode show ?thesis
      by (auto simp: dbg_decode_operand_def run_simps)
  next
    case (Direct p)
    show ?thesis
    proof (cases p)
      case (RegisterCode w i)
      with Direct assms dbg_decode_register_run [of w i "[]" "[]"] obtain t
        where "dbg_decode_register (dbg_state [w, i] []) = (Inr (w, i), dbg_state [] t)" by auto
      with Direct RegisterCode show ?thesis by (auto simp: dbg_decode_operand_def run_simps)
    next
      case (ConstantCode w v)
      with Direct assms dbg_decode_constant_run [of w v "[]" "[]"] show ?thesis
        by (auto simp: dbg_decode_operand_def run_simps)
    qed
  qed
  then show ?thesis by (auto simp: debugger_operand_def dbg_state_def)
qed


text \<open>
  C33: from the bytes of a well-formed operand the debugger makes the operand the CPU would
  make of them if its constants had only their low 16 bits; so a constant that fits in 16
  bits is read correctly, and the upper bytes of a larger one are lost.
\<close>

theorem debugger_operand_low16:
  assumes "wf_operand x"
  shows "\<exists>lit. debugger_operand r (operand_bytes x) = Inr (operand_meaning r (low16 x), lit)"
  using assms by (rule debugger_operand_decodes)

theorem debugger_operand_low16_witness:
  "\<exists>lit. debugger_operand new_registers (operand_bytes (Direct (ConstantCode prefix_32bit 0x12345)))
     = Inr (ConstantOperand 0x2345 prefix_32bit, lit)"
  using debugger_operand_low16 [of "Direct (ConstantCode prefix_32bit 0x12345)" new_registers]
  by (simp add: is_width_def truncate_to_def take_bit_eq_mask mask_eq_exp_minus_1
      del: operand_bytes.simps)

section \<open>Reading and writing\<close>

lemma dbg_set_val_eq: "dbg_set_val x v = set_val x v"
  by (cases x) (simp_all add: dbg_store_register_eq dbg_store_memory_def store_value_to_memory_def is_width_def)

lemma dbg_access_memory_run:
  assumes "mem_inv s" and "is_width w"
    and "unat (DataBase (Registers s) + a) + width_bytes w \<le> unat (TotalMemory s)"
  shows "dbg_access_memory a w s = (Inr (word_of_bytes (map (flat s)
    [unat (DataBase (Registers s) + a)..<unat (DataBase (Registers s) + a) + width_bytes w])), s)"
proof -
  let ?a = "DataBase (Registers s) + a" and ?n = "width_bytes w"
  have "in_memory s ?a ?n" using assms(3) width_bytes_bounds [of w] by (simp add: in_memory_def)
  then have "read_memory ?a (of_nat ?n) s = (Inr (map (flat s) [unat ?a..<unat ?a + ?n]), s)"
    using read_memory_flat [OF assms(1)] by simp
  moreover have "dbg_access_memory a w s = dbg_access_memory_at ?n a s"
    using assms(2) by (cases rule: is_width_cases) (simp_all add: dbg_access_memory_def)
  ultimately show ?thesis by (simp add: dbg_access_memory_at_def run_simps)
qed

lemma dbg_get_val_memory:
  assumes "mem_inv s" and "is_width w"
    and "unat (DataBase (Registers s) + a) + width_bytes w \<le> unat (TotalMemory s)"
  shows "dbg_get_val (MemoryOperand a w) s = get_val (MemoryOperand (DataBase (Registers s) + a) w) s"
  using dbg_access_memory_run [OF assms] assms(2,3)
    pop_memory_from_ok [OF assms(1) width_bytes_bounds(1) [of w], of 0 "DataBase (Registers s) + a"]
  by (simp add: do_access_memory_def run_simps)




end
