(* ===== verification/Cxx_Regex.thy ===== *)
theory Cxx_Regex
  imports Cxx_Strings
begin

text \<open>
  The regular expressions of the C++ library in their default grammar (ECMAScript), as far as
  the assembler and the debugger use them: \<open>std::regex_match\<close>, \<open>std::regex_search\<close> and
  \<open>std::sregex_iterator\<close>. The matcher is the backtracking search that the grammar
  prescribes: alternatives from left to right, repetitions as long as possible first, and the
  first way that lets the rest of the expression match. Expressions are written as terms;
  the named patterns of the sources are defined with the code that uses them.
\<close>

section \<open>Expressions\<close>

text \<open>
  \<open>Chr\<close> is a character or a bracket expression, \<open>Cap k\<close> the \<open>k\<close>-th capturing group,
  \<open>Bol\<close> and \<open>Eol\<close> are \<open>^\<close> and \<open>$\<close> (without the multiline flag), \<open>Look\<close> is
  \<open>(?=\<dots>)\<close>.
\<close>

datatype rx =
    Eps
  | Chr "char \<Rightarrow> bool"
  | Seq rx rx
  | Alt rx rx
  | Star rx
  | Cap nat rx
  | Bol
  | Eol
  | Look rx

definition Lit :: "string \<Rightarrow> rx" where
  "Lit s = foldr (\<lambda>c r. Seq (Chr ((=) c)) r) s Eps"

text \<open>Under \<open>std::regex_constants::icase\<close>.\<close>

definition ILit :: "string \<Rightarrow> rx" where
  "ILit s = foldr (\<lambda>c r. Seq (Chr (\<lambda>x. toupper x = toupper c)) r) s Eps"

definition Plus :: "rx \<Rightarrow> rx" where "Plus r = Seq r (Star r)"

fun Seqs :: "rx list \<Rightarrow> rx" where
  "Seqs [] = Eps" | "Seqs [r] = r" | "Seqs (r # q # rs) = Seq r (Seqs (q # rs))"

fun Alts :: "rx list \<Rightarrow> rx" where
  "Alts [] = Eps" | "Alts [r] = r" | "Alts (r # q # rs) = Alt r (Alts (q # rs))"

text \<open>The classes: \<open>.\<close>, \<open>\s\<close>, \<open>\d\<close>, a range, and the negation of a character.\<close>

definition any_char :: "char \<Rightarrow> bool" where
  "any_char c \<longleftrightarrow> char_code c \<noteq> 10 \<and> char_code c \<noteq> 13"

definition between :: "char \<Rightarrow> char \<Rightarrow> char \<Rightarrow> bool" where
  "between a b c \<longleftrightarrow> char_code a \<le> char_code c \<and> char_code c \<le> char_code b"

text \<open>The classes \<open>[A-Za-z_.]\<close> and \<open>[A-Za-z0-9_.]\<close> of the names in the sources.\<close>

definition name_start :: "char \<Rightarrow> bool" where
  "name_start c \<longleftrightarrow> between (CHR ''A'') (CHR ''Z'') c \<or> between (CHR ''a'') (CHR ''z'') c
     \<or> c = CHR ''_'' \<or> c = CHR ''.''"

definition name_char :: "char \<Rightarrow> bool" where
  "name_char c \<longleftrightarrow> name_start c \<or> between (CHR ''0'') (CHR ''9'') c"

abbreviation Dot :: rx where "Dot \<equiv> Chr any_char"
abbreviation Blank :: rx where "Blank \<equiv> Chr isspace"
abbreviation Blanks :: rx where "Blanks \<equiv> Star Blank"
abbreviation Digit :: rx where "Digit \<equiv> Chr isdigit"

section \<open>Matching\<close>

text \<open>The state of a search: the groups captured so far, the position, and the text that is left.\<close>

type_synonym captures = "(nat \<times> string) list"
type_synonym mstate = "captures \<times> nat \<times> string"

definition mrest :: "mstate \<Rightarrow> string" where "mrest st = snd (snd st)"

text \<open>
  \<open>matches r k st\<close> looks for a way to match \<open>r\<close> at \<open>st\<close> after which \<open>k\<close> succeeds. A
  repetition goes on only while it consumes something; the length of the rest bounds it.
\<close>

fun repeat_rx ::
    "((mstate \<Rightarrow> 'a option) \<Rightarrow> mstate \<Rightarrow> 'a option) \<Rightarrow> nat \<Rightarrow> (mstate \<Rightarrow> 'a option) \<Rightarrow> mstate \<Rightarrow> 'a option" where
  "repeat_rx m 0 k st = k st"
| "repeat_rx m (Suc n) k st =
     (case m (\<lambda>st'. if length (mrest st') < length (mrest st) then repeat_rx m n k st' else None) st of
        Some x \<Rightarrow> Some x
      | None \<Rightarrow> k st)"

primrec matches :: "rx \<Rightarrow> (mstate \<Rightarrow> 'a option) \<Rightarrow> mstate \<Rightarrow> 'a option" where
  "matches Eps k st = k st"
| "matches (Chr p) k st = (case st of (caps, n, s) \<Rightarrow>
     (case s of [] \<Rightarrow> None | c # cs \<Rightarrow> if p c then k (caps, Suc n, cs) else None))"
| "matches (Seq r q) k st = matches r (matches q k) st"
| "matches (Alt r q) k st = (case matches r k st of Some x \<Rightarrow> Some x | None \<Rightarrow> matches q k st)"
| "matches (Star r) k st = repeat_rx (matches r) (length (mrest st)) k st"
| "matches (Cap i r) k st = (case st of (caps, n, s) \<Rightarrow>
     matches r (\<lambda>(caps', n', s'). k ((i, take (n' - n) s) # caps', n', s')) st)"
| "matches Bol k st = (if fst (snd st) = 0 then k st else None)"
| "matches Eol k st = (if mrest st = [] then k st else None)"
| "matches (Look r) k st = matches r (\<lambda>_. k st) st"

text \<open>The text of a group; a group that did not take part is empty.\<close>

definition group :: "nat \<Rightarrow> captures \<Rightarrow> string" where
  "group i caps = (case map_of caps i of Some s \<Rightarrow> s | None \<Rightarrow> [])"

definition regex_match :: "rx \<Rightarrow> string \<Rightarrow> captures option" where
  "regex_match r s = matches r (\<lambda>(caps, n, rest). if rest = [] then Some caps else None) ([], 0, s)"

text \<open>
  The leftmost match: the position it starts at, the text, the groups and the text behind it.
\<close>

fun search_from :: "rx \<Rightarrow> nat \<Rightarrow> string \<Rightarrow> (nat \<times> string \<times> captures \<times> string) option" where
  "search_from r n s =
     (case matches r Some ([], n, s) of
        Some (caps, n', rest) \<Rightarrow> Some (n, take (n' - n) s, caps, rest)
      | None \<Rightarrow> (case s of [] \<Rightarrow> None | c # cs \<Rightarrow> search_from r (Suc n) cs))"

declare search_from.simps [simp del]

definition regex_search :: "rx \<Rightarrow> string \<Rightarrow> (nat \<times> string \<times> captures \<times> string) option" where
  "regex_search r s = search_from r 0 s"

text \<open>
  All matches from left to right, each search starting behind the match before. The patterns
  that are iterated match no empty text; an empty match would end the list here.
\<close>

fun iterate_from :: "nat \<Rightarrow> rx \<Rightarrow> nat \<Rightarrow> string \<Rightarrow> (string \<times> captures) list" where
  "iterate_from 0 r n s = []"
| "iterate_from (Suc fuel) r n s =
     (case search_from r n s of
        None \<Rightarrow> []
      | Some (i, txt, caps, rest) \<Rightarrow>
          if txt = [] then [] else (txt, caps) # iterate_from fuel r (i + length txt) rest)"

definition regex_iterator :: "rx \<Rightarrow> string \<Rightarrow> (string \<times> captures) list" where
  "regex_iterator r s = iterate_from (Suc (length s)) r 0 s"

section \<open>Evaluation of the parts\<close>

lemma mrest_simp [simp]: "mrest (caps, n, s) = s"
  by (simp add: mrest_def)

lemma matches_Lit:
  "matches (Lit l) k (caps, n, s) = (if prefix l s then k (caps, n + length l, drop (length l) s) else None)"
proof (induction l arbitrary: n s)
  case Nil
  then show ?case by (simp add: Lit_def)
next
  case (Cons c l)
  then show ?case by (cases s) (auto simp: Lit_def)
qed

lemma matches_Lit_append [simp]:
  "matches (Lit l) k (caps, n, l @ s) = k (caps, n + length l, s)"
  by (simp add: matches_Lit)

lemma matches_Chr_Cons [simp]:
  "matches (Chr p) k (caps, n, c # s) = (if p c then k (caps, Suc n, s) else None)"
  "matches (Chr p) k (caps, n, []) = None"
  by simp_all

text \<open>
  The repetition of a class: as long as the characters belong to it, the longest run first.
\<close>

fun back_off :: "(mstate \<Rightarrow> 'a option) \<Rightarrow> captures \<Rightarrow> nat \<Rightarrow> string \<Rightarrow> string \<Rightarrow> 'a option" where
  "back_off k caps n [] rest = k (caps, n, rest)"
| "back_off k caps n (c # cs) rest =
     (case back_off k caps (Suc n) cs rest of Some x \<Rightarrow> Some x | None \<Rightarrow> k (caps, n, c # cs @ rest))"

lemma repeat_class:
  "length s \<le> m \<Longrightarrow> repeat_rx (matches (Chr p)) m k (caps, n, s)
     = back_off k caps n (takeWhile p s) (dropWhile p s)"
proof (induction m arbitrary: n s)
  case 0
  then show ?case by simp
next
  case (Suc m)
  show ?case
  proof (cases s)
    case Nil
    then show ?thesis by simp
  next
    case (Cons c cs)
    with Suc.prems Suc.IH [of cs "Suc n"] show ?thesis by (auto split: option.split)
  qed
qed

lemma matches_Star_class:
  "matches (Star (Chr p)) k (caps, n, s) = back_off k caps n (takeWhile p s) (dropWhile p s)"
  by (simp add: repeat_class)

declare matches.simps(5,6) [simp del]

lemma matches_Cap:
  "matches (Cap i r) k (caps, n, s)
     = matches r (\<lambda>(caps', n', s'). k ((i, take (n' - n) s) # caps', n', s')) (caps, n, s)"
  by (simp add: matches.simps(6))

lemma matches_Lit1 [simp]:
  "matches (Lit [c]) k (caps, n, d # s) = (if c = d then k (caps, Suc n, s) else None)"
  "matches (Lit [c]) k (caps, n, []) = None"
  by (simp_all add: matches_Lit)

lemma back_off_longest:
  "k (caps, n + length cs, rest) = Some x \<Longrightarrow> back_off k caps n cs rest = Some x"
proof (induction cs arbitrary: n)
  case (Cons c cs)
  then show ?case using Cons.IH [of "Suc n"] by simp
qed simp

lemma back_off_append:
  "back_off k caps n (us @ vs) rest =
     (case back_off k caps (n + length us) vs rest of
        Some x \<Rightarrow> Some x | None \<Rightarrow> back_off k caps n us (vs @ rest))"
proof (induction us arbitrary: n)
  case Nil
  then show ?case by (cases vs) (auto split: option.splits)
next
  case (Cons u us)
  then show ?case by (auto split: option.splits)
qed

lemma matches_Star_run:
  assumes "\<forall>c\<in>set cs. p c" and "rest = [] \<or> \<not> p (hd rest)"
  shows "matches (Star (Chr p)) k (caps, n, cs @ rest) = back_off k caps n cs rest"
proof -
  have "takeWhile p rest = []" "dropWhile p rest = rest" using assms(2) by (cases rest; simp)+
  with assms(1) show ?thesis by (simp add: matches_Star_class)
qed

text \<open>Giving back the last characters of the longest run.\<close>

lemma matches_Star_give_back:
  assumes "\<forall>c\<in>set (us @ v # vs). p c" and "rest = [] \<or> \<not> p (hd rest)"
    and "back_off k caps (Suc (n + length us)) vs rest = None"
    and "k (caps, n + length us, v # vs @ rest) = Some x"
  shows "matches (Star (Chr p)) k (caps, n, us @ v # vs @ rest) = Some x"
  using matches_Star_run [OF assms(1,2), of k caps n] assms(3,4) by (simp add: back_off_append)

lemma matches_Star_longest:
  assumes "\<forall>c\<in>set us. p c" and "rest = [] \<or> \<not> p (hd rest)" and "k (caps, n + length us, rest) = Some x"
  shows "matches (Star (Chr p)) k (caps, n, us @ rest) = Some x"
  using matches_Star_run [OF assms(1,2), of k caps n] back_off_longest [of k caps n us rest x] assms(3)
  by simp

lemma matches_Cap_Lit:
  "matches (Cap i (Lit l)) k (caps, n, l @ s) = k ((i, l) # caps, n + length l, s)"
  by (simp add: matches_Cap)

end
