(* ===== verification/IO_Hub.thy ===== *)
theory IO_Hub
  imports Sysdarft_Memory
begin

text \<open>
  The port bus and its devices: the byte queues between CPU and devices
  (\<open>ControllerDataStream\<close>), the dispatch of a port to the device that owns it
  (\<open>SysdarftIOHub\<close>), the disk controller (\<open>SysdarftDiskImager\<close>) and the real-time clock
  (\<open>SysdarftRealTimeClock\<close>).
\<close>

section \<open>Byte queues\<close>

text \<open>
  The vector \<open>device_buffer\<close> of a stream is its content, oldest byte first. The templates
  \<open>push\<close> and \<open>pop\<close> move the bytes of a value; a \<open>pop\<close> that finds the queue empty half
  way throws after it has removed what was there.
\<close>

type_synonym stream = "u8 list"

(* include/SysdarftIOHub.h 47-54: push *)
definition stream_push :: "u8 list \<Rightarrow> stream \<Rightarrow> stream" where
  "stream_push data st = st @ data"

(* include/SysdarftIOHub.h 56-72: pop *)
fun stream_pop :: "nat \<Rightarrow> (stream, u8 list) run" where
  "stream_pop 0 st = (Inr [], st)"
| "stream_pop (Suc n) [] = (Inl SysdarftDeviceIOError, [])"
| "stream_pop (Suc n) (b # st) = (case stream_pop n st of
     (Inl e, st') \<Rightarrow> (Inl e, st')
   | (Inr bs, st') \<Rightarrow> (Inr (b # bs), st'))"

(* include/SysdarftIOHub.h 74-85: insert *)
definition stream_insert :: "u8 list \<Rightarrow> stream \<Rightarrow> stream" where
  "stream_insert data st = st @ data"

section \<open>Devices\<close>

text \<open>
  A disk is its image file, the two registers that select sectors, the size of the file when
  it was opened, and the five ports the template instance serves.
\<close>

(* include/SysdarftDisks.h 51-69: SysdarftDiskImager *)
record disk_imager =
  image :: "u8 list"
  start_sector :: u64
  sector_count :: u64
  device_size :: u64
  REG_SIZE :: u64
  REG_START_SEC :: u64
  REG_SEC_COUNT :: u64
  CMD_REQUEST_RD :: u64
  CMD_REQUEST_WR :: u64

text \<open>Time points of \<open>system_clock\<close> are nanoseconds since the epoch.\<close>

(* include/RealTimeClock.h 33-51: SysdarftRealTimeClock *)
record real_time_clock =
  m_startTime :: int
  m_machineTime :: int
  interruption_number :: u64
  interruption_scale :: u64

datatype device_class =
    SysdarftDiskImager disk_imager
  | SysdarftRealTimeClock real_time_clock

(* include/SysdarftIOHub.h 108-116: SysdarftExternalDeviceBaseClass *)
record device =
  device_buffer :: "u64 \<Rightarrow> stream option"
  device_object :: device_class

text \<open>
  \<open>device_buffer.at(port)\<close> and the operations on the stream found there; \<open>at\<close> throws
  \<open>std::out_of_range\<close> for a port the device does not have.
\<close>

definition on_stream :: "u64 \<Rightarrow> (stream, 'a) run \<Rightarrow> (device, 'a) run" where
  "on_stream port m d = (case device_buffer d port of
     None \<Rightarrow> (Inl StdException, d)
   | Some st \<Rightarrow> (case m st of (r, st') \<Rightarrow>
       (r, d\<lparr>device_buffer := (device_buffer d)(port \<mapsto> st')\<rparr>)))"

subsection \<open>Disk\<close>

text \<open>
  The system calls on the image file: \<open>lseek64\<close> fails for a negative offset, \<open>read\<close> and
  \<open>write\<close> on a regular file move at most \<open>0x7ffff000\<close> bytes in one call. The image is
  assumed not to be changed by others (it is locked) and the host's storage not to fail.
\<close>

definition io_limit :: nat where "io_limit = 0x7ffff000"

definition posix_read :: "u8 list \<Rightarrow> nat \<Rightarrow> nat \<Rightarrow> u8 list" where
  "posix_read img off n = take (min n io_limit) (drop off img)"

definition posix_write :: "u8 list \<Rightarrow> nat \<Rightarrow> u8 list \<Rightarrow> nat \<times> u8 list" where
  "posix_write img off data =
     (let n = min (length data) io_limit
      in (n, take off img @ take n data @ drop (off + n) img))"

(* include/SysdarftDisks.inl 35-53: SysdarftDiskImager *)
definition new_disk :: "u64 \<Rightarrow> u64 \<Rightarrow> u64 \<Rightarrow> u64 \<Rightarrow> u64 \<Rightarrow> u8 list \<Rightarrow> device" where
  "new_disk reg_size reg_start reg_count cmd_rd cmd_wr img =
     \<lparr>device_buffer = [reg_size \<mapsto> [], reg_start \<mapsto> [], reg_count \<mapsto> [], cmd_rd \<mapsto> [], cmd_wr \<mapsto> []],
      device_object = SysdarftDiskImager
        \<lparr>image = img, start_sector = 0, sector_count = 0, device_size = of_nat (length img),
         REG_SIZE = reg_size, REG_START_SEC = reg_start, REG_SEC_COUNT = reg_count,
         CMD_REQUEST_RD = cmd_rd, CMD_REQUEST_WR = cmd_wr\<rparr>\<rparr>"

(* include/SysdarftDisks.h 71-80: SysdarftBlockDevices *)
definition SysdarftBlockDevices :: "u8 list \<Rightarrow> device" where
  "SysdarftBlockDevices = new_disk 0x136 0x137 0x138 0x139 0x13A"

(* include/SysdarftDisks.h 82-91: SysdarftFloppyDiskA *)
definition SysdarftFloppyDiskA :: "u8 list \<Rightarrow> device" where
  "SysdarftFloppyDiskA = new_disk 0x116 0x117 0x118 0x119 0x11A"

(* include/SysdarftDisks.h 93-102: SysdarftFloppyDiskB *)
definition SysdarftFloppyDiskB :: "u8 list \<Rightarrow> device" where
  "SysdarftFloppyDiskB = new_disk 0x126 0x127 0x128 0x129 0x12A"

text \<open>
  \<open>buffer.resize(length)\<close> throws when the length exceeds what a vector can have,
  2^63 - 1 bytes.
\<close>

(* include/SysdarftDisks.inl 83-126: request_read *)
definition disk_request_read :: "disk_imager \<Rightarrow> u64 \<Rightarrow> (device, bool) run" where
  "disk_request_read dk port =
     (if port = REG_SIZE dk then
        bindR (on_stream port (modifyR (stream_push (word_to_bytes 8 (device_size dk div 512)))))
          (\<lambda>_. returnR True)
      else if port = CMD_REQUEST_RD dk then
        if (start_sector dk + sector_count dk) * 512 > device_size dk then returnR False
        else let start_off = start_sector dk * 512; len = sector_count dk * 512
          in if len = 0 \<or> start_off + len > device_size dk then returnR False
             else if unat start_off \<ge> 2 ^ 63 then returnR False
             else if unat len \<ge> 2 ^ 63 then throwR StdException
             else let buffer = posix_read (image dk) (unat start_off) (unat len)
               in if length buffer \<noteq> unat len then returnR False
                  else bindR (on_stream port (modifyR (stream_insert buffer))) (\<lambda>_. returnR True)
      else returnR False)"

definition set_disk :: "disk_imager \<Rightarrow> (device, unit) run" where
  "set_disk dk = modifyR (\<lambda>d. d\<lparr>device_object := SysdarftDiskImager dk\<rparr>)"

(* include/SysdarftDisks.inl 135-185: request_write *)
definition disk_request_write :: "disk_imager \<Rightarrow> u64 \<Rightarrow> (device, bool) run" where
  "disk_request_write dk port =
     (if port = REG_START_SEC dk then
        bindR (on_stream port (stream_pop 8)) (\<lambda>bs.
        bindR (set_disk (dk\<lparr>start_sector := word_of_bytes bs\<rparr>)) (\<lambda>_. returnR True))
      else if port = REG_SEC_COUNT dk then
        bindR (on_stream port (stream_pop 8)) (\<lambda>bs.
        bindR (set_disk (dk\<lparr>sector_count := word_of_bytes bs\<rparr>)) (\<lambda>_. returnR True))
      else if port = CMD_REQUEST_WR dk then
        if (start_sector dk + sector_count dk) * 512 > device_size dk then returnR False
        else let start_off = start_sector dk * 512; len = sector_count dk * 512
          in if len = 0 \<or> start_off + len > device_size dk then returnR False
             else bindR (on_stream port (getR id)) (\<lambda>buffer.
               if unat len \<noteq> length buffer then returnR False
               else if unat start_off \<ge> 2 ^ 63 then returnR False
               else let (write_len, img) = posix_write (image dk) (unat start_off) buffer
                 in bindR (set_disk (dk\<lparr>image := img\<rparr>)) (\<lambda>_.
                    if write_len \<noteq> unat len then returnR False
                    else bindR (on_stream port (modifyR (\<lambda>_. []))) (\<lambda>_. returnR True)))
      else returnR False)"

subsection \<open>Real-time clock\<close>

(* include/RealTimeClock.h 24-24: RTC_CURRENT_TIME *)
definition RTC_CURRENT_TIME :: u64 where "RTC_CURRENT_TIME = 0x70"
(* include/RealTimeClock.h 25-27: RTC_SET_INTERRUPT *)
definition RTC_SET_INTERRUPT :: u64 where "RTC_SET_INTERRUPT = 0x71"

text \<open>
  \<open>now\<close> is what \<open>system_clock::now()\<close> returns during the call. A duration is a signed
  64-bit count of nanoseconds; its overflow is undefined. \<open>duration_cast\<close> truncates.
\<close>

definition ns_ok :: "int \<Rightarrow> bool" where
  "ns_ok t \<longleftrightarrow> - (2 ^ 63) \<le> t \<and> t < 2 ^ 63"

definition to_seconds :: "int \<Rightarrow> int" where
  "to_seconds t = (if t < 0 then - ((- t) div 1000000000) else t div 1000000000)"

(* ext_dev/RealTimeClock.cpp 26-35: SysdarftRealTimeClock *)
definition new_rtc :: "int \<Rightarrow> device" where
  "new_rtc now =
     \<lparr>device_buffer = [RTC_CURRENT_TIME \<mapsto> [], RTC_SET_INTERRUPT \<mapsto> []],
      device_object = SysdarftRealTimeClock
        \<lparr>m_startTime = now, m_machineTime = now, interruption_number = 0,
         interruption_scale = 0\<rparr>\<rparr>"

(* ext_dev/RealTimeClock.cpp 37-50: request_read *)
definition rtc_request_read :: "int \<Rightarrow> real_time_clock \<Rightarrow> u64 \<Rightarrow> (device, bool) run" where
  "rtc_request_read now r port =
     (let t = m_startTime r + (now - m_machineTime r)
      in if \<not> ns_ok t then throwR UndefinedBehaviour
         else let RTCTime = of_int (to_seconds t) :: u64
           in if port = RTC_CURRENT_TIME then
                bindR (on_stream port (modifyR (stream_push (word_to_bytes 8 RTCTime))))
                  (\<lambda>_. returnR True)
              else returnR False)"

definition set_rtc :: "real_time_clock \<Rightarrow> (device, unit) run" where
  "set_rtc r = modifyR (\<lambda>d. d\<lparr>device_object := SysdarftRealTimeClock r\<rparr>)"

(* ext_dev/RealTimeClock.cpp 52-82: request_write *)
definition rtc_request_write :: "real_time_clock \<Rightarrow> u64 \<Rightarrow> (device, bool) run" where
  "rtc_request_write r port =
     (if port = RTC_CURRENT_TIME then
        bindR (on_stream port (stream_pop 8)) (\<lambda>bs.
        let t = sint (word_of_bytes bs :: u64) * 1000000000
        in if \<not> ns_ok t then throwR UndefinedBehaviour
           else bindR (set_rtc (r\<lparr>m_startTime := t\<rparr>)) (\<lambda>_. returnR True))
      else if port = RTC_SET_INTERRUPT then
        bindR (on_stream port (stream_pop 8)) (\<lambda>bs.
        let data = word_of_bytes bs :: u64;
            int_num = data AND 0xFF;
            int_scale = drop_bit 8 data AND 0x3FFFFFFF
        in if int_num \<le> 0x1F \<or> int_num > MAX_INTERRUPTION_ENTRY then returnR False
           else if int_scale = 0 then returnR False
           else bindR (set_rtc (r\<lparr>interruption_scale := int_scale, interruption_number := int_num\<rparr>))
                  (\<lambda>_. returnR True))
      else returnR False)"

text \<open>
  One round of the loop of \<open>update_time\<close>: the new count and the interruption the clock asks
  the CPU for, if any. The pacing of the rounds is not modelled.
\<close>

(* ext_dev/RealTimeClock.cpp 84-113: update_time *)
definition update_time :: "u128 \<Rightarrow> real_time_clock \<Rightarrow> u128 \<times> u64 option" where
  "update_time scale_count r =
     (if scale_count \<noteq> 0 then (scale_count - 1, None)
      else (ucast (interruption_scale r),
            if interruption_number r > 0x1F \<and> interruption_number r < MAX_INTERRUPTION_ENTRY
            then Some (interruption_number r) else None))"

section \<open>Dispatch\<close>

text \<open>The virtual calls.\<close>

(* include/SysdarftIOHub.h 114-114: request_read *)
definition request_read :: "int \<Rightarrow> u64 \<Rightarrow> (device, bool) run" where
  "request_read now port d = (case device_object d of
     SysdarftDiskImager dk \<Rightarrow> disk_request_read dk port d
   | SysdarftRealTimeClock r \<Rightarrow> rtc_request_read now r port d)"

(* include/SysdarftIOHub.h 115-115: request_write *)
definition request_write :: "u64 \<Rightarrow> (device, bool) run" where
  "request_write port d = (case device_object d of
     SysdarftDiskImager dk \<Rightarrow> disk_request_write dk port d
   | SysdarftRealTimeClock r \<Rightarrow> rtc_request_write r port d)"

text \<open>The first device of the list with the port, by its index.\<close>

(* SysdarftIOHub.cpp 25-41: query_device_based_on_port *)
fun query_device_based_on_port :: "u64 \<Rightarrow> device list \<Rightarrow> nat option" where
  "query_device_based_on_port port [] = None"
| "query_device_based_on_port port (d # ds) =
     (if device_buffer d port \<noteq> None then Some 0
      else map_option Suc (query_device_based_on_port port ds))"

definition on_device :: "nat \<Rightarrow> (device, 'a) run \<Rightarrow> (device list, 'a) run" where
  "on_device i m ds = (case m (ds ! i) of (r, d) \<Rightarrow> (r, ds[i := d]))"

text \<open>\<open>ins\<close> returns a reference to the stream of the port: the index of its device.\<close>

(* SysdarftIOHub.cpp 43-52: ins *)
definition hub_ins :: "int \<Rightarrow> u64 \<Rightarrow> (device list, nat) run" where
  "hub_ins now port ds = (case query_device_based_on_port port ds of
     None \<Rightarrow> (Inl SysdarftNoSuchDevice, ds)
   | Some i \<Rightarrow> bindR (on_device i (request_read now port)) (\<lambda>b.
       if \<not> b then throwR SysdarftDeviceIOError else returnR i) ds)"

(* SysdarftIOHub.cpp 54-63: outs *)
definition hub_outs :: "u64 \<Rightarrow> stream \<Rightarrow> (device list, unit) run" where
  "hub_outs port buffer ds = (case query_device_based_on_port port ds of
     None \<Rightarrow> (Inl SysdarftNoSuchDevice, ds)
   | Some i \<Rightarrow> thenR (on_device i (on_stream port (modifyR (stream_insert buffer))))
       (bindR (on_device i (request_write port)) (\<lambda>b.
        if \<not> b then throwR SysdarftDeviceIOError else returnR ())) ds)"

section \<open>The contract of a byte queue\<close>

locale fifo_queue =
  fixes push :: "'b list \<Rightarrow> 'q \<Rightarrow> 'q"
    and pop :: "nat \<Rightarrow> ('q, 'b list) run"
    and contents :: "'q \<Rightarrow> 'b list"
  assumes contents_push: "contents (push bs q) = contents q @ bs"
    and pop_front: "n \<le> length (contents q) \<Longrightarrow>
          \<exists>q'. pop n q = (Inr (take n (contents q)), q') \<and> contents q' = drop n (contents q)"
    and pop_underflow: "length (contents q) < n \<Longrightarrow> \<exists>e q'. pop n q = (Inl e, q')"
begin

lemma push_pop:
  assumes "contents q = []"
  shows "\<exists>q'. pop (length bs) (push bs q) = (Inr bs, q') \<and> contents q' = []"
  using pop_front [of "length bs" "push bs q"] assms by (simp add: contents_push)

lemma pop_in_order:
  assumes "contents q = []"
  shows "\<exists>q'. thenR (modifyR (push bs)) (thenR (modifyR (push cs)) (pop (length bs))) q = (Inr bs, q')
    \<and> contents q' = cs"
  using pop_front [of "length bs" "push cs (push bs q)"] assms by (simp add: contents_push)

end

lemma stream_pop_eq:
  "stream_pop n st = (if n \<le> length st then (Inr (take n st), drop n st)
                      else (Inl SysdarftDeviceIOError, []))"
  by (induction n st rule: stream_pop.induct) auto

interpretation controller_stream: fifo_queue stream_push stream_pop id
  by unfold_locales (auto simp: stream_push_def stream_pop_eq)

section \<open>The contract of a device\<close>

text \<open>
  What the hub relies on when it calls a device about one of its ports: the set of ports
  does not change, and the streams of the other ports are left alone.
\<close>

locale port_device =
  fixes call :: "u64 \<Rightarrow> (device, 'a) run"
  assumes keeps_ports: "dom (device_buffer (snd (call port d))) = dom (device_buffer d)"
    and other_streams: "p \<noteq> port \<Longrightarrow> device_buffer (snd (call port d)) p = device_buffer d p"
begin

lemma query_stable:
  "query_device_based_on_port p (snd (on_device i (call port) ds)) = query_device_based_on_port p ds"
proof (cases "i < length ds")
  case True
  have "device_buffer (snd (call port (ds ! i))) p = None \<longleftrightarrow> device_buffer (ds ! i) p = None"
    using keeps_ports [of port "ds ! i"] by (metis domIff)
  with True have "query_device_based_on_port p (ds[i := snd (call port (ds ! i))])
      = query_device_based_on_port p ds"
  proof (induction ds arbitrary: i)
    case (Cons d ds)
    then show ?case by (cases i) auto
  qed simp
  then show ?thesis by (auto simp: on_device_def split: prod.split)
next
  case False
  then show ?thesis by (simp add: on_device_def list_update_beyond split: prod.split)
qed

end

lemma device_buffer_on_stream:
  "dom (device_buffer (snd (on_stream port m d))) = dom (device_buffer d)"
  "p \<noteq> port \<Longrightarrow> device_buffer (snd (on_stream port m d)) p = device_buffer d p"
  by (auto simp: on_stream_def split: option.split prod.split)

text \<open>\<open>same_ports port d\<close>: the effect the contract allows.\<close>

definition same_ports :: "u64 \<Rightarrow> device \<Rightarrow> device \<Rightarrow> bool" where
  "same_ports port d d' \<longleftrightarrow> dom (device_buffer d') = dom (device_buffer d)
     \<and> (\<forall>p. p \<noteq> port \<longrightarrow> device_buffer d' p = device_buffer d p)"

lemma same_ports_refl [simp]: "same_ports port d d"
  by (simp add: same_ports_def)

lemma same_ports_on_stream [simp]: "same_ports port d (snd (on_stream port m d))"
  by (simp add: same_ports_def device_buffer_on_stream)

lemma same_ports_set [simp]:
  "same_ports port d (snd (set_disk dk d))" "same_ports port d (snd (set_rtc r d))"
  by (simp_all add: same_ports_def set_disk_def set_rtc_def)

lemma same_ports_bindR:
  assumes "same_ports port d (snd (m d))" and "\<And>x d'. same_ports port d' (snd (f x d'))"
  shows "same_ports port d (snd (bindR m f d))"
  using assms by (fastforce simp: bindR_def same_ports_def split: prod.split sum.split)

lemma same_ports_disk_read [simp]: "same_ports port d (snd (disk_request_read dk port d))"
  by (auto simp: disk_request_read_def Let_def intro!: same_ports_bindR)

lemma same_ports_disk_write [simp]: "same_ports port d (snd (disk_request_write dk port d))"
  by (auto simp: disk_request_write_def Let_def intro!: same_ports_bindR split: prod.split)

lemma same_ports_rtc_read [simp]: "same_ports port d (snd (rtc_request_read now r port d))"
  by (auto simp: rtc_request_read_def Let_def intro!: same_ports_bindR)

lemma same_ports_rtc_write [simp]: "same_ports port d (snd (rtc_request_write r port d))"
  by (auto simp: rtc_request_write_def Let_def intro!: same_ports_bindR)

lemma same_ports_request [simp]:
  "same_ports port d (snd (request_read now port d))"
  "same_ports port d (snd (request_write port d))"
  by (simp_all add: request_read_def request_write_def split: device_class.split)

lemma port_device_same_ports:
  assumes "\<And>port d. same_ports port d (snd (call port d))"
  shows "port_device call"
  using assms by (unfold_locales) (auto simp: same_ports_def)

interpretation reader: port_device "request_read now"
  by (rule port_device_same_ports) simp

interpretation writer: port_device request_write
  by (rule port_device_same_ports) simp

interpretation inserter: port_device "\<lambda>port. on_stream port (modifyR (stream_insert data))"
  by (rule port_device_same_ports) simp

section \<open>Routing\<close>

lemma query_Some:
  "query_device_based_on_port port ds = Some i \<Longrightarrow>
     i < length ds \<and> device_buffer (ds ! i) port \<noteq> None \<and> (\<forall>j<i. device_buffer (ds ! j) port = None)"
proof (induction ds arbitrary: i)
  case (Cons d ds)
  show ?case
  proof (cases "device_buffer d port")
    case None
    with Cons.prems obtain j where j: "i = Suc j" "query_device_based_on_port port ds = Some j"
      by auto
    from Cons.IH [OF j(2)] j(1) None show ?thesis by (auto simp: nth_Cons split: nat.split)
  qed (use Cons.prems in auto)
qed simp

lemma query_None:
  "query_device_based_on_port port ds = None \<longleftrightarrow> (\<forall>d\<in>set ds. device_buffer d port = None)"
  by (induction ds) auto

lemma on_device_frame:
  assumes "j \<noteq> i"
  shows "snd (on_device i m ds) ! j = ds ! j" and "length (snd (on_device i m ds)) = length ds"
  using assms by (auto simp: on_device_def split: prod.split)

lemma snd_bindR_no_change:
  assumes "\<And>x s. snd (f x s) = s"
  shows "snd (bindR m f s) = snd (m s)"
  using assms by (auto simp: bindR_def split: prod.split sum.split)

lemma hub_ins_state:
  "snd (hub_ins now port ds) = (case query_device_based_on_port port ds of
     None \<Rightarrow> ds | Some i \<Rightarrow> snd (on_device i (request_read now port) ds))"
  by (simp add: hub_ins_def snd_bindR_no_change split: option.split)



section \<open>Disk\<close>

text \<open>
  A disk whose streams are empty and whose image has the size the controller knows.
\<close>

definition disk_ready :: "device \<Rightarrow> disk_imager \<Rightarrow> bool" where
  "disk_ready d dk \<longleftrightarrow> device_object d = SysdarftDiskImager dk
     \<and> distinct [REG_SIZE dk, REG_START_SEC dk, REG_SEC_COUNT dk, CMD_REQUEST_RD dk, CMD_REQUEST_WR dk]
     \<and> device_buffer d = [REG_SIZE dk \<mapsto> [], REG_START_SEC dk \<mapsto> [], REG_SEC_COUNT dk \<mapsto> [],
          CMD_REQUEST_RD dk \<mapsto> [], CMD_REQUEST_WR dk \<mapsto> []]
     \<and> unat (device_size dk) = length (image dk) \<and> length (image dk) < 2 ^ 63"

text \<open>What \<open>SysdarftIOHub::outs\<close> does on the device it found.\<close>

definition device_out :: "u64 \<Rightarrow> u8 list \<Rightarrow> (device, bool) run" where
  "device_out port data =
     thenR (on_stream port (modifyR (stream_insert data))) (request_write port)"

lemmas disk_run_defs = device_out_def request_write_def request_read_def disk_request_write_def
  disk_request_read_def on_stream_def stream_insert_def stream_pop_eq set_disk_def bindR_def
  thenR_def returnR_def throwR_def

lemma disk_select:
  assumes "disk_ready d dk"
  shows "device_out (REG_START_SEC dk) (word_to_bytes 8 a) d =
      (Inr True, d\<lparr>device_object := SysdarftDiskImager (dk\<lparr>start_sector := a\<rparr>)\<rparr>)"
    and "device_out (REG_SEC_COUNT dk) (word_to_bytes 8 n) d =
      (Inr True, d\<lparr>device_object := SysdarftDiskImager (dk\<lparr>sector_count := n\<rparr>)\<rparr>)"
  using assms by (auto simp: disk_ready_def disk_run_defs fun_eq_iff)

text \<open>The range of a request that the controller accepts.\<close>

definition sectors_ok :: "disk_imager \<Rightarrow> bool" where
  "sectors_ok dk \<longleftrightarrow> sector_count dk \<noteq> 0
     \<and> (unat (start_sector dk) + unat (sector_count dk)) * 512 \<le> length (image dk)
     \<and> unat (sector_count dk) * 512 \<le> io_limit"

lemma sectors_ok_arith:
  assumes "unat (device_size dk) = length (image dk)" "length (image dk) < 2 ^ 63" "sectors_ok dk"
  shows "unat (start_sector dk * 512) = unat (start_sector dk) * 512"
    and "unat (sector_count dk * 512) = unat (sector_count dk) * 512"
    and "\<not> (start_sector dk + sector_count dk) * 512 > device_size dk"
    and "\<not> start_sector dk * 512 + sector_count dk * 512 > device_size dk"
    and "sector_count dk * 512 \<noteq> 0"
proof -
  let ?a = "unat (start_sector dk)" and ?n = "unat (sector_count dk)"
  have le: "(?a + ?n) * 512 \<le> length (image dk)" and n0: "0 < ?n"
    using assms(3) by (auto simp: sectors_ok_def unat_gt_0)
  have lt: "(?a + ?n) * 512 < 2 ^ 63" using le assms(2) by linarith
  show sa: "unat (start_sector dk * 512) = ?a * 512"
    using lt by (simp add: unat_word_ariths)
  show sn: "unat (sector_count dk * 512) = ?n * 512"
    using lt by (simp add: unat_word_ariths)
  have "unat (start_sector dk + sector_count dk) = ?a + ?n"
    using lt by (simp add: unat_word_ariths)
  then have "unat ((start_sector dk + sector_count dk) * 512) = (?a + ?n) * 512"
    using lt by (simp add: unat_word_ariths)
  then show "\<not> (start_sector dk + sector_count dk) * 512 > device_size dk"
    using le assms(1) by (simp add: word_less_nat_alt)
  have "unat (start_sector dk * 512 + sector_count dk * 512) = ?a * 512 + ?n * 512"
    using sa sn lt by (simp add: unat_plus_no_wrap)
  then show "\<not> start_sector dk * 512 + sector_count dk * 512 > device_size dk"
    using le assms(1) by (simp add: word_less_nat_alt)
  show "sector_count dk * 512 \<noteq> 0"
    using sn n0 by (metis mult_is_0 neq0_conv unat_0 zero_neq_numeral)
qed

lemma disk_read_ok:
  assumes "disk_ready d dk" and ok: "sectors_ok dk"
  shows "request_read now (CMD_REQUEST_RD dk) d =
    (Inr True, d\<lparr>device_buffer := (device_buffer d)(CMD_REQUEST_RD dk \<mapsto>
       take (unat (sector_count dk) * 512) (drop (unat (start_sector dk) * 512) (image dk)))\<rparr>)"
proof -
  have sz: "unat (device_size dk) = length (image dk)" "length (image dk) < 2 ^ 63"
    using assms(1) by (simp_all add: disk_ready_def)
  note ar = sectors_ok_arith [OF sz ok]
  have "unat (start_sector dk) * 512 + unat (sector_count dk) * 512 \<le> length (image dk)"
    and lim: "unat (sector_count dk) * 512 \<le> io_limit"
    using ok by (simp_all add: sectors_ok_def algebra_simps)
  then have "length (posix_read (image dk) (unat (start_sector dk) * 512)
      (unat (sector_count dk) * 512)) = unat (sector_count dk) * 512"
    by (simp add: posix_read_def)
  moreover have "unat (start_sector dk) * 512 < 2 ^ 63" "unat (sector_count dk) * 512 < 2 ^ 63"
    using ok sz(2) by (simp_all add: sectors_ok_def)
  ultimately show ?thesis
    using assms(1) ar lim
    by (auto simp: disk_ready_def disk_run_defs Let_def posix_read_def)
qed

lemma disk_write_ok:
  assumes "disk_ready d dk" and ok: "sectors_ok dk"
    and len: "length data = unat (sector_count dk) * 512"
  shows "device_out (CMD_REQUEST_WR dk) data d =
    (Inr True, d\<lparr>device_object := SysdarftDiskImager (dk\<lparr>image :=
       take (unat (start_sector dk) * 512) (image dk) @ data
       @ drop ((unat (start_sector dk) + unat (sector_count dk)) * 512) (image dk)\<rparr>)\<rparr>)"
proof -
  have sz: "unat (device_size dk) = length (image dk)" "length (image dk) < 2 ^ 63"
    using assms(1) by (simp_all add: disk_ready_def)
  note ar = sectors_ok_arith [OF sz ok]
  have "unat (start_sector dk) * 512 < 2 ^ 63"
    using ok sz(2) by (simp add: sectors_ok_def)
  moreover have "posix_write (image dk) (unat (start_sector dk) * 512) data =
      (length data, take (unat (start_sector dk) * 512) (image dk) @ data
       @ drop ((unat (start_sector dk) + unat (sector_count dk)) * 512) (image dk))"
    using ok len by (simp add: posix_write_def Let_def sectors_ok_def algebra_simps)
  ultimately show ?thesis
    using assms(1) ar len
    by (auto simp: disk_ready_def disk_run_defs Let_def fun_eq_iff)
qed

text \<open>
  C27: the disk protocol. Selecting a range of sectors that lies inside the image, writing
  as many bytes as it has and reading the same range returns exactly the bytes written; the
  image changes in these sectors only and keeps its size.
\<close>

theorem disk_write_read_round_trip:
  fixes a n :: u64
  assumes "disk_ready d dk" and "n \<noteq> 0"
    and "(unat a + unat n) * 512 \<le> length (image dk)" and "unat n * 512 \<le> io_limit"
    and "length data = unat n * 512"
  shows "\<exists>d'. thenR (device_out (REG_START_SEC dk) (word_to_bytes 8 a))
      (thenR (device_out (REG_SEC_COUNT dk) (word_to_bytes 8 n))
      (thenR (device_out (CMD_REQUEST_WR dk) data)
        (request_read now (CMD_REQUEST_RD dk)))) d = (Inr True, d')
    \<and> device_buffer d' = (device_buffer d)(CMD_REQUEST_RD dk \<mapsto> data)
    \<and> device_object d' = SysdarftDiskImager (dk\<lparr>start_sector := a, sector_count := n,
        image := take (unat a * 512) (image dk) @ data @ drop ((unat a + unat n) * 512) (image dk)\<rparr>)"
proof -
  let ?d = "\<lambda>k. d\<lparr>device_object := SysdarftDiskImager k\<rparr>"
  let ?k1 = "dk\<lparr>start_sector := a\<rparr>"
  let ?k2 = "dk\<lparr>start_sector := a, sector_count := n\<rparr>"
  let ?img = "take (unat a * 512) (image dk) @ data @ drop ((unat a + unat n) * 512) (image dk)"
  let ?k3 = "?k2\<lparr>image := ?img\<rparr>"
  have ready: "disk_ready (?d ?k1) ?k1" "disk_ready (?d ?k2) ?k2" "sectors_ok ?k2"
    using assms by (simp_all add: disk_ready_def sectors_ok_def)
  have len: "length ?img = length (image dk)" using assms(3,5) by simp
  then have ready3: "disk_ready (?d ?k3) ?k3" "sectors_ok ?k3"
    using assms by (simp_all add: disk_ready_def sectors_ok_def)
  have "take (unat n * 512) (drop (unat a * 512) ?img) = data"
    using assms(3,5) by simp
  then have "request_read now (CMD_REQUEST_RD dk) (?d ?k3) =
      (Inr True, (?d ?k3)\<lparr>device_buffer := (device_buffer d)(CMD_REQUEST_RD dk \<mapsto> data)\<rparr>)"
    using disk_read_ok [OF ready3, of now] by simp
  moreover have "device_out (CMD_REQUEST_WR dk) data (?d ?k2) = (Inr True, ?d ?k3)"
    using disk_write_ok [OF ready(2,3), of data] assms(5) by simp
  moreover have "device_out (REG_SEC_COUNT dk) (word_to_bytes 8 n) (?d ?k1) = (Inr True, ?d ?k2)"
    using disk_select(2) [OF ready(1), of n] by simp
  moreover note disk_select(1) [OF assms(1), of a]
  ultimately show ?thesis by (simp add: thenR_def bindR_def)
qed

text \<open>A hard disk of two sectors.\<close>

definition small_disk :: disk_imager where
  "small_disk = \<lparr>image = replicate 1024 0, start_sector = 0, sector_count = 0, device_size = 1024,
     REG_SIZE = 0x136, REG_START_SEC = 0x137, REG_SEC_COUNT = 0x138, CMD_REQUEST_RD = 0x139,
     CMD_REQUEST_WR = 0x13A\<rparr>"

lemma small_disk_ready: "disk_ready (SysdarftBlockDevices (replicate 1024 0)) small_disk"
  by (simp add: disk_ready_def small_disk_def SysdarftBlockDevices_def new_disk_def)

theorem disk_write_read_round_trip_witness:
  "\<exists>d'. thenR (device_out (REG_START_SEC small_disk) (word_to_bytes 8 (1 :: u64)))
      (thenR (device_out (REG_SEC_COUNT small_disk) (word_to_bytes 8 (1 :: u64)))
      (thenR (device_out (CMD_REQUEST_WR small_disk) (replicate 512 7))
        (request_read 0 (CMD_REQUEST_RD small_disk)))) (SysdarftBlockDevices (replicate 1024 0))
        = (Inr True, d')
    \<and> device_buffer d' 0x139 = Some (replicate 512 7)"
  using disk_write_read_round_trip [OF small_disk_ready, of 1 1 "replicate 512 7" 0]
  by (auto simp: small_disk_def io_limit_def)

text \<open>
  A disk write command whose byte count does not match the selected sectors is refused
  but its bytes stay queued. Every later command with the right number of bytes is refused
  too: the queue of the write port is never emptied again.
\<close>

theorem disk_write_wedges_after_mismatch:
  assumes "disk_ready d dk" and "sectors_ok dk" and "bad \<noteq> []"
    and "length bad \<noteq> unat (sector_count dk) * 512"
    and "length data = unat (sector_count dk) * 512"
  shows "\<exists>d'. device_out (CMD_REQUEST_WR dk) bad d = (Inr False, d')
    \<and> device_buffer d' (CMD_REQUEST_WR dk) = Some bad
    \<and> fst (device_out (CMD_REQUEST_WR dk) data d') = Inr False"
proof -
  have sz: "unat (device_size dk) = length (image dk)" "length (image dk) < 2 ^ 63"
    using assms(1) by (simp_all add: disk_ready_def)
  note ar = sectors_ok_arith [OF sz assms(2)]
  let ?d' = "d\<lparr>device_buffer := (device_buffer d)(CMD_REQUEST_WR dk \<mapsto> bad)\<rparr>"
  have "device_out (CMD_REQUEST_WR dk) bad d = (Inr False, ?d')"
    using assms(1,4) ar by (auto simp: disk_ready_def disk_run_defs Let_def)
  moreover have "fst (device_out (CMD_REQUEST_WR dk) data ?d') = Inr False"
    using assms(1,3,5) ar by (auto simp: disk_ready_def disk_run_defs Let_def)
  ultimately show ?thesis by simp
qed

lemma small_disk_selected:
  "disk_ready ((SysdarftBlockDevices (replicate 1024 0))\<lparr>device_object :=
     SysdarftDiskImager (small_disk\<lparr>sector_count := 1\<rparr>)\<rparr>) (small_disk\<lparr>sector_count := 1\<rparr>)"
  "sectors_ok (small_disk\<lparr>sector_count := 1\<rparr>)"
  by (simp_all add: disk_ready_def sectors_ok_def small_disk_def SysdarftBlockDevices_def
      new_disk_def io_limit_def)

theorem disk_write_wedges_after_mismatch_witness:
  "\<exists>d'. device_out 0x13A [1] ((SysdarftBlockDevices (replicate 1024 0))\<lparr>device_object :=
       SysdarftDiskImager (small_disk\<lparr>sector_count := 1\<rparr>)\<rparr>) = (Inr False, d')
    \<and> fst (device_out 0x13A (replicate 512 7) d') = Inr False"
  using disk_write_wedges_after_mismatch [OF small_disk_selected, of "[1]" "replicate 512 7"]
  by (auto simp: small_disk_def)

section \<open>Real-time clock\<close>

text \<open>
  C39: setting the clock to \<open>T\<close> seconds and reading it at once returns \<open>T\<close> plus the seconds
  the machine has been up, not \<open>T\<close>: the write moves the start of the time scale but not the
  moment it is counted from.
\<close>

theorem rtc_set_time_adds_uptime:
  assumes "device_object d = SysdarftRealTimeClock r"
    and "device_buffer d RTC_CURRENT_TIME = Some []"
    and "now = m_machineTime r + int up * 1000000000"
    and "0 \<le> T" and "(T + int up) * 1000000000 < 2 ^ 63"
  shows "\<exists>d'. thenR (device_out RTC_CURRENT_TIME (word_to_bytes 8 (of_int T :: u64)))
        (request_read now RTC_CURRENT_TIME) d = (Inr True, d')
    \<and> device_buffer d' RTC_CURRENT_TIME = Some (word_to_bytes 8 (of_int (T + int up) :: u64))"
proof -
  have bounds: "T < 2 ^ 63" "0 \<le> T * 1000000000" "T * 1000000000 < 2 ^ 63"
    using assms(4,5) by (simp_all add: distrib_right)
  then have sT: "sint (of_int T :: u64) = T"
    using assms(4) by (simp add: signed_of_int signed_take_bit_int_eq_self)
  have sum: "T * 1000000000 + int up * 1000000000 = (T + int up) * 1000000000"
    by (simp only: distrib_right)
  have "to_seconds (T * 1000000000 + int up * 1000000000) = T + int up"
    unfolding sum using assms(4) by (simp only: to_seconds_def) simp
  moreover have "ns_ok (T * 1000000000 + int up * 1000000000)" "ns_ok (T * 1000000000)"
    using assms(4,5) bounds by (simp_all add: ns_ok_def)
  ultimately show ?thesis
    using assms(1-3) sT
    by (simp add: device_out_def request_write_def request_read_def rtc_request_write_def
        rtc_request_read_def on_stream_def stream_insert_def stream_push_def stream_pop_eq
        set_rtc_def bindR_def thenR_def returnR_def Let_def)
qed

theorem rtc_set_time_adds_uptime_witness:
  "\<exists>d'. thenR (device_out RTC_CURRENT_TIME (word_to_bytes 8 (1700000000 :: u64)))
        (request_read 3600000000000 RTC_CURRENT_TIME) (new_rtc 0) = (Inr True, d')
    \<and> device_buffer d' RTC_CURRENT_TIME = Some (word_to_bytes 8 (1700003600 :: u64))"
  using rtc_set_time_adds_uptime [of "new_rtc 0" _ 3600000000000 3600 1700000000]
  by (simp add: new_rtc_def RTC_CURRENT_TIME_def RTC_SET_INTERRUPT_def)

text \<open>The interruptions that \<open>k\<close> rounds of the clock thread ask for.\<close>

fun rtc_rounds :: "nat \<Rightarrow> u128 \<Rightarrow> real_time_clock \<Rightarrow> u64 option list" where
  "rtc_rounds 0 c r = []"
| "rtc_rounds (Suc k) c r = (case update_time c r of (c', i) \<Rightarrow> i # rtc_rounds k c' r)"

lemma rtc_rounds_count_down:
  "rtc_rounds (unat c + k) c r = replicate (unat c) None @ rtc_rounds k 0 r"
proof (induction "unat c" arbitrary: c)
  case 0
  then have "c = 0" by (simp add: unat_eq_0)
  then show ?case by simp
next
  case (Suc m)
  then have c: "c \<noteq> 0" by auto
  then have u: "unat (c - 1) = m"
    using Suc.hyps(2) by (metis diff_Suc_1 unat_minus_one)
  have "rtc_rounds (unat c + k) c r = None # rtc_rounds (m + k) (c - 1) r"
    using c Suc.hyps(2) [symmetric] by (simp add: update_time_def)
  also have "\<dots> = None # replicate m None @ rtc_rounds k 0 r"
    using Suc.hyps(1) [of "c - 1"] u by simp
  finally show ?case using Suc.hyps(2) [symmetric] by simp
qed

text \<open>
  C25: once the guest has programmed the clock, its thread requests the chosen interruption
  periodically, exactly once in every \<open>scale + 1\<close> rounds.
\<close>

theorem rtc_interrupt_period:
  assumes "interruption_number r > 0x1F" and "interruption_number r < MAX_INTERRUPTION_ENTRY"
  shows "rtc_rounds (Suc (unat (interruption_scale r)) + k) (ucast (interruption_scale r)) r
    = replicate (unat (interruption_scale r)) None @ Some (interruption_number r)
      # rtc_rounds k (ucast (interruption_scale r)) r"
proof -
  have u: "unat (ucast (interruption_scale r) :: u128) = unat (interruption_scale r)"
    using unat_u64_less [of "interruption_scale r"]
    by (simp add: unsigned_ucast_eq take_bit_nat_eq_self)
  have "rtc_rounds (Suc k) 0 r = Some (interruption_number r)
      # rtc_rounds k (ucast (interruption_scale r)) r"
    using assms by (simp add: update_time_def)
  then show ?thesis
    using rtc_rounds_count_down [of "ucast (interruption_scale r)" "Suc k" r] u by simp
qed

theorem rtc_interrupt_period_witness:
  "rtc_rounds 4 3 \<lparr>m_startTime = 0, m_machineTime = 0, interruption_number = 0x81,
       interruption_scale = 3\<rparr> = replicate 3 None @ [Some 0x81]"
  using rtc_interrupt_period [of "\<lparr>m_startTime = 0, m_machineTime = 0, interruption_number = 0x81,
       interruption_scale = 3\<rparr>" 0]
  by (simp add: layout_defs replicate_Suc numeral_3_eq_3 [symmetric] del: rtc_rounds.simps(2))

end
