(* ===== verification/Code_Buffer.thy ===== *)
theory Code_Buffer
  imports Cxx_Strings IO_Hub
begin

text \<open>
  The code buffer of the assembler and the disassembler (\<open>include/EncodingDecoding.h\<close>), a
  \<open>std::vector<uint8_t>\<close> that is filled at its end and emptied from its front, and the
  printing of bytes that are no code.
\<close>

section \<open>Pushing and popping\<close>

text \<open>
  The pointer argument is the bytes it shows, or \<open>None\<close> for the null pointer; the length is
  in bits. \<open>SysdarftInvalidArgument\<close> and \<open>CodeBufferEmptiedWhenPop\<close> have no handlers of
  their own.
\<close>

(* include/EncodingDecoding.h 326-337: code_buffer_push *)
definition code_buffer_push :: "nat \<Rightarrow> u8 list option \<Rightarrow> (u8 list, unit) run" where
  "code_buffer_push len value = (case value of
     None \<Rightarrow> throwR SysdarftBaseError
   | Some bytes \<Rightarrow> modifyR (\<lambda>buffer. buffer @ take (len div 8) bytes))"

(* include/EncodingDecoding.h 352-354: code_buffer_push8 *)
definition code_buffer_push8 :: "u8 \<Rightarrow> (u8 list, unit) run" where
  "code_buffer_push8 value = code_buffer_push 8 (Some (word_to_bytes 1 value))"

(* include/EncodingDecoding.h 369-371: code_buffer_push16 *)
definition code_buffer_push16 :: "u16 \<Rightarrow> (u8 list, unit) run" where
  "code_buffer_push16 value = code_buffer_push 16 (Some (word_to_bytes 2 value))"

(* include/EncodingDecoding.h 386-388: code_buffer_push32 *)
definition code_buffer_push32 :: "u32 \<Rightarrow> (u8 list, unit) run" where
  "code_buffer_push32 value = code_buffer_push 32 (Some (word_to_bytes 4 value))"

(* include/EncodingDecoding.h 403-405: code_buffer_push64 *)
definition code_buffer_push64 :: "u64 \<Rightarrow> (u8 list, unit) run" where
  "code_buffer_push64 value = code_buffer_push 64 (Some (word_to_bytes 8 value))"

text \<open>The bytes popped before the buffer runs empty are gone.\<close>

(* include/EncodingDecoding.h 427-442: code_buffer_pop *)
fun code_buffer_pop :: "nat \<Rightarrow> (u8 list, u8 list) run" where
  "code_buffer_pop 0 = returnR []"
| "code_buffer_pop (Suc n) = (\<lambda>input. case input of
     [] \<Rightarrow> (Inl SysdarftBaseError, [])
   | b # bs \<Rightarrow> bindR (code_buffer_pop n) (\<lambda>rest. returnR (b # rest)) bs)"

(* include/EncodingDecoding.h 456-458: code_buffer_pop8 *)
definition code_buffer_pop8 :: "(u8 list, u8) run" where
  "code_buffer_pop8 = bindR (code_buffer_pop 1) (\<lambda>bs. returnR (word_of_bytes bs))"

(* include/EncodingDecoding.h 472-474: code_buffer_pop16 *)
definition code_buffer_pop16 :: "(u8 list, u16) run" where
  "code_buffer_pop16 = bindR (code_buffer_pop 2) (\<lambda>bs. returnR (word_of_bytes bs))"

(* include/EncodingDecoding.h 488-490: code_buffer_pop32 *)
definition code_buffer_pop32 :: "(u8 list, u32) run" where
  "code_buffer_pop32 = bindR (code_buffer_pop 4) (\<lambda>bs. returnR (word_of_bytes bs))"

(* include/EncodingDecoding.h 504-506: code_buffer_pop64 *)
definition code_buffer_pop64 :: "(u8 list, u64) run" where
  "code_buffer_pop64 = bindR (code_buffer_pop 8) (\<lambda>bs. returnR (word_of_bytes bs))"

section \<open>Bytes that are no code\<close>

text \<open>
  \<open>isprint\<close> is given a \<open>char\<close>, which is signed on the hosts; the C library's table covers
  the negative values too and has them unprintable.
\<close>

definition bad_byte :: "u8 \<Rightarrow> string" where
  "bad_byte b = (if isprint (byte_char b) then [CHR 0x27, byte_char b, CHR 0x27]
     else ''0x'' @ pad_left 2 (CHR ''0'') (to_hex (unat b)))"

(* include/EncodingDecoding.h 559-586: bad_nbit *)
definition bad_nbit :: "u8 list \<Rightarrow> string" where
  "bad_nbit data = ''.8bit_data <''
     @ concat (map (\<lambda>b. bad_byte b @ (if length data > 1 then '', '' else [])) data) @ ''>''"

section \<open>The buffer is a queue\<close>

lemma code_buffer_pop_eq:
  "code_buffer_pop n input = (if n \<le> length input then (Inr (take n input), drop n input)
     else (Inl SysdarftBaseError, []))"
  by (induction n arbitrary: input) (auto simp: bindR_def returnR_def split: list.split)

definition buffer_append :: "u8 list \<Rightarrow> u8 list \<Rightarrow> u8 list" where
  "buffer_append bytes buffer = snd (code_buffer_push (8 * length bytes) (Some bytes) buffer)"

interpretation code_buffer: fifo_queue buffer_append code_buffer_pop id
  by unfold_locales (auto simp: buffer_append_def code_buffer_push_def code_buffer_pop_eq)

lemma code_buffer_push8_run [simp]: "code_buffer_push8 v buf = (Inr (), buf @ [v])"
  by (simp add: code_buffer_push8_def code_buffer_push_def word_to_bytes_def)

lemma code_buffer_pop8_run:
  "code_buffer_pop8 [] = (Inl SysdarftBaseError, [])"
  "code_buffer_pop8 (b # bs) = (Inr b, bs)"
  by (simp_all add: code_buffer_pop8_def bindR_def returnR_def)

lemma code_buffer_pop_word:
  "code_buffer_pop16 (word_to_bytes 2 (x :: u16) @ bs) = (Inr x, bs)"
  "code_buffer_pop32 (word_to_bytes 4 (y :: u32) @ bs) = (Inr y, bs)"
  "code_buffer_pop64 (word_to_bytes 8 (z :: u64) @ bs) = (Inr z, bs)"
  by (simp_all add: code_buffer_pop16_def code_buffer_pop32_def code_buffer_pop64_def
      code_buffer_pop_eq bindR_def returnR_def)

text \<open>
  The code buffer delivers what was pushed, in order and at the width it was pushed
  with: on an empty buffer a byte, a 16-bit, a 32-bit and a 64-bit value pushed one after
  the other are popped again in that order, and then the buffer is empty. A pop that finds
  too few bytes throws and leaves the buffer empty, and pushing a null pointer throws and
  leaves the buffer as it was.
\<close>

theorem code_buffer_round_trip:
  "(thenR (code_buffer_push8 a) (thenR (code_buffer_push16 b) (thenR (code_buffer_push32 c)
     (thenR (code_buffer_push64 d)
       (bindR code_buffer_pop8 (\<lambda>a'. bindR code_buffer_pop16 (\<lambda>b'. bindR code_buffer_pop32 (\<lambda>c'.
        bindR code_buffer_pop64 (\<lambda>d'. returnR (a', b', c', d')))))))))) []
     = (Inr (a, b, c, d), [])
   \<and> code_buffer_pop64 (take 7 (word_to_bytes 8 d)) = (Inl SysdarftBaseError, [])
   \<and> code_buffer_push n None buffer = (Inl SysdarftBaseError, buffer)"
  by (simp add: code_buffer_push16_def code_buffer_push32_def code_buffer_push64_def
      code_buffer_push_def code_buffer_pop8_run code_buffer_pop_word run_simps
      code_buffer_pop_eq code_buffer_pop64_def)

end
