(* ===== verification/Disassembler.thy ===== *)
theory Disassembler
  imports Code_Buffer Code_Format
begin

text \<open>
  The disassembler (\<open>coding/DecodeTarget.cpp\<close>, \<open>coding/DecodeInstruction.cpp\<close>): from the
  bytes of a code buffer to the text of an instruction. Every function appends to a vector of
  literals and takes bytes off the front of the code buffer; the state is the pair of the two.
\<close>

type_synonym literals = "string list \<times> u8 list"

section \<open>Access to the two vectors\<close>

definition on_input :: "(u8 list, 'a) run \<Rightarrow> (literals, 'a) run" where
  "on_input m = (\<lambda>(output, input). case m input of (r, input') \<Rightarrow> (r, (output, input')))"

abbreviation pop8 :: "(literals, u8) run" where "pop8 \<equiv> on_input code_buffer_pop8"
abbreviation pop16 :: "(literals, u16) run" where "pop16 \<equiv> on_input code_buffer_pop16"
abbreviation pop32 :: "(literals, u32) run" where "pop32 \<equiv> on_input code_buffer_pop32"
abbreviation pop64 :: "(literals, u64) run" where "pop64 \<equiv> on_input code_buffer_pop64"

definition emplace_back :: "string \<Rightarrow> (literals, unit) run" where
  "emplace_back literal = modifyR (\<lambda>(output, input). (output @ [literal], input))"

text \<open>Running a call on a fresh local vector of literals, and reading that vector.\<close>

definition with_local :: "(literals, 'a) run \<Rightarrow> (literals, 'a \<times> string list) run" where
  "with_local m = (\<lambda>(output, input). case m ([], input) of
     (Inl e, (_, input')) \<Rightarrow> (Inl e, (output, input'))
   | (Inr x, (literals, input')) \<Rightarrow> (Inr (x, literals), (output, input')))"

section \<open>Operands\<close>

(* coding/DecodeTarget.cpp 31-34: decode_constant, output_num *)
definition output_num :: "string \<Rightarrow> u64 \<Rightarrow> string" where
  "output_num bits num = ''$'' @ bits @ ''(0x'' @ to_hex (unat num) @ '')''"

(* coding/DecodeTarget.cpp 25-53: decode_constant *)
definition decode_constant :: "(literals, unit) run" where
  "decode_constant =
     bindR pop8 (\<lambda>prefix.
     bindR (if prefix = prefix_8bit then bindR pop8 (\<lambda>num. returnR (output_num ''8'' (ucast num)))
            else if prefix = prefix_16bit then bindR pop16 (\<lambda>num. returnR (output_num ''16'' (ucast num)))
            else if prefix = prefix_32bit then bindR pop32 (\<lambda>num. returnR (output_num ''32'' (ucast num)))
            else if prefix = prefix_64bit then bindR pop64 (\<lambda>num. returnR (output_num ''64'' num))
            else returnR (bad_nbit [prefix])) emplace_back)"

definition bad_register :: "u8 \<Rightarrow> u8 \<Rightarrow> (literals, unit) run" where
  "bad_register register_size register_index =
     thenR (emplace_back (bad_nbit [register_size])) (emplace_back (bad_nbit [register_index]))"

(* coding/DecodeTarget.cpp 55-98: decode_register *)
definition decode_register :: "(literals, unit) run" where
  "decode_register =
     bindR pop8 (\<lambda>register_size.
     bindR pop8 (\<lambda>register_index.
     let literal = (\<lambda>prefix. emplace_back (''%'' @ prefix @ to_string (unat register_index))) in
     if register_size = prefix_8bit then literal ''R''
     else if register_size = prefix_16bit then literal ''EXR''
     else if register_size = prefix_32bit then literal ''HER''
     else if register_size = prefix_64bit then
       if register_index \<le> 15 then literal ''FER''
       else if register_index = R_StackBase then emplace_back ''%SB''
       else if register_index = R_StackPointer then emplace_back ''%SP''
       else if register_index = R_CodeBase then emplace_back ''%CB''
       else if register_index = R_DataBase then emplace_back ''%DB''
       else if register_index = R_DataPointer then emplace_back ''%DP''
       else if register_index = R_ExtendedBase then emplace_back ''%EB''
       else if register_index = R_ExtendedPointer then emplace_back ''%EP''
       else bad_register register_size register_index
     else bad_register register_size register_index))"

(* coding/DecodeTarget.cpp 114-124: decode_memory, decode_each_parameter *)
definition decode_parameter :: "(literals, bool) run" where
  "decode_parameter =
     bindR pop8 (\<lambda>code.
     if code = REGISTER_PREFIX then thenR decode_register (returnR True)
     else if code = CONSTANT_PREFIX then thenR decode_constant (returnR True)
     else thenR (emplace_back (bad_nbit [code])) (returnR False))"

text \<open>The three parameters, on the local vector; \<open>False\<close> when the function returns early.\<close>

(* coding/DecodeTarget.cpp 126-132: decode_memory, parameters *)
definition decode_parameters :: "(literals, bool) run" where
  "decode_parameters =
     thenR (emplace_back ''('')
     (bindR decode_parameter (\<lambda>ok1. if \<not> ok1 then returnR False else
      thenR (emplace_back '', '')
      (bindR decode_parameter (\<lambda>ok2. if \<not> ok2 then returnR False else
       thenR (emplace_back '', '')
       (bindR decode_parameter (\<lambda>ok3. if \<not> ok3 then returnR False else
        thenR (emplace_back '')'') (returnR True)))))))"

(* coding/DecodeTarget.cpp 134-142: decode_memory, ratio *)
definition ratio_literal :: "u8 \<Rightarrow> string option" where
  "ratio_literal code = (if code = 0x01 then Some ''*1'' else if code = 0x02 then Some ''*2''
     else if code = 0x04 then Some ''*4'' else if code = 0x08 then Some ''*8''
     else if code = 0x16 then Some ''*16'' else None)"

(* coding/DecodeTarget.cpp 106-112: decode_memory, width *)
definition width_literal :: "u8 \<Rightarrow> string option" where
  "width_literal code = (if code = prefix_8bit then Some ''&8'' else if code = prefix_16bit then Some ''&16''
     else if code = prefix_32bit then Some ''&32'' else if code = prefix_64bit then Some ''&64'' else None)"

(* coding/DecodeTarget.cpp 100-150: decode_memory *)
definition decode_memory :: "(literals, unit) run" where
  "decode_memory =
     bindR pop8 (\<lambda>code.
     case width_literal code of
       None \<Rightarrow> emplace_back (bad_nbit [code])
     | Some width_text \<Rightarrow>
         bindR (with_local decode_parameters) (\<lambda>(ok, literals).
         if \<not> ok then returnR () else
         bindR pop8 (\<lambda>ratio_code.
         case ratio_literal ratio_code of
           None \<Rightarrow> emplace_back (bad_nbit [ratio_code])
         | Some ratio \<Rightarrow> emplace_back (ratio @ width_text @ concat literals))))"

(* coding/DecodeTarget.cpp 152-161: decode_target *)
definition decode_target :: "(literals, unit) run" where
  "decode_target =
     bindR pop8 (\<lambda>code.
     if code = REGISTER_PREFIX then decode_register
     else if code = CONSTANT_PREFIX then decode_constant
     else if code = MEMORY_PREFIX then decode_memory
     else emplace_back (bad_nbit [code]))"

section \<open>Instructions\<close>

text \<open>An operand, on its own vector; \<open>False\<close> when a \<open>SysdarftBaseError\<close> was caught.\<close>

(* coding/DecodeInstruction.cpp 56-59: decode_instruction, inner try *)
definition try_decode_target :: "(literals, bool \<times> string list) run" where
  "try_decode_target = with_local (tryR (thenR decode_target (returnR True))
     (\<lambda>e. if derived_from_base e then returnR False else throwR e))"

(* coding/DecodeInstruction.cpp 54-79: decode_instruction, operands *)
fun decode_arguments :: "instruction_entry \<Rightarrow> u8 \<Rightarrow> string \<Rightarrow> nat \<Rightarrow> (literals, unit) run" where
  "decode_arguments e op_width buffer 0 = emplace_back buffer"
| "decode_arguments e op_width buffer (Suc n) =
     bindR try_decode_target (\<lambda>(ok, literals).
     if \<not> ok then
       thenR (emplace_back (bad_nbit [entry_opcode e]))
       (thenR (if op_width \<noteq> 0 then emplace_back (bad_nbit [op_width]) else returnR ())
       (forR literals emplace_back))
     else
       decode_arguments e op_width
         (buffer @ '' <'' @ concat literals @ ''>''
           @ (if argument_count e = Suc n \<and> argument_count e > 1 then '','' else [])) n)"

(* coding/DecodeInstruction.cpp 41-51: decode_instruction, width *)
definition op_width_literal :: "u8 \<Rightarrow> string" where
  "op_width_literal w = (if w = prefix_8bit then '' .8bit '' else if w = prefix_16bit then '' .16bit''
     else if w = prefix_32bit then '' .32bit'' else '' .64bit'')"

(* coding/DecodeInstruction.cpp 25-89: decode_instruction *)
definition decode_instruction :: "(literals, unit) run" where
  "decode_instruction =
     tryR (bindR pop8 (\<lambda>instruction.
       case find_opcode instruction of
         None \<Rightarrow> emplace_back (bad_nbit [instruction])
       | Some e \<Rightarrow>
           if require_width e then
             bindR pop8 (\<lambda>op_width.
             if \<not> is_width op_width then
               thenR (emplace_back (bad_nbit [instruction])) (emplace_back (bad_nbit [op_width]))
             else decode_arguments e op_width (mnemonic e @ op_width_literal op_width) (argument_count e))
           else decode_arguments e 0 (mnemonic e) (argument_count e)))
     (\<lambda>_. returnR ())"

section \<open>The text of well-formed code\<close>

text \<open>What the disassembler prints for the abstract syntax of \<open>Code_Format\<close>.\<close>

definition register_text :: "u8 \<Rightarrow> u8 \<Rightarrow> string" where
  "register_text w i =
     (if w = prefix_8bit then ''%R'' @ to_string (unat i)
      else if w = prefix_16bit then ''%EXR'' @ to_string (unat i)
      else if w = prefix_32bit then ''%HER'' @ to_string (unat i)
      else if unat i < 16 then ''%FER'' @ to_string (unat i)
      else if i = R_StackBase then ''%SB'' else if i = R_StackPointer then ''%SP''
      else if i = R_CodeBase then ''%CB'' else if i = R_DataBase then ''%DB''
      else if i = R_DataPointer then ''%DP'' else if i = R_ExtendedBase then ''%EB'' else ''%EP'')"

definition bits_text :: "u8 \<Rightarrow> string" where
  "bits_text w = (if w = prefix_8bit then ''8'' else if w = prefix_16bit then ''16''
     else if w = prefix_32bit then ''32'' else ''64'')"

fun parameter_text :: "code_parameter \<Rightarrow> string" where
  "parameter_text (RegisterCode w i) = register_text w i"
| "parameter_text (ConstantCode w v) = ''$'' @ bits_text w @ ''(0x'' @ to_hex (unat (truncate_to w v)) @ '')''"

definition ratio_text :: "u8 \<Rightarrow> string" where
  "ratio_text r = to_string (unat (ratio_value r))"

fun operand_text :: "code_operand \<Rightarrow> string" where
  "operand_text (Direct p) = parameter_text p"
| "operand_text (MemoryCode w p q r ratio) = ''*'' @ ratio_text ratio @ ''&'' @ bits_text w @ ''(''
     @ parameter_text p @ '', '' @ parameter_text q @ '', '' @ parameter_text r @ '')''"

fun operands_text :: "code_operand list \<Rightarrow> string" where
  "operands_text [] = []"
| "operands_text [x] = '' <'' @ operand_text x @ ''>''"
| "operands_text (x # y # xs) = '' <'' @ operand_text x @ ''>,'' @ operands_text (y # xs)"

definition instruction_text :: "code_instruction \<Rightarrow> string" where
  "instruction_text c = (case find_opcode (code_opcode c) of
     None \<Rightarrow> []
   | Some e \<Rightarrow> mnemonic e @ (if require_width e then op_width_literal (code_width c) else [])
       @ operands_text (code_operands c))"

section \<open>Runs\<close>

lemma pop8_run:
  "pop8 (out, b # bs) = (Inr b, (out, bs))" "pop8 (out, []) = (Inl SysdarftBaseError, (out, []))"
  by (simp_all add: on_input_def code_buffer_pop8_run)

lemma pop_word_run:
  "pop16 (out, word_to_bytes 2 (x :: u16) @ bs) = (Inr x, (out, bs))"
  "pop32 (out, word_to_bytes 4 (y :: u32) @ bs) = (Inr y, (out, bs))"
  "pop64 (out, word_to_bytes 8 (z :: u64) @ bs) = (Inr z, (out, bs))"
  by (simp_all add: on_input_def code_buffer_pop_word)

lemma emplace_back_run [simp]: "emplace_back l (out, input) = (Inr (), (out @ [l], input))"
  by (simp add: emplace_back_def)

lemmas literal_runs = pop8_run pop_word_run bindR_def thenR_def returnR_def

lemma decode_register_text:
  assumes "valid_register w i"
  shows "decode_register (out, w # i # rest) = (Inr (), (out @ [register_text w i], rest))"
proof -
  have le: "i \<le> 15 \<longleftrightarrow> unat i < 16" by (simp add: word_le_nat_alt) linarith
  have "is_width w" using assms by (simp add: valid_register_def)
  then show ?thesis
    using assms
    by (cases rule: is_width_cases)
      (auto simp: decode_register_def literal_runs Let_def register_text_def le valid_register_def
        special_register_def)
qed

lemma decode_constant_text:
  assumes "is_width w"
  shows "decode_constant (out, w # word_to_bytes (width_bytes w) v @ rest)
    = (Inr (), (out @ [parameter_text (ConstantCode w v)], rest))"
  using assms
proof (cases rule: is_width_cases)
  case w8
  then show ?thesis
    by (simp add: decode_constant_def literal_runs output_num_def bits_text_def truncate_to_simps
        word_to_bytes_widths)
next
  case w16
  with pop_word_run(1) [of out "ucast v" rest] show ?thesis
    by (simp add: decode_constant_def literal_runs output_num_def bits_text_def truncate_to_simps
        word_to_bytes_widths)
next
  case w32
  with pop_word_run(2) [of out "ucast v" rest] show ?thesis
    by (simp add: decode_constant_def literal_runs output_num_def bits_text_def truncate_to_simps
        word_to_bytes_widths)
next
  case w64
  then show ?thesis
    by (simp add: decode_constant_def literal_runs output_num_def bits_text_def truncate_to_simps)
qed

lemma decode_parameter_text:
  assumes "wf_parameter p"
  shows "decode_parameter (out, parameter_bytes p @ rest)
    = (Inr True, (out @ [parameter_text p], rest))"
  using assms
  by (cases p) (simp_all add: decode_parameter_def literal_runs decode_register_text
      decode_constant_text prefix_defs del: parameter_text.simps(2))

lemma decode_memory_text:
  assumes "wf_operand (MemoryCode w p q r ratio)"
  shows "decode_memory (out, w # parameter_bytes p @ parameter_bytes q @ parameter_bytes r @ ratio # rest)
    = (Inr (), (out @ [operand_text (MemoryCode w p q r ratio)], rest))"
proof -
  have r: "ratio_literal ratio = Some (''*'' @ ratio_text ratio)"
    using assms by (auto simp: ratio_literal_def is_ratio_def ratio_text_def ratio_value_def
        to_base.simps)
  have "is_width w" using assms by simp
  then have w: "width_literal w = Some (''&'' @ bits_text w)"
    by (cases rule: is_width_cases) (simp_all add: width_literal_def bits_text_def)
  have "with_local decode_parameters
      (out, parameter_bytes p @ parameter_bytes q @ parameter_bytes r @ ratio # rest)
    = (Inr (True, [''('', parameter_text p, '', '', parameter_text q, '', '', parameter_text r, '')'']),
       (out, ratio # rest))"
    using assms by (simp add: with_local_def decode_parameters_def literal_runs decode_parameter_text)
  with r w show ?thesis by (simp add: decode_memory_def literal_runs)
qed

lemma decode_target_text:
  assumes "wf_operand x"
  shows "decode_target (out, operand_bytes x @ rest) = (Inr (), (out @ [operand_text x], rest))"
proof (cases x)
  case (Direct p)
  with assms show ?thesis
    by (cases p) (simp_all add: decode_target_def literal_runs decode_register_text
        decode_constant_text prefix_defs del: parameter_text.simps(2))
next
  case (MemoryCode w p q r ratio)
  with assms decode_memory_text [of w p q r ratio out rest] show ?thesis
    by (simp add: decode_target_def literal_runs prefix_defs)
qed

lemma try_decode_target_text:
  assumes "wf_operand x"
  shows "try_decode_target (out, operand_bytes x @ rest) = (Inr (True, [operand_text x]), (out, rest))"
  using decode_target_text [OF assms, of "[]" rest]
  by (simp add: try_decode_target_def with_local_def tryR_def thenR_def bindR_def returnR_def)

text \<open>At most two operands: the comma follows the first of two.\<close>

lemma argument_count_le_2: "find_opcode opc = Some e \<Longrightarrow> argument_count e \<le> 2"
proof -
  have "\<forall>e\<in>set instruction_map. argument_count e \<le> 2" by (simp add: instruction_table_defs)
  then show "find_opcode opc = Some e \<Longrightarrow> argument_count e \<le> 2"
    by (auto simp: find_opcode_def find_Some_iff)
qed

lemma decode_arguments_text:
  assumes "list_all wf_operand xs" and "length xs = argument_count e" and "argument_count e \<le> 2"
  shows "decode_arguments e w buffer (argument_count e) (out, concat (map operand_bytes xs) @ rest)
    = (Inr (), (out @ [buffer @ operands_text xs], rest))"
proof -
  consider "xs = []" | x where "xs = [x]" | x y where "xs = [x, y]"
    using assms(2,3) by (cases xs; cases "tl xs"; cases "tl (tl xs)") auto
  then show ?thesis
  proof cases
    case 1
    then show ?thesis using assms(2) by simp
  next
    case 2
    with assms have "argument_count e = Suc 0" by simp
    with 2 assms(1) show ?thesis by (simp add: bindR_def try_decode_target_text)
  next
    case 3
    with assms have "argument_count e = Suc (Suc 0)" by simp
    with 3 assms(1) show ?thesis by (simp add: bindR_def try_decode_target_text)
  qed
qed

lemma decode_instruction_text:
  assumes "wf_instruction c"
  shows "decode_instruction (out, instruction_bytes c @ rest)
    = (Inr (), (out @ [instruction_text c], rest))"
proof -
  obtain e where e: "find_opcode (code_opcode c) = Some e" "length (code_operands c) = argument_count e"
    "if require_width e then is_width (code_width c) else code_width c = 0"
    "list_all wf_operand (code_operands c)"
    using assms by (auto simp: wf_instruction_def split: option.splits)
  note args = decode_arguments_text [OF e(4,2) argument_count_le_2 [OF e(1)]]
  have "is_width w \<Longrightarrow> w \<noteq> 0" for w by (auto simp: is_width_def prefix_defs)
  with e show ?thesis
    by (auto simp: decode_instruction_def literal_runs tryR_def instruction_bytes_def instruction_text_def args)
qed

section \<open>The disassembler and the CPU agree\<close>

text \<open>
  C10: the CPU and the disassembler read the same instruction set. A well-formed instruction
  of the code format, anywhere in the memory, is decoded by the CPU to its meaning, and the
  disassembler turns the same bytes into the one line that denotes it; both consume exactly
  its bytes, so they stay in step on the code that follows.
\<close>

theorem disassembler_follows_cpu:
  assumes "code_at s (instruction_bytes c @ rest)" and "wf_instruction c"
  shows "pop_instruction_from_ip_and_increase_ip s
      = (Inr (instruction_meaning (Registers s) c), advance (length (instruction_bytes c)) s)
    \<and> decode_instruction (out, instruction_bytes c @ rest)
      = (Inr (), (out @ [instruction_text c], rest))"
  using assms pop_instruction_at decode_instruction_text by blast

text \<open>A machine with \<open>MOV .16bit <*4&16($8(0x10), %FER1, $8(0xFE))>, <%EXR3>\<close> at address 0.\<close>

definition demo_code :: code_instruction where
  "demo_code = \<lparr>code_opcode = OPCODE_MOV, code_width = prefix_16bit,
     code_operands = [MemoryCode prefix_16bit (ConstantCode prefix_8bit 0x10)
       (RegisterCode prefix_64bit 1) (ConstantCode prefix_8bit 0xFE) 0x04,
       Direct (RegisterCode prefix_16bit 3)]\<rparr>"

definition code_machine :: "u8 list \<Rightarrow> decoder_state" where
  "code_machine bs = small_decoder\<lparr>Memory := [\<lambda>i. if i < length bs then bs ! i else 0, \<lambda>_. 0],
     Registers := new_registers\<lparr>CodeBase := 0, InstructionPointer := 0\<rparr>\<rparr>"

lemma code_at_code_machine:
  assumes "length bs \<le> 4096"
  shows "code_at (code_machine bs) bs"
proof -
  have "map (flat (code_machine bs)) [0..<length bs] = bs"
    using assms by (intro nth_equalityI) (simp_all add: code_machine_def flat_def BLOCK_SIZE_def)
  moreover have "mem_inv (code_machine bs)"
    by (simp add: code_machine_def mem_inv_def BLOCK_SIZE_def)
  ultimately show ?thesis
    using assms
    by (simp add: code_at_def code_address_def code_machine_def)
qed

lemma demo_code_wf: "wf_instruction demo_code" by code_simp

lemma demo_code_text:
  "instruction_text demo_code = ''MOV .16bit <*4&16($8(0x10), %FER1, $8(0xFE))>, <%EXR3>''"
  by code_simp

lemma demo_code_bytes:
  "instruction_bytes demo_code = [0x20, 0x16, 0x03, 0x16, 0x02, 0x08, 0x10, 0x01, 0x64, 0x01, 0x02, 0x08, 0xFE,
     0x04, 0x01, 0x16, 0x03]"
  by code_simp

theorem disassembler_follows_cpu_witness:
  "decode_instruction ([], [0x20, 0x16, 0x03, 0x16, 0x02, 0x08, 0x10, 0x01, 0x64, 0x01, 0x02, 0x08, 0xFE,
       0x04, 0x01, 0x16, 0x03])
     = (Inr (), ([''MOV .16bit <*4&16($8(0x10), %FER1, $8(0xFE))>, <%EXR3>''], []))
   \<and> fst (pop_instruction_from_ip_and_increase_ip (code_machine (instruction_bytes demo_code)))
     = Inr (instruction_meaning (Registers (code_machine (instruction_bytes demo_code))) demo_code)"
proof -
  have "code_at (code_machine (instruction_bytes demo_code)) (instruction_bytes demo_code @ [])"
    using code_at_code_machine [of "instruction_bytes demo_code"] by (simp add: demo_code_bytes)
  from disassembler_follows_cpu [OF this demo_code_wf, of "[]"] show ?thesis
    by (simp add: demo_code_text, simp add: demo_code_bytes)
qed

section \<open>Progress on any bytes\<close>

text \<open>
  Every function only appends literals and only takes bytes off the front, whatever the
  bytes are and whether it returns or throws.
\<close>

definition goes_on :: "string list \<Rightarrow> u8 list \<Rightarrow> literals \<Rightarrow> bool" where
  "goes_on out0 in0 = (\<lambda>(output, input). prefix out0 output \<and> suffix input in0)"

lemma goes_on_start: "goes_on out input (out, input)"
  by (simp add: goes_on_def)

lemma keeps_goes_on_input:
  assumes "\<And>input. suffix (snd (m input)) input"
  shows "keeps (goes_on out0 in0) (on_input m)"
proof (rule keepsI)
  fix st
  assume st: "goes_on out0 in0 st"
  obtain o1 i1 where eq: "st = (o1, i1)" by (cases st)
  obtain r i2 where r: "m i1 = (r, i2)" by (cases "m i1")
  with assms [of i1] have "suffix i2 i1" by simp
  with st eq r show "goes_on out0 in0 (snd (on_input m st))"
    by (auto simp: goes_on_def on_input_def intro: suffix_order.trans)
qed

lemma snd_bindR_returnR: "snd (bindR m (\<lambda>x. returnR (f x)) s) = snd (m s)"
  by (auto simp: bindR_def returnR_def split: prod.split sum.split)

lemma suffix_code_buffer_pop: "suffix (snd (code_buffer_pop n input)) input"
  by (simp add: code_buffer_pop_eq suffix_drop)

lemma keeps_goes_on_pop [keeps_intros]:
  "keeps (goes_on out0 in0) pop8" "keeps (goes_on out0 in0) pop16"
  "keeps (goes_on out0 in0) pop32" "keeps (goes_on out0 in0) pop64"
  by (rule keeps_goes_on_input, simp only: code_buffer_pop8_def code_buffer_pop16_def
      code_buffer_pop32_def code_buffer_pop64_def snd_bindR_returnR suffix_code_buffer_pop)+

lemma keeps_goes_on_emplace [keeps_intros]: "keeps (goes_on out0 in0) (emplace_back l)"
  unfolding emplace_back_def by (rule keeps_modifyR) (auto simp: goes_on_def)

lemma keeps_goes_on_local [keeps_intros]:
  assumes "\<And>out0 in0. keeps (goes_on out0 in0) m"
  shows "keeps (goes_on out0 in0) (with_local m)"
proof (rule keepsI)
  fix st
  assume st: "goes_on out0 in0 st"
  obtain o1 i1 where eq: "st = (o1, i1)" by (cases st)
  obtain r o2 i2 where r: "m ([], i1) = (r, (o2, i2))" by (metis prod.collapse)
  then have "goes_on [] i1 (o2, i2)"
    using keepsD [OF assms goes_on_start] by blast
  with st eq r show "goes_on out0 in0 (snd (with_local m st))"
    by (cases r) (auto simp: goes_on_def with_local_def intro: suffix_order.trans)
qed

lemma keeps_decode_register [keeps_intros]: "keeps (goes_on out0 in0) decode_register"
  unfolding decode_register_def Let_def bad_register_def by (intro keeps_intros)

lemma keeps_decode_constant [keeps_intros]: "keeps (goes_on out0 in0) decode_constant"
  unfolding decode_constant_def by (intro keeps_intros)

lemma keeps_decode_memory [keeps_intros]: "keeps (goes_on out0 in0) decode_memory"
  unfolding decode_memory_def decode_parameters_def decode_parameter_def by (intro keeps_intros)

lemma keeps_try_decode_target [keeps_intros]: "keeps (goes_on out0 in0) try_decode_target"
  unfolding try_decode_target_def decode_target_def by (intro keeps_intros)

lemma keeps_decode_arguments [keeps_intros]:
  "keeps (goes_on out0 in0) (decode_arguments e w buffer n)"
proof (induction n arbitrary: buffer)
  case (Suc n)
  show ?case unfolding decode_arguments.simps by (intro keeps_intros Suc.IH)
qed (simp add: keeps_goes_on_emplace)

text \<open>The body after the first byte has been taken.\<close>

definition decode_after_opcode :: "u8 \<Rightarrow> (literals, unit) run" where
  "decode_after_opcode instruction = (case find_opcode instruction of
     None \<Rightarrow> emplace_back (bad_nbit [instruction])
   | Some e \<Rightarrow>
       if require_width e then
         bindR pop8 (\<lambda>op_width.
         if \<not> is_width op_width then
           thenR (emplace_back (bad_nbit [instruction])) (emplace_back (bad_nbit [op_width]))
         else decode_arguments e op_width (mnemonic e @ op_width_literal op_width) (argument_count e))
       else decode_arguments e 0 (mnemonic e) (argument_count e))"

lemma keeps_decode_after_opcode: "keeps (goes_on out0 in0) (decode_after_opcode b)"
  unfolding decode_after_opcode_def by (intro keeps_intros)

lemma decode_instruction_Cons:
  "decode_instruction (out, b # bs) = (Inr (), snd (decode_after_opcode b (out, bs)))"
  unfolding decode_instruction_def decode_after_opcode_def [symmetric]
  by (auto simp: tryR_def bindR_def pop8_run returnR_def split: prod.split sum.split)

lemma decode_instruction_progress:
  "(\<exists>literals rest. decode_instruction (out, b # bs) = (Inr (), (out @ literals, rest))
      \<and> suffix rest bs \<and> length rest < length (b # bs))
   \<and> decode_instruction (out, []) = (Inr (), (out, []))"
proof
  obtain o1 i1 where r: "snd (decode_after_opcode b (out, bs)) = (o1, i1)" by fastforce
  with keeps_decode_after_opcode [unfolded keeps_def] goes_on_start [of out bs]
  have "goes_on out bs (o1, i1)" by metis
  then have "prefix out o1" "suffix i1 bs" by (simp_all add: goes_on_def)
  with r suffix_length_le [of i1 bs]
  show "\<exists>literals rest. decode_instruction (out, b # bs) = (Inr (), (out @ literals, rest))
      \<and> suffix rest bs \<and> length rest < length (b # bs)"
    by (auto simp: decode_instruction_Cons prefix_def)
  show "decode_instruction (out, []) = (Inr (), (out, []))"
    by (simp add: decode_instruction_def tryR_def bindR_def pop8_run returnR_def)
qed

text \<open>
  C29: disassembling terminates on any bytes, code or not. One call on a buffer that is not
  empty never throws, takes at least the first byte off the buffer and nothing but a prefix
  of it, and appends to the literals that are there; on an empty buffer it does nothing. So
  a loop that calls it until the buffer is empty ends, and reads every byte once.
\<close>

theorem disassembler_makes_progress:
  "(\<exists>literals rest. decode_instruction (out, b # bs) = (Inr (), (out @ literals, rest))
      \<and> suffix rest bs \<and> length rest < length (b # bs))
   \<and> decode_instruction (out, []) = (Inr (), (out, []))"
  by (rule decode_instruction_progress)

end
