(* ===== verification/Operand_Encoder.thy ===== *)
theory Operand_Encoder
  imports Cxx_Regex Disassembler
begin

text \<open>
  The operand encoder of the assembler (\<open>coding/EncodeTarget.cpp\<close>): from the text of an
  operand to its bytes. Constant expressions are computed by the program \<open>/usr/bin/bc\<close>,
  which is a parameter: it maps its input to the exit status and what it prints. The texts
  of the exceptions are left out.
\<close>

type_synonym calculator = "string \<Rightarrow> int \<times> string"

section \<open>Patterns\<close>

definition bits_rx :: rx where
  "bits_rx = Alts [Lit ''8'', Lit ''16'', Lit ''32'', Lit ''64'']"

definition ratio_rx :: rx where
  "ratio_rx = Alts [Lit ''1'', Lit ''2'', Lit ''4'', Lit ''8'', Lit ''16'']"

definition special_rx :: rx where
  "special_rx = Alts [Lit ''SB'', Lit ''SP'', Lit ''CB'', Lit ''DB'', Lit ''DP'', Lit ''EB'', Lit ''EP'']"

definition hex_digit :: "char \<Rightarrow> bool" where
  "hex_digit c \<longleftrightarrow> between (CHR ''0'') (CHR ''9'') c \<or> between (CHR ''A'') (CHR ''F'') c
     \<or> between (CHR ''a'') (CHR ''f'') c"

(* coding/EncodeTarget.cpp 35-35: register_pattern *)
definition register_pattern :: rx where
  "register_pattern = Alts [
     Seqs [Bol, Lit ''%'', Cap 1 (Alts [Lit ''R'', Lit ''EXR'', Lit ''HER'']), Chr (between (CHR ''0'') (CHR ''7''))],
     Seqs [Lit ''%'', Cap 2 (Lit ''FER''), Cap 3 (Plus Digit)],
     Seqs [Bol, Lit ''%'', Cap 4 special_rx],
     Seqs [Bol, Lit ''%XMM'', Chr (between (CHR ''0'') (CHR ''5'')), Eol]]"

(* coding/EncodeTarget.cpp 36-36: constant_pattern *)
definition constant_pattern :: rx where
  "constant_pattern = Seqs [Bol, Lit ''$'', Cap 1 bits_rx, Lit ''('', Cap 2 (Star Dot), Lit '')'', Eol]"

definition no_comma :: rx where "no_comma = Plus (Chr (\<lambda>c. c \<noteq> CHR '',''))"

(* coding/EncodeTarget.cpp 37-37: memory_pattern *)
definition memory_pattern :: rx where
  "memory_pattern = Seqs [Bol, Lit ''*'', Cap 1 ratio_rx,
     Lit ''&'', Cap 2 bits_rx, Lit ''('', Cap 3 no_comma, Lit '','', Cap 4 no_comma, Lit '','',
     Cap 5 no_comma, Lit '')'', Eol]"

(* coding/EncodeTarget.cpp 38-38: base16_pattern *)
definition base16_pattern :: rx where
  "base16_pattern = Seq (Lit ''0x'') (Plus (Chr hex_digit))"

(* coding/EncodeTarget.cpp 40-42: is_valid_register *)
definition is_valid_register :: "string \<Rightarrow> bool" where
  "is_valid_register input \<longleftrightarrow> regex_match register_pattern input \<noteq> None"

(* coding/EncodeTarget.cpp 44-46: is_valid_constant *)
definition is_valid_constant :: "string \<Rightarrow> bool" where
  "is_valid_constant input \<longleftrightarrow> regex_match constant_pattern input \<noteq> None"

(* coding/EncodeTarget.cpp 48-50: is_valid_memory *)
definition is_valid_memory :: "string \<Rightarrow> bool" where
  "is_valid_memory input \<longleftrightarrow> regex_match memory_pattern input \<noteq> None"

section \<open>Parsing\<close>

datatype target_type = NOTaValidType | REGISTER | CONSTANT | MEMORY | CODE_POSITION

record memory_reference =
  MemoryAccessRatio :: string
  MemoryBaseAddress :: string
  MemoryOffset1 :: string
  MemoryOffset2 :: string
  MemoryWidth :: string

(* include/EncodingDecoding.h 516-541: parsed_target_t *)
record parsed_target_t =
  TargetType :: target_type
  RegisterName :: string
  ConstantExpression :: string
  Constant_Width :: string
  memory :: memory_reference

definition empty_target :: parsed_target_t where
  "empty_target = \<lparr>TargetType = NOTaValidType, RegisterName = [], ConstantExpression = [], Constant_Width = [],
     memory = \<lparr>MemoryAccessRatio = [], MemoryBaseAddress = [], MemoryOffset1 = [], MemoryOffset2 = [],
       MemoryWidth = []\<rparr>\<rparr>"

definition register_target :: "string \<Rightarrow> parsed_target_t" where
  "register_target name = empty_target\<lparr>TargetType := REGISTER, RegisterName := name\<rparr>"

definition constant_target :: "string \<Rightarrow> string \<Rightarrow> parsed_target_t" where
  "constant_target bits expr = empty_target\<lparr>TargetType := CONSTANT, ConstantExpression := expr,
     Constant_Width := bits\<rparr>"

text \<open>
  The number of groups of a match is that of its pattern, so the checks of
  \<open>matches.size()\<close> never fail.
\<close>

(* coding/EncodeTarget.cpp 52-107: parse *)
definition parse :: "string \<Rightarrow> cpu_error + parsed_target_t" where
  "parse source =
     (let input = capitalization (remove_space source) in
      if is_valid_register input then Inr (register_target input)
      else if is_valid_constant input then
        (case regex_search constant_pattern input of
           Some (_, _, caps, _) \<Rightarrow> Inr (constant_target (group 1 caps) (group 2 caps))
         | None \<Rightarrow> Inr (constant_target [] input))
      else if is_valid_memory input then
        (case regex_search memory_pattern input of
           Some (_, _, caps, _) \<Rightarrow> Inr (empty_target\<lparr>TargetType := MEMORY,
             memory := \<lparr>MemoryAccessRatio = group 1 caps, MemoryBaseAddress = group 3 caps,
               MemoryOffset1 = group 4 caps, MemoryOffset2 = group 5 caps, MemoryWidth = group 2 caps\<rparr>\<rparr>)
         | None \<Rightarrow> Inr empty_target)
      else Inl SysdarftCodeExpressionError)"

section \<open>Constant expressions\<close>

(* coding/EncodeTarget.cpp 109-146: process_base16 *)
definition process_base16 :: "string \<Rightarrow> string" where
  "process_base16 source =
     (let input = replace_scan ''0X'' ''0x'' source;
          data = map (\<lambda>(tag, _). (tag, case strtoull 16 tag of Some v \<Rightarrow> unat v | None \<Rightarrow> 0))
                   (regex_iterator base16_pattern input)
      in foldl (\<lambda>s (tag, rep). replace_scan tag (to_string rep) s) input data)"

(* coding/EncodeTarget.cpp 148-158: execute_bc *)
definition execute_bc :: "calculator \<Rightarrow> string \<Rightarrow> cpu_error + string" where
  "execute_bc bc input = (case bc input of (exit_status, fd_stdout) \<Rightarrow>
     if exit_status \<noteq> 0 then Inl SysdarftCodeExpressionError else Inr fd_stdout)"

section \<open>Encoding\<close>

(* coding/EncodeTarget.cpp 161-192: extractTrailingNumber *)
definition extractTrailingNumber :: "string \<Rightarrow> u32 option" where
  "extractTrailingNumber input =
     (let numberStr = rev (takeWhile isdigit (rev input)) in
      if numberStr = [] then None
      else if of_digits 10 numberStr < 2 ^ 32 then Some (of_nat (of_digits 10 numberStr)) else None)"

text \<open>Reading the character at index 1; the names are never empty.\<close>

definition second_char :: "string \<Rightarrow> char" where
  "second_char s = (case s of _ # c # _ \<Rightarrow> c | _ \<Rightarrow> CHR 0x00)"

definition push_register :: "u8 \<Rightarrow> u8 \<Rightarrow> (u8 list, unit) run" where
  "push_register w i = thenR (code_buffer_push8 w) (code_buffer_push8 i)"

(* coding/EncodeTarget.cpp 194-250: encode_register *)
definition encode_register :: "parsed_target_t \<Rightarrow> (u8 list, unit) run" where
  "encode_register input =
     (let name = RegisterName input;
          register_index = ucast (case extractTrailingNumber name of Some n \<Rightarrow> n | None \<Rightarrow> 0) :: u8
      in thenR (code_buffer_push8 REGISTER_PREFIX)
       (if name = ''%SB'' then push_register prefix_64bit R_StackBase
        else if name = ''%SP'' then push_register prefix_64bit R_StackPointer
        else if name = ''%CB'' then push_register prefix_64bit R_CodeBase
        else if name = ''%DB'' then push_register prefix_64bit R_DataBase
        else if name = ''%DP'' then push_register prefix_64bit R_DataPointer
        else if name = ''%EB'' then push_register prefix_64bit R_ExtendedBase
        else if name = ''%EP'' then push_register prefix_64bit R_ExtendedPointer
        else if second_char name = CHR ''R'' then push_register prefix_8bit register_index
        else if second_char name = CHR ''E'' then push_register prefix_16bit register_index
        else if second_char name = CHR ''H'' then push_register prefix_32bit register_index
        else if second_char name = CHR ''F'' then push_register prefix_64bit register_index
        else throwR SysdarftCodeExpressionError))"

(* coding/EncodeTarget.cpp 302-309: encode_memory_width_prefix *)
definition encode_memory_width_prefix :: "string \<Rightarrow> (u8 list, unit) run" where
  "encode_memory_width_prefix input =
     (if input = ''8'' then code_buffer_push8 prefix_8bit
      else if input = ''16'' then code_buffer_push8 prefix_16bit
      else if input = ''32'' then code_buffer_push8 prefix_32bit
      else if input = ''64'' then code_buffer_push8 prefix_64bit
      else throwR SysdarftCodeExpressionError)"

text \<open>
  The result of \<open>strtoull\<close> is kept in a 128-bit integer, whose low bytes are pushed. An
  overflow is only reported on the terminal.
\<close>

(* coding/EncodeTarget.cpp 252-300: encode_constant *)
definition encode_constant :: "calculator \<Rightarrow> parsed_target_t \<Rightarrow> (u8 list, unit) run" where
  "encode_constant bc input =
     (if ConstantExpression input = [] then throwR SysdarftCodeExpressionError
      else let tmp = process_base16 (ConstantExpression input); bits = Constant_Width input in
        thenR (code_buffer_push8 CONSTANT_PREFIX)
        (bindR (liftE (execute_bc bc tmp)) (\<lambda>result_from_bc.
         thenR (encode_memory_width_prefix bits)
         (case strtoull 10 result_from_bc of
            None \<Rightarrow> throwR SysdarftCodeExpressionError
          | Some v \<Rightarrow>
              let result = Some (word_to_bytes 16 (ucast v :: u128)) in
              if bits = ''8'' then code_buffer_push 8 result
              else if bits = ''16'' then code_buffer_push 16 result
              else if bits = ''32'' then code_buffer_push 32 result
              else if bits = ''64'' then code_buffer_push 64 result
              else throwR SysdarftCodeExpressionError))))"

(* coding/EncodeTarget.cpp 315-358: encode_memory, encode_each_parameter *)
definition encode_each_parameter :: "calculator \<Rightarrow> string \<Rightarrow> (u8 list, unit) run" where
  "encode_each_parameter bc param =
     (if is_valid_register param then
        let tmp = rev (dropWhile isdigit (rev param)) in
        if tmp \<noteq> ''%FER'' \<and> param \<noteq> ''%SB'' \<and> param \<noteq> ''%SP'' \<and> param \<noteq> ''%CB'' \<and> param \<noteq> ''%DB''
           \<and> param \<noteq> ''%DP'' \<and> param \<noteq> ''%EB'' \<and> param \<noteq> ''%EP''
        then throwR SysdarftCodeExpressionError
        else encode_register (register_target param)
      else if is_valid_constant param then
        (case regex_search constant_pattern param of
           Some (_, _, caps, _) \<Rightarrow> encode_constant bc (constant_target (group 1 caps) (group 2 caps))
         | None \<Rightarrow> throwR SysdarftCodeExpressionError)
      else throwR SysdarftCodeExpressionError)"

(* coding/EncodeTarget.cpp 311-379: encode_memory *)
definition encode_memory :: "calculator \<Rightarrow> parsed_target_t \<Rightarrow> (u8 list, unit) run" where
  "encode_memory bc input =
     (let m = memory input; ratio = MemoryAccessRatio m in
      thenR (code_buffer_push8 MEMORY_PREFIX)
      (thenR (encode_memory_width_prefix (MemoryWidth m))
      (thenR (encode_each_parameter bc (MemoryBaseAddress m))
      (thenR (encode_each_parameter bc (MemoryOffset1 m))
      (thenR (encode_each_parameter bc (MemoryOffset2 m))
        (if ratio = ''1'' then code_buffer_push8 0x01
         else if ratio = ''2'' then code_buffer_push8 0x02
         else if ratio = ''4'' then code_buffer_push8 0x04
         else if ratio = ''8'' then code_buffer_push8 0x08
         else if ratio = ''16'' then code_buffer_push8 0x16
         else returnR ()))))))"

(* coding/EncodeTarget.cpp 381-397: encode_target *)
definition encode_target :: "calculator \<Rightarrow> string \<Rightarrow> (u8 list, parsed_target_t) run" where
  "encode_target bc input =
     bindR (liftE (parse input)) (\<lambda>parsed.
     thenR (if TargetType parsed = REGISTER then encode_register parsed
            else if TargetType parsed = CONSTANT then encode_constant bc parsed
            else if TargetType parsed = MEMORY then encode_memory bc parsed
            else throwR SysdarftCodeExpressionError)
       (returnR parsed))"

section \<open>Registers\<close>

text \<open>What \<open>encode_register\<close> appends, as a function of the name.\<close>

definition register_code :: "string \<Rightarrow> (u8 \<times> u8) option" where
  "register_code name =
     (let i = ucast (case extractTrailingNumber name of Some n \<Rightarrow> n | None \<Rightarrow> 0) in
      if name = ''%SB'' then Some (prefix_64bit, R_StackBase)
      else if name = ''%SP'' then Some (prefix_64bit, R_StackPointer)
      else if name = ''%CB'' then Some (prefix_64bit, R_CodeBase)
      else if name = ''%DB'' then Some (prefix_64bit, R_DataBase)
      else if name = ''%DP'' then Some (prefix_64bit, R_DataPointer)
      else if name = ''%EB'' then Some (prefix_64bit, R_ExtendedBase)
      else if name = ''%EP'' then Some (prefix_64bit, R_ExtendedPointer)
      else if second_char name = CHR ''R'' then Some (prefix_8bit, i)
      else if second_char name = CHR ''E'' then Some (prefix_16bit, i)
      else if second_char name = CHR ''H'' then Some (prefix_32bit, i)
      else if second_char name = CHR ''F'' then Some (prefix_64bit, i) else None)"

lemma push_register_run [simp]: "push_register w i buf = (Inr (), buf @ [w, i])"
  by (simp add: push_register_def thenR_def bindR_def)

lemma encode_register_run:
  "encode_register t buf = (case register_code (RegisterName t) of
     Some (w, i) \<Rightarrow> (Inr (), buf @ parameter_bytes (RegisterCode w i))
   | None \<Rightarrow> (Inl SysdarftCodeExpressionError, buf @ [REGISTER_PREFIX]))"
  by (simp add: encode_register_def register_code_def Let_def thenR_def bindR_def throwR_def)

text \<open>The registers there are, and that each of their names is read back.\<close>

definition all_registers :: "(u8 \<times> u8) list" where
  "all_registers = [(w, i). w \<leftarrow> [prefix_8bit, prefix_16bit, prefix_32bit], i \<leftarrow> map of_nat [0..<8]]
     @ [(prefix_64bit, i). i \<leftarrow> map of_nat [0..<16] @ [R_StackBase, R_StackPointer, R_CodeBase, R_DataBase,
         R_DataPointer, R_ExtendedBase, R_ExtendedPointer]]"

lemma valid_register_all: "valid_register w i \<Longrightarrow> (w, i) \<in> set all_registers"
proof -
  have small: "i \<in> of_nat ` {0..<n}" if "unat i < n" for n
    using that by (auto intro: image_eqI [of _ _ "unat i"])
  assume "valid_register w i"
  then show ?thesis
    using small [of 8] small [of 16]
    by (auto simp: valid_register_def all_registers_def is_width_def special_register_def split: if_splits)
qed

definition register_name_ok :: "u8 \<times> u8 \<Rightarrow> bool" where
  "register_name_ok wi = (let t = register_text (fst wi) (snd wi) in
     capitalization (remove_space t) = t \<and> is_valid_register t \<and> register_code t = Some wi
     \<and> list_all (\<lambda>c. c \<noteq> CHR '','' \<and> c \<noteq> CHR '' '' \<and> c \<noteq> CHR ''I'' \<and> isprint c) t
     \<and> (fst wi = prefix_64bit \<longrightarrow> rev (dropWhile isdigit (rev t)) = ''%FER''
          \<or> t \<in> {''%SB'', ''%SP'', ''%CB'', ''%DB'', ''%DP'', ''%EB'', ''%EP''}))"

lemma all_register_names: "list_all register_name_ok all_registers"
  by code_simp

lemma register_text_ok: "valid_register w i \<Longrightarrow> register_name_ok (w, i)"
  using all_register_names valid_register_all by (auto simp: list_all_iff)

section \<open>Constants\<close>

lemma replace_scan_missing:
  assumes "c \<in> set target" and "c \<notin> set s"
  shows "replace_scan target rep s = s"
  using assms(2)
proof (induction s)
  case (Cons x xs)
  then have "\<not> prefix target (x # xs)" using assms(1) by (meson in_mono set_mono_prefix)
  with Cons show ?case by auto
qed simp

lemma replace_scan_whole: "t \<noteq> [] \<Longrightarrow> replace_scan t rep t = rep"
  by (cases t) simp_all

lemma to_hex_class:
  assumes "c \<in> set (to_hex n)"
  shows "hex_digit c" "c \<noteq> CHR ''X''" "c \<noteq> CHR '' ''" "c \<noteq> CHR '',''" "isprint c" "toupper c = c"
proof -
  from assms to_base_digits [of 16 n] obtain d where d: "d < 16" "c = digit_char d" by auto
  have "list_all (\<lambda>d. hex_digit (digit_char d) \<and> digit_char d \<noteq> CHR ''X'' \<and> digit_char d \<noteq> CHR '' ''
      \<and> digit_char d \<noteq> CHR '','' \<and> isprint (digit_char d) \<and> toupper (digit_char d) = digit_char d) [0..<16]"
    by code_simp
  with d have "hex_digit c \<and> c \<noteq> CHR ''X'' \<and> c \<noteq> CHR '' '' \<and> c \<noteq> CHR '','' \<and> isprint c \<and> toupper c = c"
    by (simp add: list_all_iff)
  then show "hex_digit c" "c \<noteq> CHR ''X''" "c \<noteq> CHR '' ''" "c \<noteq> CHR '',''" "isprint c" "toupper c = c"
    by blast+
qed

lemma matches_hex:
  "matches base16_pattern Some ([], n, ''0x'' @ to_hex m) = Some ([], n + 2 + length (to_hex m), [])"
proof -
  obtain c cs where c: "to_hex m = c # cs" by (cases "to_hex m") auto
  have h: "hex_digit x" if "x \<in> set (to_hex m)" for x using that by (rule to_hex_class)
  then have "hex_digit c" and "\<forall>x\<in>set cs. hex_digit x" unfolding c by auto
  then show ?thesis
    using c matches_Star_run [of cs hex_digit "[]" Some "[]" "Suc (n + 2)"]
      back_off_longest [of Some "[]" "Suc (n + 2)" cs "[]"]
    by (simp add: base16_pattern_def Plus_def matches_Lit)
qed

lemma search_base16_Nil: "search_from base16_pattern n [] = None"
  by (simp add: search_from.simps base16_pattern_def Lit_def)

lemma regex_iterator_hex: "regex_iterator base16_pattern (''0x'' @ to_hex m) = [(''0x'' @ to_hex m, [])]"
proof -
  have "search_from base16_pattern 0 (''0x'' @ to_hex m)
      = Some (0, ''0x'' @ to_hex m, [], [])"
    by (subst search_from.simps) (simp only: matches_hex option.case prod.case, simp)
  then show ?thesis
    by (simp add: regex_iterator_def search_base16_Nil)
qed

lemma process_base16_hex:
  assumes "m < 2 ^ 64"
  shows "process_base16 (''0X'' @ to_hex m) = to_string m"
proof -
  have "CHR ''X'' \<notin> set (to_hex m)" using to_hex_class(2) by blast
  then have "replace_scan ''0X'' ''0x'' (''0X'' @ to_hex m) = ''0x'' @ to_hex m"
    using replace_scan_missing [of "CHR ''X''" "''0X''" "to_hex m"] by simp
  moreover have "unat (of_nat m :: u64) = m" using assms by (rule unat_of_nat_u64)
  ultimately show ?thesis
    using strtoull_hexadecimal [OF assms] replace_scan_whole [of "''0x'' @ to_hex m"]
    by (simp add: process_base16_def Let_def regex_iterator_hex [simplified])
qed


definition bits_texts :: "string set" where
  "bits_texts = {''8'', ''16'', ''32'', ''64''}"

lemma not_register_head: "c \<noteq> CHR ''%'' \<Longrightarrow> \<not> is_valid_register (c # s)"
  by (simp add: is_valid_register_def regex_match_def register_pattern_def Lit_def)

lemma matches_bits:
  assumes "bits \<in> bits_texts"
  shows "matches (Cap i bits_rx) k (caps, n, bits @ CHR ''('' # s)
    = k ((i, bits) # caps, n + length bits, CHR ''('' # s)"
  using assms by (auto simp: bits_rx_def bits_texts_def matches_Cap matches_Lit split: option.split)

lemma constant_runs:
  assumes "bits \<in> bits_texts" and "\<forall>c\<in>set body. any_char c"
    and "k ([(2, body), (1, bits)], Suc (Suc (Suc (length bits + length body))), []) = Some x"
  shows "matches constant_pattern k ([], 0, ''$'' @ bits @ ''('' @ body @ '')'') = Some x"
proof -
  have "any_char (CHR '')'')" by code_simp
  with assms(2) have all: "\<forall>c\<in>set (body @ '')''). any_char c" by simp
  have star: "matches (Cap 2 (Star Dot)) (matches (Seq (Lit '')'') Eol) k) ([(1, bits)], n, body @ '')'')
      = Some x" if "n = 2 + length bits" for n
    unfolding matches_Cap
    by (rule matches_Star_give_back [OF all, where rest = "[]", simplified append_Nil append_Nil2])
      (use that assms(3) in \<open>simp_all add: matches_Lit\<close>)
  show ?thesis
    using star [of "2 + length bits"] by (simp add: constant_pattern_def matches_bits [OF assms(1)])
qed

lemma constant_match:
  assumes "bits \<in> bits_texts" and "\<forall>c\<in>set body. any_char c"
  shows "regex_match constant_pattern (''$'' @ bits @ ''('' @ body @ '')'') = Some [(2, body), (1, bits)]"
    and "regex_search constant_pattern (''$'' @ bits @ ''('' @ body @ '')'')
      = Some (0, ''$'' @ bits @ ''('' @ body @ '')'', [(2, body), (1, bits)], [])"
proof -
  show "regex_match constant_pattern (''$'' @ bits @ ''('' @ body @ '')'') = Some [(2, body), (1, bits)]"
    unfolding regex_match_def by (rule constant_runs [OF assms]) simp
  have "matches constant_pattern Some ([], 0, ''$'' @ bits @ ''('' @ body @ '')'')
      = Some ([(2, body), (1, bits)], Suc (Suc (Suc (length bits + length body))), [])"
    by (rule constant_runs [OF assms]) simp
  then show "regex_search constant_pattern (''$'' @ bits @ ''('' @ body @ '')'')
      = Some (0, ''$'' @ bits @ ''('' @ body @ '')'', [(2, body), (1, bits)], [])"
    by (simp add: regex_search_def search_from.simps)
qed

text \<open>
  What the encoder relies on: \<open>bc\<close> prints a decimal literal back on a line of its own and
  exits with 0.
\<close>

definition bc_prints_literals :: "calculator \<Rightarrow> bool" where
  "bc_prints_literals bc \<longleftrightarrow> (\<forall>n. bc (to_string n) = (0, to_string n @ [CHR 0x0A]))"

lemma bits_text_mem [simp]: "bits_text w \<in> bits_texts"
  by (simp add: bits_text_def bits_texts_def)

lemma encode_memory_width_prefix_run:
  "is_width w \<Longrightarrow> encode_memory_width_prefix (bits_text w) buf = (Inr (), buf @ [w])"
  by (cases rule: is_width_cases, assumption) (simp_all add: encode_memory_width_prefix_def bits_text_def)

lemma encode_constant_hex:
  assumes "bc_prints_literals bc" and "is_width w"
  shows "encode_constant bc (constant_target (bits_text w) (''0X'' @ to_hex (unat v))) buf
    = (Inr (), buf @ parameter_bytes (ConstantCode w v))"
proof -
  have bytes: "take n (word_to_bytes 16 (ucast v :: u128)) = word_to_bytes n v" if "n \<le> 8" for n
    using that by (simp add: take_word_to_bytes word_to_bytes_ucast [of n v, where 'b = 128])
  have "process_base16 (''0X'' @ to_hex (unat v)) = to_string (unat v)"
    using unat_u64_less [of v] by (rule process_base16_hex)
  moreover have "execute_bc bc (to_string (unat v)) = Inr (to_string (unat v) @ [CHR 0x0A])"
    using assms(1) by (simp add: execute_bc_def bc_prints_literals_def)
  moreover have "strtoull 10 (to_string (unat v) @ [CHR 0x0A]) = Some v"
    using strtoull_decimal [OF unat_u64_less [of v], of "[CHR 0x0A]"] by (simp add: digit_val_def)
  ultimately show ?thesis
    using encode_memory_width_prefix_run [OF assms(2)]
    by (cases rule: is_width_cases [OF assms(2)])
      (simp_all add: encode_constant_def constant_target_def empty_target_def Let_def run_simps
        bits_text_def code_buffer_push_def bytes)
qed

section \<open>Memory references\<close>

definition ratio_texts :: "string set" where
  "ratio_texts = {''1'', ''2'', ''4'', ''8'', ''16''}"

lemma matches_ratio:
  assumes "ratio \<in> ratio_texts"
  shows "matches (Cap i ratio_rx) (matches (Seq (Lit ''&'') q) k) (caps, n, ratio @ CHR ''&'' # s)
    = matches (Seq (Lit ''&'') q) k ((i, ratio) # caps, n + length ratio, CHR ''&'' # s)"
  using assms unfolding ratio_texts_def
  by (elim insertE emptyE) (simp_all add: ratio_rx_def matches_Cap matches_Lit split: option.split)

lemma matches_no_comma:
  assumes "cs \<noteq> []" and "CHR '','' \<notin> set cs" and "k ((i, cs) # caps, n + length cs, CHR '','' # s) = Some x"
  shows "matches (Cap i no_comma) k (caps, n, cs @ CHR '','' # s) = Some x"
proof -
  obtain c us where cs: "cs = c # us" using assms(1) by (cases cs) auto
  with assms(2) have "\<forall>c\<in>set us. c \<noteq> CHR '',''" by auto
  with cs assms(2,3) show ?thesis
    unfolding no_comma_def Plus_def matches_Cap matches.simps(3)
    by (simp, intro conjI impI matches_Star_longest) auto
qed

lemma matches_no_comma_last:
  assumes "cs \<noteq> []" and "CHR '','' \<notin> set cs"
    and "k ((i, cs) # caps, Suc (n + length cs), []) = Some x"
  shows "matches (Cap i no_comma) (matches (Seq (Lit '')'') Eol) k) (caps, n, cs @ '')'') = Some x"
proof -
  obtain c us where cs: "cs = c # us" using assms(1) by (cases cs) auto
  with assms(2) have "\<forall>c\<in>set (us @ '')''). c \<noteq> CHR '',''" by auto
  note star = matches_Star_give_back [OF this, where rest = "[]", simplified append_Nil append_Nil2]
  from cs assms(2,3) show ?thesis
    unfolding no_comma_def Plus_def matches_Cap matches.simps(3)
    by (simp, intro conjI impI star) auto
qed

lemma memory_runs:
  assumes "ratio \<in> ratio_texts" and "bits \<in> bits_texts"
    and "p \<noteq> []" "CHR '','' \<notin> set p" and "q \<noteq> []" "CHR '','' \<notin> set q" and "r \<noteq> []" "CHR '','' \<notin> set r"
    and "\<And>n. k ([(5, r), (4, q), (3, p), (2, bits), (1, ratio)], n, []) = Some (f n)"
  shows "\<exists>n. matches memory_pattern k
      ([], 0, ''*'' @ ratio @ ''&'' @ bits @ ''('' @ p @ '','' @ q @ '','' @ r @ '')'') = Some (f n)"
proof -
  let ?caps2 = "[(2, bits), (1, ratio)]"
  let ?n2 = "3 + length ratio + length bits"
  let ?n3 = "?n2 + length p" and ?n4 = "Suc (?n2 + length p) + length q"
  let ?n5 = "Suc (Suc (Suc (?n2 + length p + length q + length r)))"
  let ?K5 = "matches (Cap 5 no_comma) (matches (Seq (Lit '')'') Eol) k)"
  have k5: "?K5 ((4, q) # (3, p) # ?caps2, Suc ?n4, r @ '')'') = Some (f (Suc (Suc ?n4 + length r)))"
    by (rule matches_no_comma_last [OF assms(7,8)]) (rule assms(9))
  have k4: "matches (Cap 4 no_comma) (matches (Seq (Lit '','') (Seq (Cap 5 no_comma) (Seq (Lit '')'') Eol))) k)
      ((3, p) # ?caps2, Suc ?n3, q @ CHR '','' # r @ '')'') = Some (f (Suc (Suc ?n4 + length r)))"
    by (rule matches_no_comma [OF assms(5,6)]) (use k5 in simp)
  have k3: "matches (Cap 3 no_comma)
      (matches (Seq (Lit '','') (Seq (Cap 4 no_comma) (Seq (Lit '','') (Seq (Cap 5 no_comma) (Seq (Lit '')'') Eol))))) k)
      (?caps2, ?n2, p @ CHR '','' # q @ CHR '','' # r @ '')'') = Some (f (Suc (Suc ?n4 + length r)))"
    by (rule matches_no_comma [OF assms(3,4)]) (use k4 in simp)
  then show ?thesis
    by (auto simp: memory_pattern_def matches_ratio [OF assms(1)] matches_bits [OF assms(2)] eval_nat_numeral)
qed

lemma memory_match:
  assumes "ratio \<in> ratio_texts" and "bits \<in> bits_texts"
    and "p \<noteq> []" "CHR '','' \<notin> set p" and "q \<noteq> []" "CHR '','' \<notin> set q" and "r \<noteq> []" "CHR '','' \<notin> set r"
  shows "is_valid_memory (''*'' @ ratio @ ''&'' @ bits @ ''('' @ p @ '','' @ q @ '','' @ r @ '')'')"
    and "\<exists>i txt rest. regex_search memory_pattern (''*'' @ ratio @ ''&'' @ bits @ ''('' @ p @ '','' @ q @ '','' @ r @ '')'')
      = Some (i, txt, [(5, r), (4, q), (3, p), (2, bits), (1, ratio)], rest)"
proof -
  let ?s = "''*'' @ ratio @ ''&'' @ bits @ ''('' @ p @ '','' @ q @ '','' @ r @ '')''"
  let ?caps = "[(5, r), (4, q), (3, p), (2, bits), (1, ratio)]"
  show "is_valid_memory ?s"
    using memory_runs [OF assms, of "\<lambda>(caps, n, rest). if rest = [] then Some caps else None" "\<lambda>_. ?caps"]
    by (auto simp: is_valid_memory_def regex_match_def)
  obtain n where "matches memory_pattern Some ([], 0, ?s) = Some (?caps, n, [])"
    using memory_runs [OF assms, of Some "\<lambda>n. (?caps, n, [])"] by auto
  then show "\<exists>i txt rest. regex_search memory_pattern ?s = Some (i, txt, ?caps, rest)"
    unfolding regex_search_def search_from.simps [of _ 0] by auto
qed

section \<open>Encoding what the disassembler prints\<close>

fun encoder_text :: "code_parameter \<Rightarrow> string" where
  "encoder_text (RegisterCode w i) = register_text w i"
| "encoder_text (ConstantCode w v) =
     ''$'' @ bits_text w @ ''('' @ (''0X'' @ to_hex (unat (truncate_to w v))) @ '')''"

abbreviation normalise :: "string \<Rightarrow> string" where
  "normalise s \<equiv> capitalization (remove_space s)"

lemma to_hex_normal [simp]: "normalise (to_hex n) = to_hex n"
proof -
  have "remove_space (to_hex n) = to_hex n" using to_hex_class(3) by (intro remove_space_id) blast
  then show ?thesis using to_hex_class(6) by (simp add: capitalization_def map_idI)
qed

lemma bits_normal [simp]: "normalise (bits_text w) = bits_text w"
proof -
  have "list_all (\<lambda>b. normalise b = b) [''8'', ''16'', ''32'', ''64'']" by code_simp
  then show ?thesis by (simp add: bits_text_def)
qed

lemma literal_normal:
  "normalise ''$'' = ''$''" "normalise ''(0x'' = ''(0X''" "normalise '')'' = '')''"
  "normalise ''*'' = ''*''" "normalise ''&'' = ''&''" "normalise ''('' = ''(''" "normalise '', '' = '',''"
  by code_simp+

lemma parameter_normal:
  assumes "wf_parameter p"
  shows "normalise (parameter_text p) = encoder_text p"
proof (cases p)
  case (RegisterCode w i)
  with assms register_text_ok [of w i] show ?thesis by (simp add: register_name_ok_def Let_def)
next
  case (ConstantCode w v)
  have "normalise (parameter_text p) = normalise ''$'' @ normalise (bits_text w) @ normalise ''(0x''
      @ normalise (to_hex (unat (truncate_to w v))) @ normalise '')''"
    unfolding ConstantCode by (simp only: parameter_text.simps remove_space_simps capitalization_simps)
  then show ?thesis using ConstantCode unfolding literal_normal by simp
qed

lemma encoder_text_class:
  assumes "wf_parameter p"
  shows "encoder_text p \<noteq> []" and "CHR '','' \<notin> set (encoder_text p)"
proof -
  have "\<forall>b\<in>bits_texts. CHR '','' \<notin> set b" by (simp add: bits_texts_def)
  then have "CHR '','' \<notin> set (bits_text w)" for w using bits_text_mem by blast
  moreover have "CHR '','' \<notin> set (to_hex n)" for n using to_hex_class(4) by blast
  moreover have "CHR '','' \<notin> set (register_text w i)" if "valid_register w i" for w i
    using register_text_ok [OF that] by (auto simp: register_name_ok_def Let_def list_all_iff)
  ultimately show "CHR '','' \<notin> set (encoder_text p)"
    using assms by (cases p) auto
  show "encoder_text p \<noteq> []" by (cases p) (simp_all add: register_text_def)
qed

lemma truncate_bytes: "is_width w \<Longrightarrow> word_to_bytes (width_bytes w) (truncate_to w v) = word_to_bytes (width_bytes w) v"
  by (cases rule: is_width_cases, assumption)
    (simp_all add: truncate_to_simps word_to_bytes_widths)

lemma encode_constant_text:
  assumes "bc_prints_literals bc" and "is_width w"
  shows "encode_constant bc (constant_target (bits_text w) (''0X'' @ to_hex (unat (truncate_to w v)))) buf
    = (Inr (), buf @ parameter_bytes (ConstantCode w v))"
  using encode_constant_hex [OF assms, of "truncate_to w v" buf] truncate_bytes [OF assms(2), of v] by simp

lemma constant_text_match:
  fixes w :: u8 and n :: nat
  defines "txt \<equiv> ''$'' @ bits_text w @ ''('' @ (''0X'' @ to_hex n) @ '')''"
  shows "\<not> is_valid_register txt" and "is_valid_constant txt"
    and "regex_search constant_pattern txt = Some (0, txt, [(2, ''0X'' @ to_hex n), (1, bits_text w)], [])"
proof -
  have "any_char c" if "isprint c" for c using that by (simp add: any_char_def isprint_def)
  then have "\<forall>c\<in>set (to_hex n). any_char c" using to_hex_class(5) by blast
  moreover have "any_char (CHR ''0'')" "any_char (CHR ''X'')" by code_simp+
  ultimately have "\<forall>c\<in>set (''0X'' @ to_hex n). any_char c" by simp
  note m = constant_match [OF bits_text_mem this, of w]
  show "is_valid_constant txt" unfolding txt_def is_valid_constant_def m by simp
  show "regex_search constant_pattern txt = Some (0, txt, [(2, ''0X'' @ to_hex n), (1, bits_text w)], [])"
    unfolding txt_def by (rule m(2))
  show "\<not> is_valid_register txt" by (simp add: txt_def not_register_head)
qed

lemma encode_each_parameter_text:
  assumes "bc_prints_literals bc" and "wf_parameter p" and "\<And>w i. p = RegisterCode w i \<Longrightarrow> w = prefix_64bit"
  shows "encode_each_parameter bc (encoder_text p) buf = (Inr (), buf @ parameter_bytes p)"
proof (cases p)
  case (RegisterCode w i)
  with assms register_text_ok [of w i] show ?thesis
    by (auto simp: register_name_ok_def Let_def encode_each_parameter_def encode_register_run
        register_target_def)
next
  case (ConstantCode w v)
  with assms(2) have "is_width w" by simp
  from encode_constant_text [OF assms(1) this] show ?thesis
    using ConstantCode constant_text_match [of w "unat (truncate_to w v)"]
    by (simp add: encode_each_parameter_def group_def)
qed

text \<open>
  The operands the assembler accepts: the registers of a memory reference have 64 bits.
\<close>

fun wide_parameter :: "code_parameter \<Rightarrow> bool" where
  "wide_parameter (RegisterCode w i) \<longleftrightarrow> w = prefix_64bit"
| "wide_parameter (ConstantCode w v) \<longleftrightarrow> True"

fun asm_operand :: "code_operand \<Rightarrow> bool" where
  "asm_operand (Direct p) \<longleftrightarrow> wf_parameter p"
| "asm_operand (MemoryCode w p q r ratio) \<longleftrightarrow> wf_operand (MemoryCode w p q r ratio)
     \<and> wide_parameter p \<and> wide_parameter q \<and> wide_parameter r"

lemma asm_operand_wf: "asm_operand x \<Longrightarrow> wf_operand x"
  by (cases x) simp_all

text \<open>How the parser sees the text of an operand.\<close>

fun parsed_operand :: "code_operand \<Rightarrow> parsed_target_t" where
  "parsed_operand (Direct (RegisterCode w i)) = register_target (register_text w i)"
| "parsed_operand (Direct (ConstantCode w v)) =
     constant_target (bits_text w) (''0X'' @ to_hex (unat (truncate_to w v)))"
| "parsed_operand (MemoryCode w p q r ratio) = empty_target\<lparr>TargetType := MEMORY,
     memory := \<lparr>MemoryAccessRatio = ratio_text ratio, MemoryBaseAddress = encoder_text p,
       MemoryOffset1 = encoder_text q, MemoryOffset2 = encoder_text r, MemoryWidth = bits_text w\<rparr>\<rparr>"

lemma ratio_texts_mem:
  assumes "is_ratio ratio"
  shows "ratio_text ratio \<in> ratio_texts" and "normalise (ratio_text ratio) = ratio_text ratio"
proof -
  have "list_all (\<lambda>r. r \<in> {''1'', ''2'', ''4'', ''8'', ''16''} \<and> normalise r = r)
      (map ratio_text [1, 2, 4, 8, 0x16])"
    by code_simp
  with assms show "ratio_text ratio \<in> ratio_texts" "normalise (ratio_text ratio) = ratio_text ratio"
    by (auto simp: is_ratio_def ratio_texts_def)
qed

lemma memory_not_constant:
  "\<not> is_valid_register (CHR ''*'' # s)" "\<not> is_valid_constant (CHR ''*'' # s)"
  by (simp_all add: not_register_head is_valid_constant_def regex_match_def constant_pattern_def)

lemma parse_operand_text:
  assumes "asm_operand x"
  shows "parse (operand_text x) = Inr (parsed_operand x)"
proof (cases x)
  case (Direct p)
  with assms have wf: "wf_parameter p" by simp
  show ?thesis
  proof (cases p)
    case (RegisterCode w i)
    with wf Direct register_text_ok [of w i] show ?thesis
      by (simp add: parse_def Let_def register_name_ok_def)
  next
    case (ConstantCode w v)
    with parameter_normal [OF wf] Direct constant_text_match [of w "unat (truncate_to w v)"]
    show ?thesis by (simp add: parse_def Let_def group_def del: parameter_text.simps)
  qed
next
  case (MemoryCode w p q r ratio)
  with assms have wf: "wf_parameter p" "wf_parameter q" "wf_parameter r" and ratio: "is_ratio ratio"
    by simp_all
  let ?s = "''*'' @ ratio_text ratio @ ''&'' @ bits_text w @ ''('' @ encoder_text p @ '',''
    @ encoder_text q @ '','' @ encoder_text r @ '')''"
  have "normalise (operand_text x) = normalise ''*'' @ normalise (ratio_text ratio) @ normalise ''&''
      @ normalise (bits_text w) @ normalise ''('' @ normalise (parameter_text p) @ normalise '', ''
      @ normalise (parameter_text q) @ normalise '', '' @ normalise (parameter_text r) @ normalise '')''"
    unfolding MemoryCode by (simp only: operand_text.simps remove_space_simps capitalization_simps)
  then have norm: "normalise (operand_text x) = ?s"
    by (simp only: literal_normal parameter_normal [OF wf(1)] parameter_normal [OF wf(2)]
        parameter_normal [OF wf(3)] ratio_texts_mem(2) [OF ratio] bits_normal)
  note m = memory_match [OF ratio_texts_mem(1) [OF ratio] bits_text_mem encoder_text_class [OF wf(1)]
      encoder_text_class [OF wf(2)] encoder_text_class [OF wf(3)], of w]
  have "\<not> is_valid_register ?s" "\<not> is_valid_constant ?s" by (simp_all add: memory_not_constant)
  with m MemoryCode show ?thesis unfolding parse_def Let_def norm by (auto simp: group_def)
qed

lemma encode_memory_text:
  assumes "bc_prints_literals bc" and "asm_operand (MemoryCode w p q r ratio)"
  shows "encode_memory bc (parsed_operand (MemoryCode w p q r ratio)) buf
    = (Inr (), buf @ operand_bytes (MemoryCode w p q r ratio))"
proof -
  have wf: "wf_parameter p" "wf_parameter q" "wf_parameter r" "is_ratio ratio" "is_width w"
    and wide: "wide_parameter p" "wide_parameter q" "wide_parameter r"
    using assms(2) by simp_all
  have each: "encode_each_parameter bc (encoder_text x) b = (Inr (), b @ parameter_bytes x)"
    if "wf_parameter x" "wide_parameter x" for x b
    using encode_each_parameter_text [OF assms(1) that(1)] that(2) by (cases x) auto
  have ratios: "list_all (\<lambda>(r, t). ratio_text r = t) [(1, ''1''), (2, ''2''), (4, ''4''), (8, ''8''), (0x16, ''16'')]"
    by (simp add: ratio_text_def ratio_value_def to_base.simps)
  show ?thesis
    using wf(4) ratios
    by (auto simp: encode_memory_def Let_def run_simps encode_memory_width_prefix_run [OF wf(5)]
        each [OF wf(1) wide(1)] each [OF wf(2) wide(2)] each [OF wf(3) wide(3)] is_ratio_def)
qed

lemma encode_operand_text:
  assumes "bc_prints_literals bc" and "asm_operand x"
  shows "encode_target bc (operand_text x) buf = (Inr (parsed_operand x), buf @ operand_bytes x)"
proof (cases x)
  case (MemoryCode w p q r ratio)
  have "TargetType (parsed_operand x) = MEMORY" unfolding MemoryCode by (simp add: empty_target_def)
  with encode_memory_text [OF assms(1), of w p q r ratio buf] assms(2) parse_operand_text [OF assms(2)]
  show ?thesis unfolding MemoryCode
    by (simp add: encode_target_def run_simps del: parsed_operand.simps operand_bytes.simps operand_text.simps)
next
  case (Direct p)
  show ?thesis
  proof (cases p)
    case (RegisterCode w i)
    with Direct assms(2) register_text_ok [of w i] have "register_code (register_text w i) = Some (w, i)"
      by (simp add: register_name_ok_def Let_def)
    with parse_operand_text [OF assms(2)] Direct RegisterCode show ?thesis
      by (simp add: encode_target_def run_simps encode_register_run register_target_def empty_target_def)
  next
    case (ConstantCode w v)
    with Direct assms(2) have "is_width w" by simp
    from encode_constant_text [OF assms(1) this, of v buf] parse_operand_text [OF assms(2)]
    show ?thesis unfolding Direct ConstantCode
      by (simp add: encode_target_def run_simps constant_target_def empty_target_def del: operand_text.simps)
  qed
qed

end
