(* ===== verification/Instruction_Encoder.thy ===== *)
theory Instruction_Encoder
  imports Operand_Encoder
begin

text \<open>
  The instruction encoder of the assembler (\<open>coding/EncodeInstruction.cpp\<close>,
  \<open>coding/OperandSanity.cpp\<close>): from a line of source code to the bytes of the instruction.
\<close>

section \<open>Patterns\<close>

(* coding/EncodeInstruction.cpp 28-28: instruction_pattern *)
definition instruction_pattern :: rx where
  "instruction_pattern = Cap 1 (Plus (Chr (\<lambda>c. between (CHR ''A'') (CHR ''Z'') c \<or> c = CHR ''-''
     \<or> between (CHR ''0'') (CHR ''9'') c)))"

text \<open>The dots of this pattern are not escaped: each stands for any character.\<close>

(* coding/EncodeInstruction.cpp 29-29: operation_width *)
definition operation_width :: rx where
  "operation_width = Alts [Seq Dot (Lit ''8BIT''), Seq Dot (Lit ''16BIT''), Seq Dot (Lit ''32BIT''),
     Seq Dot (Lit ''64BIT'')]"

definition expression_char :: "char \<Rightarrow> bool" where
  "expression_char c \<longleftrightarrow> c \<in> {CHR ''+'', CHR ''-'', CHR ''.'', CHR 0x27, CHR '','', CHR ''*'', CHR ''/'',
     CHR ''^'', CHR ''%'', CHR ''('', CHR '')'', CHR ''x'', CHR ''X''} \<or> between (CHR ''0'') (CHR ''9'') c"

definition expression_rx :: rx where
  "expression_rx = Alts [Seqs [Lit ''0'', Chr (\<lambda>c. c = CHR ''x'' \<or> c = CHR ''X''), Plus (Chr hex_digit)], Blank,
     Chr expression_char]"

definition memory_rx :: rx where
  "memory_rx = Seqs [Lit ''*'', Blanks, ratio_rx, Lit ''&'', Cap 1 bits_rx, Blanks, Lit ''('', no_comma, Lit '','',
     no_comma, Lit '','', no_comma, Lit '')'']"

definition constant_rx :: rx where
  "constant_rx = Seqs [Lit ''$'', Blanks, Cap 5 bits_rx, Blanks, Lit ''('', Blanks, Plus expression_rx, Blanks,
     Lit '')'']"

definition operand_rx :: rx where
  "operand_rx = Alts [memory_rx,
     Seqs [Lit ''%'', Alts [Lit ''R'', Lit ''EXR'', Lit ''HER''], Chr (between (CHR ''0'') (CHR ''7''))],
     Seqs [Lit ''%'', Cap 2 (Lit ''FER''), Cap 3 (Plus Digit)],
     Seqs [Lit ''%'', Cap 4 special_rx],
     constant_rx]"

(* include/EncodingDecoding.h 651-651: target_pattern *)
definition target_pattern :: rx where
  "target_pattern = Seqs [Lit ''<'', Blanks, operand_rx, Blanks, Lit ''>'']"

section \<open>Taking a line apart\<close>

(* coding/EncodeInstruction.cpp 31-63: clean_line *)
definition clean_line :: "string \<Rightarrow> cpu_error + string list" where
  "clean_line line =
     (let input = capitalization line;
          widths = (case regex_search operation_width input of
              Some (_, txt, _, _) \<Rightarrow> [remove_space txt] | None \<Rightarrow> []);
          targets = map (\<lambda>(txt, _). remove_space txt) (regex_iterator target_pattern input)
      in case regex_search instruction_pattern input of
           None \<Rightarrow> Inl InstructionExpressionError
         | Some (_, txt, _, _) \<Rightarrow> Inr (remove_space txt # widths @ targets))"

(* coding/EncodeInstruction.cpp 65-73: encode_width_specifier *)
definition encode_width_specifier :: "string \<Rightarrow> (u8 list, u8) run" where
  "encode_width_specifier specifier =
     (let push = (\<lambda>w. thenR (code_buffer_push8 w) (returnR w)) in
      if specifier = ''.8BIT'' then push prefix_8bit
      else if specifier = ''.16BIT'' then push prefix_16bit
      else if specifier = ''.32BIT'' then push prefix_32bit
      else if specifier = ''.64BIT'' then push prefix_64bit
      else throwR InstructionExpressionError)"

section \<open>Checks\<close>

definition special_names :: "string list" where
  "special_names = [''%SB'', ''%SP'', ''%CB'', ''%DB'', ''%DP'', ''%EB'', ''%EP'']"

text \<open>The name says the opposite of what is computed: whether the operand has 64 bits.\<close>

(* coding/OperandSanity.cpp 29-50: isInvalid64BitOperand *)
definition isInvalid64BitOperand :: "parsed_target_t \<Rightarrow> bool" where
  "isInvalid64BitOperand operand \<longleftrightarrow>
     TargetType operand = REGISTER
       \<and> (second_char (RegisterName operand) = CHR ''F'' \<or> RegisterName operand \<in> set special_names)
     \<or> TargetType operand = MEMORY \<and> MemoryWidth (memory operand) = ''64''
     \<or> TargetType operand = CONSTANT"

definition writes_first :: "u8 list" where
  "writes_first = [OPCODE_MOV, OPCODE_POP, OPCODE_AND, OPCODE_OR, OPCODE_XOR, OPCODE_NOT, OPCODE_SHL, OPCODE_SHR,
     OPCODE_ROL, OPCODE_ROR, OPCODE_RCL, OPCODE_RCR, OPCODE_ADD, OPCODE_SUB, OPCODE_ADC, OPCODE_SBB, OPCODE_NEG,
     OPCODE_INC, OPCODE_DEC]"

definition control_flow :: "u8 list" where
  "control_flow = [OPCODE_JMP, OPCODE_CALL, OPCODE_JE, OPCODE_JNE, OPCODE_JB, OPCODE_JL, OPCODE_JBE, OPCODE_JLE,
     OPCODE_JC, OPCODE_JNC, OPCODE_JO, OPCODE_JNO, OPCODE_LOOP]"

text \<open>\<open>operands.at(i)\<close>, which throws \<open>std::out_of_range\<close>.\<close>

definition operand_at :: "parsed_target_t list \<Rightarrow> nat \<Rightarrow> cpu_error + parsed_target_t" where
  "operand_at ops i = (if i < length ops then Inr (ops ! i) else Inl StdException)"

definition check_operand :: "parsed_target_t list \<Rightarrow> nat \<Rightarrow> (parsed_target_t \<Rightarrow> bool) \<Rightarrow> cpu_error + bool" where
  "check_operand ops i P = map_result P (operand_at ops i)"

text \<open>A short-circuit \<open>||\<close> and the throw under a condition.\<close>

definition or_else :: "cpu_error + bool \<Rightarrow> cpu_error + bool \<Rightarrow> cpu_error + bool" where
  "or_else a b = (case a of Inl e \<Rightarrow> Inl e | Inr True \<Rightarrow> Inr True | Inr False \<Rightarrow> b)"

definition refuse_if :: "cpu_error + bool \<Rightarrow> cpu_error + unit" where
  "refuse_if a = (case a of Inl e \<Rightarrow> Inl e | Inr True \<Rightarrow> Inl InstructionExpressionError | Inr False \<Rightarrow> Inr ())"

definition both_checks :: "cpu_error + unit \<Rightarrow> cpu_error + unit \<Rightarrow> cpu_error + unit" where
  "both_checks a b = (case a of Inl e \<Rightarrow> Inl e | Inr _ \<Rightarrow> b)"

(* coding/OperandSanity.cpp 53-127: OperandSanityCheck *)
definition OperandSanityCheck :: "u8 \<Rightarrow> parsed_target_t list \<Rightarrow> cpu_error + unit" where
  "OperandSanityCheck opc ops =
     (let constant = (\<lambda>x. TargetType x = CONSTANT) in
      if opc = OPCODE_XCHG then refuse_if (or_else (check_operand ops 0 constant) (check_operand ops 1 constant))
      else if opc = OPCODE_IN then refuse_if (check_operand ops 1 constant)
      else if opc \<in> set writes_first then refuse_if (check_operand ops 0 constant)
      else if opc = OPCODE_LEA then
        both_checks (refuse_if (or_else (check_operand ops 0 constant) (check_operand ops 1 (\<lambda>x. TargetType x \<noteq> MEMORY))))
          (refuse_if (check_operand ops 0 (\<lambda>x. \<not> isInvalid64BitOperand x)))
      else if opc \<in> set control_flow then
        refuse_if (or_else (check_operand ops 0 (\<lambda>x. \<not> isInvalid64BitOperand x))
          (check_operand ops 1 (\<lambda>x. \<not> isInvalid64BitOperand x)))
      else Inr ())"

(* coding/EncodeInstruction.cpp 154-203: encode_instruction, width consistency check *)
definition width_consistent :: "u8 \<Rightarrow> parsed_target_t \<Rightarrow> bool" where
  "width_consistent w t \<longleftrightarrow> w = 0 \<or>
     (TargetType t = REGISTER \<longrightarrow>
        (if w = prefix_8bit then second_char (RegisterName t) = CHR ''R''
         else if w = prefix_16bit then second_char (RegisterName t) = CHR ''E''
         else if w = prefix_32bit then second_char (RegisterName t) = CHR ''H''
         else if w = prefix_64bit then
           second_char (RegisterName t) = CHR ''F'' \<or> RegisterName t \<in> set special_names
         else False))
     \<and> (TargetType t = MEMORY \<longrightarrow> is_width w \<and> MemoryWidth (memory t) = bits_text w)
     \<and> (TargetType t = CONSTANT \<longrightarrow> is_width w \<and> Constant_Width t = bits_text w)"

section \<open>Encoding\<close>

definition rethrow_as :: "cpu_error \<Rightarrow> cpu_error \<Rightarrow> ('s, 'a) run \<Rightarrow> ('s, 'a) run" where
  "rethrow_as caught thrown m = tryR m (\<lambda>e. if e = caught then throwR thrown else throwR e)"

text \<open>The \<open>i\<close>-th operand, with the angle brackets removed.\<close>

(* coding/EncodeInstruction.cpp 108-204: encode_instruction, operands *)
fun encode_operands ::
    "calculator \<Rightarrow> string list \<Rightarrow> nat \<Rightarrow> u8 \<Rightarrow> nat \<Rightarrow> (u8 list, parsed_target_t list) run" where
  "encode_operands bc args count w 0 = returnR []"
| "encode_operands bc args count w (Suc n) =
     (if length args < count then throwR InstructionExpressionError
      else if length args > count then throwR InstructionExpressionError
      else let tmp = butlast (tl (args ! (count - Suc n))) in
        bindR (rethrow_as SysdarftCodeExpressionError InstructionExpressionError (encode_target bc tmp)) (\<lambda>parsed.
        if \<not> width_consistent w parsed then throwR InstructionExpressionError
        else bindR (encode_operands bc args count w n) (\<lambda>ops. returnR (parsed # ops))))"

(* coding/EncodeInstruction.cpp 75-211: encode_instruction *)
definition encode_instruction :: "calculator \<Rightarrow> string \<Rightarrow> (u8 list, unit) run" where
  "encode_instruction bc instruction =
     bindR (liftE (clean_line instruction)) (\<lambda>cleaned_line.
     case find_mnemonic (hd cleaned_line) of
       None \<Rightarrow> throwR InstructionExpressionError
     | Some e \<Rightarrow>
         thenR (code_buffer_push8 (entry_opcode e))
         (bindR (if require_width e then
                   if length cleaned_line < 2 then throwR InstructionExpressionError
                   else encode_width_specifier (cleaned_line ! 1)
                 else returnR 0) (\<lambda>current_ops_width.
          bindR (encode_operands bc (drop (if require_width e then 2 else 1) cleaned_line) (argument_count e)
                   current_ops_width (argument_count e)) (\<lambda>ops.
          case OperandSanityCheck (entry_opcode e) ops of
            Inl err \<Rightarrow> throwR (if derived_from_exception err then InstructionExpressionError else err)
          | Inr _ \<Rightarrow> returnR ()))))"

section \<open>Finding the operands of a line\<close>

lemma not_blank_run: "\<not> isspace c \<Longrightarrow> matches Blanks k (caps, n, c # s) = k (caps, n, c # s)"
  by (simp add: matches_Star_class)

lemma blanks_at_end: "matches Blanks k (caps, n, []) = k (caps, n, [])"
  by (simp add: matches_Star_class)

lemma isspace_simps [simp]:
  "\<not> isspace (CHR ''<'')" "\<not> isspace (CHR ''>'')" "\<not> isspace (CHR ''%'')" "\<not> isspace (CHR ''$'')"
  "\<not> isspace (CHR ''*'')" "\<not> isspace (CHR ''('')" "\<not> isspace (CHR '')'')" "\<not> isspace (CHR ''0'')"
  "\<not> isspace (CHR ''8'')" "\<not> isspace (CHR ''1'')" "\<not> isspace (CHR ''2'')" "\<not> isspace (CHR ''3'')"
  "\<not> isspace (CHR ''4'')" "\<not> isspace (CHR ''6'')" "\<not> isspace (CHR '','')"
  by code_simp+

lemma target_only_at_bracket: "c \<noteq> CHR ''<'' \<Longrightarrow> matches target_pattern k (caps, n, c # s) = None"
  by (simp add: target_pattern_def)

lemma target_skip:
  "CHR ''<'' \<notin> set pre \<Longrightarrow> search_from target_pattern n (pre @ s) = search_from target_pattern (n + length pre) s"
proof (induction pre arbitrary: n)
  case (Cons c pre)
  then have "search_from target_pattern n (c # pre @ s) = search_from target_pattern (Suc n) (pre @ s)"
    using target_only_at_bracket [of c Some "[]" n "pre @ s"] by (subst search_from.simps) auto
  with Cons show ?case by simp
qed simp

text \<open>The end of an operand.\<close>

abbreviation close_rx :: rx where "close_rx \<equiv> Seq Blanks (Lit ''>'')"

lemma close_run:
  "matches close_rx k (caps, n, CHR ''>'' # s) = k (caps, Suc n, s)"
  "c \<noteq> CHR ''>'' \<Longrightarrow> \<not> isspace c \<Longrightarrow> matches close_rx k (caps, n, c # s) = None"
  "matches close_rx k (caps, n, []) = None"
  by (simp_all add: not_blank_run blanks_at_end)

subsection \<open>Registers\<close>

lemma register_text_forms:
  assumes "valid_register w i"
  shows "(\<exists>p\<in>{''R'', ''EXR'', ''HER''}. \<exists>d. between (CHR ''0'') (CHR ''7'') d \<and> register_text w i = ''%'' @ p @ [d])
    \<or> (\<exists>ds. ds \<noteq> [] \<and> (\<forall>d\<in>set ds. isdigit d) \<and> register_text w i = ''%FER'' @ ds)
    \<or> register_text w i \<in> set special_names"
proof -
  have "list_all (\<lambda>d. between (CHR ''0'') (CHR ''7'') (digit_char d)) [0..<8]" by code_simp
  then have narrow: "\<exists>d. between (CHR ''0'') (CHR ''7'') d \<and> to_string (unat i) = [d]" if "unat i < 8"
    using that by (subst to_base.simps) (auto simp: list_all_iff)
  have digits: "\<forall>d\<in>set (to_string n). isdigit d" for n
    using to_base_digits [of 10 n] isdigit_digit_char by fastforce
  have "is_width w" using assms by (simp add: valid_register_def)
  then show ?thesis
  proof (cases rule: is_width_cases)
    case w64
    show ?thesis
    proof (cases "unat i < 16")
      case True
      with w64 digits show ?thesis by (simp add: register_text_def)
    next
      case False
      with assms w64 show ?thesis
        by (auto simp: valid_register_def special_register_def register_text_def special_names_def)
    qed
  qed (use assms narrow in \<open>auto simp: valid_register_def register_text_def\<close>)
qed

lemma operand_rx_narrow:
  assumes "p \<in> {''R'', ''EXR'', ''HER''}" and "between (CHR ''0'') (CHR ''7'') d"
    and "\<And>caps n. K (caps, n, CHR ''>'' # rest) = Some (caps, Suc n, rest)"
  shows "matches operand_rx K (caps, n, (''%'' @ p @ [d]) @ CHR ''>'' # rest)
    = Some (caps, n + length (''%'' @ p @ [d]) + 1, rest)"
  using assms by (auto simp: operand_rx_def memory_rx_def matches_Lit)

lemma operand_rx_wide:
  assumes "ds \<noteq> []" and "\<forall>d\<in>set ds. isdigit d"
    and "\<And>caps n. K (caps, n, CHR ''>'' # rest) = Some (caps, Suc n, rest)"
  shows "\<exists>caps'. matches operand_rx K (caps, n, (''%FER'' @ ds) @ CHR ''>'' # rest)
    = Some (caps', n + length (''%FER'' @ ds) + 1, rest)"
proof -
  obtain d us where ds: "ds = d # us" using assms(1) by (cases ds) auto
  have nd: "\<not> isdigit (CHR ''>'')" by code_simp
  have "matches (Cap 3 (Plus Digit)) K ((2, ''FER'') # caps, Suc (Suc (Suc (Suc n))), ds @ CHR ''>'' # rest)
      = Some ((3, ds) # (2, ''FER'') # caps, Suc (Suc (Suc (Suc n))) + length ds + 1, rest)"
    using ds assms(2,3) nd unfolding matches_Cap Plus_def matches.simps(3)
    by (simp, intro matches_Star_longest) auto
  then show ?thesis
    by (simp add: operand_rx_def memory_rx_def matches_Lit matches_Cap_Lit [of _ "''FER''", simplified])
qed

lemma operand_rx_special:
  assumes "nm \<in> set special_names"
    and "\<And>caps n. K (caps, n, CHR ''>'' # rest) = Some (caps, Suc n, rest)"
  shows "\<exists>caps'. matches operand_rx K (caps, n, nm @ CHR ''>'' # rest) = Some (caps', n + length nm + 1, rest)"
proof -
  have sp: "matches (Cap 4 special_rx) K (caps, m, x @ CHR ''>'' # rest) = Some ((4, x) # caps, m + length x + 1, rest)"
    if "x \<in> {''SB'', ''SP'', ''CB'', ''DB'', ''DP'', ''EB'', ''EP''}" for x m
    using that assms(2) by (elim insertE emptyE; simp add: matches_Cap special_rx_def matches_Lit)
  have "matches operand_rx K (caps, n, CHR ''%'' # x @ CHR ''>'' # rest) = Some ((4, x) # caps, n + length x + 2, rest)"
    if "x \<in> {''SB'', ''SP'', ''CB'', ''DB'', ''DP'', ''EB'', ''EP''}" for x
    using that sp [OF that, of "Suc n"]
    by (elim insertE emptyE; simp add: operand_rx_def memory_rx_def matches_Lit matches_Cap [of 2])
  moreover obtain x where "nm = CHR ''%'' # x" "x \<in> {''SB'', ''SP'', ''CB'', ''DB'', ''DP'', ''EB'', ''EP''}"
    using assms(1) by (auto simp: special_names_def)
  ultimately show ?thesis by auto
qed

lemma operand_rx_register:
  assumes "valid_register w i" and "\<And>caps n. K (caps, n, CHR ''>'' # rest) = Some (caps, Suc n, rest)"
  shows "\<exists>caps'. matches operand_rx K (caps, n, register_text w i @ CHR ''>'' # rest)
    = Some (caps', n + length (register_text w i) + 1, rest)"
  using register_text_forms [OF assms(1)] operand_rx_narrow [OF _ _ assms(2), of _ _ caps n]
    operand_rx_wide [OF _ _ assms(2), of _ caps n] operand_rx_special [OF _ assms(2), of _ caps n]
  by fastforce

subsection \<open>Constants\<close>

lemma expression_at_close:
  assumes "K (caps, Suc n, CHR ''>'' # s) = None"
  shows "matches (Star expression_rx) K (caps, n, CHR '')'' # CHR ''>'' # s) = K (caps, n, CHR '')'' # CHR ''>'' # s)"
proof -
  have c: "\<not> expression_char (CHR ''>'')" "expression_char (CHR '')'')" by code_simp+
  then have close: "matches expression_rx k (caps, m, CHR ''>'' # s) = None" for k :: "mstate \<Rightarrow> 'a option" and m
    by (simp add: expression_rx_def)
  with c assms show ?thesis by (simp add: matches.simps(5) expression_rx_def)
qed


lemma bits_not_blank: "bits \<in> bits_texts \<Longrightarrow> matches Blanks k (caps, n, bits @ s) = k (caps, n, bits @ s)"
  by (auto simp: bits_texts_def not_blank_run)

lemma expression_hex:
  assumes "K (caps, n + 2 + length (to_hex v), CHR '')'' # CHR ''>'' # s) = Some x"
    and "K (caps, Suc (n + 2 + length (to_hex v)), CHR ''>'' # s) = None"
  shows "matches (Plus expression_rx) K (caps, n, (''0X'' @ to_hex v) @ CHR '')'' # CHR ''>'' # s) = Some x"
proof -
  obtain h hs where h: "to_hex v = h # hs" by (cases "to_hex v") auto
  then have hex: "hex_digit h" "\<forall>c\<in>set hs. hex_digit c" using to_hex_class(1) [of _ v] by auto
  have nh: "\<not> hex_digit (CHR '')'')" by code_simp
  have "matches (Star expression_rx) K (caps, n + 2 + length (to_hex v), CHR '')'' # CHR ''>'' # s) = Some x"
    using assms expression_at_close [of K caps "n + 2 + length (to_hex v)" s] by simp
  then have "matches (Star (Chr hex_digit)) (matches (Star expression_rx) K)
      (caps, Suc (Suc (Suc n)), hs @ CHR '')'' # CHR ''>'' # s) = Some x"
    using hex(2) nh h by (intro matches_Star_longest) simp_all
  with h hex(1) show ?thesis by (simp add: Plus_def expression_rx_def)
qed

lemma operand_rx_constant:
  assumes "bits \<in> bits_texts" and "\<And>caps n. K (caps, n, CHR ''>'' # rest) = Some (caps, Suc n, rest)"
  shows "\<exists>caps'. matches operand_rx K (caps, n, (''$'' @ bits @ ''('' @ (''0X'' @ to_hex v) @ '')'') @ CHR ''>'' # rest)
    = Some (caps', n + length (''$'' @ bits @ ''('' @ (''0X'' @ to_hex v) @ '')'') + 1, rest)"
proof -
  let ?n = "Suc (Suc (n + length bits))"
  have "matches (Plus expression_rx) (matches (Seq Blanks (Lit '')'')) K)
      ((5, bits) # caps, ?n, (''0X'' @ to_hex v) @ CHR '')'' # CHR ''>'' # rest)
    = Some ((5, bits) # caps, Suc (Suc (?n + 2 + length (to_hex v))), rest)"
    using assms(2) by (intro expression_hex) (simp_all add: not_blank_run)
  then have "matches constant_rx K (caps, n, (''$'' @ bits @ ''('' @ (''0X'' @ to_hex v) @ '')'') @ CHR ''>'' # rest)
    = Some ((5, bits) # caps, Suc (Suc (?n + 2 + length (to_hex v))), rest)"
    by (simp add: constant_rx_def bits_not_blank [OF assms(1)] matches_bits [OF assms(1)] not_blank_run)
  then show ?thesis by (simp add: operand_rx_def memory_rx_def)
qed

subsection \<open>Memory references\<close>

lemma matches_ratio_plain:
  assumes "ratio \<in> ratio_texts"
  shows "matches ratio_rx (matches (Seq (Lit ''&'') q) k) (caps, n, ratio @ CHR ''&'' # s)
    = matches (Seq (Lit ''&'') q) k (caps, n + length ratio, CHR ''&'' # s)"
  using assms unfolding ratio_texts_def
  by (elim insertE emptyE) (simp_all add: ratio_rx_def matches_Lit split: option.split)

lemma ratio_not_blank: "ratio \<in> ratio_texts \<Longrightarrow> matches Blanks k (caps, n, ratio @ s) = k (caps, n, ratio @ s)"
  by (auto simp: ratio_texts_def not_blank_run)

lemma no_comma_run:
  assumes "cs \<noteq> []" and "CHR '','' \<notin> set cs" and "k (caps, n + length cs, CHR '','' # s) = Some x"
  shows "matches no_comma k (caps, n, cs @ CHR '','' # s) = Some x"
proof -
  obtain c us where cs: "cs = c # us" using assms(1) by (cases cs) auto
  with assms(2) have "\<forall>c\<in>set us. c \<noteq> CHR '',''" by auto
  with cs assms(2,3) show ?thesis
    unfolding no_comma_def Plus_def matches.simps(3)
    by (simp, intro conjI impI matches_Star_longest) auto
qed

lemma no_comma_give_back:
  assumes "cs \<noteq> []" and "CHR '','' \<notin> set cs" and "rest = [] \<or> hd rest = CHR '',''"
    and "K (caps, Suc (n + length cs), CHR ''>'' # rest) = Some x"
  shows "matches no_comma (matches (Lit '')'') K) (caps, n, cs @ CHR '')'' # CHR ''>'' # rest) = Some x"
proof -
  obtain c us where cs: "cs = c # us" using assms(1) by (cases cs) auto
  with assms(2) have all: "\<forall>c\<in>set (us @ CHR '')'' # ''>''). c \<noteq> CHR '',''" by auto
  have "matches (Lit '')'') K (caps, m, rest) = None" for m
    using assms(3) by (cases rest) simp_all
  then have "matches (Star (Chr (\<lambda>c. c \<noteq> CHR '',''))) (matches (Lit '')'') K)
      (caps, Suc n, us @ CHR '')'' # ''>'' @ rest) = Some x"
    using assms(3,4) cs by (intro matches_Star_give_back [OF all]) simp_all
  with cs assms(2) show ?thesis by (auto simp: no_comma_def Plus_def)
qed

lemma operand_rx_memory:
  assumes "ratio \<in> ratio_texts" and "bits \<in> bits_texts"
    and "p \<noteq> []" "CHR '','' \<notin> set p" and "q \<noteq> []" "CHR '','' \<notin> set q" and "r \<noteq> []" "CHR '','' \<notin> set r"
    and "rest = [] \<or> hd rest = CHR '',''"
    and "\<And>caps n. K (caps, n, CHR ''>'' # rest) = Some (caps, Suc n, rest)"
  defines "U \<equiv> ''*'' @ ratio @ ''&'' @ bits @ ''('' @ p @ '','' @ q @ '','' @ r @ '')''"
  shows "\<exists>caps'. matches operand_rx K (caps, n, U @ CHR ''>'' # rest) = Some (caps', n + length U + 1, rest)"
proof -
  let ?caps = "(1, bits) # caps"
  let ?n1 = "Suc (Suc (Suc (n + length ratio + length bits)))"
  let ?n2 = "Suc (?n1 + length p)" and ?x = "Some ((1, bits) # caps, n + length U + 1, rest)"
  let ?n3 = "Suc (?n2 + length q)"
  have k3: "matches no_comma (matches (Lit '')'') K) (?caps, ?n3, r @ CHR '')'' # CHR ''>'' # rest) = ?x"
    using assms(9,10) by (intro no_comma_give_back [OF assms(7,8)]) (simp_all add: U_def)
  have k2: "matches no_comma (matches (Seq (Lit '','') (Seq no_comma (Lit '')''))) K)
      (?caps, ?n2, q @ CHR '','' # r @ CHR '')'' # CHR ''>'' # rest) = ?x"
    using k3 by (intro no_comma_run [OF assms(5,6)]) simp
  have k1: "matches no_comma (matches (Seq (Lit '','') (Seq no_comma (Seq (Lit '','') (Seq no_comma (Lit '')''))))) K)
      (?caps, ?n1, p @ CHR '','' # q @ CHR '','' # r @ CHR '')'' # CHR ''>'' # rest) = ?x"
    using k2 by (intro no_comma_run [OF assms(3,4)]) simp
  then have "matches memory_rx K (caps, n, U @ CHR ''>'' # rest) = ?x"
    by (simp add: U_def memory_rx_def ratio_not_blank [OF assms(1)] matches_ratio_plain [OF assms(1)]
        matches_bits [OF assms(2)] not_blank_run)
  then show ?thesis by (simp add: operand_rx_def)
qed

subsection \<open>The operands of a disassembled line\<close>

lemma parameter_text_no_space: "wf_parameter p \<Longrightarrow> CHR '' '' \<notin> set (parameter_text p)"
proof (cases p)
  case (RegisterCode w i)
  moreover assume "wf_parameter p"
  ultimately have "register_name_ok (w, i)" using register_text_ok by simp
  then have "CHR '' '' \<notin> set (register_text w i)"
    by (auto simp: register_name_ok_def Let_def list_all_iff)
  with RegisterCode show ?thesis by simp
next
  case (ConstantCode w v)
  have "\<forall>b\<in>bits_texts. CHR '' '' \<notin> set b" by (simp add: bits_texts_def)
  then have "CHR '' '' \<notin> set (bits_text w)" using bits_text_mem by blast
  moreover have "CHR '' '' \<notin> set (to_hex n)" for n using to_hex_class(3) by blast
  ultimately show ?thesis using ConstantCode by simp
qed

lemma parameter_capital: "wf_parameter p \<Longrightarrow> capitalization (parameter_text p) = encoder_text p"
  using parameter_normal [of p] by (simp add: remove_space_id parameter_text_no_space)

lemma literal_capital:
  "capitalization ''*'' = ''*''" "capitalization ''&'' = ''&''" "capitalization ''('' = ''(''"
  "capitalization '', '' = '', ''" "capitalization '')'' = '')''"
  by code_simp+

lemma bits_capital: "capitalization (bits_text w) = bits_text w"
  by (metis bits_normal capitalization_idem)

lemma ratio_capital: "is_ratio r \<Longrightarrow> capitalization (ratio_text r) = ratio_text r"
  by (metis ratio_texts_mem(2) capitalization_idem)

lemma operand_capital_memory:
  assumes "wf_operand (MemoryCode w p q r ratio)"
  shows "capitalization (operand_text (MemoryCode w p q r ratio)) = ''*'' @ ratio_text ratio @ ''&'' @ bits_text w @ ''(''
    @ encoder_text p @ '','' @ ('' '' @ encoder_text q) @ '','' @ ('' '' @ encoder_text r) @ '')''"
proof -
  have "capitalization (operand_text (MemoryCode w p q r ratio)) = capitalization ''*''
      @ capitalization (ratio_text ratio) @ capitalization ''&'' @ capitalization (bits_text w)
      @ capitalization ''('' @ capitalization (parameter_text p) @ capitalization '', ''
      @ capitalization (parameter_text q) @ capitalization '', '' @ capitalization (parameter_text r)
      @ capitalization '')''"
    by (simp only: operand_text.simps capitalization_simps)
  then show ?thesis
    using assms by (simp add: literal_capital parameter_capital ratio_capital bits_capital)
qed

lemma operand_rx_text:
  assumes "asm_operand x" and "rest = [] \<or> hd rest = CHR '',''"
    and "\<And>caps n. K (caps, n, CHR ''>'' # rest) = Some (caps, Suc n, rest)"
  shows "\<exists>caps'. matches operand_rx K (caps, n, capitalization (operand_text x) @ CHR ''>'' # rest)
    = Some (caps', n + length (operand_text x) + 1, rest)"
proof (cases x)
  case (Direct p)
  with assms(1) have cap: "capitalization (operand_text x) = encoder_text p" and wf: "wf_parameter p"
    by (simp_all add: parameter_capital)
  then have len: "length (operand_text x) = length (encoder_text p)"
    by (metis capitalization_simps(2))
  show ?thesis
  proof (cases p)
    case (RegisterCode w i)
    with wf operand_rx_register [OF _ assms(3), of w i caps n] show ?thesis by (simp add: cap len)
  next
    case (ConstantCode w v)
    with operand_rx_constant [OF bits_text_mem assms(3), of caps n w] show ?thesis by (simp add: cap len)
  qed
next
  case (MemoryCode w p q r ratio)
  with assms(1) have wf: "wf_operand (MemoryCode w p q r ratio)" "wf_parameter p" "wf_parameter q" "wf_parameter r"
    "is_ratio ratio" by simp_all
  have "CHR '','' \<notin> set ('' '' @ encoder_text q)" "CHR '','' \<notin> set ('' '' @ encoder_text r)"
    using encoder_text_class(2) [OF wf(3)] encoder_text_class(2) [OF wf(4)] by simp_all
  from operand_rx_memory [OF ratio_texts_mem(1) [OF wf(5)] bits_text_mem encoder_text_class [OF wf(2)] _ this(1)
      _ this(2) assms(2,3), of caps n w] operand_capital_memory [OF wf(1)] MemoryCode
  show ?thesis by (metis append_is_Nil_conv capitalization_simps(2) not_Cons_self2)
qed

lemma target_at:
  assumes "asm_operand x" and "rest = [] \<or> hd rest = CHR '',''"
  shows "\<exists>caps. matches target_pattern Some ([], n, CHR ''<'' # capitalization (operand_text x) @ CHR ''>'' # rest)
    = Some (caps, n + length (operand_text x) + 2, rest)"
proof -
  obtain c cs where c: "capitalization (operand_text x) = c # cs" "\<not> isspace c"
  proof (cases x)
    case (Direct p)
    with assms(1) parameter_capital [of p] have "capitalization (operand_text x) = encoder_text p" by simp
    moreover have "\<exists>cs. encoder_text p = CHR ''%'' # cs \<or> encoder_text p = CHR ''$'' # cs"
      by (cases p) (simp_all add: register_text_def)
    ultimately show thesis using that by auto
  next
    case (MemoryCode w p q r ratio)
    with assms(1) operand_capital_memory [of w p q r ratio] that show thesis by simp
  qed
  obtain caps where "matches operand_rx (matches close_rx Some)
      ([], Suc n, capitalization (operand_text x) @ CHR ''>'' # rest)
    = Some (caps, Suc n + length (operand_text x) + 1, rest)"
    using operand_rx_text [OF assms, of "matches close_rx Some" "[]" "Suc n"] close_run(1) by blast
  with c show ?thesis by (simp add: target_pattern_def not_blank_run)
qed

definition bracketed :: "code_operand \<Rightarrow> string" where
  "bracketed x = CHR ''<'' # capitalization (operand_text x) @ ''>''"

lemma search_target:
  assumes "CHR ''<'' \<notin> set pre" and "asm_operand x" and "rest = [] \<or> hd rest = CHR '',''"
  shows "\<exists>caps. search_from target_pattern n (pre @ bracketed x @ rest)
    = Some (n + length pre, bracketed x, caps, rest)"
proof -
  obtain caps where "matches target_pattern Some ([], n + length pre, bracketed x @ rest)
      = Some (caps, n + length pre + length (operand_text x) + 2, rest)"
    using target_at [OF assms(2,3), of "n + length pre"] by (auto simp: bracketed_def)
  then have "search_from target_pattern (n + length pre) (bracketed x @ rest)
      = Some (n + length pre, bracketed x, caps, rest)"
    by (subst search_from.simps) (simp add: bracketed_def)
  then show ?thesis using target_skip [OF assms(1), of n "bracketed x @ rest"] by simp
qed

lemma search_no_target: "CHR ''<'' \<notin> set s \<Longrightarrow> search_from target_pattern n s = None"
  using target_skip [of s n "[]"] by (simp add: search_from.simps target_pattern_def)

fun targets_text :: "code_operand list \<Rightarrow> string" where
  "targets_text [] = []"
| "targets_text [x] = bracketed x"
| "targets_text (x # y # xs) = bracketed x @ '', '' @ targets_text (y # xs)"

lemma iterate_targets:
  assumes "list_all asm_operand xs" and "CHR ''<'' \<notin> set pre" and "length xs < fuel"
  shows "map fst (iterate_from fuel target_pattern n (pre @ targets_text xs)) = map bracketed xs"
  using assms
proof (induction xs arbitrary: pre n fuel rule: targets_text.induct)
  case 1
  then show ?case by (cases fuel) (simp_all add: search_no_target)
next
  case (2 x)
  then obtain m where fuel: "fuel = Suc (Suc m)" by (cases fuel; cases "fuel - 1") auto
  obtain caps where "search_from target_pattern n (pre @ bracketed x @ [])
      = Some (n + length pre, bracketed x, caps, [])"
    using search_target [of pre x "[]" n] 2 by auto
  then show ?case by (simp add: fuel search_no_target bracketed_def)
next
  case (3 x y xs)
  then obtain m where fuel: "fuel = Suc m" by (cases fuel) auto
  obtain caps where "search_from target_pattern n (pre @ bracketed x @ '', '' @ targets_text (y # xs))
      = Some (n + length pre, bracketed x, caps, '', '' @ targets_text (y # xs))"
    using search_target [of pre x "'', '' @ targets_text (y # xs)" n] 3 by auto
  moreover have "map fst (iterate_from m target_pattern (n + length pre + length (bracketed x))
      ('', '' @ targets_text (y # xs))) = map bracketed (y # xs)"
    using 3 fuel by (intro "3.IH") auto
  ultimately show ?case by (simp add: fuel bracketed_def)
qed

lemma operands_text_capital:
  "capitalization (operands_text xs) = (if xs = [] then [] else '' '' @ targets_text xs)"
proof (induction xs rule: operands_text.induct)
  case 1
  then show ?case by (simp add: capitalization_def)
next
  case (2 x)
  have "capitalization '' <'' = '' <''" "capitalization ''>'' = ''>''" by code_simp+
  then show ?case by (simp add: bracketed_def capitalization_def)
next
  case (3 x y xs)
  have "capitalization '' <'' = '' <''" "capitalization ''>,'' = ''>,''" by code_simp+
  with 3 show ?case by (simp add: bracketed_def capitalization_def)
qed

lemma length_targets: "length xs \<le> length (targets_text xs)"
  by (induction xs rule: targets_text.induct) (simp_all add: bracketed_def)

lemma regex_iterator_operands:
  assumes "list_all asm_operand xs" and "CHR ''<'' \<notin> set pre"
  shows "map fst (regex_iterator target_pattern (pre @ capitalization (operands_text xs))) = map bracketed xs"
proof (cases "xs = []")
  case True
  then show ?thesis
    using iterate_targets [of "[]" pre "Suc (length pre)" 0] assms
    by (simp add: regex_iterator_def capitalization_def)
next
  case False
  with iterate_targets [OF assms(1), of "pre @ '' ''" "Suc (length (pre @ '' '' @ targets_text xs))" 0]
    assms(2) length_targets [of xs]
  show ?thesis by (simp add: regex_iterator_def operands_text_capital)
qed

section \<open>Mnemonic and width of a line\<close>

definition width_digit :: "char \<Rightarrow> bool" where
  "width_digit c \<longleftrightarrow> c \<in> {CHR ''8'', CHR ''1'', CHR ''3'', CHR ''6''}"

lemma width_digit_simps [simp]: "\<not> width_digit (CHR '' '')" "\<not> width_digit (CHR ''.'')"
  by code_simp+

definition mnemonic_ok :: "instruction_entry \<Rightarrow> bool" where
  "mnemonic_ok e = (let m = mnemonic e in
     m \<noteq> [] \<and> capitalization m = m \<and> list_all (\<lambda>c. c \<noteq> CHR ''<'' \<and> c \<noteq> CHR '' '' \<and> (between (CHR ''A'') (CHR ''Z'') c
       \<or> c = CHR ''-'' \<or> between (CHR ''0'') (CHR ''9'') c)) m
     \<and> (list_all (\<lambda>c. \<not> width_digit c) m \<or> m = ''INT3'' \<and> \<not> require_width e \<and> argument_count e = 0))"

lemma mnemonics_ok: "e \<in> set instruction_map \<Longrightarrow> mnemonic_ok e"
proof -
  have "list_all mnemonic_ok instruction_map" by code_simp
  then show "e \<in> set instruction_map \<Longrightarrow> mnemonic_ok e" by (simp add: list_all_iff)
qed

lemma search_mnemonic:
  assumes "mnemonic_ok e" and "s = [] \<or> hd s = CHR '' ''"
  shows "\<exists>caps rest. regex_search instruction_pattern (mnemonic e @ s) = Some (0, mnemonic e, caps, rest)"
proof -
  let ?P = "\<lambda>c. between (CHR ''A'') (CHR ''Z'') c \<or> c = CHR ''-'' \<or> between (CHR ''0'') (CHR ''9'') c"
  let ?m = "mnemonic e"
  obtain c cs where m: "?m = c # cs" using assms(1) by (cases ?m) (auto simp: mnemonic_ok_def Let_def)
  have all: "?P c" "\<forall>c\<in>set cs. ?P c"
    using assms(1) m by (auto simp: mnemonic_ok_def Let_def list_all_iff)
  have "\<not> ?P (CHR '' '')" by code_simp
  then have "s = [] \<or> \<not> ?P (hd s)" using assms(2) by auto
  then have "matches (Star (Chr ?P)) (\<lambda>(caps', n', s'). Some ((1, take (n' - 0) (?m @ s)) # caps', n', s'))
      ([], Suc 0, cs @ s) = Some ([(1, ?m)], length ?m, s)"
    using all(2) m by (intro matches_Star_longest) simp_all
  then have "matches instruction_pattern Some ([], 0, ?m @ s) = Some ([(1, ?m)], length ?m, s)"
    using m all(1) by (simp add: instruction_pattern_def Plus_def matches_Cap)
  then show ?thesis unfolding regex_search_def by (subst search_from.simps) simp
qed

lemma width_needs_digit: "\<not> width_digit d \<Longrightarrow> matches operation_width k (caps, n, c # d # s) = None"
proof -
  assume "\<not> width_digit d"
  then have "CHR ''8'' \<noteq> d" "CHR ''1'' \<noteq> d" "CHR ''3'' \<noteq> d" "CHR ''6'' \<noteq> d" by (auto simp: width_digit_def)
  then show ?thesis by (simp add: operation_width_def matches_Lit)
qed

lemma width_short: "matches operation_width k (caps, n, [c]) = None" "matches operation_width k (caps, n, []) = None"
  by (simp_all add: operation_width_def matches_Lit)

lemma width_skip:
  assumes "\<forall>d\<in>set (tl pre). \<not> width_digit d" and "s = [] \<or> \<not> width_digit (hd s)"
  shows "search_from operation_width n (pre @ s) = search_from operation_width (n + length pre) s"
  using assms(1)
proof (induction pre arbitrary: n)
  case (Cons c pre)
  have "matches operation_width Some ([], n, c # pre @ s) = None"
  proof (cases "pre @ s")
    case Nil
    then show ?thesis by (simp add: width_short)
  next
    case (Cons d t)
    then have "\<not> width_digit d" using Cons.prems assms(2) by (cases pre) auto
    with Cons show ?thesis by (simp add: width_needs_digit)
  qed
  then have "search_from operation_width n (c # pre @ s) = search_from operation_width (Suc n) (pre @ s)"
    by (subst search_from.simps) simp
  moreover have "\<forall>d\<in>set (tl pre). \<not> width_digit d" using Cons.prems by (cases pre) auto
  ultimately show ?case using Cons.IH [of "Suc n"] by simp
qed simp


lemma in_tl: "x \<in> set (tl xs) \<Longrightarrow> x \<in> set xs"
  by (cases xs) simp_all

lemma search_width:
  assumes "\<forall>d\<in>set m. \<not> width_digit d" and "bits \<in> bits_texts"
  shows "\<exists>i caps rest. regex_search operation_width (m @ '' .'' @ bits @ ''BIT'' @ s)
    = Some (i, ''.'' @ bits @ ''BIT'', caps, rest)"
proof -
  have dot: "any_char (CHR ''.'')" by code_simp
  define n where "n = length (m @ '' '')"
  obtain caps where "matches operation_width Some ([], n, ''.'' @ bits @ ''BIT'' @ s)
      = Some (caps, n + length bits + 4, s)"
    using assms(2) dot by (auto simp: bits_texts_def operation_width_def matches_Lit)
  then have "search_from operation_width n (''.'' @ bits @ ''BIT'' @ s) = Some (n, ''.'' @ bits @ ''BIT'', caps, s)"
    by (subst search_from.simps) (use assms(2) in \<open>auto simp: bits_texts_def\<close>)
  moreover have "search_from operation_width 0 ((m @ '' '') @ ''.'' @ bits @ ''BIT'' @ s)
      = search_from operation_width n (''.'' @ bits @ ''BIT'' @ s)"
    unfolding n_def
  proof (rule width_skip [where n = 0, simplified add_0])
    show "\<forall>d\<in>set (tl (m @ '' '')). \<not> width_digit d" using assms(1) by (cases m) auto
  qed simp
  ultimately show ?thesis by (simp add: regex_search_def)
qed

lemma search_no_width:
  assumes "CHR ''I'' \<notin> set s"
  shows "search_from operation_width n s = None"
  using assms
proof (induction s arbitrary: n)
  case (Cons c s)
  have "\<not> prefix l s" if "CHR ''I'' \<in> set l" for l
    using Cons.prems that set_mono_prefix [of l s] by auto
  then have "matches operation_width Some ([], n, c # s) = None"
    by (simp add: operation_width_def matches_Lit)
  with Cons show ?case by (subst search_from.simps) simp
qed (simp add: search_from.simps width_short)

lemma targets_no_I:
  assumes "list_all asm_operand xs"
  shows "CHR ''I'' \<notin> set (targets_text xs)"
proof -
  have bits: "CHR ''I'' \<notin> set (bits_text w)" for w
    using bits_text_mem [of w] by (auto simp: bits_texts_def)
  have nh: "\<not> hex_digit (CHR ''I'')" by code_simp
  have hex: "CHR ''I'' \<notin> set (to_hex n)" for n using to_hex_class(1) [of "CHR ''I''" n] nh by blast
  have par: "CHR ''I'' \<notin> set (encoder_text p)" if "wf_parameter p" for p
  proof (cases p)
    case (RegisterCode w i)
    with that have "register_name_ok (w, i)" using register_text_ok by simp
    with RegisterCode show ?thesis by (auto simp: register_name_ok_def Let_def list_all_iff)
  qed (use bits hex in simp)
  have ratio: "CHR ''I'' \<notin> set (ratio_text r)" if "is_ratio r" for r
    using ratio_texts_mem(1) [OF that] by (auto simp: ratio_texts_def)
  have op: "CHR ''I'' \<notin> set (bracketed x)" if "asm_operand x" for x
  proof (cases x)
    case (Direct p)
    with that par [of p] show ?thesis by (simp add: bracketed_def parameter_capital)
  next
    case (MemoryCode w p q r ra)
    with that par bits ratio operand_capital_memory [of w p q r ra] show ?thesis
      by (simp add: bracketed_def)
  qed
  show ?thesis
    using assms by (induction xs rule: targets_text.induct) (simp_all add: op)
qed

lemma search_width_absent:
  assumes "mnemonic_ok e" and "list_all asm_operand xs" and "length xs = argument_count e"
  shows "regex_search operation_width (mnemonic e @ capitalization (operands_text xs)) = None"
proof (cases "mnemonic e = ''INT3'' \<and> argument_count e = 0")
  case True
  have "regex_search operation_width ''INT3'' = None" by code_simp
  with True assms(3) show ?thesis by (simp add: capitalization_def)
next
  case False
  with assms(1) have "\<forall>d\<in>set (mnemonic e). \<not> width_digit d"
    unfolding mnemonic_ok_def Let_def list_all_iff by blast
  then have m: "\<forall>d\<in>set (tl (mnemonic e)). \<not> width_digit d" by (auto dest: in_tl)
  have "CHR ''I'' \<notin> set (capitalization (operands_text xs))"
    using targets_no_I [OF assms(2)] by (simp add: operands_text_capital)
  moreover have "capitalization (operands_text xs) = [] \<or> \<not> width_digit (hd (capitalization (operands_text xs)))"
    by (simp add: operands_text_capital)
  ultimately show ?thesis
    unfolding regex_search_def using width_skip [OF m] search_no_width by simp
qed

section \<open>Assembling a disassembled line\<close>

lemma toupper_space: "toupper c = CHR '' '' \<longleftrightarrow> c = CHR '' ''"
proof
  assume "toupper c = CHR '' ''"
  then have "char_code (toupper c) = 32" by simp
  then show "c = CHR '' ''"
  proof (cases "97 \<le> char_code c \<and> char_code c \<le> 122")
    case True
    then have "char_code c - 32 < 256" by linarith
    with True \<open>char_code (toupper c) = 32\<close> have "char_code c - 32 = 32" by (simp add: toupper_def)
    with True show ?thesis by linarith
  next
    case False
    then have "toupper c = c" by (auto simp: toupper_def)
    with \<open>toupper c = CHR '' ''\<close> show ?thesis by simp
  qed
qed (simp add: toupper_def)

lemma normalise_commute: "remove_space (capitalization s) = normalise s"
  by (induction s) (simp_all add: remove_space_def capitalization_def toupper_space)

lemma normalise_idem: "normalise (normalise s) = normalise s"
  by (metis normalise_commute capitalization_idem remove_space_simps(2))

lemma encode_target_normalised: "encode_target bc (normalise s) = encode_target bc s"
  by (simp add: encode_target_def parse_def normalise_idem)

lemma bracketed_contents: "butlast (tl (remove_space (bracketed x))) = normalise (operand_text x)"
proof -
  have "remove_space (bracketed x) = CHR ''<'' # remove_space (capitalization (operand_text x)) @ ''>''"
    by (simp add: bracketed_def remove_space_def)
  then show ?thesis by (simp add: normalise_commute butlast_append)
qed

lemma encode_operands_text:
  assumes "bc_prints_literals bc" and "list_all asm_operand xs"
    and "list_all (width_consistent w) (map parsed_operand xs)" and "n \<le> length xs"
  shows "encode_operands bc (map (\<lambda>x. remove_space (bracketed x)) xs) (length xs) w n buf
    = (Inr (map parsed_operand (drop (length xs - n) xs)),
       buf @ concat (map operand_bytes (drop (length xs - n) xs)))"
  using assms(4)
proof (induction n arbitrary: buf)
  case 0
  then show ?case by (simp add: returnR_def)
next
  case (Suc n)
  let ?i = "length xs - Suc n"
  have i: "?i < length xs" using Suc.prems by simp
  then have d: "drop ?i xs = xs ! ?i # drop (length xs - n) xs"
    using Suc.prems by (metis Cons_nth_drop_Suc Suc_diff_Suc Suc_le_lessD)
  have ok: "asm_operand (xs ! ?i)" "width_consistent w (parsed_operand (xs ! ?i))"
    using assms(2,3) i by (simp_all add: list_all_length)
  have "rethrow_as SysdarftCodeExpressionError InstructionExpressionError
      (encode_target bc (normalise (operand_text (xs ! ?i)))) buf
    = (Inr (parsed_operand (xs ! ?i)), buf @ operand_bytes (xs ! ?i))"
    using encode_operand_text [OF assms(1) ok(1), of buf]
    by (simp add: encode_target_normalised rethrow_as_def tryR_def)
  with ok(2) i Suc.IH [of "buf @ operand_bytes (xs ! ?i)"] Suc.prems d show ?case
    by (simp add: Let_def bindR_def bracketed_contents returnR_def)
qed

lemma find_opcode_entry:
  assumes "find_opcode opc = Some e"
  shows "e \<in> set instruction_map" and "entry_opcode e = opc" and "find_mnemonic (mnemonic e) = Some e"
proof -
  show m: "e \<in> set instruction_map" and "entry_opcode e = opc"
    using assms by (auto simp: find_opcode_def find_Some_iff)
  have "e' = e" if "e' \<in> set instruction_map" "mnemonic e' = mnemonic e" for e'
    using distinct_map_inj [OF distinct_mnemonics] that m by simp
  then show "find_mnemonic (mnemonic e) = Some e"
    unfolding find_mnemonic_def using m by (intro find_unique) auto
qed

lemma op_width_capital:
  "is_width w \<Longrightarrow> \<exists>s. capitalization (op_width_literal w) = '' .'' @ bits_text w @ ''BIT'' @ s \<and> (s = [] \<or> s = '' '')"
proof -
  have "list_all (\<lambda>(l, c). capitalization l = c) [('' .8bit '', '' .8BIT ''), ('' .16bit'', '' .16BIT''),
      ('' .32bit'', '' .32BIT''), ('' .64bit'', '' .64BIT'')]" by code_simp
  moreover assume "is_width w"
  ultimately show ?thesis
    by (cases rule: is_width_cases [OF \<open>is_width w\<close>]) (simp_all add: op_width_literal_def bits_text_def)
qed

lemma map_remove_space_fst: "map (\<lambda>(txt, _). remove_space txt) xs = map remove_space (map fst xs)"
  by (simp add: case_prod_unfold)

text \<open>The line of an instruction, taken apart.\<close>

lemma clean_line_text:
  assumes "wf_instruction c" and "find_opcode (code_opcode c) = Some e" and "list_all asm_operand (code_operands c)"
  shows "clean_line (instruction_text c) = Inr (mnemonic e
    # (if require_width e then [''.'' @ bits_text (code_width c) @ ''BIT''] else [])
    @ map (\<lambda>x. remove_space (bracketed x)) (code_operands c))"
proof -
  let ?ops = "capitalization (operands_text (code_operands c))"
  let ?w = "if require_width e then capitalization (op_width_literal (code_width c)) else []"
  have ok: "mnemonic_ok e" using find_opcode_entry(1) [OF assms(2)] by (rule mnemonics_ok)
  have len: "length (code_operands c) = argument_count e"
    and wd: "require_width e \<Longrightarrow> is_width (code_width c)"
    using assms(1,2) by (auto simp: wf_instruction_def split: if_splits)
  have cap: "capitalization (instruction_text c) = mnemonic e @ ?w @ ?ops"
    using ok assms(2) by (simp add: instruction_text_def mnemonic_ok_def Let_def capitalization_def)
  have mspace: "remove_space (mnemonic e) = mnemonic e"
    using ok by (intro remove_space_id) (auto simp: mnemonic_ok_def Let_def list_all_iff)
  have "?w @ ?ops = [] \<or> hd (?w @ ?ops) = CHR '' ''"
    using op_width_capital [OF wd] by (auto simp: operands_text_capital)
  from search_mnemonic [OF ok this] obtain caps rest where
    m: "regex_search instruction_pattern (mnemonic e @ ?w @ ?ops) = Some (0, mnemonic e, caps, rest)" by blast
  have wlt: "CHR ''<'' \<notin> set ?w"
    using op_width_capital [OF wd] bits_text_mem [of "code_width c"] by (auto simp: bits_texts_def)
  moreover have "CHR ''<'' \<notin> set (mnemonic e)"
    using ok by (auto simp: mnemonic_ok_def Let_def list_all_iff)
  ultimately have "map fst (regex_iterator target_pattern ((mnemonic e @ ?w) @ ?ops)) = map bracketed (code_operands c)"
    using assms(3) by (intro regex_iterator_operands) auto
  then have fsts: "map fst (regex_iterator target_pattern (mnemonic e @ ?w @ ?ops)) = map bracketed (code_operands c)"
    by (simp only: append_assoc)
  have it: "map (\<lambda>(txt, _). remove_space txt) (regex_iterator target_pattern (mnemonic e @ ?w @ ?ops))
      = map (\<lambda>x. remove_space (bracketed x)) (code_operands c)"
    unfolding map_remove_space_fst fsts by simp
  have wm: "(case regex_search operation_width (mnemonic e @ ?w @ ?ops) of
      Some (_, txt, _, _) \<Rightarrow> [remove_space txt] | None \<Rightarrow> [])
    = (if require_width e then [''.'' @ bits_text (code_width c) @ ''BIT''] else [])"
  proof (cases "require_width e")
    case True
    with ok have "\<forall>d\<in>set (mnemonic e). \<not> width_digit d"
      unfolding mnemonic_ok_def Let_def list_all_iff by blast
    note search = search_width [OF this bits_text_mem, of "code_width c"]
    obtain s where "?w = '' .'' @ bits_text (code_width c) @ ''BIT'' @ s"
      using op_width_capital [OF wd [OF True]] True by auto
    then have "mnemonic e @ ?w @ ?ops = mnemonic e @ '' .'' @ bits_text (code_width c) @ ''BIT'' @ (s @ ?ops)"
      by simp
    with search [of "s @ ?ops"] obtain i caps rest where
      "regex_search operation_width (mnemonic e @ ?w @ ?ops)
        = Some (i, ''.'' @ bits_text (code_width c) @ ''BIT'', caps, rest)" by metis
    moreover have "remove_space (''.'' @ bits_text (code_width c) @ ''BIT'') = ''.'' @ bits_text (code_width c) @ ''BIT''"
      using bits_text_mem [of "code_width c"] by (intro remove_space_id) (auto simp: bits_texts_def)
    ultimately show ?thesis using True by simp
  next
    case False
    with search_width_absent [OF ok assms(3) len] show ?thesis by simp
  qed
  show ?thesis unfolding clean_line_def Let_def cap m it wm by (simp add: mspace)
qed


lemma encode_width_run:
  "is_width w \<Longrightarrow> encode_width_specifier (''.'' @ bits_text w @ ''BIT'') buf = (Inr w, buf @ [w])"
  by (cases rule: is_width_cases, assumption)
    (simp_all add: encode_width_specifier_def bits_text_def Let_def run_simps)

lemma encode_instruction_text:
  assumes bc: "bc_prints_literals bc" and wf: "wf_instruction c" and ops: "list_all asm_operand (code_operands c)"
    and widths: "list_all (width_consistent (code_width c)) (map parsed_operand (code_operands c))"
    and sane: "OperandSanityCheck (code_opcode c) (map parsed_operand (code_operands c)) = Inr ()"
  shows "encode_instruction bc (instruction_text c) buf = (Inr (), buf @ instruction_bytes c)"
proof -
  obtain e where e: "find_opcode (code_opcode c) = Some e" "length (code_operands c) = argument_count e"
    "if require_width e then is_width (code_width c) else code_width c = 0"
    using wf by (auto simp: wf_instruction_def split: option.splits)
  note en = find_opcode_entry [OF e(1)]
  let ?args = "map (\<lambda>x. remove_space (bracketed x)) (code_operands c)"
  have run: "encode_operands bc ?args (argument_count e) (code_width c) (argument_count e) b
      = (Inr (map parsed_operand (code_operands c)), b @ concat (map operand_bytes (code_operands c)))" for b
    using encode_operands_text [OF bc ops widths, of "argument_count e" b] e(2) by simp
  have nz: "is_width w \<Longrightarrow> w \<noteq> 0" for w by (auto simp: is_width_def prefix_defs)
  show ?thesis
    unfolding encode_instruction_def clean_line_text [OF wf e(1) ops] liftE_simps bindR_returnR
    using e(3) en sane nz encode_width_run [of "code_width c"] run
    by (auto simp: thenR_def bindR_def returnR_def instruction_bytes_def)
qed


definition plain_bc :: calculator where
  "plain_bc input = (0, input @ [CHR 0x0A])"


section \<open>Texts the checks let through\<close>

text \<open>
  The number of a \<open>FER\<close> register is not checked: it is truncated to a byte, so that
  \<open>%FER160\<close> denotes the stack base and \<open>%FER256\<close> denotes \<open>%FER0\<close>.
\<close>

theorem fer_number_truncated:
  "snd (encode_target plain_bc ''%FER160'' []) = snd (encode_target plain_bc ''%SB'' [])
   \<and> snd (encode_target plain_bc ''%FER256'' []) = snd (encode_target plain_bc ''%FER0'' [])"
  by code_simp

text \<open>
  The width check of a 16-bit operation looks at the second character of the register's name
  only, which admits the 64-bit registers \<open>%EB\<close> and \<open>%EP\<close>.
\<close>

theorem extended_registers_pass_as_16bit:
  "encode_instruction plain_bc ''MOV .16bit <%EB>, <%EP>'' []
     = (Inr (), [0x20, 0x16, 0x01, 0x64, 0xA5, 0x01, 0x64, 0xA6])"
  by code_simp

text \<open>
  The hexadecimal numbers of an expression are replaced as texts, one after the other. A number
  that is a prefix of a later one damages it: \<open>0x1+0x12\<close> becomes \<open>1+12\<close>, not \<open>1+18\<close>.
\<close>

theorem hexadecimal_prefix_damaged:
  "process_base16 ''0x1+0x12'' = ''1+12'' \<and> process_base16 ''0x12+0x1'' = ''18+1''"
  by code_simp

end
