(* ===== verification/Debug_Conditions.thy ===== *)
theory Debug_Conditions
  imports Debugger_Operand Instruction_Encoder
begin

text \<open>
  The conditions of breakpoints (\<open>SysdarftConsole/ConditionalExpression.cpp\<close>): a recursive
  descent parser for expressions such as \<open>and(valequal(<%FER0>,<$64(0x10)>),not(\<dots>))\<close>, whose
  operands are encoded by the assembler, and their evaluation in the running machine. The
  parser's input and position are represented by the text from the position on; the position
  never leaves the text, and \<open>input[pos]\<close> at its end is the character 0.
\<close>

section \<open>The parser\<close>

datatype condition_type = VAL_EQUAL | COND_AND | COND_OR | COND_NOT | COND_NONE

(* include/SysdarftMain.h 120-128: ConditionalTargetExpression *)
datatype conditional_target = ConditionalTargetExpression
  (ConditionType: condition_type)
  (TgExp1: string)
  (TgExp2: string)
  (EncodedTgExp1: "u8 list")
  (EncodedTgExp2: "u8 list")
  (ComplexTgExp1: "conditional_target option")
  (ComplexTgExp2: "conditional_target option")

(* SysdarftConsole/ConditionalExpression.cpp 47-50: skipWhitespace *)
definition skipWhitespace :: "string \<Rightarrow> string" where
  "skipWhitespace input = dropWhile isspace input"

text \<open>\<open>None\<close> when the keyword does not come next; the white space is skipped even so.\<close>

(* SysdarftConsole/ConditionalExpression.cpp 52-60: match *)
definition match_keyword :: "string \<Rightarrow> string \<Rightarrow> string option" where
  "match_keyword keyword input = (let s = skipWhitespace input in
     if take (length keyword) s = keyword then Some (drop (length keyword) s) else None)"

definition angle_bracket_pattern :: rx where
  "angle_bracket_pattern = Seqs [Lit ''<'', Cap 1 (Star (Chr (\<lambda>c. c \<noteq> CHR ''>''))), Lit ''>'']"

(* SysdarftConsole/ConditionalExpression.cpp 113-120: processTgExp *)
definition processTgExp :: "string \<Rightarrow> string" where
  "processTgExp exp = (case regex_match angle_bracket_pattern exp of
     Some caps \<Rightarrow> group 1 caps | None \<Rightarrow> exp)"

text \<open>
  The loop of the two functions below: the characters up to the first one that ends the
  operand outside of angle brackets, and the rest.
\<close>

fun parse_until :: "(char \<Rightarrow> bool) \<Rightarrow> int \<Rightarrow> string \<Rightarrow> string \<times> string" where
  "parse_until ends angleCount [] = ([], [])"
| "parse_until ends angleCount (c # cs) =
     (let angleCount = (if c = CHR ''<'' then angleCount + 1 else if c = CHR ''>'' then angleCount - 1 else angleCount)
      in if angleCount = 0 \<and> ends c then ([], c # cs)
         else (case parse_until ends angleCount cs of (result, rest) \<Rightarrow> (c # result, rest)))"

(* SysdarftConsole/ConditionalExpression.cpp 122-143: parseUntilCommaOrParen *)
definition parseUntilCommaOrParen :: "string \<Rightarrow> string \<times> string" where
  "parseUntilCommaOrParen input =
     (case parse_until (\<lambda>c. c = CHR '','' \<or> c = CHR '')'') 0 (skipWhitespace input) of
        (result, rest) \<Rightarrow> (processTgExp result, rest))"

(* SysdarftConsole/ConditionalExpression.cpp 145-165: parseUntilParen *)
definition parseUntilParen :: "string \<Rightarrow> string \<times> string" where
  "parseUntilParen input =
     (case parse_until (\<lambda>c. c = CHR '')'') 0 (skipWhitespace input) of
        (result, rest) \<Rightarrow> (processTgExp result, rest))"

text \<open>\<open>if (input[pos] == c) pos++\<close>\<close>

fun consume :: "char \<Rightarrow> string \<Rightarrow> string" where
  "consume c [] = []"
| "consume c (x # xs) = (if x = c then xs else x # xs)"

definition encode_into :: "calculator \<Rightarrow> string \<Rightarrow> cpu_error + u8 list" where
  "encode_into bc text = (case encode_target bc text [] of (Inl e, _) \<Rightarrow> Inl e | (Inr _, code) \<Rightarrow> Inr code)"

(* SysdarftConsole/ConditionalExpression.cpp 62-90: parseValEqual *)
definition parseValEqual :: "calculator \<Rightarrow> string \<Rightarrow> cpu_error + conditional_target \<times> string" where
  "parseValEqual bc input =
     (case parseUntilCommaOrParen input of (e1, s1) \<Rightarrow>
      case parseUntilParen (consume (CHR '','') s1) of (e2, s2) \<Rightarrow>
      case encode_into bc (capitalization (remove_space e1)) of
        Inl err \<Rightarrow> Inl err
      | Inr code1 \<Rightarrow>
      (case encode_into bc (capitalization (remove_space e2)) of
        Inl err \<Rightarrow> Inl err
      | Inr code2 \<Rightarrow> Inr (ConditionalTargetExpression VAL_EQUAL e1 e2 code1 code2 None None,
          consume (CHR '')'') s2)))"

text \<open>
  \<open>parseLogical\<close> calls \<open>parseExpression\<close> twice, the second time where the first one
  stopped, so that termination rests on the fact that the parser never moves back.
\<close>

(* parseLogical at SysdarftConsole/ConditionalExpression.cpp 92-110: parseLogical *)
(* SysdarftConsole/ConditionalExpression.cpp 31-45: parseExpression *)
function parseExpression :: "calculator \<Rightarrow> string \<Rightarrow> cpu_error + conditional_target option \<times> string"
  and parseLogical :: "calculator \<Rightarrow> condition_type \<Rightarrow> string \<Rightarrow> cpu_error + conditional_target option \<times> string"
where
  "parseExpression bc input =
     (case match_keyword ''valequal('' input of
        Some s \<Rightarrow> map_result (\<lambda>(node, rest). (Some node, rest)) (parseValEqual bc s)
      | None \<Rightarrow>
     (case match_keyword ''and('' input of
        Some s \<Rightarrow> parseLogical bc COND_AND s
      | None \<Rightarrow>
     (case match_keyword ''or('' input of
        Some s \<Rightarrow> parseLogical bc COND_OR s
      | None \<Rightarrow>
     (case match_keyword ''not('' input of
        Some s \<Rightarrow> parseLogical bc COND_NOT s
      | None \<Rightarrow> Inr (None, skipWhitespace input)))))"
| "parseLogical bc condType input =
     (case parseExpression bc input of
        Inl err \<Rightarrow> Inl err
      | Inr (e1, s1) \<Rightarrow>
     (case parseExpression bc (consume (CHR '','') (skipWhitespace s1)) of
        Inl err \<Rightarrow> Inl err
      | Inr (e2, s2) \<Rightarrow> Inr (Some (ConditionalTargetExpression condType [] [] [] [] e1 e2),
          consume (CHR '')'') (skipWhitespace s2))))"
  by pat_completeness auto

lemma length_skipWhitespace: "length (skipWhitespace s) \<le> length s"
  by (simp add: skipWhitespace_def length_dropWhile_le)

lemma length_consume: "length (consume c s) \<le> length s"
  by (cases s) simp_all

lemma length_match_keyword:
  "match_keyword kw s = Some t \<Longrightarrow> kw \<noteq> [] \<Longrightarrow> length t < length s"
  using length_skipWhitespace [of s]
  by (cases kw; cases "skipWhitespace s") (auto simp: match_keyword_def Let_def split: if_splits)

lemma length_parse_until: "parse_until ends n s = (r, t) \<Longrightarrow> length t \<le> length s"
  by (induction ends n s arbitrary: r t rule: parse_until.induct)
    (fastforce simp: Let_def split: if_splits prod.splits)+

lemma length_parseValEqual:
  assumes "parseValEqual bc s = Inr (node, t)"
  shows "length t \<le> length s"
proof -
  obtain e1 s1 e2 s2 where 1: "parseUntilCommaOrParen s = (e1, s1)"
    and 2: "parseUntilParen (consume (CHR '','') s1) = (e2, s2)" by fastforce
  have "length s1 \<le> length s"
    using 1 length_parse_until length_skipWhitespace [of s]
    by (fastforce simp: parseUntilCommaOrParen_def split: prod.splits)
  moreover have "length s2 \<le> length (consume (CHR '','') s1)"
    using 2 length_parse_until length_skipWhitespace [of "consume (CHR '','') s1"]
    by (fastforce simp: parseUntilParen_def split: prod.splits)
  moreover have "t = consume (CHR '')'') s2"
    using assms by (auto simp: parseValEqual_def 1 2 split: sum.splits)
  ultimately show ?thesis
    using length_consume [of "CHR '')''" s2] length_consume [of "CHR '',''" s1] by simp
qed

lemma length_parse:
  "parseExpression_parseLogical_dom (Inl (bc, s)) \<Longrightarrow> parseExpression bc s = Inr (e, t) \<Longrightarrow> length t \<le> length s"
  "parseExpression_parseLogical_dom (Inr (bc, ct, s)) \<Longrightarrow> parseLogical bc ct s = Inr (e, t) \<Longrightarrow> length t \<le> length s"
proof (induction bc s and bc ct s arbitrary: e t and e t rule: parseExpression_parseLogical.pinduct)
  case (1 bc s)
  show ?case
    using "1.prems" length_match_keyword [of _ s] length_parseValEqual length_skipWhitespace [of s] "1.IH"
    unfolding parseExpression.psimps [OF "1.hyps"]
    by (fastforce split: option.splits dest: less_imp_le_nat le_trans)
next
  case (2 bc ct s)
  from "2.prems" obtain e1 s1 e2 s2 where 1: "parseExpression bc s = Inr (e1, s1)"
    and 2: "parseExpression bc (consume (CHR '','') (skipWhitespace s1)) = Inr (e2, s2)"
    and t: "t = consume (CHR '')'') (skipWhitespace s2)"
    unfolding parseLogical.psimps [OF "2.hyps"] by (auto split: sum.splits)
  have "length s1 \<le> length s" using "2.IH"(1) 1 by blast
  moreover have "length s2 \<le> length (consume (CHR '','') (skipWhitespace s1))" using "2.IH"(2) 1 2 by blast
  ultimately show ?case
    unfolding t using length_consume [of "CHR '')''" "skipWhitespace s2"] length_consume [of "CHR '',''" "skipWhitespace s1"]
      length_skipWhitespace [of s1] length_skipWhitespace [of s2] by linarith
qed

termination parseExpression
proof (relation "measure (\<lambda>x. case x of Inl (bc, s) \<Rightarrow> 2 * length s | Inr (bc, ct, s) \<Rightarrow> 2 * length s + 1)")
  fix bc and s s1 :: string and e1 x
  assume "parseExpression_parseLogical_dom (Inl (bc, s))" and "parseExpression bc s = Inr x" and "(e1, s1) = x"
  then have "length s1 \<le> length s" using length_parse(1) by blast
  then have "length (consume (CHR '','') (skipWhitespace s1)) \<le> length s"
    using length_consume [of "CHR '',''" "skipWhitespace s1"] length_skipWhitespace [of s1] by linarith
  then show "(Inl (bc, consume (CHR '','') (skipWhitespace s1)), Inr (bc, ct, s))
      \<in> measure (\<lambda>x. case x of Inl (bc, s) \<Rightarrow> 2 * length s | Inr (bc, ct, s) \<Rightarrow> 2 * length s + 1)" for ct
    by simp
qed (auto dest: length_match_keyword)

declare parseExpression.simps [simp del] parseLogical.simps [simp del]


section \<open>Evaluation\<close>

(* SysdarftConsole/ConditionalExpression.cpp 213-217: absolute_target_access *)
definition absolute_target_access :: "u8 list \<Rightarrow> ('z decoder_state_scheme, u64) run" where
  "absolute_target_access binary =
     bindR (load (\<lambda>r. debugger_operand r binary)) (\<lambda>dbg_operand.
     bindR (liftE dbg_operand) (\<lambda>(x, _). dbg_get_val x))"

(* SysdarftConsole/ConditionalExpression.cpp 219-223: absolute_target_store *)
definition absolute_target_store :: "u8 list \<Rightarrow> u64 \<Rightarrow> ('z decoder_state_scheme, unit) run" where
  "absolute_target_store binary data =
     bindR (load (\<lambda>r. debugger_operand r binary)) (\<lambda>dbg_operand.
     bindR (liftE dbg_operand) (\<lambda>(x, _). dbg_set_val x data))"

text \<open>
  Both sides are computed, the first one first, as numbers: the truth value of a condition is
  1 or 0. A missing expression is true.
\<close>

(* SysdarftConsole/ConditionalExpression.cpp 167-200: check_one_level_of_condition *)
function check_one_level_of_condition :: "conditional_target option \<Rightarrow> ('z decoder_state_scheme, bool) run" where
  "check_one_level_of_condition None = returnR True"
| "check_one_level_of_condition (Some (ConditionalTargetExpression condType t1 t2 code1 code2 c1 c2)) =
     bindR (if code1 \<noteq> [] then absolute_target_access code1
            else bindR (check_one_level_of_condition c1) (\<lambda>b. returnR (of_bool b))) (\<lambda>data1.
     bindR (if code2 \<noteq> [] then absolute_target_access code2
            else bindR (check_one_level_of_condition c2) (\<lambda>b. returnR (of_bool b))) (\<lambda>data2.
     returnR (case condType of
         VAL_EQUAL \<Rightarrow> data1 = data2
       | COND_AND \<Rightarrow> data1 \<noteq> 0 \<and> data2 \<noteq> 0
       | COND_OR \<Rightarrow> data1 \<noteq> 0 \<or> data2 \<noteq> 0
       | COND_NOT \<Rightarrow> data1 = 0
       | COND_NONE \<Rightarrow> False)))"
  by pat_completeness auto
termination by (relation "measure (size_option size)") auto

(* SysdarftConsole/ConditionalExpression.cpp 202-211: is_condition_met *)
definition is_condition_met :: "calculator \<Rightarrow> string \<Rightarrow> ('z decoder_state_scheme, bool) run" where
  "is_condition_met bc condition =
     (if condition = [] then returnR True
      else bindR (liftE (parseExpression bc condition)) (\<lambda>(root, _). check_one_level_of_condition root))"

section \<open>Conditions and what they mean\<close>

text \<open>
  The conditions a user means, how they are written, and when they hold. The value of an
  operand is what the debugger reads: constants by their low 16 bits, memory behind the data
  base (see \<open>Debugger_Operand\<close>).
\<close>

datatype condition =
    ValEqual code_operand code_operand
  | BothHold condition condition
  | OneHolds condition condition
  | Fails condition

fun condition_text :: "condition \<Rightarrow> string" where
  "condition_text (ValEqual x y) = ''valequal(<'' @ operand_text x @ ''>,<'' @ operand_text y @ ''>)''"
| "condition_text (BothHold c d) = ''and('' @ condition_text c @ '','' @ condition_text d @ '')''"
| "condition_text (OneHolds c d) = ''or('' @ condition_text c @ '','' @ condition_text d @ '')''"
| "condition_text (Fails c) = ''not('' @ condition_text c @ '')''"

definition debug_address :: "'z decoder_state_scheme \<Rightarrow> u64 \<Rightarrow> nat" where
  "debug_address s a = unat (DataBase (Registers s) + a)"

definition operand_value :: "'z decoder_state_scheme \<Rightarrow> code_operand \<Rightarrow> u64" where
  "operand_value s x = (case operand_meaning (Registers s) (low16 x) of
     RegisterOperand w i \<Rightarrow> register_value (Registers s) w i
   | ConstantOperand v w \<Rightarrow> v
   | MemoryOperand a w \<Rightarrow>
       word_of_bytes (map (flat s) [debug_address s a..<debug_address s a + width_bytes w]))"

definition readable :: "'z decoder_state_scheme \<Rightarrow> code_operand \<Rightarrow> bool" where
  "readable s x \<longleftrightarrow> asm_operand x \<and> (case operand_meaning (Registers s) (low16 x) of
     MemoryOperand a w \<Rightarrow> debug_address s a + width_bytes w \<le> unat (TotalMemory s)
   | _ \<Rightarrow> True)"

fun condition_holds :: "'z decoder_state_scheme \<Rightarrow> condition \<Rightarrow> bool" where
  "condition_holds s (ValEqual x y) \<longleftrightarrow> operand_value s x = operand_value s y"
| "condition_holds s (BothHold c d) \<longleftrightarrow> condition_holds s c \<and> condition_holds s d"
| "condition_holds s (OneHolds c d) \<longleftrightarrow> condition_holds s c \<or> condition_holds s d"
| "condition_holds s (Fails c) \<longleftrightarrow> \<not> condition_holds s c"

fun condition_ok :: "'z decoder_state_scheme \<Rightarrow> condition \<Rightarrow> bool" where
  "condition_ok s (ValEqual x y) \<longleftrightarrow> readable s x \<and> readable s y"
| "condition_ok s (BothHold c d) \<longleftrightarrow> condition_ok s c \<and> condition_ok s d"
| "condition_ok s (OneHolds c d) \<longleftrightarrow> condition_ok s c \<and> condition_ok s d"
| "condition_ok s (Fails c) \<longleftrightarrow> condition_ok s c"

text \<open>The tree the parser builds.\<close>

fun parsed_condition :: "condition \<Rightarrow> conditional_target" where
  "parsed_condition (ValEqual x y) = ConditionalTargetExpression VAL_EQUAL (operand_text x) (operand_text y)
     (operand_bytes x) (operand_bytes y) None None"
| "parsed_condition (BothHold c d) = ConditionalTargetExpression COND_AND [] [] [] []
     (Some (parsed_condition c)) (Some (parsed_condition d))"
| "parsed_condition (OneHolds c d) = ConditionalTargetExpression COND_OR [] [] [] []
     (Some (parsed_condition c)) (Some (parsed_condition d))"
| "parsed_condition (Fails c) = ConditionalTargetExpression COND_NOT [] [] [] []
     (Some (parsed_condition c)) None"

subsection \<open>Parsing\<close>

lemma no_angle_in_register:
  assumes "valid_register w i" and "c \<in> set (register_text w i)"
  shows "c \<noteq> CHR ''<'' \<and> c \<noteq> CHR ''>''"
proof -
  have "list_all (\<lambda>(w, i). list_all (\<lambda>c. c \<noteq> CHR ''<'' \<and> c \<noteq> CHR ''>'') (register_text w i)) all_registers"
    by code_simp
  with valid_register_all [OF assms(1)] assms(2) show ?thesis by (auto simp: list_all_iff)
qed

lemma no_angle_in_parameter:
  assumes "wf_parameter p" and "c \<in> set (parameter_text p)"
  shows "c \<noteq> CHR ''<'' \<and> c \<noteq> CHR ''>''"
proof (cases p)
  case (RegisterCode w i)
  with assms no_angle_in_register show ?thesis by simp
next
  case (ConstantCode w v)
  have "\<not> hex_digit (CHR ''<'')" "\<not> hex_digit (CHR ''>'')" by code_simp+
  then have "c \<noteq> CHR ''<'' \<and> c \<noteq> CHR ''>''" if "c \<in> set (to_hex n)" for n
    using to_hex_class(1) [OF that] by blast
  moreover have "\<forall>b\<in>bits_texts. CHR ''<'' \<notin> set b \<and> CHR ''>'' \<notin> set b" by (simp add: bits_texts_def)
  then have "c \<noteq> CHR ''<'' \<and> c \<noteq> CHR ''>''" if "c \<in> set (bits_text w)" using that bits_text_mem by blast
  ultimately show ?thesis using assms(2) ConstantCode by auto
qed

lemma no_angle_in_operand:
  assumes "asm_operand x"
  shows "\<forall>c\<in>set (operand_text x). c \<noteq> CHR ''<'' \<and> c \<noteq> CHR ''>''"
proof -
  let ?P = "\<lambda>c. c \<noteq> CHR ''<'' \<and> c \<noteq> CHR ''>''"
  have par: "list_all ?P (parameter_text p)" if "wf_parameter p" for p
    using no_angle_in_parameter [OF that] by (simp add: list_all_iff)
  have "list_all ?P (operand_text x)"
  proof (cases x)
    case (Direct p)
    with assms par [of p] show ?thesis by simp
  next
    case (MemoryCode w p q r ratio)
    have "\<forall>b\<in>bits_texts \<union> ratio_texts. list_all ?P b" by (simp add: bits_texts_def ratio_texts_def)
    then have "list_all ?P (bits_text w)" and "list_all ?P (ratio_text ratio)"
      using bits_text_mem [of w] ratio_texts_mem(1) [of ratio] assms MemoryCode by simp_all
    with assms MemoryCode par [of p] par [of q] par [of r] show ?thesis
      by (simp del: parameter_text.simps)
  qed
  then show ?thesis by (simp add: list_all_iff)
qed

lemma parse_until_inside:
  assumes "\<forall>c\<in>set cs. c \<noteq> CHR ''<'' \<and> c \<noteq> CHR ''>''" and "\<not> ends (CHR ''>'')" and "rest = d # ds" "ends d"
    and "d \<noteq> CHR ''<''" "d \<noteq> CHR ''>''"
  shows "parse_until ends 1 (cs @ CHR ''>'' # rest) = (cs @ ''>'', rest)"
  using assms by (induction cs) (simp_all add: Let_def)

lemma parse_until_operand:
  assumes "asm_operand x" and "\<not> ends (CHR ''>'')" and "ends d" "d \<noteq> CHR ''<''" "d \<noteq> CHR ''>''"
  shows "parse_until ends 0 (skipWhitespace (''<'' @ operand_text x @ ''>'' @ d # rest))
    = (''<'' @ operand_text x @ ''>'', d # rest)"
proof -
  have "\<not> isspace (CHR ''<'')" by code_simp
  then show ?thesis
    using parse_until_inside [OF no_angle_in_operand [OF assms(1)], of ends "d # rest" d rest] assms(2-)
    by (simp add: skipWhitespace_def Let_def)
qed

lemma processTgExp_brackets:
  assumes "\<forall>c\<in>set t. c \<noteq> CHR ''>''"
  shows "processTgExp (''<'' @ t @ ''>'') = t"
proof -
  let ?k = "\<lambda>(caps, n, rest). if rest = [] then Some caps else None"
  have "matches (Star (Chr (\<lambda>c. c \<noteq> CHR ''>'')))
      (\<lambda>(caps', n', s'). matches (Lit ''>'') ?k ((1, take (n' - Suc 0) (t @ ''>'')) # caps', n', s'))
      ([], Suc 0, t @ ''>'') = Some [(1, t)]"
    by (rule matches_Star_longest) (use assms in simp_all)
  then have "regex_match angle_bracket_pattern (''<'' @ t @ ''>'') = Some [(1, t)]"
    by (simp add: regex_match_def angle_bracket_pattern_def matches_Cap)
  then show ?thesis by (simp add: processTgExp_def group_def)
qed

lemma encode_into_text:
  assumes "bc_prints_literals bc" and "asm_operand x"
  shows "encode_into bc (capitalization (remove_space (operand_text x))) = Inr (operand_bytes x)"
  using encode_operand_text [OF assms, of "[]"] by (simp add: encode_into_def encode_target_normalised)

lemma parseValEqual_text:
  assumes "bc_prints_literals bc" and "asm_operand x" and "asm_operand y"
  shows "parseValEqual bc (''<'' @ operand_text x @ ''>,<'' @ operand_text y @ ''>)'' @ rest)
    = Inr (parsed_condition (ValEqual x y), rest)"
proof -
  have "parseUntilCommaOrParen (''<'' @ operand_text x @ ''>,<'' @ operand_text y @ ''>)'' @ rest)
      = (operand_text x, '',<'' @ operand_text y @ ''>)'' @ rest)"
    using parse_until_operand [OF assms(2), of "\<lambda>c. c = CHR '','' \<or> c = CHR '')''" "CHR '',''" "''<'' @ operand_text y @ ''>)'' @ rest"]
      processTgExp_brackets [of "operand_text x"] no_angle_in_operand [OF assms(2)]
    by (simp add: parseUntilCommaOrParen_def)
  moreover have "parseUntilParen (''<'' @ operand_text y @ ''>)'' @ rest) = (operand_text y, CHR '')'' # rest)"
    using parse_until_operand [OF assms(3), of "\<lambda>c. c = CHR '')''" "CHR '')''" rest]
      processTgExp_brackets [of "operand_text y"] no_angle_in_operand [OF assms(3)]
    by (simp add: parseUntilParen_def)
  ultimately show ?thesis
    using encode_into_text [OF assms(1,2)] encode_into_text [OF assms(1,3)] by (simp add: parseValEqual_def)
qed

lemma match_keyword_simps:
  "\<not> isspace c \<Longrightarrow> match_keyword (c # cs) (d # ds) = (if c = d \<and> take (length cs) ds = cs then Some (drop (length cs) ds) else None)"
  if "\<not> isspace d" for c d
  using that by (simp add: match_keyword_def skipWhitespace_def Let_def)

lemma not_space: "\<not> isspace (CHR ''v'')" "\<not> isspace (CHR ''a'')" "\<not> isspace (CHR ''o'')" "\<not> isspace (CHR ''n'')"
  "\<not> isspace (CHR '','')" "\<not> isspace (CHR '')'')"
  by code_simp+

lemma condition_text_head: "\<exists>c cs. condition_text x = c # cs \<and> c \<in> {CHR ''v'', CHR ''a'', CHR ''o'', CHR ''n''}"
  by (cases x) simp_all

fun condition_asm :: "condition \<Rightarrow> bool" where
  "condition_asm (ValEqual x y) \<longleftrightarrow> asm_operand x \<and> asm_operand y"
| "condition_asm (BothHold c d) \<longleftrightarrow> condition_asm c \<and> condition_asm d"
| "condition_asm (OneHolds c d) \<longleftrightarrow> condition_asm c \<and> condition_asm d"
| "condition_asm (Fails c) \<longleftrightarrow> condition_asm c"

lemma parseLogical_two:
  assumes "parseExpression bc (s @ '','' @ t @ '')'' @ rest) = Inr (e1, '','' @ t @ '')'' @ rest)"
    and "parseExpression bc (t @ '')'' @ rest) = Inr (e2, '')'' @ rest)"
  shows "parseLogical bc ct (s @ '','' @ t @ '')'' @ rest)
    = Inr (Some (ConditionalTargetExpression ct [] [] [] [] e1 e2), rest)"
  using assms by (simp add: parseLogical.simps skipWhitespace_def not_space)

lemma parseExpression_close: "parseExpression bc ('')'' @ rest) = Inr (None, '')'' @ rest)"
  by (simp add: parseExpression.simps match_keyword_simps not_space skipWhitespace_def)

lemma parseExpression_text:
  assumes "bc_prints_literals bc" and "condition_asm c"
  shows "parseExpression bc (condition_text c @ rest) = Inr (Some (parsed_condition c), rest)"
  using assms(2)
proof (induction c arbitrary: rest)
  case (ValEqual x y)
  with parseValEqual_text [OF assms(1), of x y rest] show ?case
    by (simp add: parseExpression.simps match_keyword_simps not_space eval_nat_numeral del: parsed_condition.simps)
next
  case (BothHold c d)
  have "parseLogical bc COND_AND (condition_text c @ '','' @ condition_text d @ '')'' @ rest)
      = Inr (Some (parsed_condition (BothHold c d)), rest)"
    unfolding parsed_condition.simps by (rule parseLogical_two) (use BothHold in simp_all)
  then show ?case by (simp add: parseExpression.simps match_keyword_simps not_space)
next
  case (OneHolds c d)
  have "parseLogical bc COND_OR (condition_text c @ '','' @ condition_text d @ '')'' @ rest)
      = Inr (Some (parsed_condition (OneHolds c d)), rest)"
    unfolding parsed_condition.simps by (rule parseLogical_two) (use OneHolds in simp_all)
  then show ?case by (simp add: parseExpression.simps match_keyword_simps not_space)
next
  case (Fails c)
  have "parseLogical bc COND_NOT (condition_text c @ '')'' @ rest) = Inr (Some (parsed_condition (Fails c)), rest)"
    using Fails parseExpression_close [of bc rest]
    by (simp add: parseLogical.simps skipWhitespace_def not_space)
  then show ?case by (simp add: parseExpression.simps match_keyword_simps not_space)
qed


subsection \<open>Evaluating\<close>

lemma absolute_target_access_value:
  assumes "mem_inv s" and "readable s x"
  shows "absolute_target_access (operand_bytes x) s = (Inr (operand_value s x), s)"
proof -
  let ?r = "Registers s"
  have wf: "wf_operand x" using assms(2) by (simp add: readable_def asm_operand_wf)
  from debugger_operand_decodes [OF wf, of ?r] obtain lit
    where op: "debugger_operand ?r (operand_bytes x) = Inr (operand_meaning ?r (low16 x), lit)" by blast
  have "dbg_get_val (operand_meaning ?r (low16 x)) s = (Inr (operand_value s x), s)"
  proof (cases x)
    case (Direct p)
    with wf register_value_reads(1) [of _ _ ?r] show ?thesis
      by (cases p) (simp_all add: operand_value_def read_register_run returnR_def)
  next
    case (MemoryCode w p q r ratio)
    then obtain a where a: "operand_meaning ?r (low16 x) = MemoryOperand a w" by simp
    with wf MemoryCode assms(2) have "is_width w" and "debug_address s a + width_bytes w \<le> unat (TotalMemory s)"
      by (simp_all add: readable_def)
    with dbg_access_memory_run [OF assms(1), of w a] a show ?thesis
      by (simp add: operand_value_def debug_address_def)
  qed
  then show ?thesis using op by (simp add: absolute_target_access_def run_simps)
qed

lemma check_condition:
  assumes "mem_inv s" and "condition_ok s c"
  shows "check_one_level_of_condition (Some (parsed_condition c)) s = (Inr (condition_holds s c), s)"
  using assms(2)
  by (induction c) (auto simp: run_simps absolute_target_access_value [OF assms(1)])

lemma condition_ok_asm: "condition_ok s c \<Longrightarrow> condition_asm c"
  by (induction c) (simp_all add: readable_def)

lemma breakpoint_condition_met:
  assumes "bc_prints_literals bc" and "mem_inv s" and "condition_ok s c"
  shows "is_condition_met bc (condition_text c) s = (Inr (condition_holds s c), s)"
proof -
  have "condition_text c \<noteq> []" using condition_text_head [of c] by auto
  moreover have "parseExpression bc (condition_text c) = Inr (Some (parsed_condition c), [])"
    using parseExpression_text [OF assms(1) condition_ok_asm [OF assms(3)], of "[]"] by simp
  ultimately show ?thesis
    using check_condition [OF assms(2,3)] by (simp add: is_condition_met_def run_simps)
qed


definition demo_condition :: condition where
  "demo_condition = BothHold
     (ValEqual (Direct (RegisterCode prefix_64bit 8)) (Direct (ConstantCode prefix_64bit 0x30)))
     (Fails (ValEqual (MemoryCode prefix_16bit (RegisterCode prefix_64bit 8) (ConstantCode prefix_64bit 8)
       (ConstantCode prefix_64bit 0) 0x01) (Direct (ConstantCode prefix_16bit 0))))"

lemma demo_condition_text: "condition_text demo_condition
  = ''and(valequal(<%FER8>,<$64(0x30)>),not(valequal(<*1&16(%FER8, $64(0x8), $64(0x0))>,<$16(0x0)>)))''"
  by code_simp


end
