(* ===== verification/Regex_Language.thy ===== *)
theory Regex_Language
  imports Cxx_Regex
begin

text \<open>
  What a regular expression means, independently of the search: the relation \<open>accepts\<close>. The
  backtracking matcher of \<open>Cxx_Regex\<close>, which fixes the groups that the sources read, is shown
  to find a match if and only if there is one, to search for the leftmost one, and to report
  as groups only texts that the expressions of the groups accept.
\<close>

section \<open>Meaning\<close>

text \<open>
  \<open>accepts r n u v\<close>: at position \<open>n\<close> the expression accepts \<open>u\<close> when \<open>v\<close> follows. A
  repetition takes no empty parts, which would change nothing.
\<close>

inductive accepts :: "rx \<Rightarrow> nat \<Rightarrow> string \<Rightarrow> string \<Rightarrow> bool" where
  acc_Eps: "accepts Eps n [] v"
| acc_Chr: "p c \<Longrightarrow> accepts (Chr p) n [c] v"
| acc_Seq: "accepts r n u (w @ v) \<Longrightarrow> accepts q (n + length u) w v \<Longrightarrow> accepts (Seq r q) n (u @ w) v"
| acc_AltL: "accepts r n u v \<Longrightarrow> accepts (Alt r q) n u v"
| acc_AltR: "accepts q n u v \<Longrightarrow> accepts (Alt r q) n u v"
| acc_Star_Nil: "accepts (Star r) n [] v"
| acc_Star: "accepts r n u (w @ v) \<Longrightarrow> u \<noteq> [] \<Longrightarrow> accepts (Star r) (n + length u) w v \<Longrightarrow>
    accepts (Star r) n (u @ w) v"
| acc_Cap: "accepts r n u v \<Longrightarrow> accepts (Cap i r) n u v"
| acc_Bol: "accepts Bol 0 [] v"
| acc_Eol: "accepts Eol n [] []"
| acc_Look: "accepts r n u v \<Longrightarrow> accepts (Look r) n [] (u @ v)"

inductive_cases accepts_elims [elim!]:
  "accepts Eps n u v" "accepts (Chr p) n u v" "accepts (Seq r q) n u v" "accepts (Cap i r) n u v"
  "accepts Bol n u v" "accepts Eol n u v"

inductive_cases accepts_AltE: "accepts (Alt r q) n u v"
inductive_cases accepts_StarE: "accepts (Star r) n u v"

text \<open>The groups of an expression.\<close>

primrec groups :: "rx \<Rightarrow> (nat \<times> rx) set" where
  "groups Eps = {}"
| "groups (Chr p) = {}"
| "groups (Seq r q) = groups r \<union> groups q"
| "groups (Alt r q) = groups r \<union> groups q"
| "groups (Star r) = groups r"
| "groups (Cap i r) = insert (i, r) (groups r)"
| "groups Bol = {}"
| "groups Eol = {}"
| "groups (Look r) = {}"

text \<open>The groups that take part in every match.\<close>

primrec always :: "rx \<Rightarrow> nat set" where
  "always Eps = {}"
| "always (Chr p) = {}"
| "always (Seq r q) = always r \<union> always q"
| "always (Alt r q) = always r \<inter> always q"
| "always (Star r) = {}"
| "always (Cap i r) = insert i (always r)"
| "always Bol = {}"
| "always Eol = {}"
| "always (Look r) = {}"

definition captured :: "rx \<Rightarrow> captures \<Rightarrow> bool" where
  "captured r caps \<longleftrightarrow> (\<forall>(i, t)\<in>set caps. \<exists>q n v. (i, q) \<in> groups r \<and> accepts q n t v)"

lemma captured_simps [simp]:
  "captured r []"
  "captured r (caps @ caps') \<longleftrightarrow> captured r caps \<and> captured r caps'"
  by (simp_all add: captured_def ball_Un)

lemma captured_mono: "captured r caps \<Longrightarrow> groups r \<subseteq> groups q \<Longrightarrow> captured q caps"
  unfolding captured_def by fast

section \<open>The matcher is sound\<close>

text \<open>A way that the matcher found: what it consumed is accepted, and the rest succeeds behind it.\<close>

definition found :: "rx \<Rightarrow> rx \<Rightarrow> captures \<Rightarrow> nat \<Rightarrow> string \<Rightarrow> (mstate \<Rightarrow> 'a option) \<Rightarrow> 'a \<Rightarrow> bool" where
  "found whole r caps n s k x \<longleftrightarrow> (\<exists>caps' u v. s = u @ v \<and> accepts r n u v \<and> captured whole caps'
     \<and> always r \<subseteq> fst ` set caps' \<and> k (caps' @ caps, n + length u, v) = Some x)"

lemma foundI:
  "s = u @ v \<Longrightarrow> accepts r n u v \<Longrightarrow> captured whole caps' \<Longrightarrow> always r \<subseteq> fst ` set caps'
     \<Longrightarrow> k (caps' @ caps, n + length u, v) = Some x
     \<Longrightarrow> found whole r caps n s k x"
  unfolding found_def by blast

lemma foundE:
  assumes "found whole r caps n s k x"
  obtains caps' u v where "s = u @ v" "accepts r n u v" "captured whole caps'"
    "always r \<subseteq> fst ` set caps'" "k (caps' @ caps, n + length u, v) = Some x"
  using assms unfolding found_def by blast

lemma repeat_found:
  fixes k :: "mstate \<Rightarrow> 'a option"
  assumes step: "\<And>(k :: mstate \<Rightarrow> 'a option) caps n s x. matches r k (caps, n, s) = Some x \<Longrightarrow> found r r caps n s k x"
  shows "repeat_rx (matches r) m k (caps, n, s) = Some x \<Longrightarrow> found r (Star r) caps n s k x"
proof (induction m arbitrary: caps n s)
  case 0
  then show ?case by (intro foundI [of _ "[]" s _ _ _ "[]"]) (auto intro: acc_Star_Nil)
next
  case (Suc m)
  let ?k = "\<lambda>st'. if length (mrest st') < length s then repeat_rx (matches r) m k st' else None"
  show ?case
  proof (cases "matches r ?k (caps, n, s)")
    case None
    with Suc.prems show ?thesis by (intro foundI [of _ "[]" s _ _ _ "[]"]) (auto intro: acc_Star_Nil)
  next
    case (Some y)
    with Suc.prems have "y = x" by simp
    with step [OF Some] obtain caps' u v where first: "s = u @ v" "accepts r n u v" "captured r caps'"
      "?k (caps' @ caps, n + length u, v) = Some x" by (elim foundE) blast
    then have "u \<noteq> []" and "repeat_rx (matches r) m k (caps' @ caps, n + length u, v) = Some x"
      by (auto split: if_splits)
    from Suc.IH [OF this(2)] obtain caps2 w v2 where "v = w @ v2" "accepts (Star r) (n + length u) w v2" "captured r caps2"
      "always (Star r) \<subseteq> fst ` set caps2" "k (caps2 @ caps' @ caps, n + length u + length w, v2) = Some x" by (rule foundE)
    with first \<open>u \<noteq> []\<close> show ?thesis
      by (intro foundI [of _ "u @ w" v2 _ _ _ "caps2 @ caps'"]) (auto intro: acc_Star simp: add.assoc)
  qed
qed

lemma found_mono:
  assumes "found whole r caps n s k x" and "groups whole \<subseteq> groups whole2"
  shows "found whole2 r caps n s k x"
proof -
  from assms(1) obtain caps' u v where "s = u @ v" "accepts r n u v" "captured whole caps'"
    "always r \<subseteq> fst ` set caps'" "k (caps' @ caps, n + length u, v) = Some x" by (rule foundE)
  with assms(2) show ?thesis by (intro foundI [of _ u v _ _ _ caps']) (auto intro: captured_mono)
qed

theorem matches_found: "matches r k (caps, n, s) = Some x \<Longrightarrow> found r r caps n s k x"
proof (induction r arbitrary: k caps n s x)
  case Eps
  then show ?case by (intro foundI [of _ "[]" s _ _ _ "[]"]) (auto intro: acc_Eps)
next
  case (Chr p)
  then show ?case
    by (cases s) (auto split: if_splits intro!: foundI [of _ "[hd s]" "tl s" _ _ _ "[]"] acc_Chr)
next
  case (Seq r q)
  from Seq.prems have "matches r (matches q k) (caps, n, s) = Some x" by simp
  from Seq.IH(1) [OF this] obtain caps1 u v where
    u: "s = u @ v" "accepts r n u v" "captured r caps1" "always r \<subseteq> fst ` set caps1" "matches q k (caps1 @ caps, n + length u, v) = Some x"
    by (rule foundE)
  from Seq.IH(2) [OF u(5)] obtain caps2 w v2 where
    "v = w @ v2" "accepts q (n + length u) w v2" "captured q caps2"
    "always q \<subseteq> fst ` set caps2" "k (caps2 @ caps1 @ caps, n + length u + length w, v2) = Some x"
    by (rule foundE)
  with u show ?case
    by (intro foundI [of _ "u @ w" v2 _ _ _ "caps2 @ caps1"])
      (auto intro: acc_Seq captured_mono simp: add.assoc)
next
  case (Alt r q)
  show ?case
  proof (cases "matches r k (caps, n, s)")
    case None
    with Alt.prems have "matches q k (caps, n, s) = Some x" by simp
    from Alt.IH(2) [OF this] have "found (Alt r q) q caps n s k x" by (rule found_mono) simp
    then show ?thesis by (elim foundE) (auto intro!: foundI acc_AltR)
  next
    case (Some y)
    with Alt.prems have "matches r k (caps, n, s) = Some x" by simp
    from Alt.IH(1) [OF this] have "found (Alt r q) r caps n s k x" by (rule found_mono) simp
    then show ?thesis by (elim foundE) (auto intro!: foundI acc_AltL)
  qed
next
  case (Star r)
  then have "found r (Star r) caps n s k x" by (intro repeat_found) (auto simp: matches.simps(5))
  then show ?case by (rule found_mono) simp
next
  case (Cap i r)
  then have "matches r (\<lambda>(caps', n', s'). k ((i, take (n' - n) s) # caps', n', s')) (caps, n, s) = Some x"
    by (simp add: matches_Cap)
  from Cap.IH [OF this] obtain caps1 u v where u: "s = u @ v" "accepts r n u v" "captured r caps1" "always r \<subseteq> fst ` set caps1"
    "k ((i, u) # caps1 @ caps, n + length u, v) = Some x"
    by (elim foundE) auto
  moreover have "captured (Cap i r) ((i, u) # caps1)"
    using u(2) captured_mono [OF u(3), of "Cap i r"] by (fastforce simp: captured_def)
  ultimately show ?case
    by (intro foundI [of _ u v _ _ _ "(i, u) # caps1"]) (auto intro: acc_Cap)
next
  case Bol
  then show ?case by (intro foundI [of _ "[]" s _ _ _ "[]"]) (auto split: if_splits intro: acc_Bol)
next
  case Eol
  then show ?case by (intro foundI [of _ "[]" s _ _ _ "[]"]) (auto split: if_splits intro: acc_Eol)
next
  case (Look r)
  then have "matches r (\<lambda>_. k (caps, n, s)) (caps, n, s) = Some x" by simp
  from Look.IH [OF this] obtain u v where "s = u @ v" "accepts r n u v" "k (caps, n, s) = Some x"
    by (rule foundE)
  then show ?case by (intro foundI [of _ "[]" s _ _ _ "[]"]) (auto intro: acc_Look)
qed

section \<open>The matcher is complete\<close>

text \<open>More rounds than characters change nothing.\<close>

lemma matches_no_way: "matches r (\<lambda>_. None :: 'a option) st = None"
proof (cases st)
  case (fields caps n s)
  then show ?thesis
    using matches_found [of r "\<lambda>_. None :: 'a option" caps n s]
    by (cases "matches r (\<lambda>_. None :: 'a option) st") (auto elim: foundE)
qed

lemma repeat_fuel:
  "length (mrest st) \<le> m \<Longrightarrow> repeat_rx (matches r) m k st = repeat_rx (matches r) (length (mrest st)) k st"
proof (induction m arbitrary: st rule: less_induct)
  case (less m)
  show ?case
  proof (cases m)
    case (Suc m')
    show ?thesis
    proof (cases "length (mrest st)")
      case 0
      then show ?thesis by (simp add: Suc matches_no_way)
    next
      case (Suc l)
      have "(\<lambda>st'. if length (mrest st') < length (mrest st) then repeat_rx (matches r) m' k st' else None)
          = (\<lambda>st'. if length (mrest st') < length (mrest st) then repeat_rx (matches r) l k st' else None)"
        using less.IH [of m'] less.IH [of l] less.prems \<open>m = Suc m'\<close> Suc by (auto simp: fun_eq_iff)
      with \<open>m = Suc m'\<close> Suc show ?thesis by simp
    qed
  qed (use less.prems in simp)
qed

lemma matches_complete:
  "accepts r n u v \<Longrightarrow> \<forall>caps. k (caps, n + length u, v) \<noteq> None \<Longrightarrow> matches r k (caps, n, u @ v) \<noteq> None"
proof (induction arbitrary: k caps rule: accepts.induct)
  case (acc_Seq r n u w v q)
  have "\<forall>caps. matches q k (caps, n + length u, w @ v) \<noteq> None"
    using acc_Seq.IH(2) acc_Seq.prems by (simp add: add.assoc)
  with acc_Seq.IH(1) show ?case by simp
next
  case (acc_AltL r n u v q)
  from acc_AltL.IH [OF acc_AltL.prems, of caps] show ?case by (auto split: option.splits)
next
  case (acc_AltR q n u v r)
  from acc_AltR.IH [OF acc_AltR.prems, of caps] show ?case by (auto split: option.splits)
next
  case (acc_Star_Nil r n v)
  then show ?case by (cases "length v") (simp_all add: matches.simps(5) split: option.splits)
next
  case (acc_Star r n u w v)
  obtain l where l: "length (u @ w @ v) = Suc l" using acc_Star.hyps(2) by (cases u) auto
  let ?k = "\<lambda>st'. if length (mrest st') < Suc l then repeat_rx (matches r) l k st' else None"
  have shorter: "length (w @ v) \<le> l" using l acc_Star.hyps(2) by (cases u) auto
  then have "repeat_rx (matches r) l k (c, n + length u, w @ v) = matches (Star r) k (c, n + length u, w @ v)" for c
    using repeat_fuel [of "(c, n + length u, w @ v)" l r k] by (simp add: matches.simps(5))
  moreover have "matches (Star r) k (c, n + length u, w @ v) \<noteq> None" for c
    using acc_Star.IH(2) acc_Star.prems by (simp add: add.assoc)
  ultimately have "\<forall>c. ?k (c, n + length u, w @ v) \<noteq> None" using shorter by simp
  from acc_Star.IH(1) [OF this, of caps] show ?case
    using l by (auto simp: matches.simps(5) split: option.splits)
next
  case (acc_Cap r n u v i)
  then show ?case by (simp add: matches_Cap)
next
  case (acc_Look r n u v)
  then show ?case by simp
qed simp_all

section \<open>The library functions\<close>

text \<open>
  The matcher is correct. \<open>std::regex_match\<close> finds a match exactly if the expression
  accepts the whole text.
\<close>

theorem regex_match_accepts: "(\<exists>caps. regex_match r s = Some caps) \<longleftrightarrow> accepts r 0 s []"
proof
  assume "\<exists>caps. regex_match r s = Some caps"
  then show "accepts r 0 s []"
    by (auto simp: regex_match_def split: if_splits dest!: matches_found elim!: foundE)
next
  assume "accepts r 0 s []"
  from matches_complete [OF this, of "\<lambda>(caps, n, rest). if rest = [] then Some caps else None" "[]"]
  show "\<exists>caps. regex_match r s = Some caps" by (simp add: regex_match_def)
qed

text \<open>The groups of a match are texts that their expressions accept.\<close>

lemma regex_match_captured: "regex_match r s = Some caps \<Longrightarrow> captured r caps \<and> always r \<subseteq> fst ` set caps"
  by (auto simp: regex_match_def split: if_splits dest!: matches_found elim!: foundE)

lemma group_captured:
  assumes "captured r caps" and "always r \<subseteq> fst ` set caps" and "i \<in> always r"
  shows "\<exists>q n v. (i, q) \<in> groups r \<and> accepts q n (group i caps) v"
proof -
  from assms(2,3) obtain t where t: "map_of caps i = Some t"
    by (metis in_mono map_of_eq_None_iff not_Some_eq)
  then have "(i, t) \<in> set caps" by (rule map_of_SomeD)
  with assms(1) t show ?thesis unfolding captured_def by (auto simp: group_def)
qed

definition starts_at :: "rx \<Rightarrow> nat \<Rightarrow> string \<Rightarrow> bool" where
  "starts_at r n s \<longleftrightarrow> (\<exists>u v. s = u @ v \<and> accepts r n u v)"

lemma matches_starts_at: "(\<exists>x. matches r Some ([], n, s) = Some x) \<longleftrightarrow> starts_at r n s"
proof
  assume "\<exists>x. matches r Some ([], n, s) = Some x"
  then show "starts_at r n s" by (auto simp: starts_at_def dest!: matches_found elim!: foundE)
next
  assume "starts_at r n s"
  then obtain u v where "s = u @ v" "accepts r n u v" by (auto simp: starts_at_def)
  with matches_complete [of r n u v Some "[]"] show "\<exists>x. matches r Some ([], n, s) = Some x" by auto
qed

lemma search_from_result:
  "case search_from r n s of
     None \<Rightarrow> (\<forall>pre post. s = pre @ post \<longrightarrow> \<not> starts_at r (n + length pre) post)
   | Some (i, t, caps, rest) \<Rightarrow> (\<exists>pre. s = pre @ t @ rest \<and> i = n + length pre \<and> accepts r i t rest \<and> captured r caps \<and> always r \<subseteq> fst ` set caps
       \<and> (\<forall>pre' post. s = pre' @ post \<longrightarrow> length pre' < length pre \<longrightarrow> \<not> starts_at r (n + length pre') post))"
proof (induction r n s rule: search_from.induct)
  case (1 r n s)
  show ?case
  proof (cases "matches r Some ([], n, s)")
    case (Some x)
    obtain caps n' rest where x: "x = (caps, n', rest)" by (cases x)
    from matches_found [OF Some] x have "\<exists>u. s = u @ rest \<and> n' = n + length u \<and> accepts r n u rest
        \<and> captured r caps \<and> always r \<subseteq> fst ` set caps"
      by (elim foundE) auto
    then show ?thesis using Some x by (subst search_from.simps) auto
  next
    case None
    then have no: "\<not> starts_at r n s" using matches_starts_at [of r n s] by auto
    show ?thesis
    proof (cases s)
      case Nil
      with None no show ?thesis by (subst search_from.simps) simp
    next
      case (Cons c cs)
      have eq: "search_from r n s = search_from r (Suc n) cs"
        using None Cons by (subst search_from.simps) simp
      note IH = "1.IH" [OF None Cons]
      show ?thesis
      proof (cases "search_from r (Suc n) cs")
        case None
        have "\<not> starts_at r (n + length pre) post" if "s = pre @ post" for pre post
          using that no IH None Cons by (cases pre) auto
        with eq None show ?thesis by simp
      next
        case (Some y)
        obtain i t caps rest where y: "y = (i, t, caps, rest)" by (cases y)
        with IH Some obtain pre where pre: "cs = pre @ t @ rest" "i = Suc n + length pre" "accepts r i t rest"
          "captured r caps \<and> always r \<subseteq> fst ` set caps" "\<forall>pre' post. cs = pre' @ post \<longrightarrow> length pre' < length pre \<longrightarrow> \<not> starts_at r (Suc n + length pre') post"
          by auto
        have "\<not> starts_at r (n + length pre') post" if "s = pre' @ post" "length pre' < length (c # pre)" for pre' post
          using that no pre(5) Cons by (cases pre') auto
        with pre Cons show ?thesis unfolding eq Some y by (intro exI [of _ "c # pre"] | simp)+
      qed
    qed
  qed
qed

text \<open>
  \<open>std::regex_search\<close> fails only if the expression accepts no part of the text at its
  place; otherwise it reports a part that is accepted where it stands, no other one begins
  further to the left, and the groups it reports are texts that their expressions accept.
\<close>

theorem regex_search_leftmost:
  "case regex_search r s of
     None \<Rightarrow> (\<forall>pre u v. s = pre @ u @ v \<longrightarrow> \<not> accepts r (length pre) u v)
   | Some (i, t, caps, rest) \<Rightarrow> (\<exists>pre. s = pre @ t @ rest \<and> i = length pre \<and> accepts r i t rest \<and> captured r caps \<and> always r \<subseteq> fst ` set caps
       \<and> (\<forall>pre' u v. s = pre' @ u @ v \<and> accepts r (length pre') u v \<longrightarrow> length pre \<le> length pre'))"
proof (cases "regex_search r s")
  case None
  with search_from_result [where r = r and n = 0 and s = s] show ?thesis
    by (auto simp: regex_search_def starts_at_def)
next
  case (Some x)
  obtain i t caps rest where x: "x = (i, t, caps, rest)" by (cases x)
  with Some search_from_result [where r = r and n = 0 and s = s] obtain pre where
    pre: "s = pre @ t @ rest" "i = length pre" "accepts r i t rest" "captured r caps \<and> always r \<subseteq> fst ` set caps"
    "\<forall>pre' post. s = pre' @ post \<longrightarrow> length pre' < length pre \<longrightarrow> \<not> starts_at r (length pre') post"
    by (auto simp: regex_search_def)
  have "length pre \<le> length pre'" if "s = pre' @ u @ v" "accepts r (length pre') u v" for pre' u v
    using pre(5) that unfolding starts_at_def by (metis not_le)
  with pre show ?thesis unfolding Some x by auto
qed

section \<open>What the parts of the patterns accept\<close>

inductive_simps accepts_iffs:
  "accepts Eps n u v" "accepts (Chr p) n u v" "accepts (Seq r q) n u v" "accepts (Alt r q) n u v"
  "accepts (Cap i r) n u v" "accepts Bol n u v" "accepts Eol n u v"

lemma accepts_Lit: "accepts (Lit l) n u v \<longleftrightarrow> u = l"
proof (induction l arbitrary: n u)
  case Nil
  then show ?case by (auto simp: Lit_def accepts_iffs)
next
  case (Cons c l)
  have "Lit (c # l) = Seq (Chr ((=) c)) (Lit l)" by (simp add: Lit_def)
  with Cons.IH show ?case by (auto simp: accepts_iffs)
qed

lemma accepts_class: "accepts (Star (Chr p)) n u v \<longleftrightarrow> (\<forall>c\<in>set u. p c)"
proof
  assume "accepts (Star (Chr p)) n u v"
  then show "\<forall>c\<in>set u. p c"
    by (induction "Star (Chr p)" n u v rule: accepts.induct) (auto simp: accepts_iffs)
next
  assume "\<forall>c\<in>set u. p c"
  then show "accepts (Star (Chr p)) n u v"
  proof (induction u arbitrary: n)
    case (Cons c u)
    then have "accepts (Star (Chr p)) n ([c] @ u) v" by (intro acc_Star acc_Chr) auto
    then show ?case by simp
  qed (rule acc_Star_Nil)
qed

lemmas accepts_parts = accepts_iffs accepts_Lit accepts_class Plus_def

lemma group_accepted:
  assumes "regex_match r s = Some caps" and "i \<in> always r" and "\<And>q. (i, q) \<in> groups r \<Longrightarrow> q = g"
  shows "\<exists>n v. accepts g n (group i caps) v"
  using group_captured [of r caps i] regex_match_captured [OF assms(1)] assms(2,3) by blast

lemma group_accepted_search:
  assumes "regex_search r s = Some (j, t, caps, rest)" and "i \<in> always r" and "\<And>q. (i, q) \<in> groups r \<Longrightarrow> q = g"
  shows "\<exists>n v. accepts g n (group i caps) v"
  using regex_search_leftmost [where r = r and s = s] group_captured [of r caps i] assms unfolding assms(1) by auto

lemma groups_Lit [simp]: "groups (Lit l) = {}" "groups (ILit l) = {}"
  by (induction l) (simp_all add: Lit_def ILit_def)

lemma always_Lit [simp]: "always (Lit l) = {}" "always (ILit l) = {}"
  by (induction l) (simp_all add: Lit_def ILit_def)


end
