(* ===== verification/Regex_Replace.thy ===== *)
theory Regex_Replace
  imports Regex_Language
begin

text \<open>
  \<open>std::regex_replace\<close> with its format strings, in the default (ECMAScript) form: \<open>$$\<close> is a
  dollar sign, \<open>$&\<close> the match, \<open>$`\<close> and \<open>$'\<close> the texts before and behind it, \<open>$n\<close> and
  \<open>$nn\<close> a group; a group that the expression does not have gives nothing, any other dollar
  sign stands for itself. \<open>ngroups\<close> is the number of groups with the whole match.
\<close>

definition group_or_match :: "string \<Rightarrow> captures \<Rightarrow> nat \<Rightarrow> nat \<Rightarrow> string" where
  "group_or_match t caps ngroups i = (if i = 0 then t else if i < ngroups then group i caps else [])"

fun format_match :: "string \<Rightarrow> string \<Rightarrow> captures \<Rightarrow> string \<Rightarrow> nat \<Rightarrow> string \<Rightarrow> string" where
  "format_match ahead t caps behind ngroups [] = []"
| "format_match ahead t caps behind ngroups [c] = [c]"
| "format_match ahead t caps behind ngroups (c # d # fmt) =
     (if c \<noteq> CHR ''$'' then c # format_match ahead t caps behind ngroups (d # fmt)
      else if d = CHR ''$'' then CHR ''$'' # format_match ahead t caps behind ngroups fmt
      else if d = CHR ''&'' then t @ format_match ahead t caps behind ngroups fmt
      else if d = CHR 0x60 then ahead @ format_match ahead t caps behind ngroups fmt
      else if d = CHR 0x27 then behind @ format_match ahead t caps behind ngroups fmt
      else if isdigit d then
        (case fmt of
           e # fmt' \<Rightarrow>
             if isdigit e
             then group_or_match t caps ngroups (digit_val d * 10 + digit_val e) @ format_match ahead t caps behind ngroups fmt'
             else group_or_match t caps ngroups (digit_val d) @ format_match ahead t caps behind ngroups fmt
         | [] \<Rightarrow> group_or_match t caps ngroups (digit_val d))
      else CHR ''$'' # format_match ahead t caps behind ngroups (d # fmt))"

text \<open>
  Each match is replaced, and the search goes on behind it. Behind an empty match the iterator
  first tries a match at the same place that is not empty, and otherwise moves on by one
  character, which is \<open>pending\<close>: it belongs to the text before the next match. The text is
  used up in at most two rounds per character.
\<close>

fun replace_from :: "nat \<Rightarrow> rx \<Rightarrow> nat \<Rightarrow> string \<Rightarrow> bool \<Rightarrow> string \<Rightarrow> nat \<Rightarrow> string \<Rightarrow> string" where
  "replace_from 0 r ngroups fmt after_empty pending n s = pending @ s"
| "replace_from (Suc fuel) r ngroups fmt after_empty pending n s =
     (if after_empty then
        (case s of
           [] \<Rightarrow> []
         | c # cs \<Rightarrow>
             (case matches r (\<lambda>(caps, n', rest). if n' = n then None else Some (caps, n', rest)) ([], n, s) of
                Some (caps, n', rest) \<Rightarrow>
                  format_match [] (take (n' - n) s) caps rest ngroups fmt @ replace_from fuel r ngroups fmt False [] n' rest
              | None \<Rightarrow> replace_from fuel r ngroups fmt False [c] (Suc n) cs))
      else
        (case search_from r n s of
           None \<Rightarrow> pending @ s
         | Some (i, t, caps, rest) \<Rightarrow>
             let ahead = pending @ take (i - n) s in
             ahead @ format_match ahead t caps rest ngroups fmt
               @ replace_from fuel r ngroups fmt (t = []) [] (i + length t) rest))"

definition regex_replace :: "rx \<Rightarrow> nat \<Rightarrow> string \<Rightarrow> string \<Rightarrow> string" where
  "regex_replace r ngroups fmt s = replace_from (2 * length s + 2) r ngroups fmt False [] 0 s"

end
