(* ===== verification/Whole_Words.thy ===== *)
theory Whole_Words
  imports Regex_Replace Operand_Encoder
begin

text \<open>
  Replacing names in a line (\<open>replace_whole_word\<close> in \<open>coding/PreProcessor.cpp\<close>): where the
  target stands as a word of its own it gives way to the replacement. The preprocessor replaces
  labels and constants with it, and the disassembler adds the names of addresses.
\<close>

text \<open>
  What the constructor of \<open>std::regex\<close> makes of a target with brackets or braces in it, which
  the source does not escape.
\<close>

type_synonym bracket_regex = "string \<Rightarrow> cpu_error + rx"

section \<open>Replacing whole words\<close>

(* coding/PreProcessor.cpp 58-74: escapeRegexReplacement *)
definition escapeRegexReplacement :: "string \<Rightarrow> string" where
  "escapeRegexReplacement replacement = concat (map (\<lambda>c. if c = CHR ''$'' then ''$$'' else [c]) replacement)"

definition word_char :: "char \<Rightarrow> bool" where
  "word_char c \<longleftrightarrow> name_char c"

text \<open>
  The special characters \<open>\ ^ $ . | ? * + ( )\<close> of the target are escaped, so that a target without
  brackets and braces is taken literally.
\<close>

(* coding/PreProcessor.cpp 95-95: replace_whole_word, target_reg_literal *)
definition word_rx :: "rx \<Rightarrow> rx" where
  "word_rx t = Seqs [Alt Bol (Chr (\<lambda>c. \<not> word_char c)), Cap 1 t, Look (Alt Eol (Chr (\<lambda>c. \<not> word_char c)))]"

(* coding/PreProcessor.cpp 82-96: replace_whole_word, pattern *)
definition target_rx :: "bracket_regex \<Rightarrow> string \<Rightarrow> cpu_error + rx" where
  "target_rx brackets target = map_result word_rx
     (if \<exists>c\<in>set target. c \<in> {CHR ''['', CHR '']'', CHR ''{'', CHR ''}''} then brackets target else Inr (Lit target))"

(* coding/PreProcessor.cpp 77-112: replace_whole_word *)
definition replace_whole_word :: "bracket_regex \<Rightarrow> string \<Rightarrow> string \<Rightarrow> string \<Rightarrow> cpu_error + string" where
  "replace_whole_word brackets source target replacement =
     (case target_rx brackets target of
        Inl e \<Rightarrow> Inl e
      | Inr r \<Rightarrow>
          (case regex_search r source of
             None \<Rightarrow> Inr source
           | Some (_, matched, _, _) \<Rightarrow>
               (case replace_all matched target [] of
                  [] \<Rightarrow> Inr (regex_replace r 2 (escapeRegexReplacement replacement) source)
                | [c] \<Rightarrow> Inr (regex_replace r 2 (c # escapeRegexReplacement replacement) source)
                | [c, d] \<Rightarrow> Inr (regex_replace r 2 (c # escapeRegexReplacement replacement @ [d]) source)
                | _ \<Rightarrow> Inl SysdarftPreProcessorError)))"

text \<open>Every name of the table in turn; \<open>guarded\<close> when the line is first searched for it.\<close>

(* coding/PreProcessor.cpp 156-163: line_marker_register, sub_linemarkers *)
fun replace_words :: "bracket_regex \<Rightarrow> bool \<Rightarrow> (string \<times> string) list \<Rightarrow> string \<Rightarrow> cpu_error + string" where
  "replace_words brackets guarded [] line = Inr line"
| "replace_words brackets guarded ((marker, rep) # subs) line =
     (if guarded \<and> \<not> occurs marker line then replace_words brackets guarded subs line
      else case replace_whole_word brackets line marker rep of
        Inl e \<Rightarrow> Inl e
      | Inr line' \<Rightarrow> replace_words brackets guarded subs line')"

section \<open>Words\<close>

text \<open>The target stands there as a word of its own.\<close>

definition word_between :: "string \<Rightarrow> string \<Rightarrow> bool" where
  "word_between pre post \<longleftrightarrow> (pre = [] \<or> \<not> word_char (last pre)) \<and> (post = [] \<or> \<not> word_char (hd post))"

inductive_simps accepts_Look: "accepts (Look r) n u v"

lemma accepts_word:
  "accepts (word_rx (Lit target)) n t rest \<longleftrightarrow>
     (n = 0 \<and> t = target \<or> (\<exists>c. \<not> word_char c \<and> t = c # target)) \<and> (rest = [] \<or> \<not> word_char (hd rest))"
proof -
  have "accepts (Look (Alt Eol (Chr (\<lambda>c. \<not> word_char c)))) k u rest \<longleftrightarrow> u = [] \<and> (rest = [] \<or> \<not> word_char (hd rest))" for k u
  proof (cases rest)
    case (Cons a l)
    have "accepts (Look (Alt Eol (Chr (\<lambda>c. \<not> word_char c)))) k [] (a # l)" if "\<not> word_char a"
      using acc_Look [of "Alt Eol (Chr (\<lambda>c. \<not> word_char c))" k "[a]" l] that by (simp add: accepts_parts)
    with Cons show ?thesis by (auto simp: accepts_Look accepts_parts)
  qed (auto simp: accepts_Look accepts_parts)
  then show ?thesis by (auto simp: accepts_parts word_rx_def)
qed

lemma format_plain: "c \<noteq> CHR ''$'' \<Longrightarrow> format_match a t caps b ng (c # fmt) = c # format_match a t caps b ng fmt"
  by (cases fmt) auto

lemma format_escaped: "format_match a t caps b ng (escapeRegexReplacement rep) = rep"
  by (induction rep) (auto simp: escapeRegexReplacement_def format_plain)

text \<open>
  Where the word is found: the match is the word at the beginning, or the word with the
  character before it.
\<close>

lemma search_word:
  assumes s: "s = pre @ target @ post" and word: "word_between pre post"
    and only: "\<And>pre' post'. s = pre' @ target @ post' \<Longrightarrow> word_between pre' post' \<Longrightarrow> pre' = pre"
  obtains caps where "pre = []" "regex_search (word_rx (Lit target)) s = Some (0, target, caps, post)"
  | caps p c where "pre = p @ [c]" "\<not> word_char c" "regex_search (word_rx (Lit target)) s = Some (length p, c # target, caps, post)"
proof (cases "regex_search (word_rx (Lit target)) s")
  case None
  then have none: "\<not> accepts (word_rx (Lit target)) (length p) u v" if "s = p @ u @ v" for p u v
    using regex_search_leftmost [where r = "word_rx (Lit target)" and s = s] that by auto
  show thesis
  proof (cases pre rule: rev_cases)
    case Nil
    with none [of "[]" target post] s word show thesis unfolding accepts_word by (simp add: word_between_def)
  next
    case (snoc p c)
    with none [of p "c # target" post] s word show thesis unfolding accepts_word by (simp add: word_between_def)
  qed
next
  case (Some x)
  obtain i t caps rest where x: "x = (i, t, caps, rest)" by (cases x)
  from regex_search_leftmost [where r = "word_rx (Lit target)" and s = s] Some x obtain p where
    p: "s = p @ t @ rest" "i = length p" "accepts (word_rx (Lit target)) i t rest" by auto
  from p(3) consider "i = 0" "t = target" "rest = [] \<or> \<not> word_char (hd rest)"
    | c where "\<not> word_char c" "t = c # target" "rest = [] \<or> \<not> word_char (hd rest)"
    unfolding accepts_word by blast
  then show thesis
  proof cases
    case 1
    with only [of "[]" rest] p(1,2) have "pre = []" by (simp add: word_between_def)
    with 1 p s that(1) Some x show thesis by simp
  next
    case (2 c)
    with only [of "p @ [c]" rest] p(1) have "pre = p @ [c]" by (simp add: word_between_def)
    with 2 p s that(2) Some x show thesis by simp
  qed
qed

lemma replace_one_match:
  assumes "regex_search r s = Some (i, t, caps, rest)" and "t \<noteq> []" and "search_from r (i + length t) rest = None"
  shows "regex_replace r ng fmt s = take i s @ format_match (take i s) t caps rest ng fmt @ rest"
proof -
  have "2 * length s + 2 = Suc (Suc (2 * length s))" by simp
  with assms show ?thesis unfolding regex_replace_def regex_search_def by (simp add: Let_def)
qed

lemma replace_single_word:
  assumes "target \<noteq> []" and "word_char (hd target)" and "\<forall>c\<in>set target. c \<notin> {CHR ''['', CHR '']'', CHR ''{'', CHR ''}''}"
    and s: "s = pre @ target @ post" and word: "word_between pre post"
    and only: "\<And>pre' post'. s = pre' @ target @ post' \<Longrightarrow> word_between pre' post' \<Longrightarrow> pre' = pre"
    and dollar: "pre = [] \<or> last pre \<noteq> CHR ''$''"
  shows "replace_whole_word brackets s target rep = Inr (pre @ rep @ post)"
proof -
  let ?r = "word_rx (Lit target)"
  have rx: "target_rx brackets target = Inr ?r"
    using assms(3) by (auto simp: target_rx_def map_result_def)
  have rest: "search_from ?r (i + length t) post = None" if i: "s = p @ t @ post" "i = length p" "t \<noteq> []" "length pre < length (p @ t)" for p t i
  proof (cases "search_from ?r (i + length t) post")
    case (Some x)
    obtain j u caps v where x: "x = (j, u, caps, v)" by (cases x)
    with Some search_from_result [where r = ?r and n = "i + length t" and s = post] obtain q where
      q: "post = q @ u @ v" "accepts ?r j u v" "j = i + length t + length q" by auto
    then have "j \<noteq> 0" using i(3) by simp
    with q(2) obtain c where c: "\<not> word_char c" "u = c # target" "v = [] \<or> \<not> word_char (hd v)"
      unfolding accepts_word by blast
    with only [of "p @ t @ q @ [c]" v] i(1) q(1) have "p @ t @ q @ [c] = pre" by (simp add: word_between_def)
    with i(4) show ?thesis by auto
  qed
  consider (first) caps where "pre = []" "regex_search ?r s = Some (0, target, caps, post)"
    | (later) caps p c where "pre = p @ [c]" "\<not> word_char c" "regex_search ?r s = Some (length p, c # target, caps, post)"
    by (rule search_word [OF s word only])
  then show ?thesis
  proof cases
    case first
    have "search_from ?r (0 + length target) post = None"
      using rest [of "[]" target 0] first(1) s assms(1) by simp
    from replace_one_match [OF first(2) assms(1) this] first s rx assms(1) show ?thesis
      by (simp add: replace_whole_word_def replace_all_whole format_escaped)
  next
    case later
    obtain h tl where target: "target = h # tl" using assms(1) by (cases target) auto
    have "h \<noteq> c" using assms(2) later(2) target by auto
    then have "replace_scan target [] (c # target) = [c]"
      using replace_scan_whole [of target "[]"] target by simp
    moreover have "target \<noteq> '' ''" using assms(2) by (auto simp: word_char_def name_char_def name_start_def between_def)
    ultimately have front: "replace_all (c # target) target [] = [c]" using assms(1) by (simp add: replace_all_def)
    have "search_from ?r (length p + length (c # target)) post = None"
      using rest [of p "c # target" "length p"] later(1) s assms(1) by simp
    from replace_one_match [OF later(3) _ this] later s rx front dollar show ?thesis
      by (simp add: replace_whole_word_def format_plain format_escaped)
  qed
qed


text \<open>
  A name is replaced as a word. If the target occurs exactly once in the line as a word of
  its own, between characters that belong to no name (and not behind a dollar sign), the
  replacement takes its place and the rest of the line stays as it is, whatever characters the
  replacement has.
\<close>

theorem whole_word_replaced:
  assumes "target \<noteq> []" and "word_char (hd target)" and "\<forall>c\<in>set target. c \<notin> {CHR ''['', CHR '']'', CHR ''{'', CHR ''}''}"
    and "word_between pre post" and "pre = [] \<or> last pre \<noteq> CHR ''$''"
    and "\<forall>pre' post'. pre @ target @ post = pre' @ target @ post' \<and> word_between pre' post' \<longrightarrow> pre' = pre"
  shows "replace_whole_word brackets (pre @ target @ post) target rep = Inr (pre @ rep @ post)"
  using assms by (intro replace_single_word) auto

text \<open>To find the occurrences of a short target in a short line by evaluation.\<close>

lemma occurrences_by_position:
  assumes "\<forall>i\<le>length s. take (length target) (drop i s) = target \<longrightarrow> word_between (take i s) (drop (i + length target) s) \<longrightarrow> i = n"
    and "s = pre' @ target @ post'" and "word_between pre' post'"
  shows "length pre' = n"
  using assms(1) [rule_format, of "length pre'"] assms(2,3) by simp

definition no_brackets :: bracket_regex where "no_brackets _ = Inl StdException"

theorem whole_word_replaced_witness:
  "replace_whole_word no_brackets ''ADD <%R0>, <N> ; MAXN'' ''N'' ''$8(1)'' = Inr ''ADD <%R0>, <$8(1)> ; MAXN''"
proof -
  let ?pre = "''ADD <%R0>, <''" and ?post = "''> ; MAXN''"
  have "\<forall>pre' post'. ?pre @ ''N'' @ ?post = pre' @ ''N'' @ post' \<and> word_between pre' post' \<longrightarrow> pre' = ?pre"
  proof (intro allI impI)
    fix pre' post'
    assume split: "?pre @ ''N'' @ ?post = pre' @ ''N'' @ post' \<and> word_between pre' post'"
    have "list_all (\<lambda>i. take (length ''N'') (drop i (?pre @ ''N'' @ ?post)) = ''N''
        \<longrightarrow> word_between (take i (?pre @ ''N'' @ ?post)) (drop (i + length ''N'') (?pre @ ''N'' @ ?post)) \<longrightarrow> i = length ?pre)
        [0..<Suc (length (?pre @ ''N'' @ ?post))]" by code_simp
    then have "\<forall>i\<le>length (?pre @ ''N'' @ ?post). take (length ''N'') (drop i (?pre @ ''N'' @ ?post)) = ''N''
        \<longrightarrow> word_between (take i (?pre @ ''N'' @ ?post)) (drop (i + length ''N'') (?pre @ ''N'' @ ?post)) \<longrightarrow> i = length ?pre"
      unfolding list_all_iff set_upt by (metis atLeastLessThan_iff less_Suc_eq_le zero_le)
    from occurrences_by_position [OF this] split have "length pre' = length ?pre" by blast
    with split show "pre' = ?pre" by (metis append_eq_append_conv)
  qed
  moreover have "word_char (CHR ''N'')" "word_between ?pre ?post" by code_simp+
  ultimately have "replace_whole_word no_brackets (?pre @ ''N'' @ ?post) ''N'' ''$8(1)'' = Inr (?pre @ ''$8(1)'' @ ?post)"
    by (intro whole_word_replaced) auto
  then show ?thesis by simp
qed

text \<open>
  With more occurrences the character before the first one is put before all of them, and a
  dollar sign before the name makes the replacement part of a format directive.
\<close>

theorem whole_word_wrong_neighbours:
  "replace_whole_word no_brackets ''a+N-N*N'' ''N'' ''5'' = Inr ''a+5+5+5''
   \<and> replace_whole_word no_brackets ''$N'' ''N'' ''15'' = Inr []"
  by code_simp

end
