(* ===== verification/Code_Listing.thy ===== *)
theory Code_Listing
  imports Whole_Words
begin

text \<open>
  Hexadecimal dumps and code listings: \<open>xxd_like_dump\<close> of \<open>SysdarftConsole/ShowContext.cpp\<close>
  and \<open>disassemble_code\<close> of \<open>SysdarftConsole/DisassembleAnArea.cpp\<close>, which the console's
  debugger and the command line disassembler print. A dump can be read back to the bytes, and
  the listing of well-formed code shows every instruction at its address.
\<close>

section \<open>Dumps\<close>

abbreviation newline_text :: string where "newline_text \<equiv> [CHR 0x0A]"

text \<open>\<open>std::hex << std::uppercase << std::setfill('0') << std::setw(w)\<close>\<close>

definition hex_width :: "nat \<Rightarrow> nat \<Rightarrow> string" where
  "hex_width w n = pad_left w (CHR ''0'') (to_hex n)"

(* SysdarftConsole/ShowContext.cpp 32-47: print_bin_line *)
fun print_bin_line :: "u8 list \<Rightarrow> string" where
  "print_bin_line [] = []"
| "print_bin_line [a] = hex_width 2 (unat a)"
| "print_bin_line (a # b # data) = hex_width 2 (unat a) @ hex_width 2 (unat b) @ '' '' @ print_bin_line data"

(* SysdarftConsole/ShowContext.cpp 49-62: print_ascii *)
definition print_ascii :: "u8 list \<Rightarrow> string" where
  "print_ascii data = map (\<lambda>c. if 0x20 \<le> c \<and> c \<le> 0x7E then byte_char c else CHR ''.'') data"

definition BYTES_PER_LINE :: nat where "BYTES_PER_LINE = 16"

(* SysdarftConsole/ShowContext.cpp 66-84: xxd_like_dump, split_data *)
definition split_data :: "u8 list \<Rightarrow> u8 list list" where
  "split_data data =
     map (\<lambda>i. take BYTES_PER_LINE (drop (i * BYTES_PER_LINE) data)) [0..<length data div BYTES_PER_LINE]
     @ (if length data mod BYTES_PER_LINE \<noteq> 0
        then [take (length data mod BYTES_PER_LINE) (drop (length data div BYTES_PER_LINE * BYTES_PER_LINE) data)]
        else [])"

(* SysdarftConsole/ShowContext.cpp 90-97: xxd_like_dump, one line *)
definition dump_line :: "u64 \<Rightarrow> u8 list \<Rightarrow> string" where
  "dump_line origin line =
     hex_width 16 (unat origin) @ '': '' @ print_bin_line line
       @ replicate (BYTES_PER_LINE div 2 + BYTES_PER_LINE * 2 - (length line div 2 + length line * 2)) (CHR '' '')
       @ ''   '' @ print_ascii line @ newline_text"

(* SysdarftConsole/ShowContext.cpp 86-98: xxd_like_dump, loop *)
fun dump_lines :: "u64 \<Rightarrow> u8 list list \<Rightarrow> string" where
  "dump_lines origin [] = []"
| "dump_lines origin (line # ls) = dump_line origin line @ dump_lines (origin + of_nat (length line)) ls"

(* SysdarftConsole/ShowContext.cpp 64-106: xxd_like_dump *)
definition xxd_like_dump :: "u64 \<Rightarrow> u8 list \<Rightarrow> string" where
  "xxd_like_dump offset data = dump_lines offset (split_data data)"

section \<open>Listings\<close>

(* SysdarftConsole/DisassembleAnArea.cpp 39-45: insert_newlines_every_24, loop *)
fun break_lines :: "nat \<Rightarrow> string \<Rightarrow> string" where
  "break_lines i [] = []"
| "break_lines i (c # cs) = (if 0 < i \<and> i mod 24 = 0 then newline_text else []) @ c # break_lines (Suc i) cs"

(* SysdarftConsole/DisassembleAnArea.cpp 28-48: insert_newlines_every_24 *)
definition insert_newlines_every_24 :: "string \<Rightarrow> string" where
  "insert_newlines_every_24 input = (if length input < 24 then input else break_lines 0 input)"

(* SysdarftConsole/DisassembleAnArea.cpp 50-60: linear_binary_to_string *)
definition linear_binary_to_string :: "u8 list \<Rightarrow> string" where
  "linear_binary_to_string data = concat (map (\<lambda>c. hex_width 2 (unat c) @ '' '') data)"

(* SysdarftConsole/DisassembleAnArea.cpp 67-67: disassemble_code, _8bit_data *)
definition bad_data_pattern :: rx where
  "bad_data_pattern = Seqs [Chr any_char, Lit ''8bit_data <'', Cap 1 (Star (Chr any_char)), Lit ''>'']"

text \<open>
  The locals of the function. The number of bytes is that of a vector, so that counting them
  does not wrap.
\<close>

(* SysdarftConsole/DisassembleAnArea.cpp 65-72: disassemble_code, locals *)
record listing_state =
  listing :: string
  bad_8bit_data :: "u8 list list"
  bad_8bit_data_offset :: u64
  concussive_nop_appearances :: nat
  concussive_nop_appearances_offset :: u64

(* SysdarftConsole/DisassembleAnArea.cpp 74-85: disassemble_code, clear_concussive_nop_appearances *)
definition clear_concussive_nop_appearances :: "listing_state \<Rightarrow> listing_state" where
  "clear_concussive_nop_appearances s = s\<lparr>
     listing := listing s @ (if concussive_nop_appearances s > 3
       then newline_text @ '' ... PADDLING 0x00 APPEARED '' @ to_string (concussive_nop_appearances s) @ '' TIMES SINCE ''
         @ hex_width 16 (unat (concussive_nop_appearances_offset s)) @ ''...'' @ newline_text @ newline_text
       else []),
     concussive_nop_appearances := 0, concussive_nop_appearances_offset := 0\<rparr>"

(* SysdarftConsole/DisassembleAnArea.cpp 87-99: disassemble_code, auto_insert_symbol_in_literal *)
definition auto_insert_symbol_in_literal ::
    "bracket_regex \<Rightarrow> bool \<Rightarrow> (u64 \<times> string) list \<Rightarrow> string \<Rightarrow> cpu_error + string" where
  "auto_insert_symbol_in_literal brackets verbose symbols literal =
     (if verbose
      then replace_words brackets False
        (map (\<lambda>(address, name). let offset_literal = ''0x'' @ to_hex (unat address)
           in (offset_literal, offset_literal @ '' /* '' @ name @ '' */'')) symbols) literal
      else Inr literal)"

(* SysdarftConsole/DisassembleAnArea.cpp 150-152: disassemble_code, symbol *)
definition symbol_line :: "(u64 \<times> string) list \<Rightarrow> u64 \<Rightarrow> string" where
  "symbol_line symbols pos = (case map_of symbols pos of
     None \<Rightarrow> []
   | Some name \<Rightarrow> newline_text @ newline_text @ ''<'' @ name @ ''> :'' @ newline_text)"

(* SysdarftConsole/DisassembleAnArea.cpp 141-157: disassemble_code, preceding bad data *)
definition flush_bad_data :: "(u64 \<times> string) list \<Rightarrow> listing_state \<Rightarrow> listing_state" where
  "flush_bad_data symbols s = (if bad_8bit_data s = [] then s
     else s\<lparr>listing := listing s @ symbol_line symbols (bad_8bit_data_offset s)
         @ xxd_like_dump (bad_8bit_data_offset s) (concat (bad_8bit_data s)) @ newline_text,
       bad_8bit_data := [], bad_8bit_data_offset := 0\<rparr>)"

text \<open>Inserting in front of the first newline: there is one, as the text is longer than a line.\<close>

(* SysdarftConsole/DisassembleAnArea.cpp 176-195: disassemble_code, line *)
definition code_line :: "u64 \<Rightarrow> u8 list \<Rightarrow> string \<Rightarrow> string" where
  "code_line pos binary literal =
     (let data = linear_binary_to_string binary in
      hex_width 16 (unat pos) @ '': '' @
      (if length data > 24 then
         let broken = insert_newlines_every_24 data;
             i = length (takeWhile (\<lambda>c. c \<noteq> CHR 0x0A) broken)
         in replace_all (take i broken @ ''    '' @ literal @ drop i broken) newline_text
              (newline_text @ replicate 18 (CHR '' ''))
       else data @ replicate (28 - length data) (CHR '' '') @ literal) @ newline_text)"

(* SysdarftConsole/DisassembleAnArea.cpp 118-139: disassemble_code, bad_data *)
definition is_bad_data :: "string list \<Rightarrow> bool" where
  "is_bad_data literals \<longleftrightarrow> literals = [] \<or> (\<exists>line\<in>set literals. regex_search bad_data_pattern line \<noteq> None)"

(* SysdarftConsole/DisassembleAnArea.cpp 159-168: disassemble_code, padding *)
definition count_nop :: "string list \<Rightarrow> u64 \<Rightarrow> listing_state \<Rightarrow> listing_state" where
  "count_nop literals pos s = (if literals \<noteq> [] \<and> hd literals = ''NOP''
     then s\<lparr>concussive_nop_appearances_offset :=
         if concussive_nop_appearances s = 0 then pos else concussive_nop_appearances_offset s,
       concussive_nop_appearances := Suc (concussive_nop_appearances s)\<rparr>
     else clear_concussive_nop_appearances s)"

text \<open>What one round does with the bytes \<open>binary\<close> at \<open>pos\<close> and what they were decoded to.\<close>

(* SysdarftConsole/DisassembleAnArea.cpp 130-197: disassemble_code, round *)
definition list_decoded :: "bracket_regex \<Rightarrow> bool \<Rightarrow> (u64 \<times> string) list \<Rightarrow> u64 \<Rightarrow> u8 list \<Rightarrow> string list
    \<Rightarrow> listing_state \<Rightarrow> cpu_error + listing_state" where
  "list_decoded brackets verbose symbols pos binary literals s =
     (if is_bad_data literals then
        Inr (clear_concussive_nop_appearances (s\<lparr>
          bad_8bit_data_offset := if bad_8bit_data s = [] then pos else bad_8bit_data_offset s,
          bad_8bit_data := bad_8bit_data s @ [binary]\<rparr>))
      else
        let s1 = count_nop literals pos (flush_bad_data symbols s);
            s2 = s1\<lparr>listing := listing s1 @ symbol_line symbols pos\<rparr>
        in if concussive_nop_appearances s2 \<le> 3
           then map_result (\<lambda>literal. s2\<lparr>listing := listing s2 @ code_line pos binary literal\<rparr>)
             (auto_insert_symbol_in_literal brackets verbose symbols (hd literals))
           else Inr s2)"

text \<open>The loop; \<open>code\<close> is the whole code, of which the last argument but one is what is left.\<close>

(* SysdarftConsole/DisassembleAnArea.cpp 101-197: disassemble_code, loop *)
function list_code :: "bracket_regex \<Rightarrow> bool \<Rightarrow> (u64 \<times> string) list \<Rightarrow> u64 \<Rightarrow> u8 list \<Rightarrow> u8 list
    \<Rightarrow> listing_state \<Rightarrow> cpu_error + listing_state" where
  "list_code brackets verbose symbols origin reference bytes s =
     (if bytes = [] then Inr s
      else
        let offset_before = length reference - length bytes;
            (literals, rest) = snd (decode_instruction ([], bytes));
            binary = take (length reference - length rest - offset_before) (drop offset_before reference)
        in case list_decoded brackets verbose symbols (of_nat offset_before + origin) binary literals s of
             Inl e \<Rightarrow> Inl e
           | Inr s' \<Rightarrow> list_code brackets verbose symbols origin reference rest s')"
  by pat_completeness auto

lemma decode_shortens:
  assumes "bytes \<noteq> []" and "snd (decode_instruction ([], bytes)) = (literals, rest)"
  shows "length rest < length bytes" "suffix rest bytes"
proof -
  obtain b bs where "bytes = b # bs" using assms(1) by (cases bytes) auto
  with assms(2) decode_instruction_progress [of "[]" b bs]
  show "length rest < length bytes" "suffix rest bytes" by (auto intro: suffix_ConsI)
qed

termination list_code
proof (relation "measure (\<lambda>(_, _, _, _, _, bytes, _). length bytes)")
  show "wf (measure (\<lambda>(_ :: bracket_regex, _ :: bool, _ :: (u64 \<times> string) list, _ :: u64, _ :: u8 list,
    bytes :: u8 list, _ :: listing_state). length bytes))" by simp
qed (auto dest: decode_shortens(1) [OF _ sym])

declare list_code.simps [simp del]

definition no_listing :: listing_state where
  "no_listing = \<lparr>listing = [], bad_8bit_data = [], bad_8bit_data_offset = 0, concussive_nop_appearances = 0,
     concussive_nop_appearances_offset = 0\<rparr>"

(* SysdarftConsole/DisassembleAnArea.cpp 62-204: disassemble_code *)
definition disassemble_code :: "bracket_regex \<Rightarrow> bool \<Rightarrow> u8 list \<Rightarrow> u64 \<Rightarrow> (u64 \<times> string) list \<Rightarrow> cpu_error + string" where
  "disassemble_code brackets verbose assembled_code origin symbols =
     map_result (\<lambda>s. listing (if concussive_nop_appearances s \<noteq> 0 then clear_concussive_nop_appearances s else s))
       (list_code brackets verbose symbols origin assembled_code assembled_code no_listing)"

section \<open>Reading a dump\<close>

text \<open>
  A reader of dumps: the address in the first 16 columns, and the bytes in the 40 columns
  behind the colon.
\<close>

fun text_lines :: "string \<Rightarrow> string \<Rightarrow> string list" where
  "text_lines line [] = (if line = [] then [] else [line])"
| "text_lines line (c # cs) = (if c = CHR 0x0A then line # text_lines [] cs else text_lines (line @ [c]) cs)"

fun hex_bytes :: "string \<Rightarrow> u8 list" where
  "hex_bytes (a # b # cs) = of_nat (16 * digit_val a + digit_val b) # hex_bytes cs"
| "hex_bytes _ = []"

definition read_dump_line :: "string \<Rightarrow> u64 \<times> u8 list" where
  "read_dump_line line = (of_nat (of_digits 16 (take 16 line)),
     hex_bytes (filter (\<lambda>c. c \<noteq> CHR '' '') (take 40 (drop 18 line))))"

definition read_dump :: "string \<Rightarrow> (u64 \<times> u8 list) list" where
  "read_dump dump = map read_dump_line (text_lines [] dump)"

lemma length_to_base: "2 \<le> b \<Longrightarrow> n < b ^ w \<Longrightarrow> 0 < w \<Longrightarrow> length (to_base b n) \<le> w"
proof (induction b n arbitrary: w rule: to_base.induct)
  case (1 b n)
  show ?case
  proof (cases "n < b")
    case True
    with "1.prems" show ?thesis by (subst to_base.simps) simp
  next
    case False
    with "1.prems" obtain w' where w: "w = Suc w'" "0 < w'" by (cases w; cases "w - 1") auto
    with "1.prems" have "n div b < b ^ w'" by (simp add: less_mult_imp_div_less mult.commute)
    with "1.IH" [of w'] "1.prems"(1) w False show ?thesis by (subst to_base.simps) simp
  qed
qed

lemma of_digits_zeros: "of_digits b (replicate k (CHR ''0'') @ s) = of_digits b s"
proof -
  have "digit_val (CHR ''0'') = 0" by code_simp
  then have "foldl (\<lambda>a c. a * b + digit_val c) 0 (replicate k (CHR ''0'')) = 0" by (induction k) simp_all
  then show ?thesis by (simp add: of_digits_def)
qed

lemma hex_width_digits: "c \<in> set (hex_width w n) \<Longrightarrow> \<exists>d<16. c = digit_char d"
proof -
  assume "c \<in> set (hex_width w n)"
  then consider "c = digit_char 0" | "c \<in> set (to_hex n)" by (auto simp: hex_width_def pad_left_def)
  then show ?thesis
  proof cases
    case 1
    then show ?thesis by (intro exI [of _ 0]) simp
  next
    case 2
    then show ?thesis using to_base_digits [of 16 n] by auto
  qed
qed

lemma hex_width_read [simp]: "n < 16 ^ w \<Longrightarrow> 0 < w \<Longrightarrow> length (hex_width w n) = w" "of_digits 16 (hex_width w n) = n"
  using length_to_base [of 16 n w] by (simp_all add: hex_width_def pad_left_def of_digits_zeros)

lemma hex_width_chars:
  assumes "c \<in> set (hex_width w n)"
  shows "c \<noteq> CHR '' ''" "c \<noteq> CHR 0x0A"
proof -
  obtain d where d: "d < 16" "c = digit_char d" using hex_width_digits [OF assms] by blast
  have "isspace (CHR '' '')" "isspace (CHR 0x0A)" by code_simp+
  with d digit_char_class(2) [of d] show "c \<noteq> CHR '' ''" "c \<noteq> CHR 0x0A" by auto
qed

lemma hex_width_no_newline [simp]: "CHR 0x0A \<notin> set (hex_width w n)"
  using hex_width_chars(2) by blast

lemma hex_width_filter [simp]: "filter (\<lambda>c. c \<noteq> CHR '' '') (hex_width w n) = hex_width w n"
  using hex_width_chars by (simp add: filter_id_conv)

lemma unat_byte: "unat (b :: u8) < 16 ^ 2" and unat_address: "unat (a :: u64) < 16 ^ 16"
  using unsigned_less [of b] unsigned_less [of a] by simp_all

lemma hex_byte: obtains p q where "hex_width 2 (unat (b :: u8)) = [p, q]" "16 * digit_val p + digit_val q = unat b"
  "p \<noteq> CHR '' ''" "q \<noteq> CHR '' ''"
proof -
  have len: "length (hex_width 2 (unat b)) = 2" using unat_byte [of b] by simp
  then obtain p q where pq: "hex_width 2 (unat b) = [p, q]" by (auto simp: length_Suc_conv numeral_2_eq_2)
  moreover have "of_digits 16 [p, q] = unat b" unfolding pq [symmetric] by simp
  moreover have "p \<noteq> CHR '' ''" "q \<noteq> CHR '' ''" using hex_width_chars(1) [of _ 2 "unat b"] pq by auto
  ultimately show thesis using that by (simp add: of_digits_def)
qed

lemma print_bin_line_read: "hex_bytes (filter (\<lambda>c. c \<noteq> CHR '' '') (print_bin_line data)) = data"
proof (induction data rule: print_bin_line.induct)
  case (2 a)
  show ?case by (rule hex_byte [of a]) simp
next
  case (3 a b data)
  show ?case by (rule hex_byte [of a]; rule hex_byte [of b]) (simp add: 3)
qed simp

lemma print_bin_line_length: "length (print_bin_line data) = length data div 2 + length data * 2"
  using unat_byte by (induction data rule: print_bin_line.induct) simp_all

lemma print_bin_line_chars: "CHR 0x0A \<notin> set (print_bin_line data)"
  by (induction data rule: print_bin_line.induct) auto

lemma print_ascii_chars: "CHR 0x0A \<notin> set (print_ascii data)"
proof -
  have "CHR 0x0A \<noteq> byte_char c" if "0x20 \<le> c" for c
  proof
    assume "CHR 0x0A = byte_char c"
    moreover have "char_code (CHR 0x0A) = 10" by code_simp
    ultimately have "char_code (byte_char c) = 10" by simp
    moreover have "char_code (byte_char c) = unat c" using unat_byte [of c] by (simp add: byte_char_def)
    ultimately show False using that by (simp add: word_le_nat_alt)
  qed
  then show ?thesis by (auto simp: print_ascii_def)
qed

lemma text_lines_line:
  "CHR 0x0A \<notin> set l \<Longrightarrow> text_lines acc (l @ newline_text @ rest) = (acc @ l) # text_lines [] rest"
  by (induction l arbitrary: acc) auto

lemma dump_line_read:
  assumes "length line \<le> BYTES_PER_LINE"
  obtains l where "dump_line origin line = l @ newline_text" "CHR 0x0A \<notin> set l" "read_dump_line l = (origin, line)"
    "length l = 61 + length line"
proof -
  let ?hex = "print_bin_line line" and ?pad = "replicate (40 - (length line div 2 + length line * 2)) (CHR '' '')"
  let ?l = "hex_width 16 (unat origin) @ '': '' @ ?hex @ ?pad @ ''   '' @ print_ascii line"
  have hex: "length (?hex @ ?pad) = 40" using assms by (simp add: print_bin_line_length BYTES_PER_LINE_def)
  have addr: "length (hex_width 16 (unat origin)) = 16" using unat_address [of origin] by simp
  have "take 40 (drop 18 ?l) = ?hex @ ?pad"
    using hex addr by simp
  moreover have "hex_bytes (filter (\<lambda>c. c \<noteq> CHR '' '') (?hex @ ?pad)) = line" by (simp add: print_bin_line_read)
  ultimately have "read_dump_line ?l = (origin, line)" using addr by (simp add: read_dump_line_def)
  moreover have "dump_line origin line = ?l @ newline_text" by (simp add: dump_line_def BYTES_PER_LINE_def)
  moreover have "CHR 0x0A \<notin> set ?l" using print_bin_line_chars print_ascii_chars by auto
  moreover have "length ?l = 61 + length line" using hex addr by (simp add: print_ascii_def)
  ultimately show thesis using that by blast
qed

lemma dump_lines_read:
  assumes "list_all (\<lambda>l. length l \<le> BYTES_PER_LINE) ls"
  shows "map snd (read_dump (dump_lines origin ls)) = ls
    \<and> (\<forall>i<length ls. fst (read_dump (dump_lines origin ls) ! i) = origin + of_nat (length (concat (take i ls))))"
  using assms
proof (induction ls arbitrary: origin)
  case Nil
  then show ?case by (simp add: read_dump_def)
next
  case (Cons l ls)
  then have "length l \<le> BYTES_PER_LINE" by simp
  then obtain t where "dump_line origin l = t @ newline_text" "CHR 0x0A \<notin> set t" "read_dump_line t = (origin, l)"
    by (rule dump_line_read)
  then have "read_dump (dump_lines origin (l # ls)) = (origin, l) # read_dump (dump_lines (origin + of_nat (length l)) ls)"
    using text_lines_line [of t "[]"] by (simp add: read_dump_def)
  with Cons show ?case by (auto simp: nth_Cons' take_Cons' algebra_simps)
qed

lemma chunks_concat: "concat (map (\<lambda>i. take k (drop (i * k) data)) [0..<n]) = take (n * k) data"
proof (induction n)
  case (Suc n)
  have "take (Suc n * k) data = take (n * k) data @ take k (drop (n * k) data)"
    by (simp only: mult_Suc add.commute [of k] take_add)
  with Suc show ?case by simp
qed simp

lemma split_data_concat: "concat (split_data data) = data"
proof -
  have "take (length data mod 16) (drop (length data div 16 * 16) data) = drop (length data div 16 * 16) data"
    by (simp add: minus_div_mult_eq_mod)
  moreover have "length data mod 16 = 0 \<Longrightarrow> length data div 16 * 16 = length data" by presburger
  ultimately show ?thesis by (auto simp: split_data_def BYTES_PER_LINE_def chunks_concat)
qed

lemma split_data_lengths:
  "list_all (\<lambda>l. length l \<le> BYTES_PER_LINE) (split_data data)"
  "length (split_data data) = (length data + 15) div 16"
  "i < length (split_data data) \<Longrightarrow> length (concat (take i (split_data data))) = 16 * i"
proof -
  show "list_all (\<lambda>l. length l \<le> BYTES_PER_LINE) (split_data data)"
    by (auto simp: split_data_def BYTES_PER_LINE_def list_all_iff)
  obtain q r where n: "length data = q * 16 + r" "r < 16"
    by (metis div_mod_decomp mod_less_divisor zero_less_numeral)
  have "(r + 15) div 16 = (if r = 0 then 0 else 1)" using n(2) by auto
  with n show len: "length (split_data data) = (length data + 15) div 16"
    by (simp add: split_data_def BYTES_PER_LINE_def add.assoc)
  show "length (concat (take i (split_data data))) = 16 * i" if "i < length (split_data data)"
  proof -
    have i: "i \<le> length data div 16" "i * 16 \<le> length data" using that len n by (auto split: if_splits)
    then have "take i (split_data data) = map (\<lambda>i. take 16 (drop (i * 16) data)) [0..<i]"
      by (simp add: split_data_def BYTES_PER_LINE_def take_map)
    with i(2) show ?thesis by (simp add: chunks_concat)
  qed
qed

text \<open>
  C31: a dump shows all of the bytes and where they are. Read back line by line it gives the
  bytes, 16 to a line, each line beginning with the address of its first byte (modulo 2^64),
  and there are no more lines than needed.
\<close>

theorem dump_round_trip:
  "concat (map snd (read_dump (xxd_like_dump offset data))) = data
   \<and> map fst (read_dump (xxd_like_dump offset data)) = map (\<lambda>i. offset + of_nat (16 * i)) [0..<(length data + 15) div 16]"
proof -
  note r = dump_lines_read [OF split_data_lengths(1) [of data], of offset]
  then have len: "length (read_dump (xxd_like_dump offset data)) = length (split_data data)"
    unfolding xxd_like_dump_def by (metis length_map)
  have "map fst (read_dump (xxd_like_dump offset data)) = map (\<lambda>i. offset + of_nat (16 * i)) [0..<length (split_data data)]"
    using r len split_data_lengths(3) [of _ data] by (intro nth_equalityI) (auto simp: xxd_like_dump_def)
  with r show ?thesis by (simp add: xxd_like_dump_def split_data_concat split_data_lengths(2))
qed

section \<open>The listing of code and data\<close>

text \<open>
  An image as it is meant: instructions, and between them bytes that begin no instruction. The
  listing has a line for every instruction, headed by the name of its address, and a dump of
  the bytes in front of it; \<open>pending\<close> are bytes not yet listed.
\<close>

datatype image_item = Code code_instruction | Data u8

fun item_bytes :: "image_item \<Rightarrow> u8 list" where
  "item_bytes (Code c) = instruction_bytes c"
| "item_bytes (Data b) = [b]"

fun wf_item :: "image_item \<Rightarrow> bool" where
  "wf_item (Code c) \<longleftrightarrow> wf_instruction c"
| "wf_item (Data b) \<longleftrightarrow> find_opcode b = None"

fun image_listing :: "(u64 \<times> string) list \<Rightarrow> u64 \<Rightarrow> u8 list \<Rightarrow> image_item list \<Rightarrow> string" where
  "image_listing symbols pos pending [] = []"
| "image_listing symbols pos pending (Data b # items) = image_listing symbols (pos + 1) (pending @ [b]) items"
| "image_listing symbols pos pending (Code c # items) =
     (if pending = [] then []
      else let start = pos - of_nat (length pending)
           in symbol_line symbols start @ xxd_like_dump start pending @ newline_text)
     @ symbol_line symbols pos @ code_line pos (instruction_bytes c) (instruction_text c)
     @ image_listing symbols (pos + of_nat (length (instruction_bytes c))) [] items"

text \<open>No more than three \<open>NOP\<close> in a row, after \<open>n\<close> of them.\<close>

fun short_padding :: "nat \<Rightarrow> image_item list \<Rightarrow> bool" where
  "short_padding n [] \<longleftrightarrow> True"
| "short_padding n (Data b # items) \<longleftrightarrow> short_padding 0 items"
| "short_padding n (Code c # items) \<longleftrightarrow>
     (if code_opcode c = OPCODE_NOP then n < 3 \<and> short_padding (Suc n) items else short_padding 0 items)"

subsection \<open>What the decoded text looks like\<close>

lemma bad_data_has_underscore:
  assumes "regex_search bad_data_pattern line = Some x"
  shows "CHR ''_'' \<in> set line"
proof -
  obtain i t caps rest where x: "x = (i, t, caps, rest)" by (cases x)
  from regex_search_leftmost [where r = bad_data_pattern and s = line] assms x
  obtain p where "line = p @ t @ rest" "accepts bad_data_pattern i t rest" by auto
  then show ?thesis by (auto simp: bad_data_pattern_def accepts_parts)
qed

lemma no_underscore_in_number: "CHR ''_'' \<notin> set (to_string n)" "CHR ''_'' \<notin> set (to_hex n)"
proof -
  have u: "digit_val (CHR ''_'') = 36" by code_simp
  have "CHR ''_'' \<noteq> digit_char d" if "d < 16" for d
  proof
    assume "CHR ''_'' = digit_char d"
    with u have "digit_val (digit_char d) = 36" by simp
    with that show False by simp
  qed
  then have "list_all (\<lambda>c. CHR ''_'' \<noteq> c) (to_string n)" "list_all (\<lambda>c. CHR ''_'' \<noteq> c) (to_hex n)"
    by (intro to_base_all; simp)+
  then show "CHR ''_'' \<notin> set (to_string n)" "CHR ''_'' \<notin> set (to_hex n)"
    unfolding list_all_iff by blast+
qed

lemma no_underscore_in_operand: "CHR ''_'' \<notin> set (operand_text x)"
proof -
  have p: "CHR ''_'' \<notin> set (parameter_text q)" for q
    by (cases q) (simp_all add: register_text_def bits_text_def no_underscore_in_number)
  show ?thesis
    by (cases x) (simp_all add: p ratio_text_def bits_text_def no_underscore_in_number)
qed

lemma no_underscore_in_instruction: "CHR ''_'' \<notin> set (instruction_text c)"
proof -
  have "\<forall>e\<in>set instruction_map. CHR ''_'' \<notin> set (mnemonic e)" by (simp add: instruction_table_defs)
  then have "CHR ''_'' \<notin> set (mnemonic e)" if "find_opcode opc = Some e" for opc e
    using that by (auto simp: find_opcode_def find_Some_iff)
  moreover have "CHR ''_'' \<notin> set (operands_text xs)" for xs
    by (induction xs rule: operands_text.induct) (simp_all add: no_underscore_in_operand)
  ultimately show ?thesis by (auto simp: instruction_text_def op_width_literal_def split: option.split)
qed

lemma instruction_is_no_bad_data: "\<not> is_bad_data [instruction_text c]"
  using bad_data_has_underscore no_underscore_in_instruction by (fastforce simp: is_bad_data_def)

lemma regex_search_finds:
  assumes "accepts r (length pre) u v"
  shows "regex_search r (pre @ u @ v) \<noteq> None"
proof
  assume "regex_search r (pre @ u @ v) = None"
  with regex_search_leftmost [where r = r and s = "pre @ u @ v"] assms show False by simp
qed

lemma bad_byte_is_bad_data: "is_bad_data [bad_nbit [b]]"
proof -
  have "any_char c" if "isprint c" for c using that by (auto simp: any_char_def isprint_def)
  moreover have "isprint c" if "c \<in> set (hex_width w n)" for c w n
    using hex_width_digits [OF that] digit_char_class(6) by auto
  moreover have "isprint (CHR 0x27)" "isprint (CHR ''0'')" "isprint (CHR ''x'')" by code_simp+
  ultimately have chars: "\<forall>c\<in>set (bad_byte b). any_char c"
    by (auto simp: bad_byte_def simp flip: hex_width_def)
  let ?t = "''.'' @ ''8bit_data <'' @ bad_byte b @ ''>''"
  have "accepts bad_data_pattern 0 ?t []"
    unfolding bad_data_pattern_def Seqs.simps
    using chars by (intro acc_Seq acc_Cap) (simp_all add: accepts_Lit accepts_class accepts_iffs any_char_def)
  then have "regex_search bad_data_pattern ?t \<noteq> None" using regex_search_finds [of bad_data_pattern "[]" ?t "[]"] by simp
  moreover have "bad_nbit [b] = ?t" by (simp add: bad_nbit_def)
  ultimately show ?thesis by (simp add: is_bad_data_def)
qed

lemma nop_text:
  assumes "wf_instruction c"
  shows "instruction_text c = ''NOP'' \<longleftrightarrow> code_opcode c = OPCODE_NOP"
proof
  obtain e where e: "find_opcode (code_opcode c) = Some e" "length (code_operands c) = argument_count e"
    using assms by (auto simp: wf_instruction_def split: option.splits)
  then have "e \<in> set instruction_map" and opc: "entry_opcode e = code_opcode c"
    by (auto simp: find_opcode_def find_Some_iff)
  moreover have "\<forall>e\<in>set instruction_map. (mnemonic e = ''NOP'' \<longrightarrow> entry_opcode e = OPCODE_NOP) \<and> 2 \<le> length (mnemonic e)
      \<and> mnemonic e \<noteq> ''NO''"
    by (simp add: instruction_table_defs)
  ultimately have m: "mnemonic e = ''NOP'' \<Longrightarrow> code_opcode c = OPCODE_NOP" "2 \<le> length (mnemonic e)" "mnemonic e \<noteq> ''NO''"
    by auto
  show "code_opcode c = OPCODE_NOP" if "instruction_text c = ''NOP''"
  proof -
    have "mnemonic e @ (if require_width e then op_width_literal (code_width c) else [])
        @ operands_text (code_operands c) = ''NOP''" using that e(1) by (simp add: instruction_text_def)
    then have "prefix (mnemonic e) ''NOP''" by (rule prefixI [OF sym])
    with m(2,3) have "mnemonic e = ''NOP''" by (auto simp: prefix_Cons)
    with m(1) show ?thesis .
  qed
  have nop: "find_opcode OPCODE_NOP = Some \<lparr>mnemonic = ''NOP'', entry_opcode = OPCODE_NOP, argument_count = 0, require_width = False\<rparr>"
    by code_simp
  show "instruction_text c = ''NOP''" if "code_opcode c = OPCODE_NOP"
    using e nop that by (auto simp: instruction_text_def)
qed

lemma decode_unknown:
  assumes "find_opcode b = None"
  shows "decode_instruction (out, b # rest) = (Inr (), (out @ [bad_nbit [b]], rest))"
  using assms by (simp add: decode_instruction_def tryR_def bindR_def pop8_run)

subsection \<open>Every round\<close>

text \<open>One round of the loop on what one item is decoded to.\<close>

lemma list_code_round:
  assumes "snd (decode_instruction ([], bytes @ rest)) = (literals, rest)" and "bytes \<noteq> []"
  shows "list_code brackets verbose symbols origin (seen @ bytes @ rest) (bytes @ rest) s =
    (case list_decoded brackets verbose symbols (of_nat (length seen) + origin) bytes literals s of
       Inl e \<Rightarrow> Inl e
     | Inr s' \<Rightarrow> list_code brackets verbose symbols origin (seen @ bytes @ rest) rest s')"
proof -
  have "take (length (seen @ bytes @ rest) - length rest - (length (seen @ bytes @ rest) - length (bytes @ rest)))
      (drop (length (seen @ bytes @ rest) - length (bytes @ rest)) (seen @ bytes @ rest)) = bytes"
    by simp
  with assms show ?thesis
    by (subst list_code.simps) (simp add: Let_def)
qed

lemma list_data:
  "list_decoded brackets verbose symbols pos [b] [bad_nbit [b]] s = Inr (clear_concussive_nop_appearances (s\<lparr>
     bad_8bit_data_offset := if bad_8bit_data s = [] then pos else bad_8bit_data_offset s,
     bad_8bit_data := bad_8bit_data s @ [[b]]\<rparr>))"
  by (simp add: list_decoded_def bad_byte_is_bad_data)

lemma list_instruction:
  assumes "wf_instruction c" and "code_opcode c = OPCODE_NOP \<Longrightarrow> concussive_nop_appearances s < 3"
    and "concussive_nop_appearances s \<le> 3"
  shows "\<exists>s'. list_decoded brackets False symbols pos bytes [instruction_text c] s = Inr s'
     \<and> listing s' = listing s
       @ (if bad_8bit_data s = [] then [] else symbol_line symbols (bad_8bit_data_offset s)
            @ xxd_like_dump (bad_8bit_data_offset s) (concat (bad_8bit_data s)) @ newline_text)
       @ symbol_line symbols pos @ code_line pos bytes (instruction_text c)
     \<and> bad_8bit_data s' = []
     \<and> concussive_nop_appearances s' = (if code_opcode c = OPCODE_NOP then Suc (concussive_nop_appearances s) else 0)"
  using assms instruction_is_no_bad_data [of c] nop_text [OF assms(1)]
  by (cases "code_opcode c = OPCODE_NOP")
    (auto simp: list_decoded_def flush_bad_data_def count_nop_def clear_concussive_nop_appearances_def Let_def
      auto_insert_symbol_in_literal_def map_result_def)

lemma list_code_image:
  assumes "list_all wf_item items" and "short_padding (concussive_nop_appearances s) items"
    and "concussive_nop_appearances s \<le> 3"
    and "concat (bad_8bit_data s) = pending"
    and "pending \<noteq> [] \<Longrightarrow> bad_8bit_data_offset s = of_nat (length seen) + origin - of_nat (length pending)"
    and "list_all (\<lambda>d. d \<noteq> []) (bad_8bit_data s)"
  shows "\<exists>s'. list_code brackets False symbols origin (seen @ concat (map item_bytes items)) (concat (map item_bytes items)) s = Inr s'
    \<and> listing s' = listing s @ image_listing symbols (of_nat (length seen) + origin) pending items
    \<and> concussive_nop_appearances s' \<le> 3"
  using assms
proof (induction items arbitrary: s seen pending)
  case Nil
  then show ?case by (subst list_code.simps) simp
next
  case (Cons item items)
  let ?rest = "concat (map item_bytes items)"
  let ?pos = "of_nat (length seen) + origin"
  have pend: "bad_8bit_data s = [] \<longleftrightarrow> pending = []"
    using Cons.prems(4,6) by (cases "bad_8bit_data s") auto
  show ?case
  proof (cases item)
    case (Data b)
    let ?s = "clear_concussive_nop_appearances (s\<lparr>
     bad_8bit_data_offset := if bad_8bit_data s = [] then ?pos else bad_8bit_data_offset s,
     bad_8bit_data := bad_8bit_data s @ [[b]]\<rparr>)"
    have "decode_instruction ([], [b] @ ?rest) = (Inr (), ([bad_nbit [b]], ?rest))"
      using Cons.prems(1) Data decode_unknown [of b "[]"] by simp
    then have "list_code brackets False symbols origin (seen @ [b] @ ?rest) ([b] @ ?rest) s =
        list_code brackets False symbols origin ((seen @ [b]) @ ?rest) ?rest ?s"
      using list_code_round [of "[b]" ?rest _ brackets False symbols origin seen s] by (simp add: list_data)
    moreover have "listing ?s = listing s" using Cons.prems(3) by (simp add: clear_concussive_nop_appearances_def)
    moreover have "\<exists>s'. list_code brackets False symbols origin ((seen @ [b]) @ ?rest) ?rest ?s = Inr s'
      \<and> listing s' = listing ?s @ image_listing symbols (of_nat (length (seen @ [b])) + origin) (pending @ [b]) items
      \<and> concussive_nop_appearances s' \<le> 3"
      using Cons.prems Data pend
      by (intro Cons.IH) (auto simp del: concat_eq_Nil_conv simp: clear_concussive_nop_appearances_def algebra_simps)
    ultimately show ?thesis using Data by (simp add: algebra_simps)
  next
    case (Code c)
    let ?n = "length (instruction_bytes c)"
    have c: "wf_instruction c" "short_padding (if code_opcode c = OPCODE_NOP then Suc (concussive_nop_appearances s) else 0) items"
      "code_opcode c = OPCODE_NOP \<Longrightarrow> concussive_nop_appearances s < 3"
      using Cons.prems(1,2) Code by (auto split: if_splits)
    obtain s1 where s1: "list_decoded brackets False symbols ?pos (instruction_bytes c) [instruction_text c] s = Inr s1"
      "listing s1 = listing s
       @ (if bad_8bit_data s = [] then [] else symbol_line symbols (bad_8bit_data_offset s)
            @ xxd_like_dump (bad_8bit_data_offset s) (concat (bad_8bit_data s)) @ newline_text)
       @ symbol_line symbols ?pos @ code_line ?pos (instruction_bytes c) (instruction_text c)"
      "bad_8bit_data s1 = []"
      "concussive_nop_appearances s1 = (if code_opcode c = OPCODE_NOP then Suc (concussive_nop_appearances s) else 0)"
      using list_instruction [OF c(1,3) Cons.prems(3), of brackets symbols ?pos "instruction_bytes c"] by auto
    have "instruction_bytes c \<noteq> []" by (simp add: instruction_bytes_def)
    with decode_instruction_text [OF c(1), of "[]" ?rest] s1(1)
    have "list_code brackets False symbols origin (seen @ instruction_bytes c @ ?rest) (instruction_bytes c @ ?rest) s =
        list_code brackets False symbols origin ((seen @ instruction_bytes c) @ ?rest) ?rest s1"
      using list_code_round [of "instruction_bytes c" ?rest _ brackets False symbols origin seen s] by simp
    moreover have "of_nat (length (seen @ instruction_bytes c)) + origin = ?pos + of_nat ?n" by simp
    moreover obtain s' where "list_code brackets False symbols origin ((seen @ instruction_bytes c) @ ?rest) ?rest s1 = Inr s'"
      "listing s' = listing s1 @ image_listing symbols (of_nat (length (seen @ instruction_bytes c)) + origin) [] items"
      "concussive_nop_appearances s' \<le> 3"
      using Cons.IH [of s1 "[]" "seen @ instruction_bytes c"] c(2,3) s1(3,4) Cons.prems(1,3) by (auto split: if_splits)
    moreover have "listing s1 = listing s
       @ (if pending = [] then []
          else let start = ?pos - of_nat (length pending)
               in symbol_line symbols start @ xxd_like_dump start pending @ newline_text)
       @ symbol_line symbols ?pos @ code_line ?pos (instruction_bytes c) (instruction_text c)"
      unfolding s1(2) pend Cons.prems(4) using Cons.prems(5) by (simp add: Let_def)
    ultimately show ?thesis unfolding Code by (intro exI [of _ s']) (simp add: ac_simps)
  qed
qed

lemma image_listed:
  assumes "list_all wf_item items" and "short_padding 0 items"
  shows "disassemble_code brackets False (concat (map item_bytes items)) origin symbols
    = Inr (image_listing symbols origin [] items)"
  using list_code_image [of items no_listing "[]" "[]" origin brackets symbols] assms
  by (auto simp: disassemble_code_def no_listing_def map_result_def clear_concussive_nop_appearances_def)


text \<open>\<open>MOV .16bit <*4&16($8(0x10), %FER1, $8(0xFE))>, <%EXR3>\<close>, a byte that is no instruction, \<open>HLT\<close>, and another such byte.\<close>

definition demo_image :: "image_item list" where
  "demo_image = [Code demo_code, Data 0xFF, Code \<lparr>code_opcode = OPCODE_HLT, code_width = 0, code_operands = []\<rparr>, Data 0xFE]"


text \<open>Bytes that are no instruction are not listed at all when no instruction follows them.\<close>

theorem data_at_the_end_not_listed:
  assumes "list_all (\<lambda>b. find_opcode b = None) data"
  shows "disassemble_code brackets False data origin symbols = Inr []"
proof -
  let ?items = "map Data data"
  have wf: "list_all wf_item ?items" using assms by (simp add: list_all_iff)
  have pad: "short_padding n ?items" for n by (induction data arbitrary: n) simp_all
  have bytes: "concat (map item_bytes ?items) = data" by (simp add: comp_def)
  have "image_listing symbols pos pending ?items = []" for pos pending
    by (induction data arbitrary: pos pending) simp_all
  with image_listed [OF wf pad, of brackets origin symbols] bytes show ?thesis by simp
qed

section \<open>Every listing ends\<close>

lemma list_code_returns: "\<exists>s'. list_code brackets False symbols origin reference bytes s = Inr s'"
proof (induction brackets False symbols origin reference bytes s rule: list_code.induct)
  case (1 brackets symbols origin reference bytes s)
  show ?case
  proof (cases "bytes = []")
    case True
    then show ?thesis by (subst list_code.simps) simp
  next
    case False
    obtain literals rest where d: "snd (decode_instruction ([], bytes)) = (literals, rest)" by fastforce
    have "list_decoded brackets False symbols pos binary literals s \<noteq> Inl e" for pos binary e
      by (auto simp: list_decoded_def Let_def auto_insert_symbol_in_literal_def map_result_def)
    then show ?thesis
      using "1" [OF False refl d [symmetric] refl refl] False d
      by (subst list_code.simps) (auto simp: Let_def split: sum.splits)
  qed
qed

lemma disassemble_code_returns: "\<exists>text. disassemble_code brackets False bytes origin symbols = Inr text"
  using list_code_returns [of brackets symbols origin bytes bytes no_listing]
  by (auto simp: disassemble_code_def map_result_def)

end
