(* ===== verification/Cpu_Interruption.thy ===== *)
theory Cpu_Interruption
  imports Operand_Decoder
begin

text \<open>
  \<open>SysdarftCPUInterruption\<close> (\<open>include/SysdarftCPUDecoder.h\<close>,
  \<open>cpu/SysdarftCPUInterruption.cpp\<close>): the interruption table, saving and restoring the CPU
  state on the stack, the interruptions the hardware serves itself, and the requests of
  external devices.
\<close>

section \<open>State\<close>

text \<open>
  What the other threads may do while the CPU thread sleeps: a key on the console or in the
  GUI, an input added through the remote console, a request of a device and the pause of
  the debugger. \<open>schedule\<close> lists, per sleep of \<open>do_interruption_getInput_0x14\<close>, what
  happens during it; the theorems hold for every schedule.
\<close>

datatype env_event = KeyPressed int | InputAdded int | DeviceRequest u64 | DebuggerPause

text \<open>
  \<open>verbose\<close> is \<open>debug::verbose\<close>, \<open>protector_locked\<close> whether the CPU thread holds
  \<open>External_Int_Req_Vec_Protector\<close>, and the last two fields are the size of the terminal.
\<close>

(* include/SysdarftCPUDecoder.h 184-255: SysdarftCPUInterruption *)
record interruption_state = decoder_state +
  debugger_pause_blocked_int_0x14 :: bool
  interruption_requests :: "u64 list"
  external_device_requested :: bool
  current_routine_pop_len :: u64
  ip_before_pop :: u64
  Int3DebugInterrupt :: bool
  protector_locked :: bool
  verbose :: bool
  schedule :: "env_event list list"
  terminal_rows :: int
  terminal_cols :: int

section \<open>Device requests\<close>

(* cpu/SysdarftCPUInterruption.cpp 235-251: do_ext_dev_interruption *)
definition do_ext_dev_interruption :: "u64 \<Rightarrow> ('z interruption_state_scheme, unit) run" where
  "do_ext_dev_interruption code s =
     (if code > 0x1F \<and> code < MAX_INTERRUPTION_ENTRY then
        if protector_locked s then (Inr (), s)
        else (Inr (), s\<lparr>interruption_requests := interruption_requests s @ [code],
                        external_device_requested := True\<rparr>)
      else (Inl SysdarftInterruptionOutOfRange, s))"

text \<open>A device thread that asks for a code out of range gets the exception itself.\<close>

fun env_step :: "env_event \<Rightarrow> 'z interruption_state_scheme \<Rightarrow> 'z interruption_state_scheme" where
  "env_step (KeyPressed k) s = gui_input_handler k s"
| "env_step (InputAdded k) s = try_add_input k s"
| "env_step (DeviceRequest code) s = snd (do_ext_dev_interruption code s)"
| "env_step DebuggerPause s = s\<lparr>debugger_pause_blocked_int_0x14 := True\<rparr>"

section \<open>Lookup, preservation, jump and return\<close>

(* include/SysdarftCPUDecoder.h 194-197: InterruptionPointer *)
record interruption_pointer =
  InterruptionTargetCodeBase :: u64
  InterruptionTargetInstructionPointer :: u64

(* cpu/SysdarftCPUInterruption.cpp 253-264: do_interruption_lookup *)
definition do_interruption_lookup :: "u64 \<Rightarrow> ('z interruption_state_scheme, interruption_pointer) run" where
  "do_interruption_lookup code =
     (let offset = INTERRUPTION_VECTOR + code * 16
      in if offset \<ge> INTERRUPTION_VEC_ED then throwR SysdarftInterruptionOutOfRange
         else bindR (read_memory offset 16) (\<lambda>bs.
           returnR \<lparr>InterruptionTargetCodeBase = word_of_bytes (take 8 bs),
                    InterruptionTargetInstructionPointer = word_of_bytes (drop 8 bs)\<rparr>))"

(* cpu/SysdarftCPUInterruption.cpp 266-272: do_preserve_cpu_state *)
definition do_preserve_cpu_state :: "('z interruption_state_scheme, unit) run" where
  "do_preserve_cpu_state =
     bindR (load StackBase) (\<lambda>SB.
     bindR (load StackPointer) (\<lambda>SP.
     bindR (load id) (\<lambda>regs.
     bindR (push_memory_to SB SP (register_bytes regs)) (\<lambda>SP'.
     store (\<lambda>r. r\<lparr>StackPointer := SP'\<rparr>)))))"

(* cpu/SysdarftCPUInterruption.cpp 274-278: do_jump_table *)
definition do_jump_table :: "interruption_pointer \<Rightarrow> ('z interruption_state_scheme, unit) run" where
  "do_jump_table location =
     thenR (store (\<lambda>r. r\<lparr>CodeBase := InterruptionTargetCodeBase location\<rparr>))
       (store (\<lambda>r. r\<lparr>InstructionPointer := InterruptionTargetInstructionPointer location\<rparr>))"

(* cpu/SysdarftCPUInterruption.cpp 280-286: do_iret *)
definition do_iret :: "('z interruption_state_scheme, unit) run" where
  "do_iret =
     bindR (load StackBase) (\<lambda>SB.
     bindR (load StackPointer) (\<lambda>SP.
     bindR (pop_memory_from 256 SB SP) (\<lambda>(bs, _). store (\<lambda>_. register_of_bytes bs))))"

(* include/SysdarftCPUDecoder.h 267-272: set_mask *)
definition set_mask :: "('z interruption_state_scheme, unit) run" where
  "set_mask = store (\<lambda>r. r\<lparr>FlagRegister := (FlagRegister r)\<lparr>InterruptionMask := True\<rparr>\<rparr>)"

section \<open>Interruptions served by the hardware\<close>

(* cpu/SysdarftCPUInterruption.cpp 289-294: do_interruption_fatal_0x00 *)
definition do_interruption_fatal_0x00 :: "('z interruption_state_scheme, unit) run" where
  "do_interruption_fatal_0x00 =
     bindR (do_interruption_lookup 0x00) (\<lambda>location. thenR set_mask (do_jump_table location))"

(* cpu/SysdarftCPUInterruption.cpp 296-304: do_interruption_debug_0x03 *)
definition do_interruption_debug_0x03 :: "('z interruption_state_scheme, unit) run" where
  "do_interruption_debug_0x03 =
     thenR (modifyR (\<lambda>s. s\<lparr>Int3DebugInterrupt := True\<rparr>))
     (bindR (do_interruption_lookup 0x03) (\<lambda>location.
      thenR do_preserve_cpu_state (thenR set_mask (do_jump_table location))))"

(* cpu/SysdarftCPUInterruption.cpp 306-313: do_stackoverflow_0x07 *)
definition do_stackoverflow_0x07 :: "('z interruption_state_scheme, unit) run" where
  "do_stackoverflow_0x07 =
     bindR (do_interruption_lookup 0x07) (\<lambda>location. thenR set_mask (do_jump_table location))"

(* cpu/SysdarftCPUInterruption.cpp 315-321: do_abort_0x05 *)
definition do_abort_0x05 :: "('z interruption_state_scheme, unit) run" where
  "do_abort_0x05 =
     bindR (do_interruption_lookup 0x05) (\<lambda>location.
     thenR do_preserve_cpu_state (thenR set_mask (do_jump_table location)))"

(* cpu/SysdarftCPUInterruption.cpp 323-327: do_interruption_tty_0x10 *)
definition do_interruption_tty_0x10 :: "('z interruption_state_scheme, unit) run" where
  "do_interruption_tty_0x10 = bindR (load get_EXR0) (\<lambda>w. modifyR (teletype (ucast w)))"

(* cpu/SysdarftCPUInterruption.cpp 329-337: do_interruption_set_cur_pos_0x11 *)
definition do_interruption_set_cur_pos_0x11 :: "('z interruption_state_scheme, unit) run" where
  "do_interruption_set_cur_pos_0x11 =
     bindR (load get_EXR0) (\<lambda>linear.
     if uint linear > V_WIDTH * V_HEIGHT - 1 then throwR SysdarftBadInterruption
     else modifyR (set_cursor (uint linear mod V_WIDTH) (uint linear div V_WIDTH)))"

(* cpu/SysdarftCPUInterruption.cpp 339-343: do_interruption_set_cur_visib_0x12 *)
definition do_interruption_set_cur_visib_0x12 :: "('z interruption_state_scheme, unit) run" where
  "do_interruption_set_cur_visib_0x12 =
     bindR (load get_EXR0) (\<lambda>w. modifyR (set_cursor_visibility (w \<noteq> 0)))"

(* cpu/SysdarftCPUInterruption.cpp 345-348: do_interruption_newline_0x13 *)
definition do_interruption_newline_0x13 :: "('z interruption_state_scheme, unit) run" where
  "do_interruption_newline_0x13 = modifyR newline"

definition ASCII_LF :: int where "ASCII_LF = 10"
definition ASCII_CR :: int where "ASCII_CR = 13"

text \<open>
  The polling loop: one round per list of the schedule that is left. When the schedule ends
  while the loop is still waiting, the outcome is \<open>Waiting\<close>.
\<close>

(* cpu/SysdarftCPUInterruption.cpp 350-390: do_interruption_getInput_0x14, loop *)
fun getInput_loop :: "env_event list list \<Rightarrow> ('z interruption_state_scheme, unit) run" where
  "getInput_loop sched s =
     (let s = s\<lparr>schedule := sched\<rparr> in
      if SystemHalted s then (Inr (), s)
      else if KeyboardIntAbort s \<or> debugger_pause_blocked_int_0x14 s \<or> CtrlZShutdownRequested s then
        (Inr (), s\<lparr>debugger_pause_blocked_int_0x14 := False,
                   Registers := (Registers s)\<lparr>InstructionPointer := ip_before_pop s\<rparr>\<rparr>)
      else let (Key, s) = get_input s in
        if Key \<noteq> -1 then
          if translate_cr_to_lf s \<and> Key = ASCII_CR then
            (Inr (), s\<lparr>Registers := put_EXR0 (of_int ASCII_LF) (Registers s)\<rparr>)
          else (Inr (), s\<lparr>Registers := put_EXR0 (of_int Key) (Registers s)\<rparr>)
        else if external_device_requested s then
          (Inr (), s\<lparr>Registers := (Registers s)
             \<lparr>InstructionPointer := InstructionPointer (Registers s) - current_routine_pop_len s,
              FlagRegister := (FlagRegister (Registers s))\<lparr>InterruptionMask := False\<rparr>\<rparr>\<rparr>)
        else (case sched of
            [] \<Rightarrow> (Inl Waiting, s)
          | evs # rest \<Rightarrow> getInput_loop rest (fold env_step evs s)))"

declare getInput_loop.simps [simp del]

definition do_interruption_getInput_0x14 :: "('z interruption_state_scheme, unit) run" where
  "do_interruption_getInput_0x14 s = getInput_loop (schedule s) s"

(* cpu/SysdarftCPUInterruption.cpp 392-396: do_interruption_cur_pos_0x15 *)
definition do_interruption_cur_pos_0x15 :: "('z interruption_state_scheme, unit) run" where
  "do_interruption_cur_pos_0x15 =
     bindR (getR (\<lambda>s. cursor_y s * V_WIDTH + cursor_x s)) (\<lambda>linear.
     store (put_EXR0 (of_int linear)))"

(* cpu/SysdarftCPUInterruption.cpp 398-401: do_get_system_hardware_info_0x16 *)
definition do_get_system_hardware_info_0x16 :: "('z interruption_state_scheme, unit) run" where
  "do_get_system_hardware_info_0x16 = bindR (getR TotalMemory) (\<lambda>m. store (put_FER0 m))"

(* cpu/SysdarftCPUInterruption.cpp 403-406: do_ring_bell_0x17 *)
definition do_ring_bell_0x17 :: "('z interruption_state_scheme, unit) run" where
  "do_ring_bell_0x17 = modifyR ringbell"

(* cpu/SysdarftCPUInterruption.cpp 408-411: do_refresh_screen_0x18 *)
definition do_refresh_screen_0x18 :: "('z interruption_state_scheme, unit) run" where
  "do_refresh_screen_0x18 = modifyR render_screen"

(* cpu/SysdarftCPUInterruption.cpp 413-416: do_clear_user_input_stream_0x19 *)
definition do_clear_user_input_stream_0x19 :: "('z interruption_state_scheme, unit) run" where
  "do_clear_user_input_stream_0x19 = modifyR flush_input_buffer"

section \<open>Dispatch\<close>

text \<open>The lambda \<open>mask_fg\<close>: it stores the copy of the flags taken at the start.\<close>

(* cpu/SysdarftCPUInterruption.cpp 78-83: mask_fg *)
definition mask_fg :: "flag_register \<Rightarrow> ('z interruption_state_scheme, flag_register) run" where
  "mask_fg fg =
     (let fg' = fg\<lparr>InterruptionMask := True\<rparr>
      in thenR (store (\<lambda>r. r\<lparr>FlagRegister := fg'\<rparr>)) (returnR fg'))"

text \<open>The lambda \<open>do_interruption\<close>; it returns the copy of the flags it leaves.\<close>

(* cpu/SysdarftCPUInterruption.cpp 85-117: do_interruption, lambda *)
definition dispatch_interruption ::
    "u64 \<Rightarrow> flag_register \<Rightarrow> ('z interruption_state_scheme, flag_register) run" where
  "dispatch_interruption code fg =
     bindR (do_interruption_lookup code) (\<lambda>location.
     thenR (tryR do_preserve_cpu_state (\<lambda>e.
              if e = StackOverflow
              then thenR do_stackoverflow_0x07 (thenR (mask_fg fg) (throwR SubroutineAbort))
              else throwR e))
     (bindR (mask_fg fg) (\<lambda>fg'.
      thenR (do_jump_table location) (returnR fg'))))"

text \<open>With \<open>--verbose\<close> a warning is printed: curses is left and started again.\<close>

(* cpu/SysdarftCPUInterruption.cpp 172-205: do_interruption, verbose *)
definition report_interruption :: "u64 \<Rightarrow> 'z interruption_state_scheme \<Rightarrow> 'z interruption_state_scheme" where
  "report_interruption code s =
     (if verbose s \<and> code < 0x10 then
        let before = is_inited s; s' = cleanup s
        in if before then start_again (terminal_rows s') (terminal_cols s') s' else s'
      else s)"

(* cpu/SysdarftCPUInterruption.cpp 70-233: do_interruption *)
definition do_interruption :: "u64 \<Rightarrow> ('z interruption_state_scheme, unit) run" where
  "do_interruption code =
     (if code > MAX_INTERRUPTION_ENTRY then throwR SysdarftBadInterruption
      else bindR (load FlagRegister) (\<lambda>fg.
        let masked_part = (\<lambda>fg. if \<not> InterruptionMask fg
              then thenR (dispatch_interruption code fg) (returnR ()) else returnR ())
        in if code \<le> 0x1F then
             thenR (modifyR (report_interruption code))
             (if code = 0x00 then do_interruption_fatal_0x00
              else if code = 0x03 then do_interruption_debug_0x03
              else if code = 0x07 then do_stackoverflow_0x07
              else if code = 0x10 then do_interruption_tty_0x10
              else if code = 0x11 then do_interruption_set_cur_pos_0x11
              else if code = 0x12 then do_interruption_set_cur_visib_0x12
              else if code = 0x13 then do_interruption_newline_0x13
              else if code = 0x14 then do_interruption_getInput_0x14
              else if code = 0x15 then do_interruption_cur_pos_0x15
              else if code = 0x16 then do_get_system_hardware_info_0x16
              else if code = 0x17 then do_ring_bell_0x17
              else if code = 0x18 then do_refresh_screen_0x18
              else if code = 0x19 then do_clear_user_input_stream_0x19
              else bindR (dispatch_interruption code fg) masked_part)
           else masked_part fg))"

section \<open>Entering and leaving a handler\<close>

lemma writes_bytes_Registers:
  fixes s :: "'z decoder_state_scheme"
  assumes "writes_bytes s a bs s'"
  shows "Registers s' = Registers s" and "s'\<lparr>Registers := r\<rparr> = s\<lparr>Memory := Memory s', Registers := r\<rparr>"
proof -
  from assms obtain m where "s' = s\<lparr>Memory := m\<rparr>" unfolding writes_bytes_def by blast
  then show "Registers s' = Registers s" by simp
  from \<open>s' = s\<lparr>Memory := m\<rparr>\<close> show "s'\<lparr>Registers := r\<rparr> = s\<lparr>Memory := Memory s', Registers := r\<rparr>" by simp
qed

text \<open>The entry of the interruption table for a code, as the memory holds it.\<close>

definition vector_entry :: "'z interruption_state_scheme \<Rightarrow> u64 \<Rightarrow> interruption_pointer" where
  "vector_entry s code = (let a = 0xA0000 + unat code * 16 in
     \<lparr>InterruptionTargetCodeBase = word_of_bytes (map (flat s) [a..<a + 8]),
      InterruptionTargetInstructionPointer = word_of_bytes (map (flat s) [a + 8..<a + 16])\<rparr>)"

lemma vector_entry_Registers [simp]: "vector_entry (s\<lparr>Registers := r\<rparr>) code = vector_entry s code"
  by (simp add: vector_entry_def Let_def)

text \<open>The memory is big enough to hold the table.\<close>

definition table_inv :: "'z interruption_state_scheme \<Rightarrow> bool" where
  "table_inv s \<longleftrightarrow> mem_inv s \<and> 0xA1000 \<le> unat (TotalMemory s)"

lemma table_offset:
  assumes "code < 256"
  shows "unat (INTERRUPTION_VECTOR + code * 16) = 0xA0000 + unat code * 16"
    and "\<not> INTERRUPTION_VECTOR + code * 16 \<ge> INTERRUPTION_VEC_ED"
proof -
  have c: "unat code \<le> 255" using assms by (simp add: word_less_nat_alt)
  then show u: "unat (INTERRUPTION_VECTOR + code * 16) = 0xA0000 + unat code * 16"
    by (simp add: INTERRUPTION_VECTOR_def unat_word_ariths)
  show "\<not> INTERRUPTION_VECTOR + code * 16 \<ge> INTERRUPTION_VEC_ED"
    using c u by (simp add: word_le_nat_alt INTERRUPTION_VEC_ED_def)
qed

lemma lookup_ok:
  assumes "table_inv s" and "code < 256"
  shows "do_interruption_lookup code s = (Inr (vector_entry s code), s)"
proof -
  let ?o = "INTERRUPTION_VECTOR + code * 16"
  note off = table_offset [OF assms(2)]
  have "unat code \<le> 255" using assms(2) by (simp add: word_less_nat_alt)
  then have "in_memory s ?o 16"
    using assms(1) off by (simp add: in_memory_def table_inv_def)
  from read_memory_flat [OF _ this] assms(1) off
  have "read_memory ?o 16 s =
      (Inr (map (flat s) [0xA0000 + unat code * 16..<0xA0000 + unat code * 16 + 16]), s)"
    by (simp add: table_inv_def)
  with off(2) show ?thesis
    by (simp add: do_interruption_lookup_def bindR_def returnR_def vector_entry_def Let_def
        take_map drop_map)
qed

lemma lookup_out_of_table:
  "do_interruption_lookup 256 s = (Inl SysdarftInterruptionOutOfRange, s)"
  by (simp add: do_interruption_lookup_def layout_defs throwR_def)

text \<open>The stack has room for the image of the register file.\<close>

definition room_for_frame :: "'z interruption_state_scheme \<Rightarrow> bool" where
  "room_for_frame s \<longleftrightarrow> 256 \<le> unat (StackPointer (Registers s))
     \<and> unat (StackBase (Registers s)) + unat (StackPointer (Registers s)) \<le> unat (TotalMemory s)"

definition frame_address :: "'z interruption_state_scheme \<Rightarrow> nat" where
  "frame_address s = unat (StackBase (Registers s)) + (unat (StackPointer (Registers s)) - 256)"

lemma preserve_ok:
  assumes "mem_inv s" and "room_for_frame s"
  shows "\<exists>m. do_preserve_cpu_state s = (Inr (), s\<lparr>Memory := m,
        Registers := (Registers s)\<lparr>StackPointer := StackPointer (Registers s) - 256\<rparr>\<rparr>)
    \<and> writes_bytes s (frame_address s) (register_bytes (Registers s)) (s\<lparr>Memory := m\<rparr>)"
proof -
  let ?r = "Registers s"
  have "register_bytes ?r \<noteq> []" using length_register_bytes [of ?r] by force
  with push_memory_to_ok [OF assms(1), of "register_bytes ?r" "StackPointer ?r" "StackBase ?r"] assms(2)
  obtain s' where s': "push_memory_to (StackBase ?r) (StackPointer ?r) (register_bytes ?r) s
        = (Inr (StackPointer ?r - 256), s')"
      "writes_bytes s (frame_address s) (register_bytes ?r) s'"
    by (auto simp: room_for_frame_def frame_address_def)
  then have "s' = s\<lparr>Memory := Memory s'\<rparr>" by (simp add: writes_bytes_def)
  moreover have "do_preserve_cpu_state s =
      (Inr (), s'\<lparr>Registers := (Registers s')\<lparr>StackPointer := StackPointer ?r - 256\<rparr>\<rparr>)"
    using s'(1) by (simp add: do_preserve_cpu_state_def bindR_def)
  ultimately show ?thesis
    using s'(2) writes_bytes_Registers [OF s'(2)] by metis
qed

lemma preserve_overflows:
  assumes "mem_inv s" and "unat (StackPointer (Registers s)) < 256"
  shows "do_preserve_cpu_state s = (Inl StackOverflow, s)"
  using push_memory_to_overflows [OF assms(1), of "StackPointer (Registers s)"
      "register_bytes (Registers s)"] assms(2)
  by (simp add: do_preserve_cpu_state_def bindR_def)

text \<open>What entering a handler makes of the register file.\<close>

definition masked :: "flag_register \<Rightarrow> flag_register" where
  "masked f = f\<lparr>InterruptionMask := True\<rparr>"

definition enter_registers :: "interruption_pointer \<Rightarrow> sysdarft_register_t \<Rightarrow> sysdarft_register_t" where
  "enter_registers loc r = r\<lparr>FlagRegister := masked (FlagRegister r),
     CodeBase := InterruptionTargetCodeBase loc,
     InstructionPointer := InterruptionTargetInstructionPointer loc\<rparr>"

lemma dispatch_ok:
  assumes "table_inv s" and "room_for_frame s" and "code < 256"
  shows "\<exists>m. dispatch_interruption code (FlagRegister (Registers s)) s =
      (Inr (masked (FlagRegister (Registers s))), s\<lparr>Memory := m,
        Registers := enter_registers (vector_entry s code)
          ((Registers s)\<lparr>StackPointer := StackPointer (Registers s) - 256\<rparr>)\<rparr>)
    \<and> writes_bytes s (frame_address s) (register_bytes (Registers s)) (s\<lparr>Memory := m\<rparr>)"
proof -
  have "mem_inv s" using assms(1) by (simp add: table_inv_def)
  from preserve_ok [OF this assms(2)] lookup_ok [OF assms(1,3)] show ?thesis
    by (auto simp: dispatch_interruption_def bindR_def thenR_def tryR_def mask_fg_def Let_def
        do_jump_table_def returnR_def masked_def enter_registers_def)
qed

lemma do_stackoverflow_ok:
  assumes "table_inv s"
  shows "do_stackoverflow_0x07 s =
    (Inr (), s\<lparr>Registers := enter_registers (vector_entry s 7) (Registers s)\<rparr>)"
  using lookup_ok [OF assms, of 7]
  by (simp add: do_stackoverflow_0x07_def bindR_def thenR_def set_mask_def do_jump_table_def
      enter_registers_def masked_def)

lemma dispatch_overflows:
  assumes "table_inv s" and "unat (StackPointer (Registers s)) < 256" and "code < 256"
  shows "dispatch_interruption code (FlagRegister (Registers s)) s =
    (Inl SubroutineAbort, s\<lparr>Registers := enter_registers (vector_entry s 7) (Registers s)\<rparr>)"
proof -
  have "mem_inv s" using assms(1) by (simp add: table_inv_def)
  from preserve_overflows [OF this assms(2)] lookup_ok [OF assms(1,3)] do_stackoverflow_ok [OF assms(1)]
  show ?thesis
    by (simp add: dispatch_interruption_def bindR_def thenR_def tryR_def mask_fg_def Let_def
        returnR_def throwR_def masked_def enter_registers_def)
qed

text \<open>The codes the hardware serves itself.\<close>

definition served_by_hardware :: "u64 \<Rightarrow> bool" where
  "served_by_hardware code \<longleftrightarrow> code \<in> {0x00, 0x03, 0x07} \<or> 0x10 \<le> code \<and> code \<le> 0x19"

lemma report_interruption_simps [simp]:
  "Registers (report_interruption code s) = Registers s" "Memory (report_interruption code s) = Memory s"
  "TotalMemory (report_interruption code s) = TotalMemory s"
  by (simp_all add: report_interruption_def Let_def cleanup_def start_again_def render_screen_def
      recalc_offsets_def)

lemma report_interruption_quiet: "\<not> verbose s \<Longrightarrow> report_interruption code s = s"
  by (simp add: report_interruption_def)

text \<open>
  An interruption that goes through the table: a masked one above \<open>0x1F\<close> is dropped; every
  other one is dispatched once. The second test of the mask sees the copy of the flags that
  the dispatch has set.
\<close>

lemma do_interruption_dispatch:
  assumes "\<not> served_by_hardware code" and "code \<le> 256"
    and "code \<le> 0x1F \<or> \<not> InterruptionMask (FlagRegister (Registers s))"
    and "dispatch_interruption code (FlagRegister (Registers s)) (if code \<le> 0x1F then report_interruption code s else s)
      = (r, s')"
    and "\<And>fg. r = Inr fg \<Longrightarrow> InterruptionMask fg"
  shows "do_interruption code s = (case r of Inl e \<Rightarrow> Inl e | Inr _ \<Rightarrow> Inr (), s')"
proof -
  have "\<not> code > MAX_INTERRUPTION_ENTRY" using assms(2) by (simp add: layout_defs)
  moreover have "code \<notin> {0x00, 0x03, 0x07, 0x10, 0x11, 0x12, 0x13, 0x14, 0x15, 0x16, 0x17, 0x18, 0x19}"
    using assms(1) by (auto simp: served_by_hardware_def)
  ultimately show ?thesis
    using assms(3-5)
    by (cases r) (auto simp: do_interruption_def Let_def bindR_def thenR_def returnR_def split: if_splits)
qed

lemma same_memory_views:
  fixes s s' :: "'z interruption_state_scheme"
  assumes "Registers s' = Registers s" "Memory s' = Memory s" "TotalMemory s' = TotalMemory s"
  shows "table_inv s' = table_inv s" "room_for_frame s' = room_for_frame s"
    "vector_entry s' code = vector_entry s code" "frame_address s' = frame_address s"
    "flat s' = flat s" "mem_inv s' = mem_inv s"
proof -
  show f: "flat s' = flat s" using assms by (simp add: fun_eq_iff flat_def)
  show m: "mem_inv s' = mem_inv s" using assms by (simp add: mem_inv_def)
  show "table_inv s' = table_inv s" "room_for_frame s' = room_for_frame s"
    "vector_entry s' code = vector_entry s code" "frame_address s' = frame_address s"
    using assms f m by (simp_all add: table_inv_def room_for_frame_def vector_entry_def frame_address_def)
qed

lemmas report_views [simp] = same_memory_views [OF report_interruption_simps]

lemma iret_restores:
  assumes "mem_inv s" and "room_for_frame s\<^sub>0" and "TotalMemory s = TotalMemory s\<^sub>0"
    and "StackBase (Registers s) = StackBase (Registers s\<^sub>0)"
    and "StackPointer (Registers s) = StackPointer (Registers s\<^sub>0) - 256"
    and "map (flat s) [frame_address s\<^sub>0..<frame_address s\<^sub>0 + 256] = register_bytes r"
  shows "do_iret s = (Inr (), s\<lparr>Registers := r\<rparr>)"
proof -
  let ?b = "StackBase (Registers s)" and ?p = "StackPointer (Registers s)"
  have sp: "unat ?p = unat (StackPointer (Registers s\<^sub>0)) - 256"
    using assms(2,5) by (simp add: room_for_frame_def unat_sub word_le_nat_alt)
  then have fa: "unat ?b + unat ?p = frame_address s\<^sub>0"
    using assms(4) by (simp add: frame_address_def)
  moreover have "frame_address s\<^sub>0 + 256 \<le> unat (TotalMemory s)"
    using assms(2,3) by (simp add: room_for_frame_def frame_address_def)
  ultimately have "pop_memory_from 256 ?b ?p s = (Inr (register_bytes r, ?p + 256), s)"
    using pop_memory_from_ok [OF assms(1), of 256 ?b ?p] assms(6) by simp
  then show ?thesis by (simp add: do_iret_def bindR_def)
qed

section \<open>Properties\<close>

text \<open>
  C3: an interruption that goes through the table and is not masked saves the whole
  register file in the 256 bytes below the stack pointer, changes no other byte, sets the
  interruption mask and continues at the handler's address in the table, exactly once. When
  the handler has the stack pointer and base back and the saved frame is intact, \<open>iret\<close>
  restores every register, the mask and the stack pointer included.
\<close>

theorem interrupt_enter_and_return:
  assumes "table_inv s" and "room_for_frame s" and "code < 256" and "\<not> served_by_hardware code"
    and "code \<le> 0x1F \<or> \<not> InterruptionMask (FlagRegister (Registers s))"
  shows "\<exists>s'. do_interruption code s = (Inr (), s')
    \<and> Registers s' = enter_registers (vector_entry s code)
        ((Registers s)\<lparr>StackPointer := StackPointer (Registers s) - 256\<rparr>)
    \<and> (\<forall>a. a < frame_address s \<or> frame_address s + 256 \<le> a \<longrightarrow> flat s' a = flat s a)
    \<and> (\<forall>h. mem_inv h \<and> TotalMemory h = TotalMemory s
          \<and> StackBase (Registers h) = StackBase (Registers s')
          \<and> StackPointer (Registers h) = StackPointer (Registers s')
          \<and> (\<forall>a. frame_address s \<le> a \<and> a < frame_address s + 256 \<longrightarrow> flat h a = flat s' a)
          \<longrightarrow> do_iret h = (Inr (), h\<lparr>Registers := Registers s\<rparr>))"
proof -
  define s0 where "s0 = (if code \<le> 0x1F then report_interruption code s else s)"
  have views [simp]: "table_inv s0 = table_inv s" "room_for_frame s0 = room_for_frame s"
    "vector_entry s0 code = vector_entry s code" "frame_address s0 = frame_address s"
    "flat s0 = flat s" "Registers s0 = Registers s" "TotalMemory s0 = TotalMemory s"
    by (simp_all add: s0_def)
  from dispatch_ok [of s0 code] assms(1-3) obtain m where
    m: "dispatch_interruption code (FlagRegister (Registers s)) s0 =
      (Inr (masked (FlagRegister (Registers s))), s0\<lparr>Memory := m,
        Registers := enter_registers (vector_entry s code)
          ((Registers s)\<lparr>StackPointer := StackPointer (Registers s) - 256\<rparr>)\<rparr>)"
    and w: "writes_bytes s0 (frame_address s) (register_bytes (Registers s)) (s0\<lparr>Memory := m\<rparr>)"
    by auto
  define s' where "s' = s0\<lparr>Memory := m,
        Registers := enter_registers (vector_entry s code)
          ((Registers s)\<lparr>StackPointer := StackPointer (Registers s) - 256\<rparr>)\<rparr>"
  have "code \<le> 256" using assms(3) by simp
  from do_interruption_dispatch [OF assms(4) this assms(5), of "Inr (masked (FlagRegister (Registers s)))"
      s', folded s0_def] m
  have run: "do_interruption code s = (Inr (), s')" by (simp add: s'_def masked_def)
  have fl: "flat s' = flat_write (frame_address s) (register_bytes (Registers s)) (flat s)"
    using writes_bytes_flat [OF w] by (simp add: s'_def)
  have "do_iret h = (Inr (), h\<lparr>Registers := Registers s\<rparr>)"
    if h: "mem_inv h" "TotalMemory h = TotalMemory s" "StackBase (Registers h) = StackBase (Registers s')"
      "StackPointer (Registers h) = StackPointer (Registers s')"
      "\<forall>a. frame_address s \<le> a \<and> a < frame_address s + 256 \<longrightarrow> flat h a = flat s' a" for h
  proof (rule iret_restores [OF h(1) assms(2) h(2)])
    have "map (flat h) [frame_address s..<frame_address s + 256]
        = map (flat s') [frame_address s..<frame_address s + 256]"
      using h(5) by simp
    also have "\<dots> = register_bytes (Registers s)"
      using flat_write_same [of "frame_address s" "register_bytes (Registers s)" "flat s"]
      by (simp add: fl)
    finally show "map (flat h) [frame_address s..<frame_address s + 256]
        = register_bytes (Registers s)" .
  qed (use h in \<open>simp_all add: s'_def enter_registers_def\<close>)
  moreover have "\<forall>a. a < frame_address s \<or> frame_address s + 256 \<le> a \<longrightarrow> flat s' a = flat s a"
    by (simp add: fl flat_write_def)
  ultimately show ?thesis using run by (auto simp: s'_def)
qed

text \<open>
  C28: when the stack has no room for the register file, the interruption is given up: the
  CPU continues at the handler of the stack overflow with the interruptions masked, nothing
  is written to memory, no other register changes, and the current instruction is aborted.
\<close>

theorem interrupt_on_full_stack:
  assumes "table_inv s" and "unat (StackPointer (Registers s)) < 256" and "code < 256"
    and "\<not> served_by_hardware code" and "\<not> verbose s"
    and "code \<le> 0x1F \<or> \<not> InterruptionMask (FlagRegister (Registers s))"
  shows "do_interruption code s = (Inl SubroutineAbort,
    s\<lparr>Registers := (Registers s)
      \<lparr>FlagRegister := (FlagRegister (Registers s))\<lparr>InterruptionMask := True\<rparr>,
       CodeBase := InterruptionTargetCodeBase (vector_entry s 7),
       InstructionPointer := InterruptionTargetInstructionPointer (vector_entry s 7)\<rparr>\<rparr>)"
proof -
  have "code \<le> 256" using assms(3) by simp
  from do_interruption_dispatch [OF assms(4) this assms(6), of "Inl SubroutineAbort"]
    dispatch_overflows [OF assms(1-3)]
  show ?thesis
    using assms(5) by (simp add: report_interruption_quiet enter_registers_def masked_def)
qed

text \<open>
  C28: maskable interruptions are dropped without any effect while the mask is set, and
  codes outside the table are refused: \<open>SysdarftBadInterruption\<close> above 256, and
  \<open>SysdarftInterruptionOutOfRange\<close> for 256 itself, which the first check lets through.
\<close>

theorem interrupt_mask_and_range:
  "(0x1F < code \<and> code \<le> 256 \<and> InterruptionMask (FlagRegister (Registers s))
      \<longrightarrow> do_interruption code s = (Inr (), s))
   \<and> (256 < code \<longrightarrow> do_interruption code s = (Inl SysdarftBadInterruption, s))
   \<and> (\<not> InterruptionMask (FlagRegister (Registers s))
      \<longrightarrow> do_interruption 256 s = (Inl SysdarftInterruptionOutOfRange, s))"
proof (intro conjI impI)
  assume "\<not> InterruptionMask (FlagRegister (Registers s))"
  moreover have "dispatch_interruption 256 fg s = (Inl SysdarftInterruptionOutOfRange, s)" for fg
    by (simp add: dispatch_interruption_def bindR_def lookup_out_of_table)
  ultimately show "do_interruption 256 s = (Inl SysdarftInterruptionOutOfRange, s)"
    using do_interruption_dispatch [of 256 s] by (simp add: served_by_hardware_def)
qed (auto simp: do_interruption_def layout_defs throwR_def returnR_def Let_def)

text \<open>
  A machine with 1 MiB of zeroed memory and the given stack pointer, for the concrete
  instances.
\<close>

definition demo_machine :: "u64 \<Rightarrow> interruption_state" where
  "demo_machine sp = decoder_state.extend (ui_state.extend
     (mem_state.extend \<lparr>Memory = replicate 256 (\<lambda>_. 0), TotalMemory = 0x100000\<rparr>
       (ui_state.fields False False False False 0 0 0 0 True 0 0 False True False 0 [] ([], 0, 0)))
     (decoder_state.fields (new_registers\<lparr>StackPointer := sp\<rparr>)))
     (interruption_state.fields False [] False 0 0 False False False [] 25 80)"

lemmas demo_defs = demo_machine_def decoder_state.extend_def ui_state.extend_def mem_state.extend_def
  ui_state.fields_def decoder_state.fields_def interruption_state.fields_def

lemma demo_machine_simps [simp]:
  "table_inv (demo_machine sp)" "TotalMemory (demo_machine sp) = 0x100000"
  "mem_inv (demo_machine sp)" "Registers (demo_machine sp) = new_registers\<lparr>StackPointer := sp\<rparr>"
  "\<not> verbose (demo_machine sp)" "InterruptionMask (FlagRegister new_registers) = False"
  "StackBase new_registers = 0"
  by (simp_all add: demo_defs table_inv_def mem_inv_def BLOCK_SIZE_def new_registers_def new_flags_def)

theorem interrupt_enter_and_return_witness:
  "\<exists>s'. do_interruption 0x81 (demo_machine 0x1000) = (Inr (), s')
    \<and> StackPointer (Registers s') = 0xF00
    \<and> InterruptionMask (FlagRegister (Registers s'))"
  using interrupt_enter_and_return [of "demo_machine 0x1000" "0x81"]
  by (auto simp: room_for_frame_def served_by_hardware_def enter_registers_def masked_def)

theorem interrupt_on_full_stack_witness:
  "fst (do_interruption 0x02 (demo_machine 0x10)) = Inl SubroutineAbort"
  using interrupt_on_full_stack [of "demo_machine 0x10" 2]
  by (simp add: served_by_hardware_def)

theorem interrupt_mask_and_range_witness:
  "do_interruption 0x1FF (demo_machine 0) = (Inl SysdarftBadInterruption, demo_machine 0)
   \<and> do_interruption 256 (demo_machine 0) = (Inl SysdarftInterruptionOutOfRange, demo_machine 0)"
  using interrupt_mask_and_range [of 0 "demo_machine 0"] interrupt_mask_and_range [of "0x1FF" "demo_machine 0"]
  by simp

section \<open>Waiting for a key\<close>

text \<open>The loop stops in its next round.\<close>

definition awake :: "'z interruption_state_scheme \<Rightarrow> bool" where
  "awake s \<longleftrightarrow> SystemHalted s \<or> KeyboardIntAbort s \<or> CtrlZShutdownRequested s
     \<or> captured_input s \<noteq> []"

lemma getInput_awake:
  assumes "awake s" and "-1 \<notin> set (captured_input s)"
  shows "\<exists>s'. getInput_loop sched s = (Inr (), s')"
  using assms
  by (cases "captured_input s")
    (auto simp: awake_def getInput_loop.simps [of sched] get_input_def Let_def)

lemma env_step_awake:
  assumes "awake s \<or> (\<exists>k. e = KeyPressed k \<and> k \<noteq> -1)"
  shows "awake (env_step e s)"
  using assms
  by (cases e) (auto simp: awake_def gui_input_handler_def try_add_input_def do_ext_dev_interruption_def)

lemma env_step_inputs:
  assumes "-1 \<notin> set (captured_input s)" and "e \<noteq> InputAdded (-1)"
  shows "-1 \<notin> set (captured_input (env_step e s))"
  using assms
  by (cases e) (auto simp: gui_input_handler_def try_add_input_def do_ext_dev_interruption_def)

lemma fold_env_step_inputs:
  assumes "-1 \<notin> set (captured_input s)" and "InputAdded (-1) \<notin> set evs"
  shows "-1 \<notin> set (captured_input (fold env_step evs s))"
  using assms
proof (induction evs arbitrary: s)
  case (Cons e evs)
  then show ?case using env_step_inputs [of s e] by auto
qed simp

lemma fold_env_step_awake:
  assumes "awake s \<or> (\<exists>k. KeyPressed k \<in> set evs \<and> k \<noteq> -1)"
  shows "awake (fold env_step evs s)"
  using assms
proof (induction evs arbitrary: s)
  case (Cons e evs)
  then show ?case using env_step_awake [of s e] by auto
qed simp

lemma getInput_step:
  assumes "-1 \<notin> set (captured_input s)"
  shows "(\<exists>s'. getInput_loop (evs # rest) s = (Inr (), s'))
    \<or> getInput_loop (evs # rest) s
        = getInput_loop rest (fold env_step evs (s\<lparr>schedule := evs # rest\<rparr>))"
proof (cases "captured_input s")
  case (Cons k ks)
  then have "awake s" by (simp add: awake_def)
  with getInput_awake assms show ?thesis by blast
qed (auto simp: getInput_loop.simps [of "evs # rest"] get_input_def Let_def)

text \<open>
  Waiting for input ends. Whatever else the other threads do, if some key is pressed
  in the schedule the call returns: with a key in the register, or because of the halt,
  abort, shutdown, pause or device request that came first.
\<close>

theorem get_input_returns:
  assumes "-1 \<notin> set (captured_input s)" and "\<forall>evs\<in>set sched. InputAdded (-1) \<notin> set evs"
    and "\<exists>evs\<in>set sched. \<exists>k. KeyPressed k \<in> set evs \<and> k \<noteq> -1"
  shows "\<exists>s'. getInput_loop sched s = (Inr (), s')"
  using assms
proof (induction sched arbitrary: s)
  case (Cons evs rest)
  let ?s = "fold env_step evs (s\<lparr>schedule := evs # rest\<rparr>)"
  have inp: "-1 \<notin> set (captured_input ?s)"
    using Cons.prems(1,2) by (intro fold_env_step_inputs) simp_all
  have "\<exists>s'. getInput_loop rest ?s = (Inr (), s')"
  proof (cases "\<exists>k. KeyPressed k \<in> set evs \<and> k \<noteq> -1")
    case True
    then show ?thesis using fold_env_step_awake getInput_awake [OF _ inp] by blast
  next
    case False
    with Cons.prems Cons.IH [OF inp] show ?thesis by auto
  qed
  with getInput_step [OF Cons.prems(1), of evs rest] show ?case by auto
qed simp

theorem get_input_returns_witness:
  "\<exists>s'. getInput_loop [[], [DebuggerPause], [KeyPressed 65]] (demo_machine 0x1000) = (Inr (), s')"
  using get_input_returns [of "demo_machine 0x1000" "[[], [DebuggerPause], [KeyPressed 65]]"]
  by (auto simp: demo_defs)

end
