(* ===== verification/Executor_Base.thy ===== *)
theory Executor_Base
  imports Cpu_Interruption IO_Hub
begin

text \<open>
  What the instructions share (\<open>include/SysdarftInstructionExec.h\<close>,
  \<open>cpu/Operations/Helper.cpp\<close>): the state of the executor, pushing to and popping from the
  emulated stack, and the checks that trim a result to the operation width and set the
  arithmetic flags.
\<close>

section \<open>State\<close>

text \<open>
  \<open>SysdarftCPUInstructionExecutor\<close> adds the devices on the port bus; \<open>system_clock\<close> is
  the time the host's clock shows.
\<close>

(* include/SysdarftInstructionExec.h 37-38: SysdarftCPUInstructionExecutor *)
record executor_state = interruption_state +
  device_list :: "device list"
  system_clock :: int

type_synonym width_and_operands = "u8 \<times> operand list"

section \<open>The stack\<close>

(* include/SysdarftInstructionExec.h 43-63: push_stack *)
definition push_stack :: "u8 list \<Rightarrow> ('z executor_state_scheme, unit) run" where
  "push_stack val =
     bindR (load StackPointer) (\<lambda>SP.
     bindR (load StackBase) (\<lambda>SB.
     if SP < of_nat (length val) then throwR StackOverflow
     else let StackNewLowerEnd = SP - of_nat (length val)
       in thenR (tryR (write_memory (StackNewLowerEnd + SB) val (of_nat (length val)))
                   (\<lambda>e. if e = IllegalMemoryAccessException then throwR StackOverflow else throwR e))
            (store (\<lambda>r. r\<lparr>StackPointer := StackNewLowerEnd\<rparr>))))"

(* include/SysdarftInstructionExec.h 65-80: pop_stack *)
definition pop_stack :: "nat \<Rightarrow> ('z executor_state_scheme, u8 list) run" where
  "pop_stack n =
     bindR (load StackPointer) (\<lambda>SP.
     bindR (load StackBase) (\<lambda>SB.
     bindR (tryR (read_memory (SB + SP) (of_nat n))
              (\<lambda>e. if e = IllegalMemoryAccessException then throwR StackOverflow else throwR e)) (\<lambda>val.
     thenR (store (\<lambda>r. r\<lparr>StackPointer := SP + of_nat n\<rparr>)) (returnR val))))"

section \<open>Trimming results\<close>

text \<open>The mask of an operation width.\<close>

definition compliment :: "u8 \<Rightarrow> u64" where
  "compliment w = (if w = prefix_8bit then 0xFF else if w = prefix_16bit then 0xFFFF
     else if w = prefix_32bit then 0xFFFFFFFF else 0xFFFFFFFFFFFFFFFF)"

definition set_arithmetic_flags :: "bool \<Rightarrow> bool \<Rightarrow> ('z executor_state_scheme, unit) run" where
  "set_arithmetic_flags carry overflow =
     store (\<lambda>r. r\<lparr>FlagRegister := (FlagRegister r)\<lparr>Carry := carry, Overflow := overflow,
       Equal := False, LargerThan := False, LessThan := False\<rparr>\<rparr>)"

(* cpu/Operations/Helper.cpp 23-54: check_overflow *)
definition check_overflow :: "u8 \<Rightarrow> u128 \<Rightarrow> ('z executor_state_scheme, u64) run" where
  "check_overflow BCDWidth Value =
     (if \<not> is_width BCDWidth then throwR IllegalInstruction
      else thenR (if Value AND ucast (compliment BCDWidth) \<noteq> Value
                  then set_arithmetic_flags True False else set_arithmetic_flags False False)
             (returnR (ucast (Value AND ucast (compliment BCDWidth)))))"

text \<open>
  The template \<open>check_overflow_signed<SIZE>\<close>: whether the value, read as a signed 64-bit
  integer, is outside the range of the width, and its low bits.
\<close>

(* cpu/Operations/Helper.cpp 93-106: check_overflow_signed, template *)
definition signed_trim :: "u64 \<Rightarrow> bool \<times> 'a::len word" where
  "signed_trim val = (sint val > 2 ^ (LENGTH('a) - 1) - 1 \<or> sint val < - (2 ^ (LENGTH('a) - 1)), ucast val)"

(* cpu/Operations/Helper.cpp 108-158: check_overflow_signed *)
definition check_overflow_signed :: "u8 \<Rightarrow> u128 \<Rightarrow> ('z executor_state_scheme, u64) run" where
  "check_overflow_signed BCDWidth Value =
     (let val = ucast Value :: u64 in
      if BCDWidth = prefix_8bit then
        let (overflow, r) = signed_trim val :: bool \<times> u8
        in thenR (set_arithmetic_flags False overflow) (returnR (ucast r))
      else if BCDWidth = prefix_16bit then
        let (overflow, r) = signed_trim val :: bool \<times> u16
        in thenR (set_arithmetic_flags False overflow) (returnR (scast r))
      else if BCDWidth = prefix_32bit then
        let (overflow, r) = signed_trim val :: bool \<times> u32
        in thenR (set_arithmetic_flags False overflow) (returnR (scast r))
      else if BCDWidth = prefix_64bit then
        let (overflow, r) = signed_trim val :: bool \<times> u64
        in thenR (set_arithmetic_flags False overflow) (returnR r)
      else throwR IllegalInstruction)"

section \<open>Lemmas on the stack\<close>

lemma unat_plus_u64: "unat a + unat b < 2 ^ 64 \<Longrightarrow> unat (a + b) = unat a + unat b" for a b :: u64
  by (rule unat_plus_no_wrap) simp

lemma push_stack_ok:
  assumes inv: "mem_inv s" and val: "val \<noteq> []"
    and room: "length val \<le> unat (StackPointer (Registers s))"
    and top: "unat (StackBase (Registers s)) + unat (StackPointer (Registers s)) \<le> unat (TotalMemory s)"
  shows "\<exists>m. push_stack val s = (Inr (), s\<lparr>Memory := m, Registers := (Registers s)
        \<lparr>StackPointer := StackPointer (Registers s) - of_nat (length val)\<rparr>\<rparr>)
    \<and> writes_bytes s (unat (StackBase (Registers s)) + (unat (StackPointer (Registers s)) - length val))
        val (s\<lparr>Memory := m\<rparr>)"
proof -
  let ?p = "StackPointer (Registers s)" and ?b = "StackBase (Registers s)"
  let ?o = "?p - of_nat (length val)"
  have tm: "unat (TotalMemory s) < 2 ^ 63" using inv by (simp add: mem_inv_def)
  then have len: "unat (of_nat (length val) :: u64) = length val"
    using room top by (simp add: unat_of_nat_u64)
  have le: "\<not> ?p < of_nat (length val)" using room len by (simp add: word_less_nat_alt)
  then have o: "unat ?o = unat ?p - length val" using len by (metis linorder_not_less unat_sub)
  then have "unat ?o + unat ?b < 2 ^ 64" using top tm by simp
  then have "unat (?o + ?b) = unat ?o + unat ?b" by (rule unat_plus_u64)
  then have a: "unat (?o + ?b) = unat ?b + (unat ?p - length val)" using o by linarith
  have "in_memory s (?o + ?b) (length val)"
    using a top room val by (cases val) (auto simp: in_memory_def)
  from write_memory_flat [OF inv this order_refl] a obtain s' where s':
    "write_memory (?o + ?b) val (of_nat (length val)) s = (Inr (), s')"
    "writes_bytes s (unat ?b + (unat ?p - length val)) val s'" by auto
  then have "s' = s\<lparr>Memory := Memory s'\<rparr>" by (simp add: writes_bytes_def)
  moreover have "push_stack val s = (Inr (), s'\<lparr>Registers := (Registers s')\<lparr>StackPointer := ?o\<rparr>\<rparr>)"
    using le s'(1) by (simp add: push_stack_def Let_def tryR_def thenR_def bindR_def)
  ultimately show ?thesis using s'(2) writes_bytes_Registers [OF s'(2)] by metis
qed

lemma push_stack_overflows:
  assumes "unat (StackPointer (Registers s)) < length val" and "length val < 2 ^ 64"
  shows "push_stack val s = (Inl StackOverflow, s)"
  using assms by (simp add: push_stack_def word_less_nat_alt unat_of_nat_u64 throwR_def)

lemma pop_stack_ok:
  assumes inv: "mem_inv s" and n: "0 < n"
    and top: "unat (StackBase (Registers s)) + unat (StackPointer (Registers s)) + n \<le> unat (TotalMemory s)"
  shows "pop_stack n s = (Inr (map (flat s) [unat (StackBase (Registers s)) + unat (StackPointer (Registers s))..<
        unat (StackBase (Registers s)) + unat (StackPointer (Registers s)) + n]),
      s\<lparr>Registers := (Registers s)\<lparr>StackPointer := StackPointer (Registers s) + of_nat n\<rparr>\<rparr>)"
proof -
  let ?p = "StackPointer (Registers s)" and ?b = "StackBase (Registers s)"
  have "unat (TotalMemory s) < 2 ^ 63" using inv by (simp add: mem_inv_def)
  then have a: "unat (?b + ?p) = unat ?b + unat ?p"
    using top by (simp add: unat_plus_no_wrap)
  have "in_memory s (?b + ?p) n" using a top n by (simp add: in_memory_def)
  from read_memory_flat [OF inv this] a show ?thesis
    by (simp add: pop_stack_def tryR_def bindR_def thenR_def returnR_def)
qed

lemma pop_stack_written:
  assumes inv: "mem_inv s" and val: "val \<noteq> []"
    and top: "unat (StackBase (Registers s)) + unat (StackPointer (Registers s)) + length val
      \<le> unat (TotalMemory s)"
    and w: "map (flat s) [unat (StackBase (Registers s)) + unat (StackPointer (Registers s))..<
        unat (StackBase (Registers s)) + unat (StackPointer (Registers s)) + length val] = val"
  shows "pop_stack (length val) s =
    (Inr val, s\<lparr>Registers := (Registers s)\<lparr>StackPointer := StackPointer (Registers s) + of_nat (length val)\<rparr>\<rparr>)"
  using pop_stack_ok [OF inv _ top] val w by simp

section \<open>Lemmas on the flags\<close>

lemma compliment_mask:
  assumes "is_width w"
  shows "compliment w = mask (8 * width_bytes w)"
  using assms by (cases rule: is_width_cases) (simp_all add: compliment_def mask_eq_exp_minus_1)

definition arithmetic_flags :: "bool \<Rightarrow> bool \<Rightarrow> flag_register \<Rightarrow> flag_register" where
  "arithmetic_flags c v f = f\<lparr>Carry := c, Overflow := v, Equal := False, LargerThan := False,
     LessThan := False\<rparr>"

lemma set_arithmetic_flags_run [simp]:
  "set_arithmetic_flags c v s = (Inr (), s\<lparr>Registers := (Registers s)
     \<lparr>FlagRegister := arithmetic_flags c v (FlagRegister (Registers s))\<rparr>\<rparr>)"
  by (simp add: set_arithmetic_flags_def arithmetic_flags_def)

lemma check_overflow_run:
  assumes "is_width w"
  shows "check_overflow w v s = (Inr (truncate_to w (ucast v)), s\<lparr>Registers := (Registers s)
     \<lparr>FlagRegister := arithmetic_flags (2 ^ (8 * width_bytes w) \<le> unat v) False
        (FlagRegister (Registers s))\<rparr>\<rparr>)"
proof -
  have n: "8 * width_bytes w \<le> 64" using width_bytes_bounds [of w] by simp
  have m: "v AND ucast (compliment w) = take_bit (8 * width_bytes w) v"
    using n by (intro bit_word_eqI)
      (auto simp: compliment_mask [OF assms] bit_and_iff bit_ucast_iff bit_mask_iff bit_take_bit_iff)
  have "take_bit (8 * width_bytes w) v = v \<longleftrightarrow> take_bit (8 * width_bytes w) (unat v) = unat v"
    unfolding word_unat_eq_iff unsigned_take_bit_eq ..
  then have "take_bit (8 * width_bytes w) v \<noteq> v \<longleftrightarrow> 2 ^ (8 * width_bytes w) \<le> unat v"
    by (simp add: take_bit_nat_eq_self_iff not_less)
  moreover have "ucast (take_bit (8 * width_bytes w) v) = truncate_to w (ucast v)"
    unfolding truncate_to_def
    by (rule bit_word_eqI) (auto simp: bit_ucast_iff bit_take_bit_iff)
  ultimately show ?thesis
    using assms by (simp add: check_overflow_def m thenR_def bindR_def returnR_def)
qed

text \<open>A machine with 1 MiB of zeroed memory and the given registers, for the concrete instances.\<close>

definition demo_executor :: "sysdarft_register_t \<Rightarrow> executor_state" where
  "demo_executor r = (interruption_state.extend (demo_machine 0) (executor_state.fields [] 0))\<lparr>Registers := r\<rparr>"

lemma demo_executor_simps [simp]:
  "Registers (demo_executor r) = r" "TotalMemory (demo_executor r) = 0x100000"
  "mem_inv (demo_executor r)" "table_inv (demo_executor r)" "\<not> verbose (demo_executor r)"
  "device_list (demo_executor r) = []"
  by (simp_all add: demo_executor_def demo_defs interruption_state.extend_def executor_state.fields_def
      table_inv_def mem_inv_def BLOCK_SIZE_def)

end
