(* ===== verification/Ops_Arithmetic.thy ===== *)
theory Ops_Arithmetic
  imports Executor_Base "HOL-Library.Signed_Division"
begin

text \<open>
  The arithmetic instructions (\<open>cpu/Operations/Arithmetic.cpp\<close>). The C++ code computes in
  \<open>uint64_t\<close> or \<open>int64_t\<close> and widens the result to 128 bits for the check; so do the
  definitions. \<open>second[0]\<close> and \<open>second[1]\<close> are the operands the decoder delivers.
\<close>

section \<open>Instructions\<close>

(* cpu/Operations/Arithmetic.cpp 23-29: add *)
definition exec_add :: "width_and_operands \<Rightarrow> ('z executor_state_scheme, unit) run" where
  "exec_add wo =
     bindR (get_val (snd wo ! 0)) (\<lambda>operand1.
     bindR (get_val (snd wo ! 1)) (\<lambda>operand2.
     let result = ucast (operand1 + operand2) :: u128
     in bindR (check_overflow (fst wo) result) (set_val (snd wo ! 0))))"

(* cpu/Operations/Arithmetic.cpp 31-38: adc *)
definition exec_adc :: "width_and_operands \<Rightarrow> ('z executor_state_scheme, unit) run" where
  "exec_adc wo =
     bindR (get_val (snd wo ! 0)) (\<lambda>operand1.
     bindR (get_val (snd wo ! 1)) (\<lambda>operand2.
     bindR (load (\<lambda>r. Carry (FlagRegister r))) (\<lambda>CF.
     let result = ucast (operand1 + operand2 + of_bool CF) :: u128
     in bindR (check_overflow (fst wo) result) (set_val (snd wo ! 0)))))"

(* cpu/Operations/Arithmetic.cpp 40-46: sub *)
definition exec_sub :: "width_and_operands \<Rightarrow> ('z executor_state_scheme, unit) run" where
  "exec_sub wo =
     bindR (get_val (snd wo ! 0)) (\<lambda>operand1.
     bindR (get_val (snd wo ! 1)) (\<lambda>operand2.
     let result = ucast (operand1 - operand2) :: u128
     in bindR (check_overflow (fst wo) result) (set_val (snd wo ! 0))))"

(* cpu/Operations/Arithmetic.cpp 48-55: sbb *)
definition exec_sbb :: "width_and_operands \<Rightarrow> ('z executor_state_scheme, unit) run" where
  "exec_sbb wo =
     bindR (get_val (snd wo ! 0)) (\<lambda>operand1.
     bindR (get_val (snd wo ! 1)) (\<lambda>operand2.
     bindR (load (\<lambda>r. Carry (FlagRegister r))) (\<lambda>CF.
     let result = ucast (operand1 - operand2 - of_bool CF) :: u128
     in bindR (check_overflow (fst wo) result) (set_val (snd wo ! 0)))))"

text \<open>
  The switches over the width at the start and the end of the multiplications and
  divisions: register 0 of the class, zero-extended, and the stores to registers 0 and 1.
\<close>

(* cpu/Operations/Arithmetic.cpp 91-98: mul, TargetRegister0 *)
definition target_register0 :: "u8 \<Rightarrow> ('z executor_state_scheme, u64) run" where
  "target_register0 w =
     (if w = prefix_8bit then load (\<lambda>r. ucast (R0 r))
      else if w = prefix_16bit then load (\<lambda>r. ucast (get_EXR0 r))
      else if w = prefix_32bit then load (\<lambda>r. ucast (get_HER0 r))
      else if w = prefix_64bit then load get_FER0
      else throwR IllegalInstruction)"

text \<open>The mask that \<open>imul\<close> and \<open>idiv\<close> OR into register 0.\<close>

(* cpu/Operations/Arithmetic.cpp 59-66: imul, TargetRegister0 *)
definition signed_target_register0 :: "u8 \<Rightarrow> ('z executor_state_scheme, u64) run" where
  "signed_target_register0 w =
     (if w = prefix_8bit then load (\<lambda>r. ucast (R0 r) OR 0xFFFFFFFFFFFFFF00)
      else if w = prefix_16bit then load (\<lambda>r. ucast (get_EXR0 r) OR 0xFFFFFFFFFFFF0000)
      else if w = prefix_32bit then load (\<lambda>r. ucast (get_HER0 r) OR 0xFFFFFFFF00000000)
      else if w = prefix_64bit then load get_FER0
      else throwR IllegalInstruction)"

(* cpu/Operations/Arithmetic.cpp 107-113: mul, store *)
definition store_register0 :: "u8 \<Rightarrow> u64 \<Rightarrow> ('z executor_state_scheme, unit) run" where
  "store_register0 w v =
     (if w = prefix_8bit then store (\<lambda>r. r\<lparr>R0 := ucast v\<rparr>)
      else if w = prefix_16bit then store (put_EXR0 (ucast v))
      else if w = prefix_32bit then store (put_HER0 (ucast v))
      else if w = prefix_64bit then store (put_FER0 v)
      else throwR IllegalInstruction)"

(* cpu/Operations/Arithmetic.cpp 198-216: div, store *)
definition store_registers01 :: "u8 \<Rightarrow> u64 \<Rightarrow> u64 \<Rightarrow> ('z executor_state_scheme, unit) run" where
  "store_registers01 w v1 v2 =
     (if w = prefix_8bit then thenR (store (\<lambda>r. r\<lparr>R0 := ucast v1\<rparr>)) (store (\<lambda>r. r\<lparr>R1 := ucast v2\<rparr>))
      else if w = prefix_16bit then thenR (store (put_EXR0 (ucast v1))) (store (put_EXR1 (ucast v2)))
      else if w = prefix_32bit then thenR (store (put_HER0 (ucast v1))) (store (put_HER1 (ucast v2)))
      else if w = prefix_64bit then thenR (store (put_FER0 v1)) (store (put_FER1 v2))
      else throwR IllegalInstruction)"

definition fits_int64 :: "int \<Rightarrow> bool" where
  "fits_int64 i \<longleftrightarrow> - (2 ^ 63) \<le> i \<and> i < 2 ^ 63"

text \<open>A positive result is checked as unsigned, any other as signed.\<close>

definition check_signed_result :: "u8 \<Rightarrow> int \<Rightarrow> ('z executor_state_scheme, u64) run" where
  "check_signed_result w result =
     (if result > 0 then check_overflow w (of_int result) else check_overflow_signed w (of_int result))"

(* cpu/Operations/Arithmetic.cpp 57-87: imul *)
definition exec_imul :: "width_and_operands \<Rightarrow> ('z executor_state_scheme, unit) run" where
  "exec_imul wo =
     bindR (signed_target_register0 (fst wo)) (\<lambda>TargetRegister0.
     bindR (get_val (snd wo ! 0)) (\<lambda>operand1.
     let factor = sint operand1; base = sint TargetRegister0; signed_result = factor * base
     in if \<not> fits_int64 signed_result then throwR UndefinedBehaviour
        else bindR (check_signed_result (fst wo) signed_result) (store_register0 (fst wo))))"

(* cpu/Operations/Arithmetic.cpp 89-114: mul *)
definition exec_mul :: "width_and_operands \<Rightarrow> ('z executor_state_scheme, unit) run" where
  "exec_mul wo =
     bindR (target_register0 (fst wo)) (\<lambda>TargetRegister0.
     bindR (get_val (snd wo ! 0)) (\<lambda>operand1.
     let result = ucast (operand1 * TargetRegister0) :: u128
     in bindR (check_overflow (fst wo) result) (store_register0 (fst wo))))"

(* cpu/Operations/Arithmetic.cpp 116-170: idiv *)
definition exec_idiv :: "width_and_operands \<Rightarrow> ('z executor_state_scheme, unit) run" where
  "exec_idiv wo =
     bindR (signed_target_register0 (fst wo)) (\<lambda>TargetRegister0.
     bindR (get_val (snd wo ! 0)) (\<lambda>operand1.
     let factor = sint operand1; base = sint TargetRegister0
     in if factor = 0 then do_interruption 0x01
        else if \<not> fits_int64 (base sdiv factor) then throwR UndefinedBehaviour
        else bindR (check_signed_result (fst wo) (base sdiv factor)) (\<lambda>quotient.
             bindR (check_signed_result (fst wo) (base smod factor)) (\<lambda>remainder.
             store_registers01 (fst wo) quotient remainder))))"

(* cpu/Operations/Arithmetic.cpp 172-217: div *)
definition exec_div :: "width_and_operands \<Rightarrow> ('z executor_state_scheme, unit) run" where
  "exec_div wo =
     bindR (target_register0 (fst wo)) (\<lambda>TargetRegister0.
     bindR (get_val (snd wo ! 0)) (\<lambda>operand1.
     let factor = operand1; base = TargetRegister0
     in if factor = 0 then do_interruption 0x01
        else bindR (check_overflow (fst wo) (ucast (base div factor))) (\<lambda>quotient.
             bindR (check_overflow (fst wo) (ucast (base mod factor))) (\<lambda>remainder.
             store_registers01 (fst wo) quotient remainder))))"

(* cpu/Operations/Arithmetic.cpp 219-225: neg *)
definition exec_neg :: "width_and_operands \<Rightarrow> ('z executor_state_scheme, unit) run" where
  "exec_neg wo =
     bindR (get_val (snd wo ! 0)) (\<lambda>operand1.
     thenR (set_val (snd wo ! 0) (- operand1))
     (thenR (check_overflow prefix_8bit 0) (returnR ())))"

(* cpu/Operations/Arithmetic.cpp 227-250: cmp *)
definition exec_cmp :: "width_and_operands \<Rightarrow> ('z executor_state_scheme, unit) run" where
  "exec_cmp wo =
     bindR (get_val (snd wo ! 0)) (\<lambda>operand1.
     bindR (get_val (snd wo ! 1)) (\<lambda>operand2.
     bindR (load FlagRegister) (\<lambda>FG.
     thenR (check_overflow prefix_8bit 0)
     (let FG' = (if operand1 > operand2 then FG\<lparr>LargerThan := True, LessThan := False, Equal := False\<rparr>
        else if operand1 = operand2 then FG\<lparr>LargerThan := False, LessThan := False, Equal := True\<rparr>
        else if operand1 < operand2 then FG\<lparr>LargerThan := False, LessThan := True, Equal := False\<rparr>
        else FG)
      in store (\<lambda>r. r\<lparr>FlagRegister := FG'\<rparr>)))))"

(* cpu/Operations/Arithmetic.cpp 252-257: inc *)
definition exec_inc :: "width_and_operands \<Rightarrow> ('z executor_state_scheme, unit) run" where
  "exec_inc wo =
     bindR (get_val (snd wo ! 0)) (\<lambda>operand1.
     bindR (check_overflow (fst wo) (ucast (operand1 + 1))) (set_val (snd wo ! 0)))"

(* cpu/Operations/Arithmetic.cpp 259-264: dec *)
definition exec_dec :: "width_and_operands \<Rightarrow> ('z executor_state_scheme, unit) run" where
  "exec_dec wo =
     bindR (get_val (snd wo ! 0)) (\<lambda>operand1.
     bindR (check_overflow (fst wo) (ucast (operand1 - 1))) (set_val (snd wo ! 0)))"

section \<open>Writing back a checked result\<close>

lemma store_class_flags:
  "store_Register i a r = Inr r' \<Longrightarrow> FlagRegister r' = FlagRegister r"
  "store_ExtendedRegister i b r = Inr r' \<Longrightarrow> FlagRegister r' = FlagRegister r"
  "store_HalfExtendedRegister i c r = Inr r' \<Longrightarrow> FlagRegister r' = FlagRegister r"
  "store_FullyExtendedRegister i d r = Inr r' \<Longrightarrow> FlagRegister r' = FlagRegister r"
  by (auto simp: store_Register_def store_ExtendedRegister_def store_HalfExtendedRegister_def
      store_FullyExtendedRegister_def alias_defs split: if_splits)

lemma store_register_flags:
  "store_value_to_register_based_on_table w i v r = Inr r' \<Longrightarrow> FlagRegister r' = FlagRegister r"
  unfolding store_value_to_register_based_on_table_def
  by (auto split: if_splits dest: store_class_flags)

lemma set_val_flags:
  assumes "mem_inv s" and "writable s x" and "set_val x v s = (Inr (), s')"
  shows "FlagRegister (Registers s') = FlagRegister (Registers s)"
proof (cases x)
  case (RegisterOperand w i)
  with assms(3) show ?thesis
    by (auto simp: write_register_run store_register_flags split: sum.splits)
next
  case (MemoryOperand a w)
  with assms memory_operand_write_read [OF assms(1), of w a v] show ?thesis
    by (auto simp: writes_bytes_Registers)
qed (use assms in simp)

lemma writable_Registers [simp]: "writable (s\<lparr>Registers := r\<rparr>) x = writable s x"
  by (cases x) simp_all

lemma truncate_to_idem [simp]: "truncate_to w (truncate_to w v) = truncate_to w v"
  by (simp add: truncate_to_def)

text \<open>
  The common end of the two-operand instructions: the result is trimmed to the width of the
  operation, the flags tell whether bits were lost, and the operand holds the trimmed value.
\<close>

lemma check_and_set:
  assumes "mem_inv s" and "writable s x" and "is_width w" and "operand_width x = w"
  shows "\<exists>s'. bindR (check_overflow w v) (set_val x) s = (Inr (), s')
    \<and> get_val x s' = (Inr (truncate_to w (ucast v)), s')
    \<and> FlagRegister (Registers s') = arithmetic_flags (2 ^ (8 * width_bytes w) \<le> unat v) False
        (FlagRegister (Registers s))"
proof -
  let ?s1 = "s\<lparr>Registers := (Registers s)\<lparr>FlagRegister :=
    arithmetic_flags (2 ^ (8 * width_bytes w) \<le> unat v) False (FlagRegister (Registers s))\<rparr>\<rparr>"
  have inv: "mem_inv ?s1" and wr: "writable ?s1 x" using assms(1,2) by simp_all
  from set_val_get_val [OF inv wr, of "truncate_to w (ucast v)"] obtain s' where
    s': "set_val x (truncate_to w (ucast v)) ?s1 = (Inr (), s')"
      "get_val x s' = (Inr (truncate_to w (ucast v)), s')"
    using assms(4) by auto
  from set_val_flags [OF inv wr s'(1)]
  have "FlagRegister (Registers s') = arithmetic_flags (2 ^ (8 * width_bytes w) \<le> unat v) False
      (FlagRegister (Registers s))" by simp
  with s' check_overflow_run [OF assms(3), of v s] show ?thesis
    by (auto simp: bindR_def)
qed

lemma unat_ucast_u128 [simp]: "unat (ucast (a :: u64) :: u128) = unat a"
proof -
  have "unat a < 2 ^ 128" using unat_u64_less [of a] by (rule less_trans) simp
  then show ?thesis by (simp add: unsigned_ucast_eq take_bit_nat_eq_self)
qed

lemma ucast_u128_u64 [simp]: "ucast (ucast (a :: u64) :: u128) = a"
  by (rule bit_word_eqI) (simp add: bit_ucast_iff)

text \<open>A width narrower than the registers' 64 bits; there the carry can be seen.\<close>

definition narrow :: "u8 \<Rightarrow> bool" where
  "narrow w \<longleftrightarrow> w = prefix_8bit \<or> w = prefix_16bit \<or> w = prefix_32bit"

lemma narrow_width: "narrow w \<Longrightarrow> is_width w \<and> 8 * width_bytes w \<le> 32"
  by (auto simp: narrow_def)

lemma unat_truncate_to: "unat (truncate_to w v) = unat v mod 2 ^ (8 * width_bytes w)"
  unfolding truncate_to_def unsigned_take_bit_eq by (simp only: take_bit_eq_mod)

lemma truncate_to_of_int:
  "truncate_to w (of_int i) = of_int (i mod 2 ^ (8 * width_bytes w))"
proof -
  have "8 * width_bytes w \<le> 64" using width_bytes_bounds [of w] by simp
  then have "take_bit (8 * width_bytes w) (of_int i :: u64) = of_int (take_bit (8 * width_bytes w) i)"
    by (intro bit_word_eqI) (auto simp: bit_take_bit_iff bit_word_of_int_iff)
  then show ?thesis by (simp only: truncate_to_def take_bit_eq_mod)
qed

text \<open>Whether a result computed in 64 bits shows a carry out of a narrow width.\<close>

lemma narrow_carry:
  assumes "0 < n" and "n \<le> 32" and "- 8589934592 \<le> i" and "i < 8589934592"
  shows "2 ^ n \<le> unat (of_int i :: u64) \<longleftrightarrow> i < 0 \<or> 2 ^ n \<le> i"
proof -
  have n: "(2::int) ^ n \<le> 2 ^ 32" using assms(2) by (rule power_increasing) simp
  have u: "2 ^ n \<le> unat (of_int i :: u64) \<longleftrightarrow> 2 ^ n \<le> i mod 2 ^ 64"
  proof -
    have "2 ^ n \<le> unat (of_int i :: u64) \<longleftrightarrow> int (2 ^ n) \<le> uint (of_int i :: u64)"
      unfolding uint_nat [symmetric] by (metis of_nat_le_iff uint_nat)
    then show ?thesis by (simp add: uint_word_of_int)
  qed
  show ?thesis
  proof (cases "i < 0")
    case True
    then have "(i + 2 ^ 64) mod 2 ^ 64 = i + 2 ^ 64"
      using assms(3) by (intro mod_pos_pos_trivial) simp_all
    then have "i mod 2 ^ 64 = i + 2 ^ 64" by simp
    with True assms(3) n show ?thesis by (simp add: u)
  next
    case False
    then have "i mod 2 ^ 64 = i" using assms(4) by (simp add: mod_pos_pos_trivial)
    with False show ?thesis by (simp add: u)
  qed
qed

section \<open>Properties\<close>

text \<open>
  The instructions that compute an integer from their operands, write it back at a narrow
  width and report the carry.
\<close>

definition narrow_result :: "u8 \<Rightarrow> operand \<Rightarrow> int \<Rightarrow> 'z executor_state_scheme \<Rightarrow>
    (cpu_error + unit) \<times> 'z executor_state_scheme \<Rightarrow> bool" where
  "narrow_result w x i s out \<longleftrightarrow> (\<exists>s'. out = (Inr (), s')
     \<and> get_val x s' = (Inr (of_int (i mod 2 ^ (8 * width_bytes w))), s')
     \<and> FlagRegister (Registers s') =
         arithmetic_flags (i < 0 \<or> 2 ^ (8 * width_bytes w) \<le> i) False (FlagRegister (Registers s)))"

lemma narrow_result_check:
  assumes "mem_inv s" and "writable s x" and "narrow w" and "operand_width x = w"
    and "- 8589934592 \<le> i" and "i < 8589934592" and "v = of_int i"
  shows "narrow_result w x i s (bindR (check_overflow w (ucast (v :: u64))) (set_val x) s)"
proof -
  have w: "is_width w" "8 * width_bytes w \<le> 32" using narrow_width [OF assms(3)] by simp_all
  have c: "2 ^ (8 * width_bytes w) \<le> unat v \<longleftrightarrow> i < 0 \<or> 2 ^ (8 * width_bytes w) \<le> i"
    using narrow_carry [OF _ w(2) assms(5,6)] width_bytes_bounds [of w] assms(7) by simp
  have v: "truncate_to w v = of_int (i mod 2 ^ (8 * width_bytes w))"
    unfolding assms(7) by (rule truncate_to_of_int)
  from check_and_set [OF assms(1,2) w(1) assms(4), of "ucast v"] show ?thesis
    unfolding narrow_result_def unat_ucast_u128 ucast_u128_u64 c v .
qed

lemma operand_range:
  assumes "unat (a :: u64) < 2 ^ (8 * width_bytes w)" and "narrow w"
  shows "0 \<le> uint a \<and> uint a < 4294967296"
proof -
  have "(2::nat) ^ (8 * width_bytes w) \<le> 2 ^ 32"
    using narrow_width [OF assms(2)] by (intro power_increasing) simp_all
  with assms(1) have "unat a < 2 ^ 32" by (rule less_le_trans)
  then have "int (unat a) < int (2 ^ 32)" by (simp only: of_nat_less_iff)
  then show ?thesis by simp
qed

text \<open>
  C22: at 8, 16 and 32 bits, addition and subtraction with and without carry, increment and
  decrement compute modulo the width, write the result to the first operand, and set the
  carry flag exactly on unsigned overflow or borrow; the other arithmetic flags are cleared.
\<close>

theorem add_sub_narrow:
  assumes "mem_inv s" and "writable s x" and "narrow w" and "operand_width x = w"
    and "get_val x s = (Inr a, s)" and "get_val y s = (Inr b, s)"
    and "unat a < 2 ^ (8 * width_bytes w)" and "unat b < 2 ^ (8 * width_bytes w)"
  shows "narrow_result w x (uint a + uint b) s (exec_add (w, [x, y]) s)
    \<and> narrow_result w x (uint a + uint b + of_bool (Carry (FlagRegister (Registers s)))) s
        (exec_adc (w, [x, y]) s)
    \<and> narrow_result w x (uint a - uint b) s (exec_sub (w, [x, y]) s)
    \<and> narrow_result w x (uint a - uint b - of_bool (Carry (FlagRegister (Registers s)))) s
        (exec_sbb (w, [x, y]) s)
    \<and> narrow_result w x (uint a + 1) s (exec_inc (w, [x]) s)
    \<and> narrow_result w x (uint a - 1) s (exec_dec (w, [x]) s)"
proof -
  note r = operand_range [OF assms(7,3)] operand_range [OF assms(8,3)]
  note nr = narrow_result_check [OF assms(1-4)]
  let ?c = "of_bool (Carry (FlagRegister (Registers s))) :: int"
  have c: "0 \<le> ?c \<and> ?c \<le> 1" by simp
  note defs = exec_add_def exec_adc_def exec_sub_def exec_sbb_def exec_inc_def exec_dec_def
    load_def bindR_Inr [of "get_val x" s a s, OF assms(5)] bindR_Inr [of "get_val y" s b s, OF assms(6)] Let_def
  have "narrow_result w x (uint a + uint b) s (exec_add (w, [x, y]) s)"
  proof -
    have "- 8589934592 \<le> uint a + uint b" and "uint a + uint b < 8589934592" using r c by linarith+
    from nr [OF this, of "a + b"] show ?thesis by (simp add: defs)
  qed
  moreover have "narrow_result w x (uint a + uint b + ?c) s (exec_adc (w, [x, y]) s)"
  proof -
    have "- 8589934592 \<le> uint a + uint b + ?c" and "uint a + uint b + ?c < 8589934592" using r c by linarith+
    from nr [OF this, of "a + b + of_bool (Carry (FlagRegister (Registers s)))"] show ?thesis by (simp add: defs)
  qed
  moreover have "narrow_result w x (uint a - uint b) s (exec_sub (w, [x, y]) s)"
  proof -
    have "- 8589934592 \<le> uint a - uint b" and "uint a - uint b < 8589934592" using r c by linarith+
    from nr [OF this, of "a - b"] show ?thesis by (simp add: defs)
  qed
  moreover have "narrow_result w x (uint a - uint b - ?c) s (exec_sbb (w, [x, y]) s)"
  proof -
    have "- 8589934592 \<le> uint a - uint b - ?c" and "uint a - uint b - ?c < 8589934592" using r c by linarith+
    from nr [OF this, of "a - b - of_bool (Carry (FlagRegister (Registers s)))"] show ?thesis by (simp add: defs)
  qed
  moreover have "narrow_result w x (uint a + 1) s (exec_inc (w, [x]) s)"
  proof -
    have "- 8589934592 \<le> uint a + 1" and "uint a + 1 < 8589934592" using r c by linarith+
    from nr [OF this, of "a + 1"] show ?thesis by (simp add: defs)
  qed
  moreover have "narrow_result w x (uint a - 1) s (exec_dec (w, [x]) s)"
  proof -
    have "- 8589934592 \<le> uint a - 1" and "uint a - 1 < 8589934592" using r c by linarith+
    from nr [OF this, of "a - 1"] show ?thesis by (simp add: defs)
  qed
  ultimately show ?thesis by blast
qed

theorem add_sub_narrow_witness:
  "narrow_result prefix_8bit (RegisterOperand prefix_8bit 0) 300
     (demo_executor (new_registers\<lparr>R0 := 200\<rparr>))
     (exec_add (prefix_8bit, [RegisterOperand prefix_8bit 0, ConstantOperand 100 prefix_8bit])
       (demo_executor (new_registers\<lparr>R0 := 200\<rparr>)))"
  using add_sub_narrow [of "demo_executor (new_registers\<lparr>R0 := 200\<rparr>)" "RegisterOperand prefix_8bit 0"
      prefix_8bit 200 "ConstantOperand 100 prefix_8bit" 100, THEN conjunct1]
  by (simp add: valid_register_def narrow_def read_register_run do_access_register_based_on_table_def
      load_Register_def map_result_def returnR_def)

text \<open>
  C40: at 64 bits the sum and the difference wrap, and the carry flag is always cleared: the
  C++ code adds and subtracts in \<open>uint64_t\<close> before it widens the result to the 128 bits in
  which it looks for a carry.
\<close>

theorem add_sub_64bit_no_carry:
  assumes "mem_inv s" and "writable s x" and "operand_width x = prefix_64bit"
    and "get_val x s = (Inr a, s)" and "get_val y s = (Inr b, s)"
  shows "(\<exists>s'. exec_add (prefix_64bit, [x, y]) s = (Inr (), s')
        \<and> get_val x s' = (Inr (a + b), s') \<and> \<not> Carry (FlagRegister (Registers s')))
    \<and> (\<exists>s'. exec_sub (prefix_64bit, [x, y]) s = (Inr (), s')
        \<and> get_val x s' = (Inr (a - b), s') \<and> \<not> Carry (FlagRegister (Registers s')))"
proof -
  have "\<exists>s'. bindR (check_overflow prefix_64bit (ucast v)) (set_val x) s = (Inr (), s')
      \<and> get_val x s' = (Inr v, s') \<and> \<not> Carry (FlagRegister (Registers s'))" for v :: u64
    using check_and_set [OF assms(1,2) _ assms(3), of "ucast v"] unat_u64_less [of v]
    by (auto simp: truncate_to_simps arithmetic_flags_def)
  then show ?thesis
    using assms(4,5) by (simp add: exec_add_def exec_sub_def bindR_Inr)
qed

theorem add_sub_64bit_no_carry_witness:
  "\<exists>s'. exec_add (prefix_64bit, [RegisterOperand prefix_64bit R_DataBase, ConstantOperand 2 prefix_8bit])
       (demo_executor (new_registers\<lparr>DataBase := 0xFFFFFFFFFFFFFFFF\<rparr>)) = (Inr (), s')
    \<and> get_val (RegisterOperand prefix_64bit R_DataBase) s' = (Inr 1, s')
    \<and> \<not> Carry (FlagRegister (Registers s'))"
proof -
  have wrap: "0xFFFFFFFFFFFFFFFF + 2 = (1 :: u64)" by (simp add: word_uint_eq_iff)
  show ?thesis using add_sub_64bit_no_carry [of "demo_executor (new_registers\<lparr>DataBase := 0xFFFFFFFFFFFFFFFF\<rparr>)"
      "RegisterOperand prefix_64bit R_DataBase" "0xFFFFFFFFFFFFFFFF" "ConstantOperand 2 prefix_8bit" 2,
      THEN conjunct1, unfolded wrap]
  by (simp add: valid_register_def special_register_def read_register_run
      do_access_register_based_on_table_def special_register_defs returnR_def)
qed

subsection \<open>Comparison\<close>

lemma clear_flags_run:
  "thenR (check_overflow prefix_8bit 0) k s = k (s\<lparr>Registers := (Registers s)
     \<lparr>FlagRegister := arithmetic_flags False False (FlagRegister (Registers s))\<rparr>\<rparr>)"
  by (simp add: thenR_Inr [OF check_overflow_run])

text \<open>
  A comparison sets exactly one of the larger, less and equal flags, by the unsigned
  order of its operands. Every other flag, carry and overflow included, keeps its value: the
  flags that are stored are the copy taken before the arithmetic flags are cleared.
\<close>

theorem cmp_sets_order_flags:
  assumes "get_val x s = (Inr a, s)" and "get_val y s = (Inr b, s)"
  shows "exec_cmp (w, [x, y]) s = (Inr (), s\<lparr>Registers := (Registers s)\<lparr>FlagRegister :=
      (FlagRegister (Registers s))\<lparr>LargerThan := unat a > unat b, LessThan := unat a < unat b,
        Equal := (unat a = unat b)\<rparr>\<rparr>\<rparr>)"
  using assms
  by (simp add: exec_cmp_def bindR_Inr clear_flags_run load_def store_def word_less_nat_alt
      word_unat_eq_iff Let_def)

theorem cmp_sets_order_flags_witness:
  "\<exists>s'. exec_cmp (prefix_8bit, [ConstantOperand 3 prefix_8bit, ConstantOperand 5 prefix_8bit])
      (demo_executor new_registers) = (Inr (), s')
    \<and> LessThan (FlagRegister (Registers s')) \<and> \<not> Equal (FlagRegister (Registers s'))"
  using cmp_sets_order_flags [of "ConstantOperand 3 prefix_8bit" "demo_executor new_registers" 3
      "ConstantOperand 5 prefix_8bit" 5 prefix_8bit]
  by (simp add: returnR_def)

subsection \<open>Multiplication and division\<close>

lemma target_register0_run:
  assumes "is_width w"
  shows "target_register0 w s = (do_access_register_based_on_table w 0 (Registers s), s)"
  using assms by (cases rule: is_width_cases)
    (simp_all add: target_register0_def load_def do_access_register_based_on_table_def map_result_def
      load_Register_def load_ExtendedRegister_def load_HalfExtendedRegister_def
      load_FullyExtendedRegister_def)

lemma store_register0_run:
  assumes "is_width w"
  shows "\<exists>r. store_register0 w v s = (Inr (), s\<lparr>Registers := r\<rparr>)
    \<and> store_value_to_register_based_on_table w 0 v (Registers s) = Inr r"
  using assms by (cases rule: is_width_cases)
    (simp_all add: store_register0_def store_def store_value_to_register_based_on_table_def
      store_Register_def store_ExtendedRegister_def store_HalfExtendedRegister_def
      store_FullyExtendedRegister_def)

lemma store_registers01_run:
  assumes "is_width w"
  shows "\<exists>r r'. store_registers01 w v1 v2 s = (Inr (), s\<lparr>Registers := r'\<rparr>)
    \<and> store_value_to_register_based_on_table w 0 v1 (Registers s) = Inr r
    \<and> store_value_to_register_based_on_table w 1 v2 r = Inr r'
    \<and> do_access_register_based_on_table w 0 r' = do_access_register_based_on_table w 0 r"
  using assms by (cases rule: is_width_cases)
    (simp_all add: store_registers01_def store_def thenR_def store_value_to_register_based_on_table_def
      do_access_register_based_on_table_def map_result_def load_Register_def load_ExtendedRegister_def
      load_HalfExtendedRegister_def load_FullyExtendedRegister_def store_Register_def
      store_ExtendedRegister_def store_HalfExtendedRegister_def store_FullyExtendedRegister_def alias_defs)

lemma unat_u8_less: "unat (a :: u8) < 256"
  using unsigned_less [of a] by simp

lemma unat_u16_less: "unat (a :: u16) < 65536"
  using unsigned_less [of a] by simp

lemma unat_u32_less: "unat (a :: u32) < 4294967296"
  using unsigned_less [of a] by simp

lemma unat_ucast_u64 [simp]:
  "unat (ucast (a :: u8) :: u64) = unat a" "unat (ucast (b :: u16) :: u64) = unat b"
  "unat (ucast (c :: u32) :: u64) = unat c"
  using unat_u8_less [of a] unat_u16_less [of b] unat_u32_less [of c]
  by (simp_all add: unsigned_ucast_eq take_bit_nat_eq_self)

text \<open>A register holds a value of its class.\<close>

lemma register_value_range:
  assumes "do_access_register_based_on_table w i r = Inr a"
  shows "unat a < 2 ^ (8 * width_bytes w)"
  using assms unat_u64_less [of a]
  by (auto simp: do_access_register_based_on_table_def map_result_def unat_u8_less unat_u16_less
      unat_u32_less split: if_splits sum.splits)

lemma truncate_to_id: "unat v < 2 ^ (8 * width_bytes w) \<Longrightarrow> truncate_to w v = v"
  by (simp add: word_unat_eq_iff unat_truncate_to)

lemma arithmetic_flags_idem [simp]:
  "arithmetic_flags c v (arithmetic_flags c' v' f) = arithmetic_flags c v f"
  by (simp add: arithmetic_flags_def)

lemma valid_registers01: "is_width w \<Longrightarrow> valid_register w 0" "is_width w \<Longrightarrow> valid_register w 1"
  by (simp_all add: valid_register_def)

text \<open>
  The unsigned multiplication at 8, 16 and 32 bits leaves the low half of the product in
  register 0 of the class and sets the carry flag exactly when the product does not fit. No
  other register, and nothing outside the register file, changes its value.
\<close>

theorem mul_narrow:
  assumes "narrow w" and "do_access_register_based_on_table w 0 (Registers s) = Inr a"
    and "get_val x s = (Inr b, s)" and "unat b < 2 ^ (8 * width_bytes w)"
  shows "\<exists>r. exec_mul (w, [x]) s = (Inr (), s\<lparr>Registers := r\<rparr>)
    \<and> do_access_register_based_on_table w 0 r = Inr (of_nat (unat a * unat b mod 2 ^ (8 * width_bytes w)))
    \<and> FlagRegister r = arithmetic_flags (2 ^ (8 * width_bytes w) \<le> unat a * unat b) False
        (FlagRegister (Registers s))"
proof -
  let ?n = "8 * width_bytes w"
  have w: "is_width w" "?n \<le> 32" using narrow_width [OF assms(1)] by simp_all
  have "(2::nat) ^ ?n \<le> 2 ^ 32" using w(2) by (intro power_increasing) simp_all
  then have "unat a < 2 ^ 32" "unat b < 2 ^ 32"
    using register_value_range [OF assms(2)] assms(4) by linarith+
  then have "unat b * unat a < 2 ^ 32 * 2 ^ 32" by (intro mult_strict_mono) simp_all
  then have u: "unat (b * a) = unat a * unat b" by (simp add: unat_word_ariths mult.commute)
  let ?s1 = "s\<lparr>Registers := (Registers s)\<lparr>FlagRegister := arithmetic_flags (2 ^ ?n \<le> unat a * unat b) False
    (FlagRegister (Registers s))\<rparr>\<rparr>"
  have "check_overflow w (ucast (b * a)) s = (Inr (truncate_to w (b * a)), ?s1)"
    using check_overflow_run [OF w(1), of "ucast (b * a)" s] by (simp add: u)
  then have e: "exec_mul (w, [x]) s = store_register0 w (truncate_to w (b * a)) ?s1"
    using assms(2,3) by (simp add: exec_mul_def bindR_def target_register0_run [OF w(1)])
  from store_register0_run [OF w(1), of "truncate_to w (b * a)" ?s1] obtain r where
    r: "store_register0 w (truncate_to w (b * a)) ?s1 = (Inr (), ?s1\<lparr>Registers := r\<rparr>)"
      "store_value_to_register_based_on_table w 0 (truncate_to w (b * a)) (Registers ?s1) = Inr r" by blast
  have t: "truncate_to w (b * a) = of_nat (unat a * unat b mod 2 ^ ?n)"
    unfolding u [symmetric] unat_truncate_to [symmetric] by simp
  from register_write_read [OF valid_registers01(1) [OF w(1)], of "truncate_to w (b * a)" "Registers ?s1"] r(2)
  have "do_access_register_based_on_table w 0 r = Inr (of_nat (unat a * unat b mod 2 ^ ?n))"
    by (auto simp: t [symmetric])
  moreover from store_register_flags [OF r(2)]
  have "FlagRegister r = arithmetic_flags (2 ^ ?n \<le> unat a * unat b) False (FlagRegister (Registers s))"
    by simp
  ultimately show ?thesis using e r(1) by auto
qed

text \<open>
  C23: the unsigned division leaves quotient and remainder in registers 0 and 1 of the class,
  at every width, and clears the arithmetic flags; a zero divisor raises interruption 1,
  before any register is written.
\<close>

theorem div_quotient_remainder:
  assumes "is_width w" and "do_access_register_based_on_table w 0 (Registers s) = Inr a"
    and "get_val x s = (Inr b, s)"
  shows "(b \<noteq> 0 \<longrightarrow> (\<exists>r. exec_div (w, [x]) s = (Inr (), s\<lparr>Registers := r\<rparr>)
      \<and> do_access_register_based_on_table w 0 r = Inr (of_nat (unat a div unat b))
      \<and> do_access_register_based_on_table w 1 r = Inr (of_nat (unat a mod unat b))
      \<and> FlagRegister r = arithmetic_flags False False (FlagRegister (Registers s))))
    \<and> (b = 0 \<longrightarrow> exec_div (w, [x]) s = do_interruption 0x01 s)"
proof (cases "b = 0")
  case True
  then show ?thesis
    using assms by (simp add: exec_div_def target_register0_run bindR_def)
next
  case False
  let ?lim = "(2::nat) ^ (8 * width_bytes w)"
  have a: "unat a < ?lim" using register_value_range [OF assms(2)] .
  then have d: "unat (a div b) < ?lim" "unat (a mod b) < ?lim"
    by (simp_all add: unat_div_distrib unat_mod_distrib)
      (meson div_le_dividend le_less_trans, meson mod_less_eq_dividend le_less_trans)
  let ?s1 = "s\<lparr>Registers := (Registers s)\<lparr>FlagRegister := arithmetic_flags False False (FlagRegister (Registers s))\<rparr>\<rparr>"
  have e: "exec_div (w, [x]) s = store_registers01 w (a div b) (a mod b) ?s1"
    using assms False d
    by (simp add: exec_div_def target_register0_run bindR_def check_overflow_run truncate_to_id not_le)
  from store_registers01_run [OF assms(1), of "a div b" "a mod b" ?s1] obtain r r' where
    r: "store_registers01 w (a div b) (a mod b) ?s1 = (Inr (), ?s1\<lparr>Registers := r'\<rparr>)"
      "store_value_to_register_based_on_table w 0 (a div b) (Registers ?s1) = Inr r"
      "store_value_to_register_based_on_table w 1 (a mod b) r = Inr r'"
      "do_access_register_based_on_table w 0 r' = do_access_register_based_on_table w 0 r" by blast
  have u: "of_nat (unat a div unat b) = a div b" "of_nat (unat a mod unat b) = a mod b"
    unfolding unat_div_distrib [symmetric] unat_mod_distrib [symmetric] by simp_all
  have "exec_div (w, [x]) s = (Inr (), s\<lparr>Registers := r'\<rparr>)" using e r(1) by simp
  moreover have "do_access_register_based_on_table w 0 r' = Inr (of_nat (unat a div unat b))"
    using register_write_read [OF valid_registers01(1) [OF assms(1)], of "a div b" "Registers ?s1"] r(2,4) d(1)
    unfolding u by (auto simp: truncate_to_id)
  moreover have "do_access_register_based_on_table w 1 r' = Inr (of_nat (unat a mod unat b))"
    using register_write_read [OF valid_registers01(2) [OF assms(1)], of "a mod b" r] r(3) d(2)
    unfolding u by (auto simp: truncate_to_id)
  moreover have "FlagRegister r' = arithmetic_flags False False (FlagRegister (Registers s))"
    using store_register_flags [OF r(2)] store_register_flags [OF r(3)] by simp
  ultimately show ?thesis using False by blast
qed

lemmas register_eval = read_register_run do_access_register_based_on_table_def map_result_def
  load_Register_def load_ExtendedRegister_def load_HalfExtendedRegister_def
  load_FullyExtendedRegister_def valid_register_def

theorem mul_narrow_witness:
  "\<exists>r. exec_mul (prefix_8bit, [ConstantOperand 30 prefix_8bit]) (demo_executor (new_registers\<lparr>R0 := 20\<rparr>))
      = (Inr (), (demo_executor (new_registers\<lparr>R0 := 20\<rparr>))\<lparr>Registers := r\<rparr>)
    \<and> do_access_register_based_on_table prefix_8bit 0 r = Inr 88 \<and> Carry (FlagRegister r)"
  using mul_narrow [of prefix_8bit "demo_executor (new_registers\<lparr>R0 := 20\<rparr>)" 20
      "ConstantOperand 30 prefix_8bit" 30]
  by (auto simp: narrow_def register_eval returnR_def arithmetic_flags_def)

theorem div_quotient_remainder_witness:
  "(\<exists>r. exec_div (prefix_16bit, [ConstantOperand 7 prefix_16bit])
        (demo_executor (put_EXR0 1000 new_registers))
      = (Inr (), (demo_executor (put_EXR0 1000 new_registers))\<lparr>Registers := r\<rparr>)
    \<and> do_access_register_based_on_table prefix_16bit 0 r = Inr 142
    \<and> do_access_register_based_on_table prefix_16bit 1 r = Inr 6)
   \<and> exec_div (prefix_16bit, [ConstantOperand 0 prefix_16bit]) (demo_executor (put_EXR0 1000 new_registers))
      = do_interruption 0x01 (demo_executor (put_EXR0 1000 new_registers))"
proof -
  have a: "do_access_register_based_on_table prefix_16bit 0 (put_EXR0 1000 new_registers) = Inr 1000"
    by (simp add: do_access_register_based_on_table_def map_result_def load_ExtendedRegister_def alias_defs
        new_registers_def)
  show ?thesis
    using div_quotient_remainder [of prefix_16bit "demo_executor (put_EXR0 1000 new_registers)" 1000
        "ConstantOperand 7 prefix_16bit" 7]
      div_quotient_remainder [of prefix_16bit "demo_executor (put_EXR0 1000 new_registers)" 1000
        "ConstantOperand 0 prefix_16bit" 0] a
    by (auto simp: returnR_def)
qed

subsection \<open>Signed division\<close>

lemma sign_mask_8bit: "sint (ucast (r :: u8) OR 0xFFFFFFFFFFFFFF00 :: u64) = uint r - 256"
proof -
  have m: "(0xFFFFFFFFFFFFFF00 :: u64) = NOT (mask 8)" by (simp add: mask_eq_exp_minus_1)
  have "\<not> bit (ucast r :: u64) n \<or> \<not> bit (NOT (mask 8) :: u64) n" for n
    using bit_imp_le_length [of r n] by (auto simp: bit_ucast_iff bit_not_iff bit_mask_iff)
  then have "ucast r OR 0xFFFFFFFFFFFFFF00 = (ucast r + 0xFFFFFFFFFFFFFF00 :: u64)"
    unfolding m by (intro disjunctive_add [symmetric])
  also have "\<dots> = of_int (uint r - 256)" by simp
  finally have e: "ucast r OR 0xFFFFFFFFFFFFFF00 = (of_int (uint r - 256) :: u64)" .
  have "uint r < 256" and "0 \<le> uint r" using uint_lt2p [of r] by simp_all
  then have "signed_take_bit 63 (uint r - 256) = uint r - 256"
    by (intro signed_take_bit_int_eq_self) simp_all
  then show ?thesis unfolding e signed_of_int by (simp del: of_int_diff)
qed

lemma check_signed_result_8bit:
  assumes "i \<le> 0"
  shows "\<exists>c. check_signed_result prefix_8bit i s = (Inr (ucast (of_int i :: u8)), s\<lparr>Registers :=
    (Registers s)\<lparr>FlagRegister := arithmetic_flags False c (FlagRegister (Registers s))\<rparr>\<rparr>)"
proof -
  have u: "ucast (ucast (of_int i :: u128) :: u64) = (of_int i :: u8)"
    by (rule bit_word_eqI) (simp add: bit_ucast_iff bit_word_of_int_iff)
  show ?thesis
    using assms by (simp add: check_signed_result_def check_overflow_signed_def signed_trim_def
        thenR_def bindR_def returnR_def u Let_def) blast
qed

lemma ucast_u64_u8 [simp]: "ucast (ucast (a :: u8) :: u64) = a"
  by (rule bit_word_eqI) (simp add: bit_ucast_iff)

lemma sdiv_neg_range:
  assumes "b < 0" and "0 < (d::int)"
  shows "b \<le> b sdiv d" and "b sdiv d \<le> 0" and "b smod d \<le> 0"
proof -
  have q: "b sdiv d = - ((- b) div d)" using assms by (simp add: signed_divide_int_def)
  have "(- b) div d \<le> - b" and "0 \<le> (- b) div d"
    using assms int_div_le_self [of "- b" d] by (simp_all add: pos_imp_zdiv_nonneg_iff)
  then show "b \<le> b sdiv d" and "b sdiv d \<le> 0" by (simp_all add: q)
  have "b smod d = - ((- b) mod d)"
    using assms by (simp add: signed_modulo_int_def)
  then show "b smod d \<le> 0" using assms by simp
qed

text \<open>
  C39: the signed division at 8 bits takes every dividend as negative: the mask that
  extends the sign of register 0 is applied whether or not its sign bit is set, so the
  dividend is the register's value less 256. Six divided by two gives \<open>0x83\<close>.
\<close>

theorem idiv_8bit_dividend_negative:
  assumes "get_val x s = (Inr d, s)" and "0 < sint d"
  defines "base \<equiv> uint (R0 (Registers s)) - 256"
  shows "\<exists>r. exec_idiv (prefix_8bit, [x]) s = (Inr (), s\<lparr>Registers := r\<rparr>)
    \<and> R0 r = of_int (base sdiv sint d) \<and> R1 r = of_int (base smod sint d)"
proof -
  have b: "base < 0" "- 256 \<le> base" using uint_lt2p [of "R0 (Registers s)"] by (simp_all add: base_def)
  note q = sdiv_neg_range [OF b(1) assms(2)]
  have fits: "fits_int64 (base sdiv sint d)" using q(1,2) b by (simp add: fits_int64_def)
  from check_signed_result_8bit [OF q(2), of s] obtain c where c:
    "check_signed_result prefix_8bit (base sdiv sint d) s = (Inr (ucast (of_int (base sdiv sint d) :: u8)),
       s\<lparr>Registers := (Registers s)\<lparr>FlagRegister := arithmetic_flags False c (FlagRegister (Registers s))\<rparr>\<rparr>)"
    (is "_ = (_, ?s1)") by blast
  from check_signed_result_8bit [OF q(3), of ?s1] obtain c' where c':
    "check_signed_result prefix_8bit (base smod sint d) ?s1 = (Inr (ucast (of_int (base smod sint d) :: u8)),
       ?s1\<lparr>Registers := (Registers ?s1)\<lparr>FlagRegister := arithmetic_flags False c' (FlagRegister (Registers ?s1))\<rparr>\<rparr>)"
    (is "_ = (_, ?s2)") by blast
  have e: "exec_idiv (prefix_8bit, [x]) s = store_registers01 prefix_8bit
      (ucast (of_int (base sdiv sint d) :: u8)) (ucast (of_int (base smod sint d) :: u8)) ?s2"
    using assms(1,2) fits c c'
    by (simp add: exec_idiv_def signed_target_register0_def load_def bindR_def sign_mask_8bit base_def Let_def)
  show ?thesis unfolding e
    by (rule exI [of _ "(Registers ?s2)\<lparr>R0 := of_int (base sdiv sint d), R1 := of_int (base smod sint d)\<rparr>"])
      (simp add: store_registers01_def store_def)
qed

theorem idiv_8bit_dividend_negative_witness:
  "\<exists>r. exec_idiv (prefix_8bit, [ConstantOperand 2 prefix_8bit]) (demo_executor (new_registers\<lparr>R0 := 6\<rparr>))
      = (Inr (), (demo_executor (new_registers\<lparr>R0 := 6\<rparr>))\<lparr>Registers := r\<rparr>)
    \<and> R0 r = 0x83"
  using idiv_8bit_dividend_negative [of "ConstantOperand 2 prefix_8bit" "demo_executor (new_registers\<lparr>R0 := 6\<rparr>)" 2]
  by (auto simp: returnR_def signed_divide_int_def)

end
