(* ===== verification/Ops_Logic.thy ===== *)
theory Ops_Logic
  imports Ops_Arithmetic
begin

text \<open>
  The logical and bitwise instructions (\<open>cpu/Operations/LogicalAndBitwise.cpp\<close>). The
  templates over \<open>SIZE\<close> are polymorphic in the word length; \<open>1U\<close> is a 32-bit constant
  there, as it is in the source.
\<close>

section \<open>Instructions\<close>

(* cpu/Operations/LogicalAndBitwise.cpp 23-29: and_ *)
definition exec_and :: "width_and_operands \<Rightarrow> ('z executor_state_scheme, unit) run" where
  "exec_and wo =
     bindR (get_val (snd wo ! 0)) (\<lambda>operand1.
     bindR (get_val (snd wo ! 1)) (\<lambda>operand2.
     set_val (snd wo ! 0) (operand1 AND operand2)))"

(* cpu/Operations/LogicalAndBitwise.cpp 31-37: or_ *)
definition exec_or :: "width_and_operands \<Rightarrow> ('z executor_state_scheme, unit) run" where
  "exec_or wo =
     bindR (get_val (snd wo ! 0)) (\<lambda>operand1.
     bindR (get_val (snd wo ! 1)) (\<lambda>operand2.
     set_val (snd wo ! 0) (operand1 OR operand2)))"

(* cpu/Operations/LogicalAndBitwise.cpp 39-45: xor_ *)
definition exec_xor :: "width_and_operands \<Rightarrow> ('z executor_state_scheme, unit) run" where
  "exec_xor wo =
     bindR (get_val (snd wo ! 0)) (\<lambda>operand1.
     bindR (get_val (snd wo ! 1)) (\<lambda>operand2.
     set_val (snd wo ! 0) (operand1 XOR operand2)))"

(* cpu/Operations/LogicalAndBitwise.cpp 47-52: not_ *)
definition exec_not :: "width_and_operands \<Rightarrow> ('z executor_state_scheme, unit) run" where
  "exec_not wo = bindR (get_val (snd wo ! 0)) (\<lambda>operand1. set_val (snd wo ! 0) (NOT operand1))"

text \<open>A 64-bit value shifted by 64 or more is undefined in C++.\<close>

(* cpu/Operations/LogicalAndBitwise.cpp 54-60: shl *)
definition exec_shl :: "width_and_operands \<Rightarrow> ('z executor_state_scheme, unit) run" where
  "exec_shl wo =
     bindR (get_val (snd wo ! 0)) (\<lambda>operand1.
     bindR (get_val (snd wo ! 1)) (\<lambda>operand2.
     if unat operand2 \<ge> 64 then throwR UndefinedBehaviour
     else set_val (snd wo ! 0) (push_bit (unat operand2) operand1)))"

(* cpu/Operations/LogicalAndBitwise.cpp 62-68: shr *)
definition exec_shr :: "width_and_operands \<Rightarrow> ('z executor_state_scheme, unit) run" where
  "exec_shr wo =
     bindR (get_val (snd wo ! 0)) (\<lambda>operand1.
     bindR (get_val (snd wo ! 1)) (\<lambda>operand2.
     if unat operand2 \<ge> 64 then throwR UndefinedBehaviour
     else set_val (snd wo ! 0) (drop_bit (unat operand2) operand1)))"

(* cpu/Operations/LogicalAndBitwise.cpp 94-103: rotate_left *)
definition rotate_left :: "'a::len word \<Rightarrow> u64 \<Rightarrow> 'a word" where
  "rotate_left v n =
     (let bits = LENGTH('a); n = unat n mod bits
      in if n = 0 then v else push_bit n v OR drop_bit (bits - n) v)"

(* cpu/Operations/LogicalAndBitwise.cpp 105-115: rotate_right *)
definition rotate_right :: "'a::len word \<Rightarrow> u64 \<Rightarrow> 'a word" where
  "rotate_right v n =
     (let bits = LENGTH('a); n = unat n mod bits
      in if n = 0 then v else drop_bit n v OR push_bit (bits - n) v)"

(* cpu/Operations/LogicalAndBitwise.cpp 117-131: rol *)
definition exec_rol :: "width_and_operands \<Rightarrow> ('z executor_state_scheme, unit) run" where
  "exec_rol wo =
     bindR (get_val (snd wo ! 0)) (\<lambda>operand1.
     bindR (get_val (snd wo ! 1)) (\<lambda>operand2.
     bindR (if fst wo = prefix_8bit then returnR (ucast (rotate_left (ucast operand1 :: u8) operand2))
            else if fst wo = prefix_16bit then returnR (ucast (rotate_left (ucast operand1 :: u16) operand2))
            else if fst wo = prefix_32bit then returnR (ucast (rotate_left (ucast operand1 :: u32) operand2))
            else if fst wo = prefix_64bit then returnR (rotate_left operand1 operand2)
            else throwR IllegalInstruction) (set_val (snd wo ! 0))))"

(* cpu/Operations/LogicalAndBitwise.cpp 133-147: ror *)
definition exec_ror :: "width_and_operands \<Rightarrow> ('z executor_state_scheme, unit) run" where
  "exec_ror wo =
     bindR (get_val (snd wo ! 0)) (\<lambda>operand1.
     bindR (get_val (snd wo ! 1)) (\<lambda>operand2.
     bindR (if fst wo = prefix_8bit then returnR (ucast (rotate_right (ucast operand1 :: u8) operand2))
            else if fst wo = prefix_16bit then returnR (ucast (rotate_right (ucast operand1 :: u16) operand2))
            else if fst wo = prefix_32bit then returnR (ucast (rotate_right (ucast operand1 :: u32) operand2))
            else if fst wo = prefix_64bit then returnR (rotate_right operand1 operand2)
            else throwR IllegalInstruction) (set_val (snd wo ! 0))))"

text \<open>
  One round of the loop in \<open>rcl\<close>. \<open>~1U\<close> is \<open>0xFFFFFFFE\<close>, widened with zeroes when the
  value has 64 bits. \<open>BITS < sizeof(T) * 8\<close> never holds, so the mask after it is dead code.
\<close>

definition rcl_step :: "'a::len word \<Rightarrow> bool \<Rightarrow> 'a word \<times> bool" where
  "rcl_step value cf =
     (let new_cf = (drop_bit (LENGTH('a) - 1) value AND 1 \<noteq> 0);
          value = push_bit 1 value;
          value = (if cf then value OR ucast (1 :: u32) else value AND ucast (NOT 1 :: u32))
      in (value, new_cf))"

fun rcl_loop :: "nat \<Rightarrow> 'a::len word \<Rightarrow> bool \<Rightarrow> 'a word \<times> bool" where
  "rcl_loop 0 value cf = (value, cf)"
| "rcl_loop (Suc n) value cf = (let (value, cf) = rcl_step value cf in rcl_loop n value cf)"

(* cpu/Operations/LogicalAndBitwise.cpp 149-195: rcl, template *)
definition rcl_template :: "'a::len word \<Rightarrow> u32 \<Rightarrow> bool \<Rightarrow> 'a word \<times> bool" where
  "rcl_template value n cf =
     (let n = unat n mod (LENGTH('a) + 1)
      in if n = 0 then (value, cf) else rcl_loop n value cf)"

definition rcr_step :: "'a::len word \<Rightarrow> bool \<Rightarrow> 'a word \<times> bool" where
  "rcr_step value cf =
     (let new_cf = (value AND 1 \<noteq> 0);
          value = drop_bit 1 value;
          value = (if cf then value OR push_bit (LENGTH('a) - 1) 1
                   else value AND NOT (push_bit (LENGTH('a) - 1) 1))
      in (value, new_cf))"

fun rcr_loop :: "nat \<Rightarrow> 'a::len word \<Rightarrow> bool \<Rightarrow> 'a word \<times> bool" where
  "rcr_loop 0 value cf = (value, cf)"
| "rcr_loop (Suc n) value cf = (let (value, cf) = rcr_step value cf in rcr_loop n value cf)"

(* cpu/Operations/LogicalAndBitwise.cpp 197-244: rcr, template *)
definition rcr_template :: "'a::len word \<Rightarrow> u32 \<Rightarrow> bool \<Rightarrow> 'a word \<times> bool" where
  "rcr_template value n cf =
     (let n = unat n mod (LENGTH('a) + 1)
      in if n = 0 then (value, cf) else rcr_loop n value cf)"

text \<open>The result widened to \<open>uint64_t\<close>.\<close>

definition widen :: "'a::len word \<times> bool \<Rightarrow> u64 \<times> bool" where
  "widen r = (ucast (fst r), snd r)"

(* cpu/Operations/LogicalAndBitwise.cpp 245-263: rcl *)
definition exec_rcl :: "width_and_operands \<Rightarrow> ('z executor_state_scheme, unit) run" where
  "exec_rcl wo =
     bindR (get_val (snd wo ! 0)) (\<lambda>operand1.
     bindR (get_val (snd wo ! 1)) (\<lambda>operand2.
     bindR (load (\<lambda>r. Carry (FlagRegister r))) (\<lambda>cf.
     bindR (if fst wo = prefix_8bit then returnR (widen (rcl_template (ucast operand1 :: u8) (ucast operand2) cf))
            else if fst wo = prefix_16bit then returnR (widen (rcl_template (ucast operand1 :: u16) (ucast operand2) cf))
            else if fst wo = prefix_32bit then returnR (widen (rcl_template (ucast operand1 :: u32) (ucast operand2) cf))
            else if fst wo = prefix_64bit then returnR (rcl_template operand1 (ucast operand2) cf)
            else throwR IllegalInstruction) (\<lambda>(result, cf).
     thenR (store (\<lambda>r. r\<lparr>FlagRegister := (FlagRegister r)\<lparr>Carry := cf\<rparr>\<rparr>))
       (set_val (snd wo ! 0) result)))))"

(* cpu/Operations/LogicalAndBitwise.cpp 265-283: rcr *)
definition exec_rcr :: "width_and_operands \<Rightarrow> ('z executor_state_scheme, unit) run" where
  "exec_rcr wo =
     bindR (get_val (snd wo ! 0)) (\<lambda>operand1.
     bindR (get_val (snd wo ! 1)) (\<lambda>operand2.
     bindR (load (\<lambda>r. Carry (FlagRegister r))) (\<lambda>cf.
     bindR (if fst wo = prefix_8bit then returnR (widen (rcr_template (ucast operand1 :: u8) (ucast operand2) cf))
            else if fst wo = prefix_16bit then returnR (widen (rcr_template (ucast operand1 :: u16) (ucast operand2) cf))
            else if fst wo = prefix_32bit then returnR (widen (rcr_template (ucast operand1 :: u32) (ucast operand2) cf))
            else if fst wo = prefix_64bit then returnR (rcr_template operand1 (ucast operand2) cf)
            else throwR IllegalInstruction) (\<lambda>(result, cf).
     thenR (store (\<lambda>r. r\<lparr>FlagRegister := (FlagRegister r)\<lparr>Carry := cf\<rparr>\<rparr>))
       (set_val (snd wo ! 0) result)))))"

section \<open>Bitwise operations\<close>

lemma set_val_stable:
  assumes "set_val x v s = (r, s')"
  shows "mem_inv s' = mem_inv s" and "TotalMemory s' = TotalMemory s" and "writable s' y = writable s y"
proof -
  have "(\<exists>g. s' = s\<lparr>Registers := g\<rparr>) \<or> memory_only s s'"
  proof (cases x)
    case (MemoryOperand a w)
    from write_memory_memory_only [of s a "word_to_bytes 8 v" "of_nat (width_bytes w)"]
    have "memory_only s (snd (store_value_to_memory a w v s))" by (simp add: store_value_to_memory_def)
    with assms MemoryOperand show ?thesis by simp
  next
    case (ConstantOperand c w)
    with assms show ?thesis by (simp add: throwR_def)
  next
    case (RegisterOperand w i)
    with assms have "s' = s \<or> (\<exists>g. s' = s\<lparr>Registers := g\<rparr>)"
      by (auto simp: write_register_run split: sum.splits)
    then show ?thesis by auto
  qed
  then show "mem_inv s' = mem_inv s" and tm: "TotalMemory s' = TotalMemory s"
    by (auto simp: mem_inv_def memory_only_def)
  then show "writable s' y = writable s y" by (cases y) simp_all
qed

lemma set_val_result:
  assumes "mem_inv s" and "writable s x"
  shows "\<exists>s'. set_val x v s = (Inr (), s') \<and> get_val x s' = (Inr (truncate_to (operand_width x) v), s')
    \<and> FlagRegister (Registers s') = FlagRegister (Registers s)"
  using set_val_get_val [OF assms, of v] set_val_flags [OF assms] by blast

text \<open>
  C28: \<open>AND\<close>, \<open>OR\<close>, \<open>XOR\<close>, \<open>NOT\<close> and the shifts by less than 64 write the bitwise
  result, truncated to the operand's width, to the first operand, and change no flag: the
  shift to the left multiplies, the shift to the right divides by a power of two.
\<close>

theorem bitwise_results:
  assumes "mem_inv s" and "writable s x"
    and "get_val x s = (Inr a, s)" and "get_val y s = (Inr b, s)" and "unat b < 64"
  defines "result \<equiv> \<lambda>m v. \<exists>s'. m s = (Inr (), s')
      \<and> get_val x s' = (Inr (truncate_to (operand_width x) v), s')
      \<and> FlagRegister (Registers s') = FlagRegister (Registers s)"
  shows "result (exec_and (w, [x, y])) (a AND b) \<and> result (exec_or (w, [x, y])) (a OR b)
    \<and> result (exec_xor (w, [x, y])) (a XOR b) \<and> result (exec_not (w, [x])) (NOT a)
    \<and> result (exec_shl (w, [x, y])) (of_nat (unat a * 2 ^ unat b))
    \<and> result (exec_shr (w, [x, y])) (of_nat (unat a div 2 ^ unat b))"
proof -
  have l: "of_nat (unat a * 2 ^ unat b) = push_bit (unat b) a" by (simp add: push_bit_eq_mult)
  have "take_bit 64 (unat a) = unat a" using unat_u64_less [of a] by (rule take_bit_nat_eq_self)
  then have "unat (drop_bit (unat b) a) = unat a div 2 ^ unat b"
    using unsigned_drop_bit_eq [of "unat b" a, where 'a = nat] by (simp del: drop_bit_eq_div) (simp add: drop_bit_eq_div)
  then have r: "of_nat (unat a div 2 ^ unat b) = drop_bit (unat b) a"
    by (metis of_nat_unat ucast_id)
  show ?thesis
    unfolding result_def l r using assms(3-5) set_val_result [OF assms(1,2)]
    by (simp add: exec_and_def exec_or_def exec_xor_def exec_not_def exec_shl_def exec_shr_def bindR_Inr)
qed

theorem bitwise_results_witness:
  "\<exists>s'. exec_shl (prefix_8bit, [RegisterOperand prefix_8bit 0, ConstantOperand 3 prefix_8bit])
        (demo_executor (new_registers\<lparr>R0 := 0x55\<rparr>)) = (Inr (), s')
    \<and> get_val (RegisterOperand prefix_8bit 0) s' = (Inr 0xA8, s')"
  using bitwise_results [of "demo_executor (new_registers\<lparr>R0 := 0x55\<rparr>)" "RegisterOperand prefix_8bit 0"
      "0x55" "ConstantOperand 3 prefix_8bit" 3 prefix_8bit]
  by (auto simp: register_eval returnR_def truncate_to_simps)

section \<open>Rotations\<close>

lemma rotate_left_word_rotl: "rotate_left v n = word_rotl (unat n) v" for v :: "'a::len word"
proof (rule bit_word_eqI)
  fix i
  assume i: "i < LENGTH('a)"
  let ?m = "unat n mod LENGTH('a)"
  have m: "?m < LENGTH('a)" by simp
  have "bit (rotate_left v n) i \<longleftrightarrow> bit v ((i + (LENGTH('a) - ?m)) mod LENGTH('a))"
  proof (cases "?m \<le> i")
    case True
    then have "i + (LENGTH('a) - ?m) = (i - ?m) + LENGTH('a)" using m by linarith
    then have "(i + (LENGTH('a) - ?m)) mod LENGTH('a) = i - ?m"
      using i by (simp only: mod_add_self2) simp
    moreover have "\<not> bit v (LENGTH('a) - ?m + i)" if "0 < ?m"
      using True bit_imp_le_length [of v "LENGTH('a) - ?m + i"] m by auto
    ultimately show ?thesis
      using True i by (auto simp: rotate_left_def Let_def bit_or_iff bit_push_bit_iff bit_drop_bit_eq)
  next
    case False
    then have "i + (LENGTH('a) - ?m) < LENGTH('a)" using m by linarith
    then have "(i + (LENGTH('a) - ?m)) mod LENGTH('a) = i + (LENGTH('a) - ?m)" by (rule mod_less)
    with False i show ?thesis
      by (simp add: rotate_left_def Let_def bit_or_iff bit_push_bit_iff bit_drop_bit_eq add.commute)
  qed
  then show "bit (rotate_left v n) i \<longleftrightarrow> bit (word_rotl (unat n) v) i"
    using i by (simp add: bit_word_rotl_iff)
qed

lemma rotate_right_word_rotr: "rotate_right v n = word_rotr (unat n) v" for v :: "'a::len word"
proof (rule bit_word_eqI)
  fix i
  assume i: "i < LENGTH('a)"
  let ?m = "unat n mod LENGTH('a)"
  have m: "?m < LENGTH('a)" by simp
  have e: "(i + unat n) mod LENGTH('a) = (i + ?m) mod LENGTH('a)" by (simp add: mod_add_right_eq)
  have "bit (rotate_right v n) i \<longleftrightarrow> bit v ((i + ?m) mod LENGTH('a))"
  proof (cases "i + ?m < LENGTH('a)")
    case True
    then show ?thesis
      using i by (auto simp: rotate_right_def Let_def bit_or_iff bit_push_bit_iff bit_drop_bit_eq add.commute)
  next
    case False
    then have "i + ?m = (i - (LENGTH('a) - ?m)) + LENGTH('a)" using m by linarith
    then have "(i + ?m) mod LENGTH('a) = (i - (LENGTH('a) - ?m)) mod LENGTH('a)" by (metis mod_add_self2)
    also have "\<dots> = i - (LENGTH('a) - ?m)" using i by (intro mod_less) linarith
    finally have "(i + ?m) mod LENGTH('a) = i - (LENGTH('a) - ?m)" .
    moreover have "0 < ?m" using False i by linarith
    moreover have "\<not> bit v (?m + i)" using False bit_imp_le_length [of v "?m + i"] by auto
    ultimately show ?thesis
      using False i by (auto simp: rotate_right_def Let_def bit_or_iff bit_push_bit_iff bit_drop_bit_eq)
  qed
  then show "bit (rotate_right v n) i \<longleftrightarrow> bit (word_rotr (unat n) v) i"
    using i by (simp add: bit_word_rotr_iff e)
qed

text \<open>The rotations of the library at an operation width.\<close>

definition rotl_at :: "u8 \<Rightarrow> nat \<Rightarrow> u64 \<Rightarrow> u64" where
  "rotl_at w n v =
     (if w = prefix_8bit then ucast (word_rotl n (ucast v :: u8))
      else if w = prefix_16bit then ucast (word_rotl n (ucast v :: u16))
      else if w = prefix_32bit then ucast (word_rotl n (ucast v :: u32)) else word_rotl n v)"

definition rotr_at :: "u8 \<Rightarrow> nat \<Rightarrow> u64 \<Rightarrow> u64" where
  "rotr_at w n v =
     (if w = prefix_8bit then ucast (word_rotr n (ucast v :: u8))
      else if w = prefix_16bit then ucast (word_rotr n (ucast v :: u16))
      else if w = prefix_32bit then ucast (word_rotr n (ucast v :: u32)) else word_rotr n v)"

lemma ucast_u64_u16 [simp]: "ucast (ucast (a :: u16) :: u64) = a"
  by (rule bit_word_eqI) (simp add: bit_ucast_iff)

lemma ucast_u64_u32 [simp]: "ucast (ucast (a :: u32) :: u64) = a"
  by (rule bit_word_eqI) (simp add: bit_ucast_iff)

lemma truncate_to_rot:
  assumes "is_width w"
  shows "truncate_to w (rotl_at w n v) = rotl_at w n v" and "truncate_to w (rotr_at w n v) = rotr_at w n v"
    and "rotr_at w n (rotl_at w n v) = truncate_to w v"
  using assms by (cases rule: is_width_cases; simp add: rotl_at_def rotr_at_def truncate_to_simps)+

lemma exec_rol_run:
  assumes "is_width w" and "get_val x s = (Inr a, s)" and "get_val y s = (Inr b, s)"
  shows "exec_rol (w, [x, y]) s = set_val x (rotl_at w (unat b) a) s"
    and "exec_ror (w, [x, y]) s = set_val x (rotr_at w (unat b) a) s"
  using assms by (auto simp: exec_rol_def exec_ror_def bindR_Inr rotl_at_def rotr_at_def
      rotate_left_word_rotl rotate_right_word_rotr elim: is_width_cases)

text \<open>
  C23: \<open>ROL\<close> rotates the operand by the count modulo its width, as the rotation of the
  word library does, for every count, and \<open>ROR\<close> by the same count undoes it.
\<close>

theorem rotate_round_trip:
  assumes "mem_inv s" and "writable s x" and "is_width w" and "operand_width x = w"
    and "get_val x s = (Inr a, s)"
  shows "\<exists>s'. exec_rol (w, [x, ConstantOperand n c]) s = (Inr (), s')
    \<and> get_val x s' = (Inr (rotl_at w (unat n) a), s')
    \<and> (\<exists>s''. exec_ror (w, [x, ConstantOperand n c]) s' = (Inr (), s'')
        \<and> get_val x s'' = (Inr (truncate_to w a), s''))"
proof -
  have k: "get_val (ConstantOperand n c) t = (Inr n, t)" for t :: "'a executor_state_scheme"
    by (simp add: returnR_def)
  from set_val_result [OF assms(1,2), of "rotl_at w (unat n) a"] obtain s' where s':
    "set_val x (rotl_at w (unat n) a) s = (Inr (), s')" "get_val x s' = (Inr (rotl_at w (unat n) a), s')"
    using assms(4) truncate_to_rot(1) [OF assms(3)] by auto
  then have "mem_inv s'" "writable s' x" using assms(1,2) set_val_stable [OF s'(1)] by simp_all
  from set_val_result [OF this, of "truncate_to w a"] obtain s'' where
    "set_val x (truncate_to w a) s' = (Inr (), s'')" "get_val x s'' = (Inr (truncate_to w a), s'')"
    using assms(4) by auto
  then have "exec_ror (w, [x, ConstantOperand n c]) s' = (Inr (), s'')
      \<and> get_val x s'' = (Inr (truncate_to w a), s'')"
    using exec_rol_run(2) [OF assms(3) s'(2) k] by (simp add: truncate_to_rot(3) [OF assms(3)])
  moreover have "exec_rol (w, [x, ConstantOperand n c]) s = (Inr (), s')"
    using exec_rol_run(1) [OF assms(3,5) k] s'(1) by simp
  ultimately show ?thesis using s'(2) by blast
qed

section \<open>Rotations through the carry\<close>

lemma bit_not_one_u32: "bit (NOT 1 :: u32) i \<longleftrightarrow> 0 < i \<and> i < 32"
  by (cases i) (simp_all add: bit_not_iff bit_1_iff)

lemma rcl_step_bits:
  fixes v :: "'a::len word"
  assumes "LENGTH('a) \<le> 32" and "i < LENGTH('a)"
  shows "bit (fst (rcl_step v cf)) i \<longleftrightarrow> (if i = 0 then cf else bit v (i - 1))"
proof -
  have b: "bit (ucast (1 :: u32) :: 'a word) i \<longleftrightarrow> i = 0" "bit (ucast (NOT 1 :: u32) :: 'a word) i \<longleftrightarrow> i \<noteq> 0"
    "bit (push_bit 1 v) i \<longleftrightarrow> i \<noteq> 0 \<and> bit v (i - 1)"
    using assms by (auto simp only: bit_ucast_iff bit_1_iff bit_not_one_u32 bit_push_bit_iff
        possible_bit_word)
  show ?thesis
    by (cases cf; simp only: rcl_step_def Let_def fst_conv bit_or_iff bit_and_iff b if_True if_False; auto)
qed

lemma and_one_neq_zero: "drop_bit n v AND 1 \<noteq> 0 \<longleftrightarrow> bit v n" for v :: "'a::len word"
  by (simp add: and_one_eq bit_iff_odd_drop_bit odd_iff_mod_2_eq_one)

lemma rcl_step_carry: "snd (rcl_step v cf) = bit v (LENGTH('a) - 1)" for v :: "'a::len word"
  by (simp only: rcl_step_def Let_def snd_conv and_one_neq_zero)

lemma rcr_step_bits:
  fixes v :: "'a::len word"
  assumes "i < LENGTH('a)"
  shows "bit (fst (rcr_step v cf)) i \<longleftrightarrow> (if i = LENGTH('a) - 1 then cf else bit v (Suc i))"
proof -
  have b: "bit (push_bit (LENGTH('a) - 1) 1 :: 'a word) i \<longleftrightarrow> i = LENGTH('a) - 1"
    "bit (NOT (push_bit (LENGTH('a) - 1) 1) :: 'a word) i \<longleftrightarrow> i \<noteq> LENGTH('a) - 1"
    "bit (drop_bit 1 v) i \<longleftrightarrow> bit v (Suc i)"
    using assms by (auto simp: bit_push_bit_iff bit_not_iff bit_drop_bit_eq bit_1_iff simp del: push_bit_of_1)
  show ?thesis
    using bit_imp_le_length [of v "Suc i"]
    by (cases cf; simp only: rcr_step_def Let_def fst_conv bit_or_iff bit_and_iff b if_True if_False; auto)
qed

lemma rcr_step_carry: "snd (rcr_step v cf) = bit v 0"
  using and_one_neq_zero [of 0 v] by (simp add: rcr_step_def Let_def)

lemma rcr_rcl_step:
  fixes v :: "'a::len word"
  assumes "LENGTH('a) \<le> 32"
  shows "(\<lambda>(v, c). rcr_step v c) (rcl_step v cf) = (v, cf)"
proof -
  have "fst (rcr_step (fst (rcl_step v cf)) (snd (rcl_step v cf))) = v"
  proof (rule bit_word_eqI)
    fix i
    assume i: "i < LENGTH('a)"
    then show "bit (fst (rcr_step (fst (rcl_step v cf)) (snd (rcl_step v cf)))) i = bit v i"
      using rcl_step_bits [OF assms, of "Suc i" v cf]
      by (auto simp: rcr_step_bits rcl_step_carry)
  qed
  moreover have "snd (rcr_step (fst (rcl_step v cf)) (snd (rcl_step v cf))) = cf"
    using rcl_step_bits [OF assms, of 0 v cf] by (simp add: rcr_step_carry)
  ultimately show ?thesis by (simp add: prod_eq_iff case_prod_beta)
qed

lemma rcl_loop_funpow: "rcl_loop n v cf = ((\<lambda>(v, c). rcl_step v c) ^^ n) (v, cf)"
  by (induction n arbitrary: v cf) (simp_all add: Let_def case_prod_beta funpow_swap1)

lemma rcr_loop_funpow: "rcr_loop n v cf = ((\<lambda>(v, c). rcr_step v c) ^^ n) (v, cf)"
  by (induction n arbitrary: v cf) (simp_all add: Let_def case_prod_beta funpow_swap1)

lemma funpow_left_inverse: "(\<And>p. g (f p) = p) \<Longrightarrow> (g ^^ n) ((f ^^ n) p) = p" for f g :: "'a \<Rightarrow> 'a"
proof (induction n arbitrary: p)
  case (Suc n)
  have "(g ^^ Suc n) ((f ^^ Suc n) p) = (g ^^ n) (g (f ((f ^^ n) p)))"
    by (simp only: funpow_Suc_right [of n g] funpow.simps(2) [of n f] o_apply)
  with Suc show ?case by simp
qed simp

lemma rcr_rcl_template:
  fixes v :: "'a::len word"
  assumes "LENGTH('a) \<le> 32"
  shows "(case rcl_template v n cf of (v', cf') \<Rightarrow> rcr_template v' n cf') = (v, cf)"
proof -
  have "(\<lambda>(v, c). rcr_step v c) ((\<lambda>(v, c). rcl_step v c) p) = p" for p :: "'a word \<times> bool"
    using rcr_rcl_step [OF assms, of "fst p" "snd p"] by (simp add: case_prod_beta)
  from funpow_left_inverse [of "\<lambda>(v, c). rcr_step v c" "\<lambda>(v, c). rcl_step v c", OF this]
  show ?thesis
    by (auto simp: rcl_template_def rcr_template_def Let_def rcl_loop_funpow rcr_loop_funpow
        split: prod.split)
qed

text \<open>The two templates at an operation width.\<close>

definition rcl_at :: "u8 \<Rightarrow> u64 \<Rightarrow> u64 \<Rightarrow> bool \<Rightarrow> u64 \<times> bool" where
  "rcl_at w v n cf =
     (if w = prefix_8bit then widen (rcl_template (ucast v :: u8) (ucast n) cf)
      else if w = prefix_16bit then widen (rcl_template (ucast v :: u16) (ucast n) cf)
      else if w = prefix_32bit then widen (rcl_template (ucast v :: u32) (ucast n) cf)
      else rcl_template v (ucast n) cf)"

definition rcr_at :: "u8 \<Rightarrow> u64 \<Rightarrow> u64 \<Rightarrow> bool \<Rightarrow> u64 \<times> bool" where
  "rcr_at w v n cf =
     (if w = prefix_8bit then widen (rcr_template (ucast v :: u8) (ucast n) cf)
      else if w = prefix_16bit then widen (rcr_template (ucast v :: u16) (ucast n) cf)
      else if w = prefix_32bit then widen (rcr_template (ucast v :: u32) (ucast n) cf)
      else rcr_template v (ucast n) cf)"

lemma rcr_rcl_at:
  assumes "narrow w"
  shows "rcr_at w (fst (rcl_at w v n cf)) n (snd (rcl_at w v n cf)) = (truncate_to w v, cf)"
  using assms rcr_rcl_template [of "ucast n" "ucast v :: u8" cf]
    rcr_rcl_template [of "ucast n" "ucast v :: u16" cf] rcr_rcl_template [of "ucast n" "ucast v :: u32" cf]
  by (auto simp: narrow_def rcl_at_def rcr_at_def widen_def truncate_to_simps case_prod_beta)

lemma truncate_to_rcl_at: "narrow w \<Longrightarrow> truncate_to w (fst (rcl_at w v n cf)) = fst (rcl_at w v n cf)"
  by (auto simp: narrow_def rcl_at_def widen_def truncate_to_simps)

lemma rcl_step_ucast:
  fixes v :: u64
  assumes "LENGTH('a::len) \<le> 32"
  shows "ucast (fst (rcl_step (ucast v :: 'a word) cf)) = take_bit LENGTH('a) (push_bit 1 v OR of_bool cf)"
    and "snd (rcl_step (ucast v :: 'a word) cf) = bit v (LENGTH('a) - 1)"
proof -
  show "snd (rcl_step (ucast v :: 'a word) cf) = bit v (LENGTH('a) - 1)"
    using assms by (simp add: rcl_step_carry bit_ucast_iff)
  show "ucast (fst (rcl_step (ucast v :: 'a word) cf)) = take_bit LENGTH('a) (push_bit 1 v OR of_bool cf)"
  proof (rule bit_word_eqI)
    fix i
    assume i: "i < LENGTH(64)"
    have o: "bit (of_bool cf :: u64) i \<longleftrightarrow> cf \<and> i = 0" by (cases cf) (auto simp: bit_1_iff)
    have l: "bit (ucast (fst (rcl_step (ucast v :: 'a word) cf)) :: u64) i
        \<longleftrightarrow> i < LENGTH('a) \<and> bit (fst (rcl_step (ucast v :: 'a word) cf)) i"
      using i bit_imp_le_length by (auto simp: bit_ucast_iff)
    have r: "bit (take_bit LENGTH('a) (push_bit 1 v OR of_bool cf)) i
        \<longleftrightarrow> i < LENGTH('a) \<and> (1 \<le> i \<and> bit v (i - 1) \<or> cf \<and> i = 0)"
      using i by (auto simp only: bit_take_bit_iff bit_or_iff bit_push_bit_iff o possible_bit_word)
    show "bit (ucast (fst (rcl_step (ucast v :: 'a word) cf)) :: u64) i
        = bit (take_bit LENGTH('a) (push_bit 1 v OR of_bool cf)) i"
      unfolding l r using assms by (cases "i = 0") (auto simp: rcl_step_bits bit_ucast_iff)
  qed
qed

lemma rcl_template_one:
  "2 \<le> LENGTH('a::len) \<Longrightarrow> rcl_template (v :: 'a word) (ucast (1 :: u64)) cf = rcl_step v cf"
  by (simp add: rcl_template_def case_prod_beta)

lemma rcl_at_one:
  assumes "narrow w"
  shows "rcl_at w v 1 cf = (truncate_to w (push_bit 1 v OR of_bool cf), bit v (8 * width_bytes w - 1))"
  using assms rcl_step_ucast [where 'a = 8, of v cf] rcl_step_ucast [where 'a = 16, of v cf]
    rcl_step_ucast [where 'a = 32, of v cf]
  by (auto simp: narrow_def rcl_at_def widen_def rcl_template_one truncate_to_def
      simp del: push_bit_of_1 unsigned_1)

definition with_carry :: "bool \<Rightarrow> 'z executor_state_scheme \<Rightarrow> 'z executor_state_scheme" where
  "with_carry c s = s\<lparr>Registers := (Registers s)\<lparr>FlagRegister := (FlagRegister (Registers s))\<lparr>Carry := c\<rparr>\<rparr>\<rparr>"

lemma with_carry_simps [simp]:
  "mem_inv (with_carry c s) = mem_inv s" "writable (with_carry c s) x = writable s x"
  "Carry (FlagRegister (Registers (with_carry c s))) = c"
  by (simp_all add: with_carry_def)

lemma exec_rcl_run:
  assumes "is_width w" and "get_val x s = (Inr a, s)" and "get_val y s = (Inr b, s)"
  shows "exec_rcl (w, [x, y]) s = (let p = rcl_at w a b (Carry (FlagRegister (Registers s)))
      in set_val x (fst p) (with_carry (snd p) s))"
    and "exec_rcr (w, [x, y]) s = (let p = rcr_at w a b (Carry (FlagRegister (Registers s)))
      in set_val x (fst p) (with_carry (snd p) s))"
  using assms by (auto simp: exec_rcl_def exec_rcr_def bindR_Inr rcl_at_def rcr_at_def load_def store_def
      with_carry_def case_prod_beta Let_def elim: is_width_cases)

text \<open>
  C25: at 8, 16 and 32 bits \<open>RCL\<close> rotates the operand and the carry flag together: one step
  shifts the carry in at the bottom and the top bit out into the carry, and \<open>RCR\<close> by the
  same count, whatever it is, gives back the operand and the carry.
\<close>

theorem rotate_through_carry_round_trip:
  assumes "mem_inv s" and "writable s x" and "narrow w" and "operand_width x = w"
    and "get_val x s = (Inr a, s)"
  shows "\<exists>s'. exec_rcl (w, [x, ConstantOperand n c]) s = (Inr (), s')
    \<and> (\<exists>s''. exec_rcr (w, [x, ConstantOperand n c]) s' = (Inr (), s'')
        \<and> get_val x s'' = (Inr (truncate_to w a), s'')
        \<and> Carry (FlagRegister (Registers s'')) = Carry (FlagRegister (Registers s)))
    \<and> (n = 1 \<longrightarrow> get_val x s' =
          (Inr (truncate_to w (push_bit 1 a OR of_bool (Carry (FlagRegister (Registers s))))), s')
        \<and> Carry (FlagRegister (Registers s')) = bit a (8 * width_bytes w - 1))"
proof -
  have w: "is_width w" using narrow_width [OF assms(3)] by simp
  let ?cf = "Carry (FlagRegister (Registers s))"
  let ?p = "rcl_at w a n ?cf"
  have k: "get_val (ConstantOperand n c) t = (Inr n, t)" for t :: "'a executor_state_scheme"
    by (simp add: returnR_def)
  have "mem_inv (with_carry (snd ?p) s)" and "writable (with_carry (snd ?p) s) x" using assms by simp_all
  from set_val_result [OF this, of "fst ?p"] obtain s' where s':
    "set_val x (fst ?p) (with_carry (snd ?p) s) = (Inr (), s')" "get_val x s' = (Inr (fst ?p), s')"
    "FlagRegister (Registers s') = FlagRegister (Registers (with_carry (snd ?p) s))"
    using assms(4) truncate_to_rcl_at [OF assms(3)] by auto
  have "mem_inv (with_carry ?cf s')" and "writable (with_carry ?cf s') x"
    using assms(1,2) set_val_stable [OF s'(1)] by simp_all
  from set_val_result [OF this, of "truncate_to w a"] obtain s'' where s'':
    "set_val x (truncate_to w a) (with_carry ?cf s') = (Inr (), s'')"
    "get_val x s'' = (Inr (truncate_to w a), s'')" "Carry (FlagRegister (Registers s'')) = ?cf"
    using assms(4) by auto
  have "exec_rcl (w, [x, ConstantOperand n c]) s = (Inr (), s')"
    using exec_rcl_run(1) [OF w assms(5) k] s'(1) by (simp add: Let_def)
  moreover have "exec_rcr (w, [x, ConstantOperand n c]) s' = (Inr (), s'')"
    using exec_rcl_run(2) [OF w s'(2) k] s''(1) s'(3) rcr_rcl_at [OF assms(3)] by (simp add: Let_def)
  moreover have "n = 1 \<longrightarrow> get_val x s' = (Inr (truncate_to w (push_bit 1 a OR of_bool ?cf)), s')
      \<and> Carry (FlagRegister (Registers s')) = bit a (8 * width_bytes w - 1)"
    using s'(2,3) rcl_at_one [OF assms(3), of a ?cf] by (simp del: push_bit_of_1)
  ultimately show ?thesis using s'' by blast
qed

lemma rcl_template_64bit:
  "rcl_template v 1 False = (push_bit 1 v AND 0xFFFFFFFE, bit v 63)" for v :: u64
  using rcl_step_carry [of v False] by (simp add: rcl_template_def rcl_step_def)

text \<open>
  C40: the 64-bit \<open>RCL\<close> with a clear carry flag loses the upper half of the operand: the
  constant \<open>~1U\<close> that clears the lowest bit has 32 bits.
\<close>

theorem rcl_64bit_loses_upper_half:
  assumes "mem_inv s" and "writable s x" and "operand_width x = prefix_64bit"
    and "get_val x s = (Inr a, s)" and "\<not> Carry (FlagRegister (Registers s))"
  shows "\<exists>s'. exec_rcl (prefix_64bit, [x, ConstantOperand 1 c]) s = (Inr (), s')
    \<and> get_val x s' = (Inr (push_bit 1 a AND 0xFFFFFFFE), s')
    \<and> Carry (FlagRegister (Registers s')) = bit a 63"
proof -
  have k: "get_val (ConstantOperand 1 c) t = (Inr 1, t)" for t :: "'a executor_state_scheme"
    by (simp add: returnR_def)
  have p: "rcl_at prefix_64bit a 1 False = (push_bit 1 a AND 0xFFFFFFFE, bit a 63)"
    by (simp only: rcl_at_def prefix_distinct if_False unsigned_1 rcl_template_64bit)
  have "mem_inv (with_carry (bit a 63) s)" and "writable (with_carry (bit a 63) s) x" using assms by simp_all
  from set_val_result [OF this, of "push_bit 1 a AND 0xFFFFFFFE"] show ?thesis
    using exec_rcl_run(1) [OF is_width_simps(4) assms(4) k] assms(3,5)
    by (auto simp: p truncate_to_simps simp del: push_bit_of_1)
qed

theorem rcl_64bit_loses_upper_half_witness:
  "\<exists>s'. exec_rcl (prefix_64bit, [RegisterOperand prefix_64bit R_DataBase, ConstantOperand 1 prefix_8bit])
        (demo_executor (new_registers\<lparr>DataBase := 0x100000002\<rparr>)) = (Inr (), s')
    \<and> get_val (RegisterOperand prefix_64bit R_DataBase) s' = (Inr 4, s')"
  using rcl_64bit_loses_upper_half [of "demo_executor (new_registers\<lparr>DataBase := 0x100000002\<rparr>)"
      "RegisterOperand prefix_64bit R_DataBase" "0x100000002" prefix_8bit]
  by (auto simp: register_eval special_register_def special_register_defs new_registers_def new_flags_def)

theorem rotate_round_trip_witness:
  "\<exists>s'. exec_rol (prefix_8bit, [RegisterOperand prefix_8bit 0, ConstantOperand 12 prefix_8bit])
        (demo_executor (new_registers\<lparr>R0 := 0x12\<rparr>)) = (Inr (), s')
    \<and> (\<exists>s''. exec_ror (prefix_8bit, [RegisterOperand prefix_8bit 0, ConstantOperand 12 prefix_8bit]) s' = (Inr (), s'')
        \<and> get_val (RegisterOperand prefix_8bit 0) s'' = (Inr 0x12, s''))"
  using rotate_round_trip [of "demo_executor (new_registers\<lparr>R0 := 0x12\<rparr>)" "RegisterOperand prefix_8bit 0"
      prefix_8bit "0x12" 12 prefix_8bit]
  by (auto simp: register_eval truncate_to_simps)

theorem rotate_through_carry_round_trip_witness:
  "\<exists>s'. exec_rcl (prefix_8bit, [RegisterOperand prefix_8bit 0, ConstantOperand 1 prefix_8bit])
        (demo_executor (new_registers\<lparr>R0 := 0x81\<rparr>)) = (Inr (), s')
    \<and> get_val (RegisterOperand prefix_8bit 0) s' = (Inr 2, s') \<and> Carry (FlagRegister (Registers s'))"
  using rotate_through_carry_round_trip [of "demo_executor (new_registers\<lparr>R0 := 0x81\<rparr>)"
      "RegisterOperand prefix_8bit 0" prefix_8bit "0x81" 1 prefix_8bit]
  by (auto simp: register_eval truncate_to_simps narrow_def new_registers_def new_flags_def)

end
