(* ===== verification/Ops_Data.thy ===== *)
theory Ops_Data
  imports Ops_Logic
begin

text \<open>
  The data transfer instructions (\<open>cpu/Operations/DataTransfer.cpp\<close>): moves, exchanges, the
  stack, the save area of all registers, stack frames, and block copies.
\<close>

section \<open>Instructions\<close>

(* cpu/Operations/DataTransfer.cpp 23-27: mov *)
definition exec_mov :: "width_and_operands \<Rightarrow> ('z executor_state_scheme, unit) run" where
  "exec_mov wo = bindR (get_val (snd wo ! 1)) (set_val (snd wo ! 0))"

(* cpu/Operations/DataTransfer.cpp 29-37: xchg *)
definition exec_xchg :: "width_and_operands \<Rightarrow> ('z executor_state_scheme, unit) run" where
  "exec_xchg wo =
     bindR (get_val (snd wo ! 0)) (\<lambda>operand1.
     bindR (get_val (snd wo ! 1)) (\<lambda>operand2.
     thenR (set_val (snd wo ! 0) operand2) (set_val (snd wo ! 1) operand1)))"

text \<open>
  \<open>push_stack<uint8_t>(operand1)\<close> and its like: the value converted to the type pushes its
  low bytes.
\<close>

(* cpu/Operations/DataTransfer.cpp 39-49: push *)
definition exec_push :: "width_and_operands \<Rightarrow> ('z executor_state_scheme, unit) run" where
  "exec_push wo =
     bindR (get_val (snd wo ! 0)) (\<lambda>operand1.
     if fst wo = prefix_8bit then push_stack (word_to_bytes 1 (ucast operand1 :: u8))
     else if fst wo = prefix_16bit then push_stack (word_to_bytes 2 (ucast operand1 :: u16))
     else if fst wo = prefix_32bit then push_stack (word_to_bytes 4 (ucast operand1 :: u32))
     else if fst wo = prefix_64bit then push_stack (word_to_bytes 8 operand1)
     else throwR IllegalInstruction)"

(* cpu/Operations/DataTransfer.cpp 51-63: pop *)
definition exec_pop :: "width_and_operands \<Rightarrow> ('z executor_state_scheme, unit) run" where
  "exec_pop wo =
     bindR (if fst wo = prefix_8bit then bindR (pop_stack 1) (\<lambda>bs. returnR (ucast (word_of_bytes bs :: u8)))
            else if fst wo = prefix_16bit then bindR (pop_stack 2) (\<lambda>bs. returnR (ucast (word_of_bytes bs :: u16)))
            else if fst wo = prefix_32bit then bindR (pop_stack 4) (\<lambda>bs. returnR (ucast (word_of_bytes bs :: u32)))
            else if fst wo = prefix_64bit then bindR (pop_stack 8) (\<lambda>bs. returnR (word_of_bytes bs))
            else throwR IllegalInstruction) (set_val (snd wo ! 0))"

text \<open>The members of \<open>struct pushall_data\<close>, each of eight bytes, in their order.\<close>

(* cpu/Operations/DataTransfer.cpp 65-91: pushall_data *)
definition pushall_words :: "sysdarft_register_t \<Rightarrow> u64 list" where
  "pushall_words r = [
     get_FER0 r, get_FER1 r, get_FER2 r, get_FER3 r,
     FullyExtendedRegister4 r, FullyExtendedRegister5 r, FullyExtendedRegister6 r,
     FullyExtendedRegister7 r, FullyExtendedRegister8 r, FullyExtendedRegister9 r,
     FullyExtendedRegister10 r, FullyExtendedRegister11 r, FullyExtendedRegister12 r,
     FullyExtendedRegister13 r, FullyExtendedRegister14 r, FullyExtendedRegister15 r,
     flags_to_word (FlagRegister r), StackBase r, StackPointer r, DataBase r, DataPointer r,
     ExtendedBase r, ExtendedPointer r, CurrentProcedureStackPreservationSpace r]"

(* cpu/Operations/DataTransfer.cpp 93-123: pushall *)
definition exec_pushall :: "width_and_operands \<Rightarrow> ('z executor_state_scheme, unit) run" where
  "exec_pushall wo =
     bindR (load pushall_words) (\<lambda>data. push_stack (concat (map (word_to_bytes 8) data)))"

text \<open>The stores of \<open>popall\<close>, in their order.\<close>

definition popall_store :: "u64 list \<Rightarrow> sysdarft_register_t \<Rightarrow> sysdarft_register_t" where
  "popall_store ws r = (let r = put_FER0 (ws ! 0) r; r = put_FER1 (ws ! 1) r; r = put_FER2 (ws ! 2) r;
     r = put_FER3 (ws ! 3) r
     in r\<lparr>FullyExtendedRegister4 := ws ! 4, FullyExtendedRegister5 := ws ! 5,
      FullyExtendedRegister6 := ws ! 6, FullyExtendedRegister7 := ws ! 7,
      FullyExtendedRegister8 := ws ! 8, FullyExtendedRegister9 := ws ! 9,
      FullyExtendedRegister10 := ws ! 10, FullyExtendedRegister11 := ws ! 11,
      FullyExtendedRegister12 := ws ! 12, FullyExtendedRegister13 := ws ! 13,
      FullyExtendedRegister14 := ws ! 14, FullyExtendedRegister15 := ws ! 15,
      FlagRegister := flags_of_word (ws ! 16), StackBase := ws ! 17, StackPointer := ws ! 18,
      DataBase := ws ! 19, DataPointer := ws ! 20, ExtendedBase := ws ! 21,
      ExtendedPointer := ws ! 22, CurrentProcedureStackPreservationSpace := ws ! 23\<rparr>)"

(* cpu/Operations/DataTransfer.cpp 125-176: popall *)
definition exec_popall :: "width_and_operands \<Rightarrow> ('z executor_state_scheme, unit) run" where
  "exec_popall wo =
     bindR (pop_stack 192) (\<lambda>bs.
     store (popall_store (map (\<lambda>i. word_of_bytes (take 8 (drop (8 * i) bs))) [0..<24])))"

(* cpu/Operations/DataTransfer.cpp 178-184: enter *)
definition exec_enter :: "width_and_operands \<Rightarrow> ('z executor_state_scheme, unit) run" where
  "exec_enter wo =
     bindR (get_val (snd wo ! 0)) (\<lambda>operand1.
     bindR (load StackPointer) (\<lambda>SP.
     thenR (store (\<lambda>r. r\<lparr>CurrentProcedureStackPreservationSpace := operand1\<rparr>))
       (store (\<lambda>r. r\<lparr>StackPointer := SP - operand1\<rparr>))))"

(* cpu/Operations/DataTransfer.cpp 186-192: leave *)
definition exec_leave :: "width_and_operands \<Rightarrow> ('z executor_state_scheme, unit) run" where
  "exec_leave wo =
     bindR (load StackPointer) (\<lambda>SP.
     bindR (load CurrentProcedureStackPreservationSpace) (\<lambda>CPS.
     thenR (store (\<lambda>r. r\<lparr>StackPointer := SP + CPS\<rparr>))
       (store (\<lambda>r. r\<lparr>CurrentProcedureStackPreservationSpace := 0\<rparr>))))"

text \<open>
  \<open>new char [count]\<close> throws for a count of 2^63 and more; smaller allocations are assumed
  to succeed.
\<close>

(* cpu/Operations/DataTransfer.cpp 194-203: movs *)
definition exec_movs :: "width_and_operands \<Rightarrow> ('z executor_state_scheme, unit) run" where
  "exec_movs wo =
     bindR (load (\<lambda>r. DataPointer r + DataBase r)) (\<lambda>dest.
     bindR (load (\<lambda>r. ExtendedPointer r + ExtendedBase r)) (\<lambda>src.
     bindR (load get_FER3) (\<lambda>count.
     if unat count \<ge> 2 ^ 63 then throwR StdException
     else bindR (read_memory src count) (\<lambda>buffer. write_memory dest buffer count))))"

(* cpu/Operations/DataTransfer.cpp 205-209: lea *)
definition exec_lea :: "width_and_operands \<Rightarrow> ('z executor_state_scheme, unit) run" where
  "exec_lea wo = set_val (snd wo ! 0) (get_effective_addr (snd wo ! 1))"

section \<open>Stack\<close>

text \<open>The bytes of a value at an operation width.\<close>

lemma pushed_bytes:
  assumes "is_width w"
  shows "exec_push (w, [x]) s = bindR (get_val x) (\<lambda>a. push_stack (take (width_bytes w) (word_to_bytes 8 a))) s"
proof -
  have e: "word_to_bytes 1 (ucast a :: u8) = take 1 (word_to_bytes 8 a)"
    "word_to_bytes 2 (ucast a :: u16) = take 2 (word_to_bytes 8 a)"
    "word_to_bytes 4 (ucast a :: u32) = take 4 (word_to_bytes 8 a)" for a :: u64
    by (rule nth_equalityI, simp, rule bit_word_eqI, simp add: bit_ucast_iff bit_drop_bit_eq)+
  from assms show ?thesis
    by (cases rule: is_width_cases) (simp_all add: exec_push_def e del: One_nat_def)
qed

lemma popped_value:
  assumes "is_width w"
  shows "exec_pop (w, [y]) s = bindR (pop_stack (width_bytes w)) (\<lambda>bs. set_val y (truncate_to w (word_of_bytes bs))) s"
proof -
  have e: "ucast (word_of_bytes bs :: u8) = truncate_to prefix_8bit (word_of_bytes bs)"
    "ucast (word_of_bytes bs :: u16) = truncate_to prefix_16bit (word_of_bytes bs)"
    "ucast (word_of_bytes bs :: u32) = truncate_to prefix_32bit (word_of_bytes bs)" for bs
    unfolding truncate_to_def
    by (rule bit_word_eqI, auto simp: bit_ucast_iff bit_take_bit_iff bit_word_of_bytes)+
  from assms show ?thesis
    by (cases rule: is_width_cases) (simp_all add: exec_pop_def bindR_assoc truncate_to_simps(4) e)
qed

text \<open>
  Pushing bytes and popping as many from the state this leaves gives the bytes back and
  restores every register; the memory differs in the slot only.
\<close>

lemma push_pop_stack:
  assumes inv: "mem_inv s" and val: "val \<noteq> []"
    and room: "length val \<le> unat (StackPointer (Registers s))"
    and top: "unat (StackBase (Registers s)) + unat (StackPointer (Registers s)) \<le> unat (TotalMemory s)"
  shows "\<exists>s1 m. push_stack val s = (Inr (), s1)
    \<and> Registers s1 = (Registers s)\<lparr>StackPointer := StackPointer (Registers s) - of_nat (length val)\<rparr>
    \<and> writes_bytes s (unat (StackBase (Registers s)) + (unat (StackPointer (Registers s)) - length val))
        val (s\<lparr>Memory := m\<rparr>)
    \<and> s1 = s\<lparr>Memory := m, Registers := Registers s1\<rparr>
    \<and> (\<forall>g. StackBase g = StackBase (Registers s) \<longrightarrow> StackPointer g = StackPointer (Registers s1)
        \<longrightarrow> pop_stack (length val) (s1\<lparr>Registers := g\<rparr>)
          = (Inr val, s\<lparr>Memory := m, Registers := g\<lparr>StackPointer := StackPointer (Registers s)\<rparr>\<rparr>))"
proof -
  let ?p = "StackPointer (Registers s)" and ?b = "StackBase (Registers s)"
  from push_stack_ok [OF assms] obtain m where m:
    "push_stack val s = (Inr (), s\<lparr>Memory := m, Registers := (Registers s)
        \<lparr>StackPointer := ?p - of_nat (length val)\<rparr>\<rparr>)"
    "writes_bytes s (unat ?b + (unat ?p - length val)) val (s\<lparr>Memory := m\<rparr>)" by blast
  have "unat (TotalMemory s) < 2 ^ 63" using inv by (simp add: mem_inv_def)
  then have len: "unat (of_nat (length val) :: u64) = length val"
    using room top by (simp add: unat_of_nat_u64)
  then have sp: "unat (?p - of_nat (length val)) = unat ?p - length val"
    using room by (metis unat_sub word_le_nat_alt)
  have inv': "mem_inv (s\<lparr>Memory := m\<rparr>)" using writes_bytes_mem_inv [OF m(2)] inv by blast
  have "pop_stack (length val) (s\<lparr>Memory := m, Registers := g\<rparr>)
      = (Inr val, s\<lparr>Memory := m, Registers := g\<lparr>StackPointer := ?p\<rparr>\<rparr>)"
    if g: "StackBase g = ?b" "StackPointer g = ?p - of_nat (length val)" for g
  proof -
    let ?t = "s\<lparr>Memory := m, Registers := g\<rparr>"
    let ?a = "unat ?b + (unat ?p - length val)"
    have "map (flat (s\<lparr>Memory := m\<rparr>)) [?a..<?a + length val] = val"
      by (simp only: writes_bytes_flat [OF m(2)] flat_write_same)
    then have "pop_stack (length val) ?t = (Inr val, ?t\<lparr>Registers := (Registers ?t)
        \<lparr>StackPointer := StackPointer (Registers ?t) + of_nat (length val)\<rparr>\<rparr>)"
      using inv' room top val g sp by (intro pop_stack_written) simp_all
    with g(2) show ?thesis by simp
  qed
  with m show ?thesis by (intro exI [of _ "s\<lparr>Memory := m, Registers := (Registers s)
        \<lparr>StackPointer := ?p - of_nat (length val)\<rparr>\<rparr>"] exI [of _ m]) simp
qed

text \<open>
  C21: \<open>PUSH\<close> stores the operand at the operation width below the stack pointer, and
  \<open>POP\<close> at the same width then writes that value to its operand in a state with the
  registers from before the \<open>PUSH\<close>. A \<open>PUSH\<close> without room for the value raises a stack
  overflow and changes nothing.
\<close>

theorem push_pop_instructions:
  assumes "mem_inv s" and "is_width w" and "get_val x s = (Inr a, s)"
    and "unat (StackBase (Registers s)) + unat (StackPointer (Registers s)) \<le> unat (TotalMemory s)"
  defines "sp \<equiv> StackPointer (Registers s)"
  shows "(width_bytes w \<le> unat sp \<longrightarrow> (\<exists>s1 m. exec_push (w, [x]) s = (Inr (), s1)
        \<and> Registers s1 = (Registers s)\<lparr>StackPointer := sp - of_nat (width_bytes w)\<rparr>
        \<and> writes_bytes s (unat (StackBase (Registers s)) + (unat sp - width_bytes w))
            (take (width_bytes w) (word_to_bytes 8 a)) (s\<lparr>Memory := m\<rparr>)
        \<and> (\<forall>y. exec_pop (w, [y]) s1 = set_val y (truncate_to w a) (s\<lparr>Memory := m\<rparr>))))
    \<and> (unat sp < width_bytes w \<longrightarrow> exec_push (w, [x]) s = (Inl StackOverflow, s))"
proof (intro conjI impI)
  let ?val = "take (width_bytes w) (word_to_bytes 8 a)"
  have len: "length ?val = width_bytes w" and ne: "?val \<noteq> []" using width_bytes_bounds [of w] by auto
  have e: "exec_push (w, [x]) s = push_stack ?val s"
    using assms(2,3) by (simp add: pushed_bytes bindR_Inr)
  show "exec_push (w, [x]) s = (Inl StackOverflow, s)" if "unat sp < width_bytes w"
    unfolding e using that width_bytes_bounds [of w] len
    by (intro push_stack_overflows) (simp_all add: sp_def)
  assume "width_bytes w \<le> unat sp"
  then have room: "length ?val \<le> unat (StackPointer (Registers s))" by (simp add: len sp_def)
  from push_pop_stack [OF assms(1) ne room assms(4)] obtain s1 m where
    s1: "push_stack ?val s = (Inr (), s1)"
      "Registers s1 = (Registers s)\<lparr>StackPointer := sp - of_nat (length ?val)\<rparr>"
      "writes_bytes s (unat (StackBase (Registers s)) + (unat sp - length ?val)) ?val (s\<lparr>Memory := m\<rparr>)"
    and pop: "\<forall>g. StackBase g = StackBase (Registers s) \<longrightarrow> StackPointer g = StackPointer (Registers s1)
        \<longrightarrow> pop_stack (length ?val) (s1\<lparr>Registers := g\<rparr>) = (Inr ?val, s\<lparr>Memory := m, Registers := g\<lparr>StackPointer := sp\<rparr>\<rparr>)"
    unfolding sp_def by blast
  have "pop_stack (width_bytes w) s1 = (Inr ?val, s\<lparr>Memory := m\<rparr>)"
  proof -
    have id: "s1\<lparr>Registers := (Registers s)\<lparr>StackPointer := sp - of_nat (width_bytes w)\<rparr>\<rparr> = s1"
      unfolding s1(2) [unfolded len, symmetric] by simp
    have s: "s\<lparr>Memory := m, Registers := (Registers s)\<lparr>StackPointer := sp\<rparr>\<rparr> = s\<lparr>Memory := m\<rparr>"
      by (simp add: sp_def)
    from pop [unfolded len, rule_format, of "(Registers s)\<lparr>StackPointer := sp - of_nat (width_bytes w)\<rparr>"]
    show ?thesis unfolding id s1(2) [unfolded len] by (simp add: s)
  qed
  moreover have "truncate_to w (word_of_bytes ?val) = truncate_to w a"
    using width_bytes_bounds [of w] by (simp add: word_of_bytes_take truncate_to_def)
  ultimately have "exec_pop (w, [y]) s1 = set_val y (truncate_to w a) (s\<lparr>Memory := m\<rparr>)" for y
    using assms(2) by (simp add: popped_value bindR_Inr)
  then show "\<exists>s1 m. exec_push (w, [x]) s = (Inr (), s1)
      \<and> Registers s1 = (Registers s)\<lparr>StackPointer := sp - of_nat (width_bytes w)\<rparr>
      \<and> writes_bytes s (unat (StackBase (Registers s)) + (unat sp - width_bytes w)) ?val (s\<lparr>Memory := m\<rparr>)
      \<and> (\<forall>y. exec_pop (w, [y]) s1 = set_val y (truncate_to w a) (s\<lparr>Memory := m\<rparr>))"
    using s1 unfolding e len by blast
qed

theorem push_pop_instructions_witness:
  "(\<exists>s1. exec_push (prefix_32bit, [ConstantOperand 0x1122334455 prefix_64bit])
      (demo_executor (new_registers\<lparr>StackPointer := 0x1000\<rparr>)) = (Inr (), s1)
    \<and> StackPointer (Registers s1) = 0xFFC)
   \<and> exec_push (prefix_32bit, [ConstantOperand 1 prefix_8bit]) (demo_executor (new_registers\<lparr>StackPointer := 3\<rparr>))
      = (Inl StackOverflow, demo_executor (new_registers\<lparr>StackPointer := 3\<rparr>))"
  using push_pop_instructions [of "demo_executor (new_registers\<lparr>StackPointer := 0x1000\<rparr>)" prefix_32bit
      "ConstantOperand 0x1122334455 prefix_64bit" "0x1122334455", THEN conjunct1]
    push_pop_instructions [of "demo_executor (new_registers\<lparr>StackPointer := 3\<rparr>)" prefix_32bit
      "ConstantOperand 1 prefix_8bit" 1, THEN conjunct2]
  by (auto simp: returnR_def new_registers_def)

section \<open>Saving all registers\<close>

text \<open>The registers that \<open>popall\<close> leaves as they are, from \<open>g\<close>, and the others from \<open>r\<close>.\<close>

definition popall_restores :: "sysdarft_register_t \<Rightarrow> sysdarft_register_t \<Rightarrow> sysdarft_register_t" where
  "popall_restores r g = r\<lparr>CodeBase := CodeBase g, InstructionPointer := InstructionPointer g,
     SelectorSpaceStart := SelectorSpaceStart g, SelectorSPaceSize := SelectorSPaceSize g,
     R_reserved1 := R_reserved1 g, R_reserved2 := R_reserved2 g, R_reserved3 := R_reserved3 g,
     R_reserved4 := R_reserved4 g\<rparr>"

lemma popall_store_words: "popall_store (pushall_words r) g = popall_restores r g"
  by (simp add: popall_store_def pushall_words_def popall_restores_def alias_defs Let_def nth_Cons')

lemma pushall_bytes_round_trip:
  "map (\<lambda>i. word_of_bytes (take 8 (drop (8 * i) (concat (map (word_to_bytes 8) (pushall_words r)))))) [0..<24]
    = pushall_words r"
proof -
  have "length (pushall_words r) = 24" by (simp add: pushall_words_def)
  then show ?thesis
    by (intro nth_equalityI) (simp_all add: take_drop_concat_chunks)
qed

text \<open>
  C20: \<open>PUSHALL\<close> followed by any change to the registers that keeps the stack where it is,
  and then by \<open>POPALL\<close>, restores all general registers, the flags, the stack, data and
  extended segment registers and the frame size; the code position and the registers
  outside the save area keep their current values.
\<close>

theorem pushall_popall_restores:
  assumes "mem_inv s" and "192 \<le> unat (StackPointer (Registers s))"
    and "unat (StackBase (Registers s)) + unat (StackPointer (Registers s)) \<le> unat (TotalMemory s)"
  shows "\<exists>s1 m. exec_pushall wo s = (Inr (), s1)
    \<and> (\<forall>g. StackBase g = StackBase (Registers s1) \<longrightarrow> StackPointer g = StackPointer (Registers s1)
        \<longrightarrow> exec_popall wo (s1\<lparr>Registers := g\<rparr>)
          = (Inr (), s\<lparr>Memory := m, Registers := popall_restores (Registers s) g\<rparr>))"
proof -
  let ?val = "concat (map (word_to_bytes 8) (pushall_words (Registers s)))"
  have len: "length ?val = 192" by (simp add: pushall_words_def)
  have ne: "?val \<noteq> []" by (simp add: pushall_words_def)
  have "length ?val \<le> unat (StackPointer (Registers s))" using assms(2) len by simp
  from push_pop_stack [OF assms(1) ne this assms(3)] obtain s1 m where
    s1: "push_stack ?val s = (Inr (), s1)"
      "Registers s1 = (Registers s)\<lparr>StackPointer := StackPointer (Registers s) - of_nat (length ?val)\<rparr>"
    and pop: "\<forall>g. StackBase g = StackBase (Registers s) \<longrightarrow> StackPointer g = StackPointer (Registers s1)
        \<longrightarrow> pop_stack (length ?val) (s1\<lparr>Registers := g\<rparr>)
          = (Inr ?val, s\<lparr>Memory := m, Registers := g\<lparr>StackPointer := StackPointer (Registers s)\<rparr>\<rparr>)"
    by blast
  have "exec_popall wo (s1\<lparr>Registers := g\<rparr>) = (Inr (), s\<lparr>Memory := m, Registers := popall_restores (Registers s) g\<rparr>)"
    if "StackBase g = StackBase (Registers s1)" "StackPointer g = StackPointer (Registers s1)" for g
  proof -
    have "pop_stack 192 (s1\<lparr>Registers := g\<rparr>)
        = (Inr ?val, s\<lparr>Memory := m, Registers := g\<lparr>StackPointer := StackPointer (Registers s)\<rparr>\<rparr>)"
      using pop that s1(2) unfolding len by simp
    then show ?thesis
      by (simp add: exec_popall_def bindR_Inr store_def pushall_bytes_round_trip popall_store_words
          del: upt_rec_numeral) (simp add: popall_restores_def)
  qed
  moreover have "exec_pushall wo s = (Inr (), s1)"
    using s1(1) by (simp add: exec_pushall_def load_def)
  ultimately show ?thesis by blast
qed

theorem pushall_popall_restores_witness:
  "\<exists>s1. exec_pushall (0, []) (demo_executor (new_registers\<lparr>StackPointer := 0x1000, DataBase := 7\<rparr>)) = (Inr (), s1)"
  using pushall_popall_restores [of "demo_executor (new_registers\<lparr>StackPointer := 0x1000, DataBase := 7\<rparr>)" "(0, [])"]
  by (auto simp: new_registers_def)

section \<open>Frames and block copies\<close>

text \<open>
  C34: \<open>LEAVE\<close> undoes \<open>ENTER\<close>: it gives back the stack pointer from before, also when the
  subtraction wrapped, and clears the recorded frame size.
\<close>

theorem enter_leave_restores_stack:
  assumes "get_val x s = (Inr a, s)"
  shows "\<exists>s1. exec_enter (w, [x]) s = (Inr (), s1)
    \<and> StackPointer (Registers s1) = StackPointer (Registers s) - a
    \<and> exec_leave wo s1 = (Inr (), s\<lparr>Registers := (Registers s)\<lparr>CurrentProcedureStackPreservationSpace := 0\<rparr>\<rparr>)"
  using assms by (simp add: exec_enter_def exec_leave_def bindR_Inr load_def store_def)

theorem enter_leave_restores_stack_witness:
  "\<exists>s1. exec_enter (prefix_16bit, [ConstantOperand 0x40 prefix_16bit])
      (demo_executor (new_registers\<lparr>StackPointer := 0x1000\<rparr>)) = (Inr (), s1)
    \<and> StackPointer (Registers s1) = 0xFC0"
  using enter_leave_restores_stack [of "ConstantOperand 0x40 prefix_16bit"
      "demo_executor (new_registers\<lparr>StackPointer := 0x1000\<rparr>)" "0x40" prefix_16bit]
  by (auto simp: returnR_def)

text \<open>
  C23: \<open>MOVS\<close> copies \<open>FER3\<close> bytes from the extended to the data segment, through a buffer,
  so that overlapping areas are copied correctly, and changes no other byte and no register.
\<close>

theorem movs_copies_block:
  assumes "mem_inv s" and "r = Registers s" and "n = unat (get_FER3 r)" and "0 < n"
    and "src = ExtendedPointer r + ExtendedBase r" and "unat src + n \<le> unat (TotalMemory s)"
    and "dest = DataPointer r + DataBase r" and "unat dest + n \<le> unat (TotalMemory s)"
  shows "\<exists>s'. exec_movs wo s = (Inr (), s')
    \<and> writes_bytes s (unat dest) (map (flat s) [unat src..<unat src + n]) s'"
proof -
  have "unat (TotalMemory s) < 2 ^ 63" using assms(1) by (simp add: mem_inv_def)
  then have n: "n < 2 ^ 63" and c: "of_nat n = get_FER3 r" using assms(3,6) by simp_all
  have "in_memory s src n" "in_memory s dest n" using assms(4,6,8) by (simp_all add: in_memory_def)
  from read_memory_flat [OF assms(1) this(1)]
    write_memory_flat [OF assms(1) this(2), of "map (flat s) [unat src..<unat src + n]"]
  show ?thesis
    using n c assms(2,3,5,7) by (auto simp: exec_movs_def load_def bindR_Inr)
qed

theorem movs_copies_block_witness:
  "\<exists>s'. exec_movs (0, []) (demo_executor (put_FER3 0x20 (new_registers\<lparr>DataPointer := 0x1000, ExtendedPointer := 0x1010\<rparr>)))
      = (Inr (), s')"
  using movs_copies_block [of "demo_executor (put_FER3 0x20 (new_registers\<lparr>DataPointer := 0x1000, ExtendedPointer := 0x1010\<rparr>))",
      OF _ refl refl _ refl _ refl, of "(0, [])"]
  by (auto simp: alias_defs new_registers_def)

end
