(* ===== verification/Ops_Control.thy ===== *)
theory Ops_Control
  imports Ops_Data
begin

text \<open>
  The control flow instructions (\<open>cpu/Operations/ControlFlow.cpp\<close>), the miscellaneous ones
  (\<open>cpu/Operations/Misc.cpp\<close>) and port input and output (\<open>cpu/Operations/IOH.cpp\<close>).
\<close>

section \<open>Control flow\<close>

(* cpu/Operations/ControlFlow.cpp 23-29: jmp *)
definition exec_jmp :: "width_and_operands \<Rightarrow> ('z executor_state_scheme, unit) run" where
  "exec_jmp wo =
     bindR (get_val (snd wo ! 0)) (\<lambda>addr_base.
     bindR (get_val (snd wo ! 1)) (\<lambda>ip.
     thenR (store (\<lambda>r. r\<lparr>CodeBase := addr_base\<rparr>)) (store (\<lambda>r. r\<lparr>InstructionPointer := ip\<rparr>))))"

(* cpu/Operations/ControlFlow.cpp 31-43: call *)
definition exec_call :: "width_and_operands \<Rightarrow> ('z executor_state_scheme, unit) run" where
  "exec_call wo =
     bindR (load CodeBase) (\<lambda>ori_cb.
     bindR (load InstructionPointer) (\<lambda>ori_ip.
     thenR (push_stack (word_to_bytes 8 ori_cb))
     (thenR (push_stack (word_to_bytes 8 ori_ip))
     (bindR (get_val (snd wo ! 0)) (\<lambda>addr_base.
      bindR (get_val (snd wo ! 1)) (\<lambda>ip.
      thenR (store (\<lambda>r. r\<lparr>CodeBase := addr_base\<rparr>)) (store (\<lambda>r. r\<lparr>InstructionPointer := ip\<rparr>))))))))"

(* cpu/Operations/ControlFlow.cpp 45-51: ret *)
definition exec_ret :: "width_and_operands \<Rightarrow> ('z executor_state_scheme, unit) run" where
  "exec_ret wo =
     bindR (pop_stack 8) (\<lambda>ip.
     bindR (pop_stack 8) (\<lambda>cb.
     thenR (store (\<lambda>r. r\<lparr>CodeBase := word_of_bytes cb\<rparr>))
       (store (\<lambda>r. r\<lparr>InstructionPointer := word_of_bytes ip\<rparr>))))"

text \<open>
  The conditional jumps test the flags and, if the test holds, do what \<open>jmp\<close> does. \<open>JB\<close>
  stands for a jump if bigger.
\<close>

definition jump_if :: "(flag_register \<Rightarrow> bool) \<Rightarrow> width_and_operands \<Rightarrow> ('z executor_state_scheme, unit) run" where
  "jump_if P wo =
     bindR (load (\<lambda>r. P (FlagRegister r))) (\<lambda>c.
     if c then
       bindR (get_val (snd wo ! 0)) (\<lambda>addr_base.
       bindR (get_val (snd wo ! 1)) (\<lambda>ip.
       thenR (store (\<lambda>r. r\<lparr>CodeBase := addr_base\<rparr>)) (store (\<lambda>r. r\<lparr>InstructionPointer := ip\<rparr>))))
     else returnR ())"

(* cpu/Operations/ControlFlow.cpp 53-62: je *)
definition exec_je :: "width_and_operands \<Rightarrow> ('z executor_state_scheme, unit) run" where
  "exec_je = jump_if Equal"

(* cpu/Operations/ControlFlow.cpp 64-73: jne *)
definition exec_jne :: "width_and_operands \<Rightarrow> ('z executor_state_scheme, unit) run" where
  "exec_jne = jump_if (\<lambda>f. \<not> Equal f)"

(* cpu/Operations/ControlFlow.cpp 75-84: jb *)
definition exec_jb :: "width_and_operands \<Rightarrow> ('z executor_state_scheme, unit) run" where
  "exec_jb = jump_if LargerThan"

(* cpu/Operations/ControlFlow.cpp 86-95: jl *)
definition exec_jl :: "width_and_operands \<Rightarrow> ('z executor_state_scheme, unit) run" where
  "exec_jl = jump_if LessThan"

(* cpu/Operations/ControlFlow.cpp 97-106: jbe *)
definition exec_jbe :: "width_and_operands \<Rightarrow> ('z executor_state_scheme, unit) run" where
  "exec_jbe = jump_if (\<lambda>f. Equal f \<or> LargerThan f)"

(* cpu/Operations/ControlFlow.cpp 108-117: jle *)
definition exec_jle :: "width_and_operands \<Rightarrow> ('z executor_state_scheme, unit) run" where
  "exec_jle = jump_if (\<lambda>f. Equal f \<or> LessThan f)"

(* cpu/Operations/ControlFlow.cpp 135-144: jc *)
definition exec_jc :: "width_and_operands \<Rightarrow> ('z executor_state_scheme, unit) run" where
  "exec_jc = jump_if Carry"

(* cpu/Operations/ControlFlow.cpp 146-155: jnc *)
definition exec_jnc :: "width_and_operands \<Rightarrow> ('z executor_state_scheme, unit) run" where
  "exec_jnc = jump_if (\<lambda>f. \<not> Carry f)"

(* cpu/Operations/ControlFlow.cpp 157-166: jo *)
definition exec_jo :: "width_and_operands \<Rightarrow> ('z executor_state_scheme, unit) run" where
  "exec_jo = jump_if Overflow"

(* cpu/Operations/ControlFlow.cpp 168-177: jno *)
definition exec_jno :: "width_and_operands \<Rightarrow> ('z executor_state_scheme, unit) run" where
  "exec_jno = jump_if (\<lambda>f. \<not> Overflow f)"

(* cpu/Operations/ControlFlow.cpp 119-123: int_ *)
definition exec_int :: "width_and_operands \<Rightarrow> ('z executor_state_scheme, unit) run" where
  "exec_int wo = bindR (get_val (snd wo ! 0)) do_interruption"

(* cpu/Operations/ControlFlow.cpp 125-128: int3 *)
definition exec_int3 :: "width_and_operands \<Rightarrow> ('z executor_state_scheme, unit) run" where
  "exec_int3 wo = do_interruption 0x03"

(* cpu/Operations/ControlFlow.cpp 130-133: iret *)
definition exec_iret :: "width_and_operands \<Rightarrow> ('z executor_state_scheme, unit) run" where
  "exec_iret wo = do_iret"

(* cpu/Operations/ControlFlow.cpp 179-193: loop *)
definition exec_loop :: "width_and_operands \<Rightarrow> ('z executor_state_scheme, unit) run" where
  "exec_loop wo =
     bindR (load (\<lambda>r. get_FER3 r - 1)) (\<lambda>cx.
     if cx \<noteq> 0 then
       bindR (get_val (snd wo ! 0)) (\<lambda>addr_base.
       bindR (get_val (snd wo ! 1)) (\<lambda>ip.
       thenR (store (\<lambda>r. r\<lparr>CodeBase := addr_base\<rparr>))
       (thenR (store (\<lambda>r. r\<lparr>InstructionPointer := ip\<rparr>)) (store (put_FER3 cx)))))
     else store (put_FER3 0))"

section \<open>Miscellaneous\<close>

(* cpu/Operations/Misc.cpp 23-26: nop *)
definition exec_nop :: "width_and_operands \<Rightarrow> ('z executor_state_scheme, unit) run" where
  "exec_nop wo = returnR ()"

(* cpu/Operations/Misc.cpp 28-31: hlt *)
definition exec_hlt :: "width_and_operands \<Rightarrow> ('z executor_state_scheme, unit) run" where
  "exec_hlt wo = modifyR (\<lambda>s. s\<lparr>SystemHalted := True\<rparr>)"

(* cpu/Operations/Misc.cpp 33-38: igni *)
definition exec_igni :: "width_and_operands \<Rightarrow> ('z executor_state_scheme, unit) run" where
  "exec_igni wo = store (\<lambda>r. r\<lparr>FlagRegister := (FlagRegister r)\<lparr>InterruptionMask := True\<rparr>\<rparr>)"

(* cpu/Operations/Misc.cpp 40-45: alwi *)
definition exec_alwi :: "width_and_operands \<Rightarrow> ('z executor_state_scheme, unit) run" where
  "exec_alwi wo = store (\<lambda>r. r\<lparr>FlagRegister := (FlagRegister r)\<lparr>InterruptionMask := False\<rparr>\<rparr>)"

section \<open>Port input and output\<close>

text \<open>
  A call of the hub, whose state is the list of devices. \<open>ins\<close> of the hub returns a
  reference to the stream of the port, so what is popped or cleared there is gone from the
  device.
\<close>

definition on_hub :: "(device list, 'a) run \<Rightarrow> ('z executor_state_scheme, 'a) run" where
  "on_hub m s = (case m (device_list s) of (r, ds) \<Rightarrow> (r, s\<lparr>device_list := ds\<rparr>))"

(* cpu/Operations/IOH.cpp 23-29: in *)
definition exec_in :: "width_and_operands \<Rightarrow> ('z executor_state_scheme, unit) run" where
  "exec_in wo =
     bindR (get_val (snd wo ! 0)) (\<lambda>port.
     bindR (getR system_clock) (\<lambda>now.
     bindR (on_hub (hub_ins now port)) (\<lambda>i.
     bindR (on_hub (on_device i (on_stream port (stream_pop 8)))) (\<lambda>data.
     set_val (snd wo ! 1) (word_of_bytes data)))))"

(* cpu/Operations/IOH.cpp 31-39: out *)
definition exec_out :: "width_and_operands \<Rightarrow> ('z executor_state_scheme, unit) run" where
  "exec_out wo =
     bindR (get_val (snd wo ! 0)) (\<lambda>port.
     bindR (get_val (snd wo ! 1)) (\<lambda>data.
     on_hub (hub_outs port (stream_push (word_to_bytes 8 data) []))))"

(* cpu/Operations/IOH.cpp 41-55: ins *)
definition exec_ins :: "width_and_operands \<Rightarrow> ('z executor_state_scheme, unit) run" where
  "exec_ins wo =
     bindR (load DataBase) (\<lambda>DB.
     bindR (load DataPointer) (\<lambda>DP.
     bindR (load get_FER3) (\<lambda>CX.
     bindR (get_val (snd wo ! 0)) (\<lambda>port.
     bindR (getR system_clock) (\<lambda>now.
     bindR (on_hub (hub_ins now port)) (\<lambda>i.
     bindR (on_hub (on_device i (on_stream port (getR id)))) (\<lambda>wbuf.
     if length wbuf \<noteq> unat CX then throwR SysdarftDeviceIOError
     else thenR (on_hub (on_device i (on_stream port (modifyR (\<lambda>_. [])))))
       (write_memory (DB + DP) wbuf CX))))))))"

text \<open>\<open>wbuf.resize\<close> throws \<open>std::length_error\<close> for 2^63 bytes and more.\<close>

(* cpu/Operations/IOH.cpp 57-71: outs *)
definition exec_outs :: "width_and_operands \<Rightarrow> ('z executor_state_scheme, unit) run" where
  "exec_outs wo =
     bindR (load DataBase) (\<lambda>DB.
     bindR (load DataPointer) (\<lambda>DP.
     bindR (load get_FER3) (\<lambda>CX.
     bindR (get_val (snd wo ! 0)) (\<lambda>port.
     if unat CX \<ge> 2 ^ 63 then throwR StdException
     else bindR (read_memory (DB + DP) CX) (\<lambda>wbuf.
       on_hub (hub_outs port (stream_insert wbuf [])))))))"

section \<open>Calls\<close>

text \<open>Two values pushed one after the other are popped in the opposite order.\<close>

lemma push_push_pop_pop:
  assumes inv: "mem_inv s" and room: "16 \<le> unat (StackPointer (Registers s))"
    and top: "unat (StackBase (Registers s)) + unat (StackPointer (Registers s)) \<le> unat (TotalMemory s)"
  shows "\<exists>s1 m. thenR (push_stack (word_to_bytes 8 (a :: u64))) (push_stack (word_to_bytes 8 (b :: u64))) s = (Inr (), s1)
    \<and> s1 = s\<lparr>Memory := m, Registers := (Registers s)\<lparr>StackPointer := StackPointer (Registers s) - 16\<rparr>\<rparr>
    \<and> (\<forall>g. StackBase g = StackBase (Registers s) \<longrightarrow> StackPointer g = StackPointer (Registers s) - 16
        \<longrightarrow> pop_stack 8 (s\<lparr>Memory := m, Registers := g\<rparr>) = (Inr (word_to_bytes 8 b),
              s\<lparr>Memory := m, Registers := g\<lparr>StackPointer := StackPointer (Registers s) - 8\<rparr>\<rparr>)
          \<and> pop_stack 8 (s\<lparr>Memory := m, Registers := g\<lparr>StackPointer := StackPointer (Registers s) - 8\<rparr>\<rparr>)
              = (Inr (word_to_bytes 8 a), s\<lparr>Memory := m, Registers := g\<lparr>StackPointer := StackPointer (Registers s)\<rparr>\<rparr>))"
proof -
  let ?p = "StackPointer (Registers s)" and ?b = "StackBase (Registers s)"
  have sp: "unat (?p - 8) = unat ?p - 8" "unat (?p - 16) = unat ?p - 16"
    using room by (simp_all add: unat_sub word_le_nat_alt)
  let ?a1 = "unat ?b + (unat ?p - 8)" and ?a2 = "unat ?b + (unat ?p - 16)"
  from push_stack_ok [OF inv, of "word_to_bytes 8 a"] room top obtain m1 where m1:
    "push_stack (word_to_bytes 8 a) s = (Inr (), s\<lparr>Memory := m1, Registers := (Registers s)\<lparr>StackPointer := ?p - 8\<rparr>\<rparr>)"
    "writes_bytes s ?a1 (word_to_bytes 8 a) (s\<lparr>Memory := m1\<rparr>)" by auto
  let ?s1 = "s\<lparr>Memory := m1, Registers := (Registers s)\<lparr>StackPointer := ?p - 8\<rparr>\<rparr>"
  have inv1: "mem_inv ?s1" using writes_bytes_mem_inv [OF m1(2)] inv by simp
  have "length (word_to_bytes 8 b) \<le> unat (StackPointer (Registers ?s1))" "word_to_bytes 8 b \<noteq> []"
    "unat (StackBase (Registers ?s1)) + unat (StackPointer (Registers ?s1)) \<le> unat (TotalMemory ?s1)"
    using room top sp by simp_all
  from push_stack_ok [OF inv1 this(2,1,3)] sp room obtain m where m:
    "push_stack (word_to_bytes 8 b) ?s1 = (Inr (), s\<lparr>Memory := m, Registers := (Registers s)\<lparr>StackPointer := ?p - 16\<rparr>\<rparr>)"
    "writes_bytes ?s1 ?a2 (word_to_bytes 8 b) (?s1\<lparr>Memory := m\<rparr>)" by auto
  have inv2: "mem_inv (s\<lparr>Memory := m\<rparr>)"
    using writes_bytes_mem_inv [OF m(2)] inv1 by (simp add: mem_inv_def)
  have f: "flat (s\<lparr>Memory := m\<rparr>) = flat_write ?a2 (word_to_bytes 8 b) (flat_write ?a1 (word_to_bytes 8 a) (flat s))"
    using writes_bytes_flat [OF m(2)] writes_bytes_flat [OF m1(2)] by (simp add: flat_def fun_eq_iff)
  have "map (flat (s\<lparr>Memory := m\<rparr>)) [?a2..<?a2 + length (word_to_bytes 8 b)] = word_to_bytes 8 b"
    unfolding f by (rule flat_write_same)
  then have r2: "map (flat (s\<lparr>Memory := m\<rparr>)) [?a2..<?a2 + 8] = word_to_bytes 8 b" by simp
  have "map (flat (s\<lparr>Memory := m\<rparr>)) [?a1..<?a1 + length (word_to_bytes 8 a)] = word_to_bytes 8 a"
    unfolding f using room flat_write_same [of ?a1 "word_to_bytes 8 a" "flat s"]
    by (subst flat_write_other) simp_all
  then have r1: "map (flat (s\<lparr>Memory := m\<rparr>)) [?a1..<?a1 + 8] = word_to_bytes 8 a" by simp
  have "pop_stack (length (word_to_bytes 8 b)) (s\<lparr>Memory := m, Registers := g\<rparr>) = (Inr (word_to_bytes 8 b),
        s\<lparr>Memory := m, Registers := g\<lparr>StackPointer := ?p - 8\<rparr>\<rparr>)"
    if "StackBase g = ?b" "StackPointer g = ?p - 16" for g
    using that inv2 room top sp r2 by (subst pop_stack_written) simp_all
  moreover have "pop_stack (length (word_to_bytes 8 a)) (s\<lparr>Memory := m, Registers := g\<lparr>StackPointer := ?p - 8\<rparr>\<rparr>)
      = (Inr (word_to_bytes 8 a), s\<lparr>Memory := m, Registers := g\<lparr>StackPointer := ?p\<rparr>\<rparr>)"
    if "StackBase g = ?b" for g
    using that inv2 room top sp r1 by (subst pop_stack_written) simp_all
  ultimately show ?thesis using m1(1) m(1) by (auto simp: thenR_Inr)
qed



section \<open>Conditional jumps\<close>

definition jump_to :: "u64 \<Rightarrow> u64 \<Rightarrow> 'z executor_state_scheme \<Rightarrow> 'z executor_state_scheme" where
  "jump_to cb ip s = s\<lparr>Registers := (Registers s)\<lparr>CodeBase := cb, InstructionPointer := ip\<rparr>\<rparr>"

lemma jump_if_run:
  "jump_if P (w, [ConstantOperand cb c, ConstantOperand ip c']) s
    = (Inr (), if P (FlagRegister (Registers s)) then jump_to cb ip s else s)"
  by (simp add: jump_if_def load_def store_def jump_to_def returnR_def)

lemma cmp_run:
  assumes "get_val x s = (Inr a, s)" and "get_val y s = (Inr b, s)"
  shows "\<exists>s1. exec_cmp (w, [x, y]) s = (Inr (), s1)
    \<and> Equal (FlagRegister (Registers s1)) = (unat a = unat b)
    \<and> LargerThan (FlagRegister (Registers s1)) = (unat a > unat b)
    \<and> LessThan (FlagRegister (Registers s1)) = (unat a < unat b)"
  using assms
  by (simp add: exec_cmp_def bindR_Inr clear_flags_run load_def store_def word_less_nat_alt
      word_unat_eq_iff Let_def)



text \<open>
  C38: \<open>LOOP\<close> counts \<open>FER3\<close> down and jumps while the new count is not zero; from one it
  falls through and leaves zero. From zero the count wraps to \<open>2^64 - 1\<close> and the jump is taken.
\<close>

theorem loop_counts_down:
  assumes "target = (w, [ConstantOperand cb c, ConstantOperand ip c'])"
  shows "exec_loop target s = (Inr (),
      if get_FER3 (Registers s) = 1 then s\<lparr>Registers := put_FER3 0 (Registers s)\<rparr>
      else let s1 = jump_to cb ip s in s1\<lparr>Registers := put_FER3 (get_FER3 (Registers s) - 1) (Registers s1)\<rparr>)
    \<and> unat (get_FER3 (put_FER3 (get_FER3 (Registers s) - 1) (Registers s))) =
        (if get_FER3 (Registers s) = 0 then 2 ^ 64 - 1 else unat (get_FER3 (Registers s)) - 1)"
proof -
  have e: "get_FER3 r - 1 = 0 \<longleftrightarrow> get_FER3 r = 1" for r by auto
  have "unat (v - 1) = (if v = 0 then 2 ^ 64 - 1 else unat v - 1)" for v :: u64
    by (auto simp: unat_minus_one unsigned_minus_1_eq_mask mask_eq_exp_minus_1)
  then have u: "unat (get_FER3 (put_FER3 (v - 1) r)) = (if v = 0 then 2 ^ 64 - 1 else unat v - 1)" for v r
    by (simp add: alias_defs)
  have "get_FER3 (r\<lparr>CodeBase := cb, InstructionPointer := ip\<rparr>) = get_FER3 r" for r
    by (simp add: alias_defs)
  then show ?thesis
    unfolding u by (simp add: assms exec_loop_def load_def store_def jump_to_def Let_def e returnR_def)
qed

theorem loop_counts_down_witness:
  "exec_loop (0, [ConstantOperand 0xC000 prefix_64bit, ConstantOperand 8 prefix_64bit])
      (demo_executor (put_FER3 1 new_registers))
    = (Inr (), (demo_executor (put_FER3 1 new_registers))\<lparr>Registers := put_FER3 0 (put_FER3 1 new_registers)\<rparr>)"
proof -
  have "get_FER3 (put_FER3 1 new_registers) = 1" by (simp add: alias_defs)
  then show ?thesis
    using loop_counts_down [OF refl, of 0 "0xC000" prefix_64bit 8 prefix_64bit "demo_executor (put_FER3 1 new_registers)"]
    by simp
qed

section \<open>Port input\<close>

lemma on_device_stream:
  assumes "i < length ds" and "device_buffer (ds ! i) port = Some st"
  shows "on_device i (on_stream port m) ds = (case m st of (r, st') \<Rightarrow>
    (r, ds[i := (ds ! i)\<lparr>device_buffer := (device_buffer (ds ! i))(port \<mapsto> st')\<rparr>]))"
  using assms by (simp add: on_device_def on_stream_def split: prod.split)

text \<open>
  C20: \<open>INS\<close> moves the whole stream of the port to the data segment when its length is the
  count in \<open>FER3\<close>, and leaves the stream empty. When the lengths differ it raises a device
  error, with the stream as the device filled it and the memory unchanged. \<open>IN\<close> takes eight
  bytes off the front and leaves the rest.
\<close>

theorem ins_moves_stream:
  assumes "mem_inv s" and "get_val x s = (Inr port, s)"
    and "hub_ins (system_clock s) port (device_list s) = (Inr i, ds)"
    and "i < length ds" and "device_buffer (ds ! i) port = Some st"
    and "addr = DataBase (Registers s) + DataPointer (Registers s)"
    and "leaving = (\<lambda>rest. ds[i := (ds ! i)\<lparr>device_buffer := (device_buffer (ds ! i))(port \<mapsto> rest)\<rparr>])"
  shows "(length st = unat (get_FER3 (Registers s)) \<longrightarrow> st \<noteq> [] \<longrightarrow> unat addr + length st \<le> unat (TotalMemory s)
      \<longrightarrow> (\<exists>s'. exec_ins (w, [x]) s = (Inr (), s') \<and> device_list s' = leaving []
        \<and> writes_bytes (s\<lparr>device_list := leaving []\<rparr>) (unat addr) st s'))
    \<and> (length st \<noteq> unat (get_FER3 (Registers s)) \<longrightarrow>
        exec_ins (w, [x]) s = (Inl SysdarftDeviceIOError, s\<lparr>device_list := leaving st\<rparr>))
    \<and> (8 \<le> length st \<longrightarrow> exec_in (w, [x, y]) s =
        set_val y (word_of_bytes (take 8 st)) (s\<lparr>device_list := leaving (drop 8 st)\<rparr>))"
proof (intro conjI impI)
  note hub = on_hub_def assms(2,3) on_device_stream [OF assms(4,5)] bindR_Inr
  show "exec_ins (w, [x]) s = (Inl SysdarftDeviceIOError, s\<lparr>device_list := leaving st\<rparr>)"
    if "length st \<noteq> unat (get_FER3 (Registers s))"
    using that by (simp add: exec_ins_def load_def hub assms(7) throwR_def)
  show "exec_in (w, [x, y]) s = set_val y (word_of_bytes (take 8 st)) (s\<lparr>device_list := leaving (drop 8 st)\<rparr>)"
    if "8 \<le> length st"
    using that by (simp add: exec_in_def hub stream_pop_eq assms(7))
next
  note hub = on_hub_def assms(2,3) on_device_stream [OF assms(4,5)] bindR_Inr thenR_Inr
  assume len: "length st = unat (get_FER3 (Registers s))" and "st \<noteq> []"
    and top: "unat addr + length st \<le> unat (TotalMemory s)"
  let ?t = "s\<lparr>device_list := leaving []\<rparr>"
  have inv: "mem_inv ?t" using assms(1) by (simp add: mem_inv_def)
  have "in_memory ?t addr (length st)" using \<open>st \<noteq> []\<close> top by (cases st) (simp_all add: in_memory_def)
  from write_memory_flat [OF inv this order_refl] obtain s' where
    s': "write_memory addr st (of_nat (length st)) ?t = (Inr (), s')" "writes_bytes ?t (unat addr) st s'"
    by auto
  have d: "device_buffer (ds[i := (ds ! i)\<lparr>device_buffer := (device_buffer (ds ! i))(port \<mapsto> st)\<rparr>] ! i) port = Some st"
    using assms(4) by simp
  have c: "of_nat (length st) = get_FER3 (Registers s)" by (simp add: len)
  have "exec_ins (w, [x]) s = (Inr (), s')"
    using s'(1) len on_device_stream [OF _ d, of "modifyR (\<lambda>_. [])"] assms(4)
    by (simp add: exec_ins_def load_def hub assms(6,7) c thenR_def bindR_def)
  moreover have "device_list s' = leaving []"
  proof -
    have "s' = ?t\<lparr>Memory := Memory s'\<rparr>" using s'(2) by (simp add: writes_bytes_def)
    from arg_cong [OF this, of device_list] show ?thesis by simp
  qed
  ultimately show "\<exists>s'. exec_ins (w, [x]) s = (Inr (), s') \<and> device_list s' = leaving []
      \<and> writes_bytes ?t (unat addr) st s'" using s'(2) by blast
qed

theorem ins_moves_stream_witness:
  "\<exists>s'. exec_ins (prefix_64bit, [ConstantOperand 0x116 prefix_16bit])
      ((demo_executor (put_FER3 3 new_registers))\<lparr>device_list := [SysdarftFloppyDiskA []]\<rparr>)
    = (Inl SysdarftDeviceIOError, s')"
proof -
  let ?s = "(demo_executor (put_FER3 3 new_registers))\<lparr>device_list := [SysdarftFloppyDiskA []]\<rparr>"
  let ?d = "SysdarftFloppyDiskA []"
  let ?ds = "[?d\<lparr>device_buffer := (device_buffer ?d)(0x116 \<mapsto> word_to_bytes 8 (0 :: u64))\<rparr>]"
  have h: "hub_ins (system_clock ?s) 0x116 (device_list ?s) = (Inr 0, ?ds)"
    by (simp add: hub_ins_def request_read_def disk_request_read_def SysdarftFloppyDiskA_def new_disk_def
        on_device_def on_stream_def bindR_def returnR_def stream_push_def)
  have f: "unat (get_FER3 (Registers ?s)) = 3" by (simp add: alias_defs)
  have "mem_inv ?s" using demo_executor_simps(3) [of "put_FER3 3 new_registers"] by (simp add: mem_inv_def)
  from ins_moves_stream [OF this _ h _ _ refl refl, of "ConstantOperand 0x116 prefix_16bit" "word_to_bytes 8 (0 :: u64)"
      prefix_64bit undefined, THEN conjunct2, THEN conjunct1] f
  show ?thesis by (simp add: returnR_def)
qed

end
