(* ===== verification/Instruction_Exec.thy ===== *)
theory Instruction_Exec
  imports Ops_Control
begin

text \<open>
  The executor (\<open>cpu/SysdarftInstructionExec.cpp\<close>): the map from opcodes to the member
  functions of the instructions, and \<open>execute\<close>, which decodes and runs one instruction and
  turns the exceptions of the emulated hardware into interruptions.
\<close>

section \<open>Dispatch\<close>

(* include/SysdarftCPUDecoder.h 30-30: INT_FATAL *)
definition INT_FATAL :: u64 where "INT_FATAL = 0x00"
(* include/SysdarftCPUDecoder.h 32-32: INT_IO_ERROR *)
definition INT_IO_ERROR :: u64 where "INT_IO_ERROR = 0x02"
(* include/SysdarftCPUDecoder.h 34-34: INT_BAD_INTR *)
definition INT_BAD_INTR :: u64 where "INT_BAD_INTR = 0x04"
(* include/SysdarftCPUDecoder.h 36-36: INT_ILLEGAL_INSTRUCTION *)
definition INT_ILLEGAL_INSTRUCTION :: u64 where "INT_ILLEGAL_INSTRUCTION = 0x06"
(* include/SysdarftCPUDecoder.h 37-37: INT_STACKOVERFLOW *)
definition INT_STACKOVERFLOW :: u64 where "INT_STACKOVERFLOW = 0x07"
(* include/SysdarftCPUDecoder.h 38-38: INT_ILLEGAL_MEMORY_ACCESS *)
definition INT_ILLEGAL_MEMORY_ACCESS :: u64 where "INT_ILLEGAL_MEMORY_ACCESS = 0x08"
(* include/SysdarftCPUDecoder.h 39-39: INT_SYSTEM_SHUTDOWN *)
definition INT_SYSTEM_SHUTDOWN :: u64 where "INT_SYSTEM_SHUTDOWN = 0x09"

lemmas INT_defs = INT_FATAL_def INT_IO_ERROR_def INT_BAD_INTR_def INT_ILLEGAL_INSTRUCTION_def
  INT_STACKOVERFLOW_def INT_ILLEGAL_MEMORY_ACCESS_def INT_SYSTEM_SHUTDOWN_def

(* cpu/SysdarftInstructionExec.cpp 24-95: SysdarftCPUInstructionExecutor *)
definition executor_table ::
    "(u8 \<times> (width_and_operands \<Rightarrow> ('z executor_state_scheme, unit) run)) list" where
  "executor_table = [
     (OPCODE_NOP, exec_nop), (OPCODE_HLT, exec_hlt), (OPCODE_IGNI, exec_igni), (OPCODE_ALWI, exec_alwi),
     (OPCODE_ADD, exec_add), (OPCODE_ADC, exec_adc), (OPCODE_SUB, exec_sub), (OPCODE_SBB, exec_sbb),
     (OPCODE_IMUL, exec_imul), (OPCODE_MUL, exec_mul), (OPCODE_IDIV, exec_idiv), (OPCODE_DIV, exec_div),
     (OPCODE_NEG, exec_neg), (OPCODE_CMP, exec_cmp), (OPCODE_INC, exec_inc), (OPCODE_DEC, exec_dec),
     (OPCODE_MOV, exec_mov), (OPCODE_XCHG, exec_xchg), (OPCODE_PUSH, exec_push), (OPCODE_POP, exec_pop),
     (OPCODE_PUSHALL, exec_pushall), (OPCODE_POPALL, exec_popall), (OPCODE_ENTER, exec_enter), (OPCODE_LEAVE, exec_leave),
     (OPCODE_MOVS, exec_movs), (OPCODE_LEA, exec_lea), (OPCODE_AND, exec_and), (OPCODE_OR, exec_or),
     (OPCODE_XOR, exec_xor), (OPCODE_NOT, exec_not), (OPCODE_SHL, exec_shl), (OPCODE_SHR, exec_shr),
     (OPCODE_ROL, exec_rol), (OPCODE_ROR, exec_ror), (OPCODE_RCL, exec_rcl), (OPCODE_RCR, exec_rcr),
     (OPCODE_JMP, exec_jmp), (OPCODE_CALL, exec_call), (OPCODE_RET, exec_ret), (OPCODE_JE, exec_je),
     (OPCODE_JNE, exec_jne), (OPCODE_JB, exec_jb), (OPCODE_JL, exec_jl), (OPCODE_JBE, exec_jbe),
     (OPCODE_JLE, exec_jle), (OPCODE_INT, exec_int), (OPCODE_INT3, exec_int3), (OPCODE_IRET, exec_iret),
     (OPCODE_LOOP, exec_loop), (OPCODE_IN, exec_in), (OPCODE_OUT, exec_out), (OPCODE_INS, exec_ins),
     (OPCODE_OUTS, exec_outs)]"

text \<open>\<open>ExecutorMap.at\<close> throws \<open>std::out_of_range\<close> for an opcode that was not entered.\<close>

definition executor_map :: "u8 \<Rightarrow> width_and_operands \<Rightarrow> ('z executor_state_scheme, unit) run" where
  "executor_map opc = (case map_of executor_table opc of Some f \<Rightarrow> f | None \<Rightarrow> (\<lambda>_. throwR StdException))"

section \<open>One instruction\<close>

text \<open>
  The two function objects a debugger replaces: whether the CPU should stop before the
  instruction at the instruction pointer, and what happens then. They get the time stamp,
  the handler also the instruction pointer, the opcode and the operands.
\<close>

(* include/SysdarftInstructionExec.h 98-102: IsBreakHereFn, BreakpointHandlerFn *)
record 's debug_hooks =
  is_break_here :: "u128 \<Rightarrow> ('s, bool) run"
  breakpoint_handler :: "u128 \<Rightarrow> u64 \<Rightarrow> u8 \<Rightarrow> width_and_operands \<Rightarrow> ('s, unit) run"

(* include/SysdarftInstructionExec.h 95-96: default_is_break_here, default_breakpoint_handler *)
definition default_hooks :: "'s debug_hooks" where
  "default_hooks = \<lparr>is_break_here = \<lambda>_. returnR False, breakpoint_handler = \<lambda>_ _ _ _. returnR ()\<rparr>"

definition execute_body ::
    "('z executor_state_scheme) debug_hooks \<Rightarrow> u128 \<Rightarrow> ('z executor_state_scheme, unit) run" where
  "execute_body hooks timestamp =
     bindR (load InstructionPointer) (\<lambda>ip.
     thenR (modifyR (\<lambda>s. s\<lparr>ip_before_pop := ip\<rparr>))
     (bindR (is_break_here hooks timestamp) (\<lambda>breakpoint_reached.
      bindR pop_instruction_from_ip_and_increase_ip (\<lambda>ins.
      let Arg = (active_instruction.width ins, operands ins)
      in thenR (modifyR (\<lambda>s. s\<lparr>current_routine_pop_len := InstructionPointer (Registers s) - ip_before_pop s\<rparr>))
         (bindR (getR Int3DebugInterrupt) (\<lambda>int3.
          thenR (if int3 \<or> breakpoint_reached
                 then thenR (modifyR (\<lambda>s. s\<lparr>Int3DebugInterrupt := False\<rparr>))
                   (bindR (getR ip_before_pop) (\<lambda>ip. breakpoint_handler hooks timestamp ip (opcode ins) Arg))
                 else returnR ())
            (executor_map (opcode ins) Arg)))))))"

(* cpu/SysdarftInstructionExec.cpp 159-186: execute, handlers *)
definition execute_handler :: "cpu_error \<Rightarrow> ('z executor_state_scheme, unit) run" where
  "execute_handler e =
     (if e = SysdarftDeviceIOError then thenR (store (put_EXR0 0xF0)) (do_interruption INT_IO_ERROR)
      else if e = SysdarftBadInterruption then do_interruption INT_BAD_INTR
      else if e = SysdarftInterruptionOutOfRange then do_interruption INT_BAD_INTR
      else if e = IllegalInstruction then do_interruption INT_ILLEGAL_INSTRUCTION
      else if e = StackOverflow then do_interruption INT_STACKOVERFLOW
      else if e = IllegalMemoryAccessException then do_interruption INT_ILLEGAL_MEMORY_ACCESS
      else if e = SysdarftNoSuchDevice then thenR (store (put_EXR0 0xF1)) (do_interruption INT_IO_ERROR)
      else if derived_from_base e then do_interruption INT_FATAL
      else throwR e)"

(* cpu/SysdarftInstructionExec.cpp 104-191: execute *)
definition execute ::
    "('z executor_state_scheme) debug_hooks \<Rightarrow> u128 \<Rightarrow> ('z executor_state_scheme, unit) run" where
  "execute hooks timestamp =
     tryR (tryR (execute_body hooks timestamp) execute_handler)
       (\<lambda>e. if e = SubroutineAbort then returnR () else throwR e)"

section \<open>The machine invariant\<close>

text \<open>
  The invariant of the display and the memory is kept by everything the CPU thread does, on
  every path, exceptions included. The rules are collected in \<open>keeps_intros\<close>.
\<close>

lemma memory_only_ui_inv: "memory_only s s' \<Longrightarrow> ui_inv s \<Longrightarrow> ui_inv s'"
  by (auto simp: memory_only_def ui_inv_def mem_inv_def)

lemma keeps_ui_read [keeps_intros]: "keeps ui_inv (read_memory a n)"
  by (simp add: keeps_def read_memory_state)

lemma keeps_ui_write [keeps_intros]: "keeps ui_inv (write_memory a bs n)"
  using memory_only_ui_inv [OF write_memory_memory_only] by (auto simp: keeps_def)

lemma keeps_ui_push [keeps_intros]: "keeps ui_inv (push_memory_to b off val)"
  unfolding push_memory_to_def by (intro keeps_intros)

lemma keeps_ui_pop [keeps_intros]: "keeps ui_inv (pop_memory_from n b off)"
  unfolding pop_memory_from_def by (intro keeps_intros)

lemma ui_inv_updates [simp]:
  "ui_inv (s\<lparr>Registers := r\<rparr>) = ui_inv s" "ui_inv (s1\<lparr>ip_before_pop := i\<rparr>) = ui_inv s1"
  "ui_inv (s1\<lparr>current_routine_pop_len := i\<rparr>) = ui_inv s1" "ui_inv (s1\<lparr>Int3DebugInterrupt := c\<rparr>) = ui_inv s1"
  "ui_inv (s2\<lparr>device_list := ds\<rparr>) = ui_inv s2" "ui_inv (s3\<lparr>SystemHalted := c\<rparr>) = ui_inv s3"
  "ui_inv (s3\<lparr>captured_input := k\<rparr>) = ui_inv s3" "ui_inv (s3\<lparr>is_inited := c\<rparr>) = ui_inv s3"
  "ui_inv (s1\<lparr>schedule := sc\<rparr>) = ui_inv s1" "ui_inv (s1\<lparr>debugger_pause_blocked_int_0x14 := c\<rparr>) = ui_inv s1"
  "ui_inv (s1\<lparr>interruption_requests := q\<rparr>) = ui_inv s1" "ui_inv (s1\<lparr>external_device_requested := c\<rparr>) = ui_inv s1"
  "ui_inv (s1\<lparr>protector_locked := c\<rparr>) = ui_inv s1" "ui_inv (s3\<lparr>CtrlZShutdownRequested := c\<rparr>) = ui_inv s3"
  "ui_inv (s3\<lparr>KeyboardIntAbort := c\<rparr>) = ui_inv s3"
  by (simp_all add: ui_inv_def mem_inv_def)

lemma keeps_ui_load [keeps_intros]: "keeps ui_inv (load f)"
  by (simp add: load_def keeps_getR)

lemma keeps_ui_store [keeps_intros]: "keeps ui_inv (store f)"
  by (simp add: store_def keeps_def)

lemma keeps_ui_liftE [keeps_intros]: "keeps P (liftE x)"
  by (cases x) (simp_all add: liftE_def keeps_returnR keeps_throwR)

subsection \<open>Decoder\<close>

lemma keeps_ui_pop_code [keeps_intros]:
  "keeps ui_inv (pop_code n)" "keeps ui_inv pop_code8" "keeps ui_inv pop_code16"
  "keeps ui_inv pop_code32" "keeps ui_inv pop_code64"
  unfolding pop_code8_def pop_code16_def pop_code32_def pop_code64_def pop_code_def
  by (intro keeps_intros)+

lemma keeps_ui_register_operand [keeps_intros]:
  "keeps ui_inv (read_register w i)" "keeps ui_inv (write_register w i v)"
  unfolding read_register_def write_register_def by (intro keeps_intros)+

lemma keeps_ui_decode [keeps_intros]:
  "keeps ui_inv do_decode_register_without_prefix" "keeps ui_inv do_decode_constant_without_prefix"
  unfolding do_decode_register_without_prefix_def do_decode_constant_without_prefix_def
  by (intro keeps_intros)+

lemma keeps_ui_decode_parameter [keeps_intros]:
  "keeps ui_inv decode_each_parameter" "keeps ui_inv decode_signed_parameter"
  unfolding decode_each_parameter_def decode_signed_parameter_def by (intro keeps_intros)+

lemma keeps_ui_decode_operand [keeps_intros]:
  "keeps ui_inv do_decode_memory_without_prefix" "keeps ui_inv do_decode_operand"
  unfolding do_decode_operand_def do_decode_memory_without_prefix_def by (intro keeps_intros)+

lemma keeps_ui_decode_operands [keeps_intros]: "keeps ui_inv (decode_operands n)"
  by (induction n) (auto intro!: keeps_intros)

lemma keeps_ui_pop_instruction [keeps_intros]: "keeps ui_inv pop_instruction_from_ip_and_increase_ip"
  unfolding pop_instruction_from_ip_and_increase_ip_def by (intro keeps_intros)

lemma keeps_ui_get_val [keeps_intros]: "keeps ui_inv (get_val x)"
  by (cases x) (auto simp: do_access_memory_def intro!: keeps_intros)

lemma keeps_ui_set_val [keeps_intros]: "keeps ui_inv (set_val x v)"
  by (cases x) (auto simp: store_value_to_memory_def intro!: keeps_intros)

subsection \<open>Display and interruptions\<close>

lemma ui_inv_newline: "ui_inv s \<Longrightarrow> ui_inv (newline s)"
  using newline_row [of s] newline_scrolls [of s]
  by (cases "cursor_y s = V_HEIGHT - 1") (auto simp: ui_inv_def)

lemma ui_inv_teletype:
  assumes "ui_inv s"
  shows "ui_inv (teletype c s)"
proof -
  have "ui_inv (set_video (cursor_x s) (cursor_y s) c s)"
    using assms by (simp add: set_video_def ui_inv_def mem_inv_def)
  from advance_cell [OF this] show ?thesis
    by (simp add: teletype_def Let_def set_video_def split: if_splits)
qed

lemma ui_inv_set_cursor_kept: "ui_inv s \<Longrightarrow> ui_inv (set_cursor x y s)"
  by (rule ui_inv_set_cursor) (simp_all add: ui_inv_def)

lemma ui_inv_display:
  "ui_inv s \<Longrightarrow> ui_inv (set_cursor_visibility c s)" "ui_inv s \<Longrightarrow> ui_inv (ringbell s)"
  "ui_inv s \<Longrightarrow> ui_inv (flush_input_buffer s)" "ui_inv s \<Longrightarrow> ui_inv (cleanup s)"
  "ui_inv s \<Longrightarrow> ui_inv (start_again rows cols s)" "ui_inv s \<Longrightarrow> ui_inv (initialize rows cols s)"
  by (auto simp: set_cursor_visibility_def ringbell_def flush_input_buffer_def
      cleanup_def start_again_def initialize_def recalc_offsets_def) (simp_all add: ui_inv_def mem_inv_def)

lemma ui_inv_env_step: "ui_inv s \<Longrightarrow> ui_inv (env_step ev s)"
  by (cases ev) (auto simp: gui_input_handler_def try_add_input_def do_ext_dev_interruption_def)

lemma ui_inv_env_steps: "ui_inv s \<Longrightarrow> ui_inv (fold env_step evs s)"
  by (induction evs arbitrary: s) (simp_all add: ui_inv_env_step)

lemma ui_inv_getInput_loop: "ui_inv s \<Longrightarrow> ui_inv (snd (getInput_loop sched s))"
proof (induction sched arbitrary: s)
  case Nil
  then show ?case
    by (auto simp: getInput_loop.simps get_input_def Let_def split: list.split)
next
  case (Cons evs sched)
  then show ?case
    by (subst getInput_loop.simps) (auto simp: get_input_def Let_def ui_inv_env_steps split: list.split)
qed

lemma keeps_ui_getInput [keeps_intros]: "keeps ui_inv do_interruption_getInput_0x14"
  by (simp add: keeps_def do_interruption_getInput_0x14_def ui_inv_getInput_loop)

lemma keeps_ui_report [keeps_intros]: "keeps ui_inv (modifyR (report_interruption code))"
  by (auto simp: keeps_def report_interruption_def Let_def intro: ui_inv_display)

lemmas interruption_defs = do_interruption_fatal_0x00_def do_interruption_debug_0x03_def
  do_stackoverflow_0x07_def do_interruption_tty_0x10_def do_interruption_set_cur_pos_0x11_def
  do_interruption_set_cur_visib_0x12_def do_interruption_newline_0x13_def
  do_interruption_cur_pos_0x15_def do_get_system_hardware_info_0x16_def do_ring_bell_0x17_def
  do_refresh_screen_0x18_def do_clear_user_input_stream_0x19_def

lemma keeps_ui_dispatch [keeps_intros]:
  "keeps ui_inv (do_interruption_lookup code)" "keeps ui_inv do_preserve_cpu_state"
  "keeps ui_inv (do_jump_table location)" "keeps ui_inv set_mask" "keeps ui_inv (mask_fg fg)"
  "keeps ui_inv do_iret"
  unfolding do_interruption_lookup_def do_preserve_cpu_state_def do_jump_table_def set_mask_def
    mask_fg_def do_iret_def by (intro keeps_intros)+

lemma keeps_ui_stackoverflow [keeps_intros]: "keeps ui_inv do_stackoverflow_0x07"
  unfolding do_stackoverflow_0x07_def by (intro keeps_intros)

lemma keeps_ui_dispatch_interruption [keeps_intros]: "keeps ui_inv (dispatch_interruption code fg)"
  unfolding dispatch_interruption_def by (intro keeps_intros)

lemma keeps_ui_interruption [keeps_intros]: "keeps ui_inv (do_interruption code)"
  unfolding do_interruption_def interruption_defs Let_def
  by (intro keeps_intros) (auto intro: ui_inv_display ui_inv_set_cursor_kept ui_inv_newline ui_inv_teletype)

subsection \<open>Instructions\<close>

lemma keeps_ui_stack [keeps_intros]: "keeps ui_inv (push_stack val)" "keeps ui_inv (pop_stack n)"
  unfolding push_stack_def pop_stack_def Let_def by (intro keeps_intros)+

lemma keeps_ui_flags [keeps_intros]:
  "keeps ui_inv (set_arithmetic_flags c v)" "keeps ui_inv (check_overflow w x)"
  "keeps ui_inv (check_overflow_signed w x)"
  unfolding check_overflow_def check_overflow_signed_def set_arithmetic_flags_def Let_def
  by (intro keeps_intros)+

lemma keeps_ui_register0 [keeps_intros]:
  "keeps ui_inv (target_register0 w)" "keeps ui_inv (signed_target_register0 w)"
  "keeps ui_inv (store_register0 w v)" "keeps ui_inv (store_registers01 w v v')"
  "keeps ui_inv (check_signed_result w i)"
  unfolding target_register0_def signed_target_register0_def store_register0_def
    store_registers01_def check_signed_result_def by (intro keeps_intros)+

lemma keeps_ui_on_hub [keeps_intros]: "keeps ui_inv (on_hub m)"
  by (simp add: keeps_def on_hub_def split: prod.split)

lemmas instruction_defs = exec_adc_def exec_add_def exec_alwi_def exec_and_def exec_call_def exec_cmp_def exec_dec_def
  exec_div_def exec_enter_def exec_hlt_def exec_idiv_def exec_igni_def exec_imul_def exec_in_def
  exec_inc_def exec_ins_def exec_int_def exec_int3_def exec_iret_def exec_jb_def exec_jbe_def
  exec_je_def exec_jl_def exec_jle_def exec_jmp_def exec_jne_def exec_lea_def exec_leave_def
  exec_loop_def exec_mov_def exec_movs_def exec_mul_def exec_neg_def exec_nop_def exec_not_def
  exec_or_def exec_out_def exec_outs_def exec_pop_def exec_popall_def exec_push_def
  exec_pushall_def exec_rcl_def exec_rcr_def exec_ret_def exec_rol_def exec_ror_def exec_sbb_def
  exec_shl_def exec_shr_def exec_sub_def exec_xchg_def exec_xor_def jump_if_def

lemma keeps_ui_instruction:
  assumes "f \<in> snd ` set executor_table"
  shows "keeps ui_inv (f wo)"
  using assms unfolding executor_table_def
  by (simp only: list.set image_insert image_empty snd_conv insert_iff empty_iff simp_thms)
    (elim disjE; hypsubst; unfold instruction_defs Let_def; intro keeps_intros; simp)

lemma keeps_ui_executor_map [keeps_intros]:
  "keeps ui_inv (executor_map opc wo :: ('z executor_state_scheme, unit) run)"
proof (cases "map_of (executor_table :: (u8 \<times> (width_and_operands \<Rightarrow> ('z executor_state_scheme, unit) run)) list) opc")
  case (Some f)
  from map_of_SomeD [OF this] have "f \<in> snd ` set executor_table" by force
  from keeps_ui_instruction [OF this] Some show ?thesis by (simp add: executor_map_def)
qed (simp add: executor_map_def keeps_throwR)

lemma keeps_ui_handler [keeps_intros]: "keeps ui_inv (execute_handler e)"
  unfolding execute_handler_def by (intro keeps_intros)

lemma keeps_ui_execute:
  assumes "\<And>ts. keeps ui_inv (is_break_here hooks ts)"
    and "\<And>ts ip opc wo. keeps ui_inv (breakpoint_handler hooks ts ip opc wo)"
  shows "keeps ui_inv (execute hooks timestamp)"
  unfolding execute_def execute_body_def Let_def by (intro keeps_intros assms) simp_all

lemma keeps_ui_default_hooks:
  "keeps P (is_break_here default_hooks ts)" "keeps P (breakpoint_handler default_hooks ts ip opc wo)"
  by (simp_all add: default_hooks_def keeps_returnR)

text \<open>
  C4: executing one instruction, whatever its bytes and on every path through the decoder,
  the instruction and the error handlers, keeps the invariant of the machine: the memory
  keeps its size and its whole blocks, and the cursor stays on the screen.
\<close>

theorem execute_keeps_machine_inv:
  assumes "ui_inv s"
  shows "ui_inv (snd (execute default_hooks timestamp s))"
proof -
  have "keeps ui_inv (execute default_hooks timestamp :: ('a executor_state_scheme, unit) run)"
    by (rule keeps_ui_execute) (rule keeps_ui_default_hooks)+
  with assms show ?thesis by (simp add: keeps_def)
qed

theorem execute_keeps_machine_inv_witness:
  "ui_inv (snd (execute default_hooks 0 (demo_executor new_registers)))"
proof -
  have "ui_inv (demo_executor new_registers)"
    by (simp add: ui_inv_def demo_executor_def demo_defs interruption_state.extend_def
        executor_state.fields_def mem_inv_def BLOCK_SIZE_def video_block_def V_WIDTH_def V_HEIGHT_def)
  then show ?thesis by (rule execute_keeps_machine_inv)
qed

section \<open>Instructions without a procedure\<close>

text \<open>
  C38: of the instructions the decoder accepts, exactly \<open>JC\<close>, \<open>JNC\<close>, \<open>JO\<close> and \<open>JNO\<close>
  have no procedure: executing one raises the exception of the map lookup, which no handler
  of the executor turns into an interruption.
\<close>

definition unregistered :: "instruction_entry \<Rightarrow> bool" where
  "unregistered e \<longleftrightarrow> map_of (executor_table :: (u8 \<times> (width_and_operands \<Rightarrow> (executor_state, unit) run)) list)
     (entry_opcode e) = None"

theorem only_flag_jumps_unregistered:
  "map mnemonic (filter unregistered instruction_map) = [''JC'', ''JNC'', ''JO'', ''JNO'']
   \<and> executor_map OPCODE_JC wo s = (Inl StdException, s) \<and> executor_map OPCODE_JNC wo s = (Inl StdException, s)
   \<and> executor_map OPCODE_JO wo s = (Inl StdException, s) \<and> executor_map OPCODE_JNO wo s = (Inl StdException, s)
   \<and> execute_handler StdException s = (Inl StdException, s)"
proof (intro conjI)
  have u: "unregistered e \<longleftrightarrow> entry_opcode e
      \<notin> set (map fst (executor_table :: (u8 \<times> (width_and_operands \<Rightarrow> (executor_state, unit) run)) list))" for e
    by (simp add: unregistered_def map_of_eq_None_iff)
  show "map mnemonic (filter unregistered instruction_map) = [''JC'', ''JNC'', ''JO'', ''JNO'']"
    unfolding instruction_table_defs u executor_table_def by (simp add: opcode_defs)
qed (simp_all add: executor_map_def executor_table_def opcode_defs throwR_def execute_handler_def derived_from_base_def)

end
