(* ===== verification/Sysdarft_CPU.thy ===== *)
theory Sysdarft_CPU
  imports Instruction_Exec
begin

text \<open>
  \<open>SysdarftCPU\<close> (\<open>include/SysdarftCPU.h\<close>, \<open>cpu/SysdarftCPU.cpp\<close>): the machine put
  together, its constructor with the BIOS and the devices, and the boot loop that serves
  keyboard aborts, device requests and shutdown requests between instructions.
\<close>

section \<open>State and construction\<close>

(* include/SysdarftCPU.h 37-40: SysdarftCPU *)
record cpu_state = executor_state +
  timestamp :: u128
  have_I_invoked_shutdown :: bool

text \<open>
  What the constructor gets from its surroundings: \<open>debug::verbose\<close>, the size of the
  terminal, the host's clock, and the files that can be opened, by name.
\<close>

record host =
  host_verbose :: bool
  host_rows :: int
  host_cols :: int
  host_clock :: int
  host_files :: "string \<Rightarrow> u8 list option"

text \<open>The state before the body of the constructor: the constructors of the base classes.\<close>

definition base_cpu :: "host \<Rightarrow> ui_state \<Rightarrow> cpu_state" where
  "base_cpu h ui = executor_state.extend (interruption_state.extend (decoder_state.extend
     (ui_state.extend ui (decoder_state.fields new_registers))
     (interruption_state.fields False [] False 0 0 False False (host_verbose h) [] (host_rows h) (host_cols h)))
     (executor_state.fields [] (host_clock h))) (cpu_state.fields 0 False)"

text \<open>\<open>add_device\<close>: a disk whose file cannot be opened throws \<open>SysdarftDiskError\<close>.\<close>

(* include/SysdarftCPU.h 56-61: add_device *)
definition add_disk :: "(u8 list \<Rightarrow> device) \<Rightarrow> string \<Rightarrow> host \<Rightarrow> (cpu_state, unit) run" where
  "add_disk disk file h = (case host_files h file of
     None \<Rightarrow> throwR SysdarftBaseError
   | Some img \<Rightarrow> modifyR (\<lambda>s. s\<lparr>device_list := device_list s @ [disk img]\<rparr>))"

(* cpu/SysdarftCPU.cpp 31-61: SysdarftCPU *)
definition attach :: "host \<Rightarrow> u8 list \<Rightarrow> string \<Rightarrow> string \<Rightarrow> string \<Rightarrow> (cpu_state, unit) run" where
  "attach h bios hdd fda fdb =
     (let size = (if length bios > unat BIOS_SIZE then BIOS_SIZE else of_nat (length bios))
      in thenR (write_memory BIOS_START bios size)
        (thenR (if hdd \<noteq> [] then add_disk SysdarftBlockDevices hdd h else returnR ())
        (thenR (if fda \<noteq> [] then add_disk SysdarftFloppyDiskA fda h else returnR ())
        (thenR (if fdb \<noteq> [] then add_disk SysdarftFloppyDiskB fda h else returnR ())
        (thenR (modifyR (\<lambda>s. s\<lparr>device_list := device_list s @ [new_rtc (host_clock h)]\<rparr>))
        (modifyR (\<lambda>s. s\<lparr>timestamp := 0\<rparr>)))))))"

(* cpu/SysdarftCPU.cpp 25-30: SysdarftCPU *)
definition new_cpu :: "host \<Rightarrow> u64 \<Rightarrow> u8 list \<Rightarrow> string \<Rightarrow> string \<Rightarrow> string \<Rightarrow> cpu_error + cpu_state" where
  "new_cpu h memory bios hdd fda fdb = (case new_ui memory of
     Inl e \<Rightarrow> Inl e
   | Inr ui \<Rightarrow> (case attach h bios hdd fda fdb (base_cpu h ui) of
       (Inl e, _) \<Rightarrow> Inl e | (Inr _, s) \<Rightarrow> Inr s))"

section \<open>The boot loop\<close>

text \<open>
  Unlocking a \<open>std::mutex\<close> that the thread does not hold is undefined.
\<close>

definition lock_protector :: "('z cpu_state_scheme, unit) run" where
  "lock_protector = modifyR (\<lambda>s. s\<lparr>protector_locked := True\<rparr>)"

definition unlock_protector :: "('z cpu_state_scheme, unit) run" where
  "unlock_protector = bindR (getR protector_locked) (\<lambda>l.
     if l then modifyR (\<lambda>s. s\<lparr>protector_locked := False\<rparr>) else throwR UndefinedBehaviour)"

text \<open>
  \<open>do_interruption(0x07)\<close> after an abort; \<open>catch (...)\<close> makes the boot fail. The result
  tells whether the loop goes on.
\<close>

(* cpu/SysdarftCPU.cpp 111-119: Boot, stack overflow *)
definition stack_overflow_or_fail :: "('z cpu_state_scheme, bool) run" where
  "stack_overflow_or_fail = tryR (thenR (do_interruption 0x07) (returnR True))
     (\<lambda>e. if e = UndefinedBehaviour \<or> e = Waiting then throwR e else returnR False)"

definition on_abort :: "('z cpu_state_scheme, unit) run \<Rightarrow> ('z cpu_state_scheme, bool) run" where
  "on_abort m = tryR (thenR m (returnR True))
     (\<lambda>e. if e = SubroutineAbort then stack_overflow_or_fail else throwR e)"

(* cpu/SysdarftCPU.cpp 92-119: Boot, capture and control area *)
definition serve_requests :: "('z cpu_state_scheme, bool) run" where
  "serve_requests = on_abort
     (thenR (bindR (getR KeyboardIntAbort) (\<lambda>k.
               if k then thenR (modifyR (\<lambda>s. s\<lparr>KeyboardIntAbort := False\<rparr>)) (do_interruption 0x05)
               else returnR ()))
     (thenR lock_protector
     (bindR (getR interruption_requests) (\<lambda>reqs.
      forR reqs (\<lambda>i. thenR (do_interruption i)
        (modifyR (\<lambda>s. s\<lparr>external_device_requested := False\<rparr>)))))))"

(* cpu/SysdarftCPU.cpp 79-84: Boot, invoke_shutdown *)
definition invoke_shutdown :: "('z cpu_state_scheme, unit) run" where
  "invoke_shutdown =
     thenR (modifyR (\<lambda>s. s\<lparr>have_I_invoked_shutdown := True\<rparr>))
     (thenR (modifyR (\<lambda>s. s\<lparr>CtrlZShutdownRequested := False\<rparr>)) (do_interruption INT_SYSTEM_SHUTDOWN))"

(* cpu/SysdarftCPU.cpp 86-90: Boot, cleanup_invoke_shutdown *)
definition cleanup_invoke_shutdown :: "('z cpu_state_scheme, unit) run" where
  "cleanup_invoke_shutdown =
     thenR (modifyR (\<lambda>s. s\<lparr>have_I_invoked_shutdown := False\<rparr>))
       (modifyR (\<lambda>s. s\<lparr>CtrlZShutdownRequested := False\<rparr>))"

(* cpu/SysdarftCPU.cpp 124-160: Boot, shutdown request *)
definition serve_shutdown :: "('z cpu_state_scheme, bool) run" where
  "serve_shutdown =
     bindR (getR CtrlZShutdownRequested) (\<lambda>z.
     if \<not> z then returnR True
     else on_abort
       (bindR (getR have_I_invoked_shutdown) (\<lambda>before.
        if \<not> before then invoke_shutdown
        else bindR (load (\<lambda>r. InterruptionMask (FlagRegister r))) (\<lambda>masked.
          if \<not> masked then thenR cleanup_invoke_shutdown invoke_shutdown else returnR ()))))"

(* cpu/SysdarftCPU.cpp 162-166: Boot, execute *)
definition execute_next :: "('z cpu_state_scheme) debug_hooks \<Rightarrow> ('z cpu_state_scheme, unit) run" where
  "execute_next hooks =
     bindR (getR timestamp) (\<lambda>ts.
     thenR (modifyR (\<lambda>s. s\<lparr>timestamp := timestamp s + 1\<rparr>))
     (tryR (execute hooks ts)
       (\<lambda>e. if e = UndefinedBehaviour \<or> e = Waiting then throwR e else returnR ())))"

text \<open>One round of the loop; the result tells whether the boot goes on.\<close>

definition boot_round :: "('z cpu_state_scheme) debug_hooks \<Rightarrow> ('z cpu_state_scheme, bool) run" where
  "boot_round hooks =
     bindR serve_requests (\<lambda>go. if \<not> go then returnR False
     else thenR (modifyR (\<lambda>s. s\<lparr>interruption_requests := []\<rparr>))
       (thenR unlock_protector
       (bindR serve_shutdown (\<lambda>go. if \<not> go then returnR False
        else thenR (execute_next hooks) (returnR True)))))"

text \<open>
  The loop, with what the other threads do before each round. When the schedule ends while
  the machine is still running, the outcome is \<open>Waiting\<close>.
\<close>

(* cpu/SysdarftCPU.cpp 90-172: Boot, loop *)
fun boot_loop :: "('z cpu_state_scheme) debug_hooks \<Rightarrow> env_event list list \<Rightarrow> ('z cpu_state_scheme, u64) run" where
  "boot_loop hooks sched s =
     (if SystemHalted s then
        (Inr (get_FER0 (Registers s)), cleanup s)
      else (case sched of
          [] \<Rightarrow> (Inl Waiting, s)
        | evs # rest \<Rightarrow> (case boot_round hooks (fold env_step evs s) of
            (Inl e, s') \<Rightarrow> (Inl e, s')
          | (Inr go, s') \<Rightarrow> if go then boot_loop hooks rest s' else (Inr 1, s'))))"

declare boot_loop.simps [simp del]

text \<open>The GUI window is not modelled.\<close>

(* cpu/SysdarftCPU.cpp 63-78: Boot *)
definition Boot :: "('z cpu_state_scheme) debug_hooks \<Rightarrow> bool \<Rightarrow> env_event list list \<Rightarrow> ('z cpu_state_scheme, u64) run" where
  "Boot hooks headless sched s =
     (let s = s\<lparr>SystemHalted := False, KeyboardIntAbort := False, Int3DebugInterrupt := False, timestamp := 0\<rparr>;
          s = (if headless then s else initialize (terminal_rows s) (terminal_cols s) s)
      in thenR cleanup_invoke_shutdown (boot_loop hooks sched) s)"

section \<open>The invariant of the running machine\<close>

lemma ui_inv_cpu_updates [simp]:
  fixes s :: "'z cpu_state_scheme"
  shows "ui_inv (s\<lparr>timestamp := n\<rparr>) = ui_inv s" "ui_inv (s\<lparr>have_I_invoked_shutdown := c\<rparr>) = ui_inv s"
  by (simp_all add: ui_inv_def mem_inv_def)

lemma keeps_ui_on_abort [keeps_intros]: "keeps ui_inv m \<Longrightarrow> keeps ui_inv (on_abort m)"
  unfolding on_abort_def stack_overflow_or_fail_def by (intro keeps_intros)

lemma keeps_ui_boot_parts [keeps_intros]:
  "keeps ui_inv serve_requests" "keeps ui_inv serve_shutdown" "keeps ui_inv unlock_protector"
  unfolding serve_requests_def serve_shutdown_def unlock_protector_def lock_protector_def
    invoke_shutdown_def cleanup_invoke_shutdown_def
  by (intro keeps_intros; simp)+

text \<open>Hooks that keep the invariant; those of a debugger may read and write the machine.\<close>

definition well_behaved :: "('z cpu_state_scheme) debug_hooks \<Rightarrow> bool" where
  "well_behaved hooks \<longleftrightarrow> (\<forall>ts. keeps ui_inv (is_break_here hooks ts))
     \<and> (\<forall>ts ip opc wo. keeps ui_inv (breakpoint_handler hooks ts ip opc wo))"

lemma keeps_ui_boot_round:
  assumes "well_behaved hooks"
  shows "keeps ui_inv (boot_round hooks)"
proof -
  have "keeps ui_inv (execute hooks ts)" for ts
    using assms unfolding well_behaved_def by (intro keeps_ui_execute) blast+
  then show ?thesis
    unfolding boot_round_def execute_next_def by (intro keeps_intros; simp)
qed

lemma boot_loop_ui_inv:
  assumes "well_behaved hooks"
  shows "ui_inv s \<Longrightarrow> ui_inv (snd (boot_loop hooks sched s))"
proof (induction sched arbitrary: s)
  case Nil
  then show ?case by (simp add: boot_loop.simps ui_inv_display)
next
  case (Cons evs sched)
  show ?case
  proof (cases "boot_round hooks (fold env_step evs s)")
    case (Pair r s')
    with keepsD [OF keeps_ui_boot_round [OF assms] ui_inv_env_steps [OF Cons.prems]]
    have "ui_inv s'" by blast
    with Pair Cons show ?thesis
      by (subst boot_loop.simps) (auto simp: ui_inv_display split: sum.split)
  qed
qed

lemma Boot_ui_inv:
  assumes "well_behaved hooks" and "ui_inv s"
  shows "ui_inv (snd (Boot hooks headless sched s))"
proof -
  have "ui_inv (snd (boot_loop hooks sched t))" if "ui_inv t" for t
    using boot_loop_ui_inv [OF assms(1) that] .
  then show ?thesis
    using assms(2) by (auto simp: Boot_def Let_def cleanup_invoke_shutdown_def ui_inv_display thenR_def bindR_def)
qed

text \<open>
  C1: whatever the guest program is, whatever the devices and the user do between the
  instructions, and for every debugger that itself keeps it, the invariant of the machine
  holds during the whole boot.
\<close>

theorem boot_keeps_machine_inv:
  assumes "well_behaved hooks" and "ui_inv s"
  shows "ui_inv (snd (Boot hooks headless sched s))"
  using assms by (rule Boot_ui_inv)

section \<open>Booting\<close>

text \<open>The machine as the constructor builds it, without the devices.\<close>

lemma new_ui_ok:
  assumes "unat memory = 4096 * n" and "256 \<le> n" and "unat memory < 2 ^ 63"
  shows "\<exists>ui. new_ui memory = Inr ui \<and> ui_inv ui \<and> TotalMemory ui = memory \<and> SystemHalted ui = False"
proof -
  have n: "unat memory div BLOCK_SIZE = n" using assms(1) by (simp add: BLOCK_SIZE_def)
  have "memory \<noteq> 0" using assms by auto
  then have m: "new_memory memory = Inr \<lparr>Memory = replicate n (\<lambda>_. 0), TotalMemory = memory\<rparr>"
    by (simp add: new_memory_def n Let_def)
  show ?thesis
    using assms by (simp add: new_ui_def m video_block_def ui_inv_def mem_inv_def BLOCK_SIZE_def
        mem_state.extend_def ui_state.fields_def V_WIDTH_def V_HEIGHT_def)
qed

lemma base_cpu_simps [simp]:
  "ui_inv (base_cpu h ui) = ui_inv ui" "TotalMemory (base_cpu h ui) = TotalMemory ui"
  "Registers (base_cpu h ui) = new_registers" "Memory (base_cpu h ui) = Memory ui"
  "device_list (base_cpu h ui) = []" "SystemHalted (base_cpu h ui) = SystemHalted ui"
  by (simp_all add: base_cpu_def executor_state.extend_def interruption_state.extend_def
      decoder_state.extend_def ui_state.extend_def decoder_state.fields_def interruption_state.fields_def
      executor_state.fields_def cpu_state.fields_def ui_inv_def mem_inv_def)

lemma attach_ok:
  assumes "mem_inv s" and "unat (TotalMemory s) \<ge> 0x100000" and "bios \<noteq> []" and "length bios \<le> unat BIOS_SIZE"
  shows "\<exists>s'. attach h bios [] [] [] s = (Inr (), s') \<and> memory_only s (s'\<lparr>device_list := device_list s, timestamp := timestamp s\<rparr>)
    \<and> flat s' = flat_write 0xC1800 bios (flat s)
    \<and> device_list s' = device_list s @ [new_rtc (host_clock h)]"
proof -
  have len: "length bios \<le> 0x3E800" using assms(4) by (simp add: layout_defs)
  have "in_memory s BIOS_START (length bios)"
    using assms(2,3) len by (cases bios) (simp_all add: in_memory_def BIOS_START_def)
  from write_memory_flat [OF assms(1) this order_refl] obtain s' where
    s': "write_memory BIOS_START bios (of_nat (length bios)) s = (Inr (), s')"
      "writes_bytes s (unat BIOS_START) bios s'" by auto
  then obtain m where m: "s' = s\<lparr>Memory := m\<rparr>" "length m = length (Memory s)"
    unfolding writes_bytes_def by blast
  have "flat s' = flat_write 0xC1800 bios (flat s)"
    using writes_bytes_flat [OF s'(2)] by (simp add: BIOS_START_def)
  then show ?thesis
    using assms(4) s'(1) m
    by (auto simp: attach_def Let_def thenR_def bindR_def returnR_def memory_only_def flat_def fun_eq_iff)
qed

text \<open>
  C17: the constructor puts the BIOS at \<open>0xC1800\<close>, points the CPU at it, and always attaches
  the clock; the machine it returns satisfies the invariant. The memory must be whole
  blocks, as it is when given in megabytes, and reach to the end of the BIOS area.
\<close>

theorem new_cpu_starts_at_bios:
  assumes "unat memory = 4096 * n" and "256 \<le> n" and "unat memory < 2 ^ 63"
    and "bios \<noteq> []" and "length bios \<le> unat BIOS_SIZE"
  shows "\<exists>s. new_cpu h memory bios [] [] [] = Inr s \<and> ui_inv s \<and> TotalMemory s = memory
    \<and> code_at s bios \<and> Registers s = new_registers \<and> device_list s = [new_rtc (host_clock h)]"
proof -
  from new_ui_ok [OF assms(1-3)] obtain ui where
    ui: "new_ui memory = Inr ui" "ui_inv ui" "TotalMemory ui = memory" by blast
  let ?s = "base_cpu h ui"
  have s: "mem_inv ?s" "unat (TotalMemory ?s) \<ge> 0x100000"
    using ui assms(1,2) by (simp_all add: ui_inv_def mem_inv_def)
  from attach_ok [OF s assms(4,5), of h] obtain s' where
    s': "attach h bios [] [] [] ?s = (Inr (), s')" "flat s' = flat_write 0xC1800 bios (flat ?s)"
      "device_list s' = [new_rtc (host_clock h)]"
    and mo: "memory_only ?s (s'\<lparr>device_list := device_list ?s, timestamp := timestamp ?s\<rparr>)" by auto
  from mo obtain m where m: "s'\<lparr>device_list := device_list ?s, timestamp := timestamp ?s\<rparr> = ?s\<lparr>Memory := m\<rparr>"
    "length m = length (Memory ?s)" unfolding memory_only_def by blast
  from arg_cong [OF m(1), of Registers] arg_cong [OF m(1), of TotalMemory] arg_cong [OF m(1), of Memory]
    arg_cong [OF m(1), of cursor_x] arg_cong [OF m(1), of cursor_y]
  have r: "Registers s' = new_registers" "TotalMemory s' = memory" "Memory s' = m"
    "cursor_x s' = cursor_x ?s" "cursor_y s' = cursor_y ?s" by (simp_all add: ui(3))
  have inv: "ui_inv s'"
    using ui(2,3) r m(2) base_cpu_simps(1) [of h ui] by (simp add: ui_inv_def mem_inv_def)
  have a: "code_address s' = 0xC1800" by (simp add: code_address_def r new_registers_def BIOS_START_def)
  have "length bios \<le> 0x3E800" using assms(5) by (simp add: layout_defs)
  then have "code_at s' bios"
    using inv s(2) flat_write_same [of "0xC1800" bios "flat ?s"]
    by (simp add: code_at_def a s'(2) r ui(3) ui_inv_def)
  then show ?thesis using s' ui(1) inv r by (simp add: new_cpu_def)
qed

lemma code_at_cong:
  fixes s s' :: "'z decoder_state_scheme"
  assumes "Registers s' = Registers s" and "Memory s' = Memory s" and "TotalMemory s' = TotalMemory s"
  shows "code_at s' bs = code_at s bs"
proof -
  have "flat s' = flat s" using assms(2) by (simp add: fun_eq_iff flat_def)
  then show ?thesis using assms by (simp add: code_at_def code_address_def mem_inv_def)
qed

lemma execute_hlt:
  fixes s :: "'z executor_state_scheme"
  assumes "code_at s (OPCODE_HLT # bs)" and "\<not> Int3DebugInterrupt s"
  shows "\<exists>s'. execute default_hooks ts s = (Inr (), s') \<and> SystemHalted s' \<and> get_FER0 (Registers s') = get_FER0 (Registers s)"
proof -
  let ?t = "s\<lparr>ip_before_pop := InstructionPointer (Registers s)\<rparr>"
  have c: "code_at ?t (OPCODE_HLT # bs)"
    using assms(1) code_at_cong [of s ?t] by simp
  have f: "find_opcode OPCODE_HLT = Some \<lparr>mnemonic = ''HLT'', entry_opcode = OPCODE_HLT,
      argument_count = 0, require_width = False\<rparr>"
    by (simp add: find_opcode_def instruction_table_defs opcode_defs)
  have p: "pop_instruction_from_ip_and_increase_ip ?t
      = (Inr \<lparr>opcode = OPCODE_HLT, width = 0, operands = []\<rparr>, advance 1 ?t)"
    using pop_code8_at(1) [OF c]
    by (simp add: pop_instruction_from_ip_and_increase_ip_def f returnR_def bindR_def)
  have m: "executor_map OPCODE_HLT = exec_hlt"
    by (simp add: executor_map_def executor_table_def opcode_defs)
  show ?thesis
    using p assms(2)
    by (simp add: execute_def execute_body_def default_hooks_def load_def bindR_def thenR_def tryR_def
        returnR_def m exec_hlt_def advance_def alias_defs Let_def)
qed

text \<open>Nothing waits to be served between the instructions.\<close>

definition quiet :: "'z cpu_state_scheme \<Rightarrow> bool" where
  "quiet s \<longleftrightarrow> \<not> SystemHalted s \<and> \<not> KeyboardIntAbort s \<and> interruption_requests s = []
     \<and> \<not> CtrlZShutdownRequested s"

lemma boot_round_quiet:
  assumes "quiet s"
  shows "boot_round hooks s = thenR (execute_next hooks) (returnR True) (s\<lparr>protector_locked := False\<rparr>)"
proof -
  have "s\<lparr>interruption_requests := interruption_requests s, protector_locked := False\<rparr>
      = s\<lparr>protector_locked := False\<rparr>" by simp
  then have e: "s\<lparr>interruption_requests := [], protector_locked := False\<rparr> = s\<lparr>protector_locked := False\<rparr>"
    using assms by (simp add: quiet_def)
  have "boot_round hooks s = thenR (execute_next hooks) (returnR True)
      (s\<lparr>interruption_requests := [], protector_locked := False\<rparr>)"
    using assms by (simp add: boot_round_def serve_requests_def on_abort_def lock_protector_def
        unlock_protector_def serve_shutdown_def quiet_def thenR_def bindR_def tryR_def returnR_def)
  then show ?thesis unfolding e .
qed

text \<open>
  C5: the boot ends when the guest executes \<open>HLT\<close>: with \<open>HLT\<close> at the instruction pointer
  and nothing pending, one round of the loop is enough and the boot returns \<open>FER0\<close>.
\<close>

theorem hlt_ends_boot:
  assumes "code_at s (OPCODE_HLT # bs)" and "interruption_requests s = []"
  shows "\<exists>s'. Boot default_hooks True ([] # sched) s = (Inr (get_FER0 (Registers s)), s')"
proof -
  let ?s = "s\<lparr>SystemHalted := False, KeyboardIntAbort := False, Int3DebugInterrupt := False, timestamp := 0,
    have_I_invoked_shutdown := False, CtrlZShutdownRequested := False\<rparr>"
  let ?t = "?s\<lparr>protector_locked := False, timestamp := 1\<rparr>"
  have q: "quiet ?s" using assms(2) by (simp add: quiet_def)
  have "code_at ?t (OPCODE_HLT # bs)" using assms(1) code_at_cong [of s ?t] by simp
  from execute_hlt [OF this, of 0] obtain s' where s': "execute default_hooks 0 ?t = (Inr (), s')" "SystemHalted s'"
    "get_FER0 (Registers s') = get_FER0 (Registers s)" by auto
  have "boot_round default_hooks ?s = (Inr True, s')"
    using s'(1) unfolding boot_round_quiet [OF q]
    by (simp add: execute_next_def thenR_def bindR_def tryR_def returnR_def)
  then have "boot_loop default_hooks ([] # sched) ?s = boot_loop default_hooks sched s'"
    by (subst boot_loop.simps) simp
  also have "\<dots> = (Inr (get_FER0 (Registers s)), cleanup s')"
    using s'(2,3) by (subst boot_loop.simps) simp
  finally show ?thesis
    by (simp add: Boot_def Let_def cleanup_invoke_shutdown_def thenR_def bindR_def)
qed

section \<open>Keyboard abort on a full stack\<close>

text \<open>
  A keyboard abort (interruption 5) that finds no room on the stack leaves the protected
  part of the loop before the mutex of the device requests is locked, and the loop then
  unlocks a mutex it does not hold, which is undefined.
\<close>

theorem keyboard_abort_unlocks_unowned_mutex:
  assumes "table_inv s" and "unat (StackPointer (Registers s)) < 256" and "\<not> verbose s"
    and "KeyboardIntAbort s" and "\<not> protector_locked s"
  shows "\<exists>s'. boot_round hooks s = (Inl UndefinedBehaviour, s')"
proof -
  let ?s = "s\<lparr>KeyboardIntAbort := False\<rparr>"
  have v: "table_inv ?s" "Registers ?s = Registers s" using assms(1) by (simp_all add: table_inv_def mem_inv_def)
  let ?t = "?s\<lparr>Registers := enter_registers (vector_entry ?s 7) (Registers ?s)\<rparr>"
  have "dispatch_interruption 5 (FlagRegister (Registers ?s)) ?s = (Inl SubroutineAbort, ?t)"
    using dispatch_overflows [OF v(1), of 5] assms(2) v(2) by simp
  then have d: "do_interruption 5 ?s = (Inl SubroutineAbort, ?t)"
    using do_interruption_dispatch [of 5 ?s "Inl SubroutineAbort" ?t] assms(3)
    by (simp add: served_by_hardware_def report_interruption_quiet)
  have "table_inv ?t" using v(1) by (simp add: table_inv_def)
  from do_stackoverflow_ok [OF this] obtain u where u: "do_interruption 7 ?t = (Inr (), u)"
    "protector_locked u = protector_locked s"
    using assms(3) by (simp add: do_interruption_def layout_defs Let_def thenR_def bindR_def report_interruption_quiet)
  have "serve_requests s = (Inr True, u)"
    using assms(4) d u(1) by (simp add: serve_requests_def on_abort_def stack_overflow_or_fail_def
        thenR_def bindR_def tryR_def returnR_def)
  then show ?thesis
    using u(2) assms(5) by (simp add: boot_round_def unlock_protector_def thenR_def bindR_def throwR_def)
qed

text \<open>A machine on a host without files, with 1 MiB of memory and a BIOS that halts.\<close>

definition demo_host :: host where
  "demo_host = \<lparr>host_verbose = False, host_rows = 25, host_cols = 80, host_clock = 0, host_files = \<lambda>_. None\<rparr>"

theorem new_cpu_starts_at_bios_witness:
  "\<exists>s. new_cpu demo_host 0x100000 [OPCODE_HLT] [] [] [] = Inr s \<and> code_at s [OPCODE_HLT]"
proof -
  have "unat (0x100000 :: u64) = 4096 * 256" "length [OPCODE_HLT] \<le> unat BIOS_SIZE"
    by (simp_all add: layout_defs)
  from new_cpu_starts_at_bios [OF this(1) _ _ _ this(2), of demo_host] show ?thesis by auto
qed

definition demo_cpu :: "sysdarft_register_t \<Rightarrow> cpu_state" where
  "demo_cpu r = (base_cpu demo_host (mem_state.extend \<lparr>Memory = replicate 256 (\<lambda>i. OPCODE_HLT), TotalMemory = 0x100000\<rparr>
     (ui_state.fields False False False False 0 0 0 0 True 0 0 False True False 0 [] ([], 0, 0))))\<lparr>Registers := r\<rparr>"

lemma demo_cpu_simps [simp]:
  "Registers (demo_cpu r) = r" "TotalMemory (demo_cpu r) = 0x100000" "ui_inv (demo_cpu r)"
  "Memory (demo_cpu r) = replicate 256 (\<lambda>i. OPCODE_HLT)" "interruption_requests (demo_cpu r) = []"
  "\<not> verbose (demo_cpu r)" "\<not> protector_locked (demo_cpu r)" "table_inv (demo_cpu r)"
  by (simp_all add: demo_cpu_def base_cpu_def demo_host_def executor_state.extend_def
      interruption_state.extend_def decoder_state.extend_def ui_state.extend_def mem_state.extend_def
      decoder_state.fields_def interruption_state.fields_def executor_state.fields_def cpu_state.fields_def
      ui_state.fields_def ui_inv_def mem_inv_def BLOCK_SIZE_def video_block_def V_WIDTH_def V_HEIGHT_def
      table_inv_def)

theorem hlt_ends_boot_witness:
  "\<exists>s'. Boot default_hooks True [[]] (demo_cpu new_registers) = (Inr 0, s')"
proof -
  have m: "mem_inv (demo_cpu new_registers)" using demo_cpu_simps(3) by (simp add: ui_inv_def)
  have "code_at (demo_cpu new_registers) (OPCODE_HLT # [])"
    using m by (simp add: code_at_def code_address_def new_registers_def BIOS_START_def flat_def BLOCK_SIZE_def)
  from hlt_ends_boot [OF this, of "[]"] show ?thesis by (simp add: new_registers_def alias_defs join2_def)
qed

theorem keyboard_abort_unlocks_unowned_mutex_witness:
  "\<exists>s'. boot_round default_hooks ((demo_cpu (new_registers\<lparr>StackPointer := 0x80\<rparr>))\<lparr>KeyboardIntAbort := True\<rparr>)
     = (Inl UndefinedBehaviour, s')"
proof -
  have "table_inv ((demo_cpu (new_registers\<lparr>StackPointer := 0x80\<rparr>))\<lparr>KeyboardIntAbort := True\<rparr>)"
    using demo_cpu_simps(8) by (simp add: table_inv_def mem_inv_def)
  from keyboard_abort_unlocks_unowned_mutex [OF this, of default_hooks] show ?thesis by simp
qed

theorem boot_keeps_machine_inv_witness:
  "ui_inv (snd (Boot default_hooks True [[KeyPressed 3], [KeyPressed 29]] (demo_cpu new_registers)))"
proof -
  have "well_behaved default_hooks" unfolding well_behaved_def by (intro conjI allI keeps_ui_default_hooks)
  from boot_keeps_machine_inv [OF this demo_cpu_simps(3)] show ?thesis .
qed

end
