(* ===== verification/Machine_Context.thy ===== *)
theory Machine_Context
  imports Code_Listing Sysdarft_CPU
begin

text \<open>
  What the debugger shows of a paused machine (\<open>show_context\<close> in
  \<open>SysdarftConsole/ShowContext.cpp\<close>): the registers, the memory behind the three pointers, and
  the instructions that come next. Nothing of the machine changes; the dumps are those of the
  memory, and the instructions those that the CPU will execute.
\<close>

section \<open>Registers\<close>

text \<open>\<open>to_hex_string\<close> of a value of \<open>n\<close> bytes.\<close>

(* SysdarftConsole/ShowContext.cpp 108-127: to_hex_string *)
definition to_hex_string :: "nat \<Rightarrow> nat \<Rightarrow> string" where
  "to_hex_string n v = hex_width (2 * n) v"

definition register_field :: "string \<Rightarrow> nat \<Rightarrow> nat \<Rightarrow> string" where
  "register_field name n v = name @ '' = 0x'' @ to_hex_string n v"

definition rule_text :: string where
  "rule_text = replicate 78 (CHR ''='') @ newline_text"

(* SysdarftConsole/ShowContext.cpp 172-233: show_context, R0 to HER7 *)
definition small_registers_text :: "sysdarft_register_t \<Rightarrow> string" where
  "small_registers_text r =
     register_field ''R0'' 1 (unat (R0 r)) @ '' '' @ register_field ''R1'' 1 (unat (R1 r)) @ '' ''
     @ register_field ''R2'' 1 (unat (R2 r)) @ '' '' @ register_field ''R3'' 1 (unat (R3 r)) @ '' ''
     @ register_field ''R4'' 1 (unat (R4 r)) @ '' '' @ register_field ''R5'' 1 (unat (R5 r)) @ '' ''
     @ register_field ''R6'' 1 (unat (R6 r)) @ '' '' @ register_field ''R7'' 1 (unat (R7 r)) @ newline_text
     @ register_field ''EXR0'' 2 (unat (get_EXR0 r)) @ '' '' @ register_field ''EXR1'' 2 (unat (get_EXR1 r)) @ '' ''
     @ register_field ''EXR2'' 2 (unat (get_EXR2 r)) @ '' '' @ register_field ''EXR3'' 2 (unat (get_EXR3 r)) @ newline_text
     @ register_field ''EXR4'' 2 (unat (ExtendedRegister4 r)) @ '' '' @ register_field ''EXR5'' 2 (unat (ExtendedRegister5 r)) @ '' ''
     @ register_field ''EXR6'' 2 (unat (ExtendedRegister6 r)) @ '' '' @ register_field ''EXR7'' 2 (unat (ExtendedRegister7 r)) @ newline_text
     @ register_field ''HER0'' 4 (unat (get_HER0 r)) @ '' '' @ register_field ''HER1'' 4 (unat (get_HER1 r)) @ '' ''
     @ register_field ''HER2'' 4 (unat (get_HER2 r)) @ '' '' @ register_field ''HER3'' 4 (unat (get_HER3 r)) @ newline_text
     @ register_field ''HER4'' 4 (unat (HalfExtendedRegister4 r)) @ '' '' @ register_field ''HER5'' 4 (unat (HalfExtendedRegister5 r)) @ '' ''
     @ register_field ''HER6'' 4 (unat (HalfExtendedRegister6 r)) @ '' '' @ register_field ''HER7'' 4 (unat (HalfExtendedRegister7 r)) @ newline_text"

(* SysdarftConsole/ShowContext.cpp 235-270: show_context, FER0 to FER15 *)
definition full_registers_text :: "sysdarft_register_t \<Rightarrow> string" where
  "full_registers_text r = concat (map (\<lambda>(name, v). register_field name 8 (unat v) @ newline_text)
     [(''FER0 '', get_FER0 r), (''FER1 '', get_FER1 r), (''FER2 '', get_FER2 r), (''FER3 '', get_FER3 r),
      (''FER4 '', FullyExtendedRegister4 r), (''FER5 '', FullyExtendedRegister5 r),
      (''FER6 '', FullyExtendedRegister6 r), (''FER7 '', FullyExtendedRegister7 r),
      (''FER8 '', FullyExtendedRegister8 r), (''FER9 '', FullyExtendedRegister9 r),
      (''FER10'', FullyExtendedRegister10 r), (''FER11'', FullyExtendedRegister11 r),
      (''FER12'', FullyExtendedRegister12 r), (''FER13'', FullyExtendedRegister13 r),
      (''FER14'', FullyExtendedRegister14 r), (''FER15'', FullyExtendedRegister15 r)])"

(* SysdarftConsole/ShowContext.cpp 272-282: show_context, flags *)
definition flags_text :: "flag_register \<Rightarrow> string" where
  "flags_text f = ''Flags:'' @ newline_text @ concat (map (\<lambda>(name, b). name @ '' = '' @ to_string (of_bool b) @ newline_text)
     [(''  Carry           '', Carry f), (''  Overflow        '', Overflow f), (''  LargerThan      '', LargerThan f),
      (''  LessThan        '', LessThan f), (''  Equal           '', Equal f), (''  InterruptionMask'', InterruptionMask f)])"

text \<open>The instruction pointer is the one of the instruction that is about to be executed.\<close>

(* SysdarftConsole/ShowContext.cpp 284-307: show_context, bases and pointers *)
definition pointers_text :: "u64 \<Rightarrow> sysdarft_register_t \<Rightarrow> string" where
  "pointers_text actual_ip r = concat (map (\<lambda>(name, v). register_field name 8 (unat v) @ newline_text)
     [(''SB '', StackBase r), (''SP '', StackPointer r), (''CB '', CodeBase r), (''IP '', actual_ip),
      (''DB '', DataBase r), (''DP '', DataPointer r), (''EB '', ExtendedBase r), (''EP '', ExtendedPointer r),
      (''CPS'', CurrentProcedureStackPreservationSpace r)])"

definition registers_text :: "u64 \<Rightarrow> sysdarft_register_t \<Rightarrow> string" where
  "registers_text actual_ip r = rule_text @ ''Registers:'' @ newline_text @ small_registers_text r
     @ full_registers_text r @ flags_text (FlagRegister r) @ pointers_text actual_ip r"

section \<open>Memory\<close>

(* SysdarftConsole/ShowContext.cpp 319-323: show_context, loop over bytes *)
fun read_each :: "u64 \<Rightarrow> nat \<Rightarrow> ('z mem_state_scheme, u8 list) run" where
  "read_each address 0 = returnR []"
| "read_each address (Suc n) = bindR (read_memory address 1) (\<lambda>c.
     bindR (read_each (address + 1) n) (\<lambda>cs. returnR (c @ cs)))"

text \<open>
  One of the three areas of 128 bytes; the difference wraps when the area is behind the end of
  the memory. What has been written when an exception comes stays.
\<close>

(* SysdarftConsole/ShowContext.cpp 309-367: show_context, DB:DP, EB:EP and SB:SP *)
definition area_text :: "string \<Rightarrow> string \<Rightarrow> u64 \<Rightarrow> ('z mem_state_scheme, string) run" where
  "area_text name invalid_name off =
     bindR (getR TotalMemory) (\<lambda>total.
     tryR (bindR (read_each off (unat (min (total - off) 128))) (\<lambda>buffer.
             returnR (rule_text @ name @ '':'' @ newline_text @ xxd_like_dump off buffer @ newline_text)))
       (\<lambda>e. if derived_from_exception e
            then returnR (rule_text @ name @ '':'' @ newline_text @ invalid_name @ '': [INVALID]'' @ newline_text)
            else throwR e))"

section \<open>Instructions\<close>

definition prefix_last :: "string \<Rightarrow> string list \<Rightarrow> string list" where
  "prefix_last line_num lines = (if lines = [] then [] else butlast lines @ [line_num @ '': '' @ last lines])"

(* SysdarftConsole/ShowContext.cpp 389-401: show_context, decoding loop *)
function next_instructions :: "u64 \<Rightarrow> nat \<Rightarrow> string list \<Rightarrow> u8 list \<Rightarrow> string list" where
  "next_instructions offset n lines buffer =
     (if buffer = [] then lines
      else
        let line_num = hex_width 16 (unat (offset + of_nat (n - length buffer)));
            (lines', rest) = snd (decode_instruction (lines, buffer))
        in next_instructions offset n (prefix_last line_num lines') rest)"
  by pat_completeness auto

lemma decode_progress:
  assumes "buffer \<noteq> []" and "snd (decode_instruction (lines, buffer)) = (lines', rest)"
  shows "length rest < length buffer" "prefix lines lines'"
proof -
  obtain b bs where "buffer = b # bs" using assms(1) by (cases buffer) auto
  with assms(2) decode_instruction_progress [of lines b bs]
  show "length rest < length buffer" "prefix lines lines'" by auto
qed

termination next_instructions
  by (relation "measure (\<lambda>(_, _, _, buffer). length buffer)") (auto dest: decode_progress(1) [OF _ sym])

declare next_instructions.simps [simp del]

(* SysdarftConsole/ShowContext.cpp 374-410: show_context, show_next_8_instructions *)
definition show_next_8_instructions :: "u64 \<Rightarrow> ('z decoder_state_scheme, string) run" where
  "show_next_8_instructions actual_ip =
     bindR (load CodeBase) (\<lambda>cb.
     bindR (getR TotalMemory) (\<lambda>total.
     let offset = cb + actual_ip; n = unat (min 256 (total - offset)) in
     bindR (read_each offset n) (\<lambda>buffer_max256.
     returnR (concat (map (\<lambda>line. line @ newline_text) (take 8 (next_instructions offset n [] buffer_max256)))))))"

(* SysdarftConsole/ShowContext.cpp 159-416: show_context *)
definition show_context :: "u64 \<Rightarrow> ('z decoder_state_scheme, string) run" where
  "show_context actual_ip =
     bindR (getR Registers) (\<lambda>r.
     bindR (area_text ''[DB:DP]'' ''[DB:DP]'' (DataBase r + DataPointer r)) (\<lambda>data.
     bindR (area_text ''[EB:EP]'' ''[EB:EP]'' (ExtendedBase r + ExtendedPointer r)) (\<lambda>extended.
     bindR (area_text ''[SB:SP]'' ''[EB:SP]'' (StackBase r + StackPointer r)) (\<lambda>stack.
     bindR (show_next_8_instructions actual_ip) (\<lambda>instructions.
     returnR (registers_text actual_ip r @ data @ extended @ stack @ rule_text @ instructions))))))"

section \<open>Looking changes nothing\<close>

definition only_looks :: "('s, 'a) run \<Rightarrow> bool" where
  "only_looks m \<longleftrightarrow> (\<forall>s. snd (m s) = s)"

named_theorems look_intros \<open>runs that leave the state as it is\<close>

lemma look_parts [look_intros]:
  "only_looks (returnR x)" "only_looks (throwR e)" "only_looks (getR f)" "only_looks (load g)"
  "only_looks (read_memory a n)"
  by (simp_all add: only_looks_def returnR_def throwR_def load_def)

lemma look_liftE [look_intros]: "only_looks (liftE r)"
  by (cases r) (simp_all add: only_looks_def liftE_def returnR_def throwR_def)

lemma look_bindR [look_intros]: "only_looks m \<Longrightarrow> (\<And>x. only_looks (f x)) \<Longrightarrow> only_looks (bindR m f)"
  unfolding only_looks_def by (blast intro: snd_bindR_same)

lemma look_tryR [look_intros]:
  assumes "only_looks m" and "\<And>e. only_looks (h e)"
  shows "only_looks (tryR m h)"
  unfolding only_looks_def
proof
  fix s
  obtain r where "m s = (r, s)" using assms(1) by (metis only_looks_def prod.collapse)
  with assms(2) show "snd (tryR m h s) = s" by (cases r) (simp_all add: tryR_def only_looks_def)
qed

lemma look_cases [look_intros]:
  "only_looks m \<Longrightarrow> only_looks k \<Longrightarrow> only_looks (if b then m else k)"
  "(\<And>a c. only_looks (f a c)) \<Longrightarrow> only_looks (case x of (a, c) \<Rightarrow> f a c)"
  "only_looks n \<Longrightarrow> (\<And>a. only_looks (g a)) \<Longrightarrow> only_looks (case y of None \<Rightarrow> n | Some a \<Rightarrow> g a)"
  "(\<And>x. only_looks (f' x)) \<Longrightarrow> only_looks (let x = t in f' x)"
  by (simp_all split: prod.split option.split)

lemma look_read_each [look_intros]: "only_looks (read_each address n)"
  by (induction n arbitrary: address) (auto intro!: look_intros)

lemma look_show_context [look_intros]: "only_looks (show_context ip)"
  unfolding show_context_def area_text_def show_next_8_instructions_def by (intro look_intros)

lemma looks_keeps: "only_looks m \<Longrightarrow> keeps P m"
  by (simp add: only_looks_def keeps_def)

section \<open>What the context shows\<close>

lemma read_each_flat:
  assumes "mem_inv s" and "unat address + n \<le> unat (TotalMemory s)"
  shows "read_each address n s = (Inr (map (flat s) [unat address..<unat address + n]), s)"
  using assms(2)
proof (induction n arbitrary: address)
  case (Suc n)
  have "in_memory s address 1" using Suc.prems by (simp add: in_memory_def)
  from read_memory_flat [OF assms(1) this] have one: "read_memory address 1 s = (Inr [flat s (unat address)], s)" by simp
  have "unat (TotalMemory s) < 2 ^ 63" using assms(1) by (simp add: mem_inv_def)
  with Suc.prems have next_address: "unat (address + 1) = Suc (unat address)" by (simp add: unat_plus_no_wrap)
  moreover have "[unat address..<unat address + Suc n] = unat address # [Suc (unat address)..<Suc (unat address) + n]"
    by (simp add: upt_conv_Cons del: upt_Suc)
  ultimately show ?case using Suc by (simp add: bindR_def one returnR_def del: upt_Suc)
qed (simp add: returnR_def)

lemma read_each_outside:
  assumes "mem_inv s" and "unat (TotalMemory s) < unat address" and "0 < n"
  shows "read_each address n s = (Inl IllegalMemoryAccessException, s)"
proof -
  obtain k where "n = Suc k" using assms(3) by (cases n) auto
  moreover have "read_memory address 1 s = (Inl IllegalMemoryAccessException, s)"
    using read_memory_rejects [OF assms(1), of 1 address] assms(2) by simp
  ultimately show ?thesis by (simp add: bindR_def)
qed

text \<open>An area in the memory is dumped, to its end or the end of the memory; any other is invalid.\<close>

lemma area_text_run:
  assumes "mem_inv s"
  shows "area_text name invalid_name off s = (Inr (rule_text @ name @ '':'' @ newline_text
    @ (if unat off \<le> unat (TotalMemory s)
       then xxd_like_dump off (map (flat s) [unat off..<min (unat off + 128) (unat (TotalMemory s))]) @ newline_text
       else invalid_name @ '': [INVALID]'' @ newline_text)), s)"
proof (cases "unat off \<le> unat (TotalMemory s)")
  case True
  let ?n = "min (unat (TotalMemory s) - unat off) 128"
  have "unat (min (TotalMemory s - off) 128) = ?n"
    using True by (simp add: min_def word_le_nat_alt unat_sub)
  moreover have "read_each off ?n s = (Inr (map (flat s) [unat off..<unat off + ?n]), s)"
    using True by (intro read_each_flat [OF assms]) simp
  moreover have "unat off + ?n = min (unat off + 128) (unat (TotalMemory s))" using True by simp
  ultimately show ?thesis using True by (simp add: area_text_def tryR_def bindR_def returnR_def)
next
  case False
  then have "0 < unat (min (TotalMemory s - off) 128)"
    by (auto simp: min_def unat_gt_0)
  with False read_each_outside [OF assms, of off] show ?thesis
    by (simp add: area_text_def tryR_def bindR_def returnR_def derived_from_exception_def derived_from_base_def)
qed

text \<open>The lines of the instructions, each with its address.\<close>

fun instruction_lines :: "u64 \<Rightarrow> code_instruction list \<Rightarrow> string list" where
  "instruction_lines pos [] = []"
| "instruction_lines pos (c # cs) = (hex_width 16 (unat pos) @ '': '' @ instruction_text c)
     # instruction_lines (pos + of_nat (length (instruction_bytes c))) cs"

lemma length_instruction_lines [simp]: "length (instruction_lines pos cs) = length cs"
  by (induction cs arbitrary: pos) simp_all

lemma instruction_lines_snoc:
  "instruction_lines pos (cs @ [c]) = instruction_lines pos cs
     @ [hex_width 16 (unat (pos + of_nat (length (concat (map instruction_bytes cs))))) @ '': '' @ instruction_text c]"
  by (induction cs arbitrary: pos) (simp_all add: add.assoc)

lemma next_instructions_code:
  assumes "list_all wf_instruction cs" and "n = k + length (concat (map instruction_bytes cs) @ rest)"
  shows "next_instructions offset n lines (concat (map instruction_bytes cs) @ rest)
    = next_instructions offset n (lines @ instruction_lines (offset + of_nat k) cs) rest"
  using assms
proof (induction cs arbitrary: k lines)
  case (Cons c cs)
  let ?rest = "concat (map instruction_bytes cs) @ rest"
  have "instruction_bytes c \<noteq> []" by (simp add: instruction_bytes_def)
  moreover have "decode_instruction (lines, instruction_bytes c @ ?rest) = (Inr (), (lines @ [instruction_text c], ?rest))"
    using Cons.prems(1) decode_instruction_text by simp
  moreover have "n - length (instruction_bytes c @ ?rest) = k" using Cons.prems(2) by simp
  ultimately have "next_instructions offset n lines (instruction_bytes c @ ?rest)
      = next_instructions offset n (lines @ [hex_width 16 (unat (offset + of_nat k)) @ '': '' @ instruction_text c]) ?rest"
    by (subst next_instructions.simps) (simp add: Let_def prefix_last_def)
  with Cons show ?case by (simp add: add.assoc)
qed simp

text \<open>Whatever follows, only the last line so far may still change.\<close>

lemma next_instructions_keeps: "prefix (butlast lines) (next_instructions offset n lines buffer)"
proof (induction offset n lines buffer rule: next_instructions.induct)
  case (1 offset n lines buffer)
  show ?case
  proof (cases "buffer = []")
    case True
    then show ?thesis by (subst next_instructions.simps) (simp add: prefixeq_butlast)
  next
    case False
    obtain lines' rest where d: "snd (decode_instruction (lines, buffer)) = (lines', rest)" by fastforce
    then have "prefix lines lines'" using decode_progress(2) [OF False] by blast
    then have "prefix (butlast lines) (butlast lines')"
      by (metis butlast_append prefix_def prefix_order.dual_order.refl prefixeq_butlast prefix_order.trans prefixI)
    then have "prefix (butlast lines) (butlast (prefix_last line_num lines'))" for line_num
      by (cases "lines' = []") (auto simp: prefix_last_def)
    with "1" [OF False refl d [symmetric]] False d show ?thesis
      by (subst next_instructions.simps) (auto simp: Let_def intro: prefix_order.trans)
  qed
qed

lemma next_instructions_shown:
  assumes "list_all wf_instruction (cs @ [c])" and "buffer = concat (map instruction_bytes (cs @ [c])) @ rest"
  shows "prefix (instruction_lines offset cs) (next_instructions offset (length buffer) [] buffer)"
proof -
  have "next_instructions offset (length buffer) [] buffer
      = next_instructions offset (length buffer) (instruction_lines offset (cs @ [c])) rest"
    using next_instructions_code [OF assms(1), of "length buffer" 0 rest offset "[]"] assms(2) by simp
  with next_instructions_keeps [of "instruction_lines offset (cs @ [c])"] show ?thesis
    by (simp add: instruction_lines_snoc)
qed

section \<open>The whole context\<close>

text \<open>The 128 bytes from an address on, or what there is of them.\<close>

definition area_bytes :: "'z mem_state_scheme \<Rightarrow> u64 \<Rightarrow> u8 list" where
  "area_bytes s off = map (flat s) [unat off..<min (unat off + 128) (unat (TotalMemory s))]"

definition area_shown :: "'z mem_state_scheme \<Rightarrow> string \<Rightarrow> string \<Rightarrow> u64 \<Rightarrow> string" where
  "area_shown s name invalid_name off = rule_text @ name @ '':'' @ newline_text
    @ (if unat off \<le> unat (TotalMemory s) then xxd_like_dump off (area_bytes s off) @ newline_text
       else invalid_name @ '': [INVALID]'' @ newline_text)"

lemma area_text_shown: "mem_inv s \<Longrightarrow> area_text name invalid_name off s = (Inr (area_shown s name invalid_name off), s)"
  by (simp add: area_text_run area_shown_def area_bytes_def)

lemma next_8_shown:
  assumes "mem_inv s" and "list_all wf_instruction (cs @ [c])" and "length cs \<le> 8"
    and "offset = CodeBase (Registers s) + actual_ip" and "bytes = concat (map instruction_bytes (cs @ [c]))"
    and "length bytes \<le> 256" and "unat offset + length bytes \<le> unat (TotalMemory s)"
    and "map (flat s) [unat offset..<unat offset + length bytes] = bytes"
  shows "\<exists>more. show_next_8_instructions actual_ip s
    = (Inr (concat (map (\<lambda>line. line @ newline_text) (instruction_lines offset cs)) @ more), s)"
proof -
  let ?n = "min 256 (unat (TotalMemory s) - unat offset)"
  let ?buffer = "map (flat s) [unat offset..<unat offset + ?n]"
  have n: "unat (min 256 (TotalMemory s - offset)) = ?n"
    using assms(7) by (simp add: min_def word_le_nat_alt unat_sub)
  have "length bytes \<le> ?n" using assms(6,7) by simp
  then have "?buffer = bytes @ map (flat s) [unat offset + length bytes..<unat offset + ?n]"
    using assms(8) upt_add_eq_append [of "unat offset" "unat offset + length bytes" "?n - length bytes"] by simp
  from next_instructions_shown [OF assms(2) this [unfolded assms(5)], of offset]
  obtain more where "next_instructions offset ?n [] ?buffer = instruction_lines offset cs @ more" by (auto simp: prefix_def)
  moreover have "read_each offset ?n s = (Inr ?buffer, s)"
    using assms(7) by (intro read_each_flat [OF assms(1)]) simp
  ultimately show ?thesis
    using assms(3,4) n by (simp add: show_next_8_instructions_def load_def Let_def bindR_def returnR_def)
qed



text \<open>
  A line gets the address of the next instruction as well, when the bytes that follow end in
  the middle of an instruction.
\<close>

theorem address_printed_twice:
  "next_instructions 0x7C00 2 [] [0x00, 0x20] = [''0000000000007C01: 0000000000007C00: NOP'']"
  by code_simp

text \<open>The code is not guarded as the three areas are: with the pointer outside the memory nothing is shown.\<close>

theorem context_of_lost_code_throws:
  assumes "mem_inv s" and "unat (TotalMemory s) < unat (CodeBase (Registers s) + actual_ip)"
  shows "show_context actual_ip s = (Inl IllegalMemoryAccessException, s)"
proof -
  have "0 < unat (min 256 (TotalMemory s - (CodeBase (Registers s) + actual_ip)))"
    using assms(2) by (auto simp: min_def unat_gt_0)
  with read_each_outside [OF assms] area_text_shown [OF assms(1)] show ?thesis
    by (simp add: show_context_def show_next_8_instructions_def load_def Let_def bindR_def)
qed

end
