(* ===== verification/Cxx_Map.thy ===== *)
theory Cxx_Map
  imports Main "HOL-Library.Product_Lexorder" "HOL-Library.List_Lexorder" "HOL-Library.Char_ord"
begin

text \<open>
  \<open>std::map\<close>: the entries in the order of their keys, which is the order in which a loop
  visits them. The sources use numbers, pairs of numbers and strings as keys; the orders are
  those of the library's lexicographic orderings.
\<close>

text \<open>\<open>m[k] = v\<close>\<close>

fun map_put :: "'k::linorder \<Rightarrow> 'v \<Rightarrow> ('k \<times> 'v) list \<Rightarrow> ('k \<times> 'v) list" where
  "map_put k v [] = [(k, v)]"
| "map_put k v ((k', v') # m) =
     (if k < k' then (k, v) # (k', v') # m
      else if k = k' then (k, v) # m
      else (k', v') # map_put k v m)"

text \<open>\<open>m.erase(it)\<close> of the first entry, in the order of the keys, that satisfies a condition.\<close>

fun map_erase_first :: "('k \<times> 'v \<Rightarrow> bool) \<Rightarrow> ('k \<times> 'v) list \<Rightarrow> ('k \<times> 'v) list option" where
  "map_erase_first P [] = None"
| "map_erase_first P (e # m) = (if P e then Some m else map_option ((#) e) (map_erase_first P m))"

definition ordered_map :: "('k::linorder \<times> 'v) list \<Rightarrow> bool" where
  "ordered_map m \<longleftrightarrow> sorted_wrt (<) (map fst m)"

lemma ordered_map_simps [simp]:
  "ordered_map []"
  "ordered_map ((k, v) # m) \<longleftrightarrow> (\<forall>e\<in>set m. k < fst e) \<and> ordered_map m"
  by (auto simp: ordered_map_def)

lemma set_map_put: "set (map fst (map_put k v m)) = insert k (set (map fst m))"
  by (induction k v m rule: map_put.induct) auto

lemma ordered_map_put [simp]: "ordered_map m \<Longrightarrow> ordered_map (map_put k v m)"
proof (induction k v m rule: map_put.induct)
  case (2 k v k' v' m)
  have "\<forall>e\<in>set (map_put k v m). fst e = k \<or> fst e \<in> fst ` set m"
    using set_map_put [of k v m] by auto
  with 2 show ?case by (fastforce simp: not_less)
qed simp

text \<open>Looking up after an assignment; lookups do not depend on the order.\<close>

lemma map_of_map_put [simp]: "ordered_map m \<Longrightarrow> map_of (map_put k v m) = (map_of m)(k \<mapsto> v)"
proof (induction k v m rule: map_put.induct)
  case (2 k v k' v' m)
  then show ?case by (auto simp: fun_eq_iff)
qed simp

lemma map_erase_first_some:
  assumes "map_erase_first P m = Some m'"
  shows "\<exists>us e vs. m = us @ e # vs \<and> m' = us @ vs \<and> P e \<and> (\<forall>u\<in>set us. \<not> P u)"
  using assms
proof (induction m arbitrary: m')
  case (Cons e m)
  show ?case
  proof (cases "P e")
    case True
    with Cons.prems show ?thesis by (intro exI [of _ "[]"]) auto
  next
    case False
    with Cons.prems obtain m2 where "map_erase_first P m = Some m2" "m' = e # m2" by auto
    with Cons.IH [of m2] False show ?thesis
      by clarsimp (metis append_Cons set_ConsD)
  qed
qed simp

lemma map_erase_first_none: "map_erase_first P m = None \<longleftrightarrow> (\<forall>e\<in>set m. \<not> P e)"
  by (induction m) auto

lemma ordered_map_erase [simp]:
  "ordered_map m \<Longrightarrow> map_erase_first P m = Some m' \<Longrightarrow> ordered_map m'"
  by (drule map_erase_first_some) (auto simp: ordered_map_def sorted_wrt_append)

end
