(* ===== verification/Debug_Server.thy ===== *)
theory Debug_Server
  imports Debug_Conditions Machine_Context Cxx_Map
begin

text \<open>
  The remote debugging console (\<open>SysdarftConsole/\<close>, class \<open>RemoteDebugServer\<close>): the two hooks
  it installs in the CPU, which decide where to stop and keep the machine paused, and the
  handlers of its requests, which set breakpoints and watches, read and write operands, and
  let the machine go on. The HTTP and JSON libraries are represented by what the handlers
  see of them: a request body is \<open>None\<close> when it does not parse, and otherwise maps field
  names to values. The texts of exceptions are left out of the replies.
\<close>

section \<open>State\<close>

text \<open>
  The server refers to the CPU, so that its state extends the CPU's. The requests that the
  server's own threads receive are a schedule: a batch for every time the CPU asks whether to
  stop, and for every time it looks whether it may go on.
\<close>

datatype json_value = JString string | JOther

type_synonym body = "(string \<Rightarrow> json_value option) option"

datatype request =
    Action body
  | Continue
  | SetBreakpoint body
  | Stepi body
  | Watcher body
  | Message string
  | ShowContext
  | ShowBreakpoint
  | DisassembleMemory body
  | PullData body

(* include/SysdarftMain.h 162-181: RemoteDebugServer *)
record server_state = cpu_state +
  breakpoint_list :: "((u64 \<times> u64) \<times> string) list"
  watch_list :: "(u8 list \<times> u64) list"
  skip_bios_ip_check :: bool
  breakpoint_triggered :: bool
  manual_stop :: bool
  stepi :: bool
  dbg_actual_ip :: u64
  dbg_opcode :: u8
  dbg_args :: "width_and_operands option"
  requests :: "request list list"

text \<open>Replies with status 200, with status 400, and on the web socket.\<close>

datatype reply =
    Accepted string
  | Refused string
  | Sent string

section \<open>Where the CPU stops\<close>

(* SysdarftConsole/DebugConsole.cpp 51-61: if_breakpoint, breakpoint_list *)
fun breakpoint_loop ::
    "calculator \<Rightarrow> u64 \<Rightarrow> ((u64 \<times> u64) \<times> string) list \<Rightarrow> (server_state, bool) run" where
  "breakpoint_loop bc addr [] = returnR False"
| "breakpoint_loop bc addr (((cb, ip), condition) # bps) =
     (if addr = cb + ip
      then bindR (is_condition_met bc condition) (\<lambda>met.
        if met then thenR (modifyR (breakpoint_triggered_update (\<lambda>_. True))) (returnR True)
        else breakpoint_loop bc addr bps)
      else breakpoint_loop bc addr bps)"

text \<open>The watches are updated one after the other; those before a failing one stay updated.\<close>

(* SysdarftConsole/DebugConsole.cpp 63-72: if_breakpoint, watch_list *)
fun watch_loop :: "(u8 list \<times> u64) list \<Rightarrow> (u8 list \<times> u64) list \<Rightarrow> bool \<Rightarrow> (server_state, bool) run" where
  "watch_loop seen [] is_hit = returnR is_hit"
| "watch_loop seen ((target, last_value) # ws) is_hit =
     bindR (absolute_target_access target) (\<lambda>data_this_time.
     if data_this_time \<noteq> last_value
     then thenR (modifyR (watch_list_update (\<lambda>_. seen @ (target, data_this_time) # ws)))
       (watch_loop (seen @ [(target, data_this_time)]) ws True)
     else watch_loop (seen @ [(target, last_value)]) ws is_hit)"

definition if_breakpoint_body :: "calculator \<Rightarrow> (server_state, bool) run" where
  "if_breakpoint_body bc =
     thenR (modifyR (breakpoint_triggered_update (\<lambda>_. False)))
     (bindR (getR id) (\<lambda>s.
      if stepi s then thenR (modifyR (breakpoint_triggered_update (\<lambda>_. True))) (returnR True)
      else if manual_stop s then
        thenR (modifyR (breakpoint_triggered_update (\<lambda>_. True)))
          (thenR (modifyR (manual_stop_update (\<lambda>_. False))) (returnR True))
      else bindR (load CodeBase) (\<lambda>CB. bindR (load InstructionPointer) (\<lambda>IP.
        if \<not> skip_bios_ip_check s \<and> IP + CB = BIOS_START then
          thenR (modifyR (skip_bios_ip_check_update (\<lambda>_. True)))
            (thenR (modifyR (breakpoint_triggered_update (\<lambda>_. True))) (returnR True))
        else bindR (breakpoint_loop bc (CB + IP) (breakpoint_list s)) (\<lambda>stop.
          if stop then returnR True
          else bindR (getR watch_list) (\<lambda>ws.
            bindR (watch_loop [] ws False) (\<lambda>is_hit.
            thenR (modifyR (breakpoint_triggered_update (\<lambda>_. is_hit))) (returnR is_hit))))))))"

(* SysdarftConsole/DebugConsole.cpp 23-79: if_breakpoint *)
definition if_breakpoint :: "calculator \<Rightarrow> (server_state, bool) run" where
  "if_breakpoint bc = tryR (if_breakpoint_body bc)
     (\<lambda>e. if derived_from_exception e then returnR True else throwR e)"

section \<open>Requests\<close>

text \<open>\<open>std::string x = clientJson[key]\<close> throws when the value is not a string.\<close>

definition json_string :: "(string \<Rightarrow> json_value option) \<Rightarrow> string \<Rightarrow> ('s, string) run" where
  "json_string json key = (case json key of Some (JString x) \<Rightarrow> returnR x | _ \<Rightarrow> throwR StdException)"

definition catch_exception :: "reply \<Rightarrow> ('s, reply) run \<Rightarrow> ('s, reply) run" where
  "catch_exception r m = tryR m (\<lambda>e. if derived_from_exception e then returnR r else throwR e)"

(* include/SysdarftMain.h 228-231: remove_spaces *)
definition remove_spaces :: "string \<Rightarrow> string" where
  "remove_spaces input = filter (\<lambda>c. \<not> isspace c) input"

definition strtoull_or_zero :: "string \<Rightarrow> u64" where
  "strtoull_or_zero s = (case strtoull 10 s of Some v \<Rightarrow> v | None \<Rightarrow> 0)"

definition address_literal :: "u64 \<Rightarrow> string" where
  "address_literal a = ''0x'' @ to_hex (unat a)"

(* SysdarftConsole/SetBreakpoint.cpp 73-88: crow_setup_setBreakpoint, DELETE *)
definition delete_breakpoint :: "u64 \<Rightarrow> (server_state, reply) run" where
  "delete_breakpoint addr =
     bindR (getR breakpoint_list) (\<lambda>bps.
     case map_erase_first (\<lambda>((cb, ip), _). cb + ip = addr) bps of
       Some bps' \<Rightarrow> thenR (modifyR (breakpoint_list_update (\<lambda>_. bps')))
         (returnR (Refused (''Breakpoint deleted at: '' @ address_literal addr)))
     | None \<Rightarrow> returnR (Refused (''No breakpoint found at: '' @ address_literal addr)))"

(* SysdarftConsole/SetBreakpoint.cpp 28-115: crow_setup_setBreakpoint *)
definition handle_setBreakpoint :: "calculator \<Rightarrow> body \<Rightarrow> (server_state, reply) run" where
  "handle_setBreakpoint bc b = (case b of
     None \<Rightarrow> returnR (Refused ''Invalid Argument'')
   | Some json \<Rightarrow>
       if json ''CB'' = None \<or> json ''IP'' = None \<or> json ''Condition'' = None
       then returnR (Refused ''Invalid Argument (Missing CB, IP, and/or Condition)'')
       else
         bindR (json_string json ''CB'') (\<lambda>cb.
         bindR (json_string json ''IP'') (\<lambda>ip.
         bindR (liftE (execute_bc bc (process_base16 cb))) (\<lambda>CB_literal.
         bindR (liftE (execute_bc bc (process_base16 ip))) (\<lambda>IP_literal.
         let CB = strtoull_or_zero CB_literal; IP = strtoull_or_zero IP_literal in
         bindR (json_string json ''Condition'') (\<lambda>condition.
         if capitalization condition = ''DELETE'' then delete_breakpoint (CB + IP)
         else catch_exception (Refused ''Conditional Expression Error: '')
           (thenR (if condition = [] then returnR ()
                   else bindR (liftE (parseExpression bc condition)) (\<lambda>_. returnR ()))
           (thenR (modifyR (breakpoint_list_update (map_put (CB, IP) condition)))
             (returnR (Accepted ''Success''))))))))))"

(* SysdarftConsole/Continue.cpp 28-48: crow_setup_continue *)
definition handle_continue :: "(server_state, reply) run" where
  "handle_continue =
     bindR (getR breakpoint_triggered) (\<lambda>stopped.
     if \<not> stopped then returnR (Refused ''Already running'')
     else thenR (modifyR (breakpoint_triggered_update (\<lambda>_. False)))
       (thenR (modifyR (manual_stop_update (\<lambda>_. False))) (returnR (Accepted ''Success''))))"

text \<open>\<open>front()\<close> of an empty string is undefined.\<close>

(* SysdarftConsole/Stepi.cpp 28-72: crow_setup_stepi *)
definition handle_stepi :: "body \<Rightarrow> (server_state, reply) run" where
  "handle_stepi b = (case b of
     None \<Rightarrow> returnR (Refused ''Invalid Argument'')
   | Some json \<Rightarrow>
       if json ''Expression'' = None then returnR (Refused ''Invalid Argument (Missing expression)'')
       else catch_exception (Refused ''Actionable Expression Error: '')
         (bindR (json_string json ''Expression'') (\<lambda>expression.
          case capitalization expression of
            [] \<Rightarrow> throwR UndefinedBehaviour
          | c # _ \<Rightarrow>
              if c = CHR ''S''
              then thenR (modifyR (stepi_update (\<lambda>_. True))) (returnR (Accepted ''Step Instruction''))
              else thenR (modifyR (stepi_update (\<lambda>_. False))) (returnR (Accepted ''Running'')))))"

(* SysdarftConsole/Watcher.cpp 28-73: crow_setup_watcher *)
definition handle_watcher :: "calculator \<Rightarrow> body \<Rightarrow> (server_state, reply) run" where
  "handle_watcher bc b = (case b of
     None \<Rightarrow> returnR (Refused ''Invalid Argument'')
   | Some json \<Rightarrow>
       if json ''Expression'' = None then returnR (Refused ''Invalid Argument: Missing expression!'')
       else catch_exception (Refused ''Invalid Argument: '')
         (bindR (json_string json ''Expression'') (\<lambda>expression.
          let expression = replace_all (replace_all (capitalization (remove_spaces expression)) ''<'' []) ''>'' []
          in bindR (liftE (encode_into bc expression)) (\<lambda>target_byte_code.
             thenR (modifyR (watch_list_update (\<lambda>ws. ws @ [(target_byte_code, 0)])))
               (returnR (Accepted ''Success''))))))"

(* SysdarftConsole/Action.cpp 62-81: crow_setup_action, operands *)
fun encode_each :: "calculator \<Rightarrow> string list \<Rightarrow> cpu_error + u8 list list" where
  "encode_each bc [] = Inr []"
| "encode_each bc (m # ms) =
     (case encode_into bc (replace_all (replace_all m ''<'' []) ''>'' []) of
        Inl e \<Rightarrow> Inl e
      | Inr code \<Rightarrow> map_result ((#) code) (encode_each bc ms))"

definition action_body :: "string \<Rightarrow> u8 list list \<Rightarrow> (server_state, reply) run" where
  "action_body expression ops =
     (if hd expression = CHR ''B'' then
        thenR (modifyR (manual_stop_update (\<lambda>_. True)))
          (thenR (modifyR (\<lambda>s. s\<lparr>debugger_pause_blocked_int_0x14 := True\<rparr>)) (returnR (Accepted ''Break next'')))
      else if hd expression = CHR ''S'' then
        bindR (getR breakpoint_triggered) (\<lambda>stopped.
        if \<not> stopped then returnR (Refused ''Still running'')
        else (case ops of
            [code1, code2] \<Rightarrow>
              bindR (load (\<lambda>r. debugger_operand r code1)) (\<lambda>op1. bindR (liftE op1) (\<lambda>(operand1, _).
              bindR (load (\<lambda>r. debugger_operand r code2)) (\<lambda>op2. bindR (liftE op2) (\<lambda>(operand2, _).
              bindR (dbg_get_val operand2) (\<lambda>v.
              thenR (dbg_set_val operand1 v) (returnR (Accepted ''Success'')))))))
          | _ \<Rightarrow> throwR StdException))
      else if hd expression = CHR ''G'' then
        bindR (getR breakpoint_triggered) (\<lambda>stopped.
        if \<not> stopped then returnR (Refused ''Still running'')
        else (case ops of
            [code1] \<Rightarrow> bindR (absolute_target_access code1) (\<lambda>v.
              returnR (Accepted (''0x'' @ to_hex (unat v))))
          | _ \<Rightarrow> throwR StdException))
      else returnR (Accepted ''Unknown Expression''))"

(* SysdarftConsole/Action.cpp 28-133: crow_setup_action *)
definition handle_action :: "calculator \<Rightarrow> body \<Rightarrow> (server_state, reply) run" where
  "handle_action bc b = (case b of
     None \<Rightarrow> returnR (Refused ''Invalid Argument'')
   | Some json \<Rightarrow>
       if json ''Expression'' = None then returnR (Refused ''Invalid Argument (Missing expression)'')
       else catch_exception (Refused ''Actionable Expression Error: '')
         (bindR (json_string json ''Expression'') (\<lambda>text.
          let expression = capitalization (remove_spaces text) in
          if expression = [] then throwR StdException
          else bindR (liftE (encode_each bc (map fst (regex_iterator target_pattern expression))))
            (action_body expression))))"

(* SysdarftConsole/IntAlertSSE.cpp 39-90: crow_setup_intAlertSSE, onmessage *)
definition handle_message :: "string \<Rightarrow> (server_state, reply) run" where
  "handle_message request =
     bindR (getR breakpoint_triggered) (\<lambda>stopped.
     if request = ''Status'' then returnR (Sent (if stopped then ''Paused'' else ''Running''))
     else if request = ''VideoMemory'' then
       tryR (bindR (read_memory VIDEO_MEMORY_START VIDEO_MEMORY_SIZE) (\<lambda>bs. returnR (Sent (c_string (0x27 # bs @ [0x27, 0])))))
         (\<lambda>e. if derived_from_exception e then returnR (Sent ''Error: '') else throwR e)
     else if request \<noteq> [] \<and> hd request = CHR ''I'' then
       thenR (modifyR (try_add_input (sint (of_int (strtoll 10 (tl request)) :: u32)))) (returnR (Sent ''Success''))
     else if request = ''context'' then
       bindR (getR dbg_args) (\<lambda>args.
       if \<not> stopped \<or> args = None then returnR (Sent ''Not Ready'')
       else bindR (getR dbg_actual_ip) (\<lambda>ip. bindR (show_context ip) (\<lambda>context. returnR (Sent context))))
     else if request = ''continue'' then
       if \<not> stopped then returnR (Sent ''Already running'')
       else thenR (modifyR (breakpoint_triggered_update (\<lambda>_. False)))
         (thenR (modifyR (manual_stop_update (\<lambda>_. False))) (returnR (Sent ''Continue'')))
     else returnR (Sent ''Request not recognized''))"

section \<open>Requests that only look\<close>

(* SysdarftConsole/CrowShowContext.cpp 28-46: crow_setup_showContext *)
definition handle_showContext :: "(server_state, reply) run" where
  "handle_showContext =
     bindR (getR breakpoint_triggered) (\<lambda>stopped. bindR (getR dbg_args) (\<lambda>args.
     if \<not> stopped \<or> args = None then returnR (Refused ''Not Ready'')
     else bindR (getR dbg_actual_ip) (\<lambda>ip. bindR (show_context ip) (\<lambda>context. returnR (Accepted context)))))"

text \<open>The operand of a watch is printed as it is encoded, byte for byte.\<close>

(* SysdarftConsole/ShowBreakpoint.cpp 37-64: crow_setup_showBreakpoint, result *)
definition breakpoints_text :: "((u64 \<times> u64) \<times> string) list \<Rightarrow> (u8 list \<times> u64) list \<Rightarrow> string" where
  "breakpoints_text bps ws =
     ''[BREAKPOINT]'' @ newline_text
     @ concat (map (\<lambda>((cb, ip), condition). hex_width 16 (unat (cb + ip)) @ '': '' @ condition @ newline_text) bps)
     @ ''[WATCHLIST]'' @ newline_text
     @ concat (map (\<lambda>(target, _). map byte_char target @ newline_text) ws)
     @ ''[END]'' @ newline_text"

(* SysdarftConsole/ShowBreakpoint.cpp 28-67: crow_setup_showBreakpoint *)
definition handle_showBreakpoint :: "(server_state, reply) run" where
  "handle_showBreakpoint = bindR (getR breakpoint_list) (\<lambda>bps. bindR (getR watch_list) (\<lambda>ws.
     returnR (Accepted (breakpoints_text bps ws))))"

text \<open>\<open>std::stoull\<close> throws when there is no number, and when it is out of range.\<close>

definition stoull :: "string \<Rightarrow> cpu_error + u64" where
  "stoull s = (case scan_number 10 s of
     (neg, ds) \<Rightarrow> if ds = [] \<or> of_digits 10 ds \<ge> 2 ^ 64 then Inl StdException
       else Inr (if neg then - of_nat (of_digits 10 ds) else of_nat (of_digits 10 ds)))"

(* SysdarftConsole/DisassembleAnArea.cpp 247-262: crow_setup_disassemble_an_area, address *)
definition area_address :: "string \<Rightarrow> cpu_error + u64" where
  "area_address t = (case process_base16 (remove_spaces t) of
     [] \<Rightarrow> Inl StdException
   | c # cs \<Rightarrow> stoull (c # cs))"

(* SysdarftConsole/PullData.cpp 54-71: crow_setup_pull_data, begin and end *)
definition area_of_request :: "(string \<Rightarrow> json_value option) \<Rightarrow> ('s, u64 \<times> u64) run" where
  "area_of_request json =
     bindR (json_string json ''Begin'') (\<lambda>begin_text.
     bindR (json_string json ''End'') (\<lambda>end_text.
     bindR (liftE (area_address begin_text)) (\<lambda>begin_address.
     bindR (liftE (area_address end_text)) (\<lambda>end_address.
     if begin_address \<ge> end_address then throwR StdException
     else returnR (begin_address, end_address)))))"

text \<open>
  The table of symbols is empty, so that no name is inserted whatever the options are.
\<close>

(* SysdarftConsole/DisassembleAnArea.cpp 268-274: crow_setup_disassemble_an_area, disassembly *)
definition disassemble_area :: "u64 \<Rightarrow> u64 \<Rightarrow> (server_state, reply) run" where
  "disassemble_area begin_address end_address =
     bindR (getR TotalMemory) (\<lambda>system_total_memory.
     let offset = min begin_address system_total_memory;
         size = min (end_address - begin_address) (system_total_memory - offset) in
     bindR (read_memory offset size) (\<lambda>buffer.
     bindR (liftE (disassemble_code no_brackets False buffer begin_address [])) (\<lambda>result.
     returnR (Accepted result))))"

(* SysdarftConsole/DisassembleAnArea.cpp 206-282: crow_setup_disassemble_an_area *)
definition handle_disassemble :: "body \<Rightarrow> (server_state, reply) run" where
  "handle_disassemble b =
     bindR (getR breakpoint_triggered) (\<lambda>stopped.
     if \<not> stopped then returnR (Refused ''Still running'')
     else case b of
       None \<Rightarrow> returnR (Refused ''Invalid Argument'')
     | Some json \<Rightarrow>
         if json ''Begin'' = None then returnR (Refused ''Invalid Argument (Missing begin)'')
         else if json ''End'' = None then returnR (Refused ''Invalid Argument (Missing end)'')
         else catch_exception (Refused ''Actionable Expression Error: '')
           (bindR (area_of_request json) (\<lambda>(begin_address, end_address).
            disassemble_area begin_address end_address)))"

text \<open>\<open>resize\<close> throws for a size that no vector can have.\<close>

(* SysdarftConsole/PullData.cpp 28-86: crow_setup_pull_data *)
definition handle_pull_data :: "body \<Rightarrow> (server_state, reply) run" where
  "handle_pull_data b = (case b of
     None \<Rightarrow> throwR StdException
   | Some json \<Rightarrow>
       if json ''Begin'' = None \<or> json ''End'' = None then throwR StdException
       else catch_exception (Refused ''Actionable Expression Error: '')
         (bindR (area_of_request json) (\<lambda>(begin_address, end_address).
          let dump_size = end_address - begin_address + 1 in
          if unat dump_size \<ge> 2 ^ 63 then throwR StdException
          else bindR (read_memory begin_address dump_size) (\<lambda>dump.
            returnR (Accepted (xxd_like_dump begin_address dump))))))"

fun serve :: "calculator \<Rightarrow> request \<Rightarrow> (server_state, reply) run" where
  "serve bc (Action b) = handle_action bc b"
| "serve bc Continue = handle_continue"
| "serve bc (SetBreakpoint b) = handle_setBreakpoint bc b"
| "serve bc (Stepi b) = handle_stepi b"
| "serve bc (Watcher b) = handle_watcher bc b"
| "serve bc (Message m) = handle_message m"
| "serve bc ShowContext = handle_showContext"
| "serve bc ShowBreakpoint = handle_showBreakpoint"
| "serve bc (DisassembleMemory b) = handle_disassemble b"
| "serve bc (PullData b) = handle_pull_data b"

section \<open>The hooks\<close>

text \<open>
  An exception that a handler lets through becomes a reply with status 500; the state it left
  stays.
\<close>

definition serve_request :: "calculator \<Rightarrow> request \<Rightarrow> (server_state, unit) run" where
  "serve_request bc q = tryR (bindR (serve bc q) (\<lambda>_. returnR ()))
     (\<lambda>e. if e = UndefinedBehaviour \<or> e = Waiting then throwR e else returnR ())"

definition next_batch :: "(server_state, request list) run" where
  "next_batch = bindR (getR requests) (\<lambda>sched. case sched of
     [] \<Rightarrow> returnR []
   | qs # rest \<Rightarrow> thenR (modifyR (requests_update (\<lambda>_. rest))) (returnR qs))"

definition remote_is_break_here :: "calculator \<Rightarrow> (server_state, bool) run" where
  "remote_is_break_here bc =
     bindR next_batch (\<lambda>qs. thenR (forR qs (serve_request bc)) (if_breakpoint bc))"

text \<open>The machine is paused until a request clears \<open>breakpoint_triggered\<close>.\<close>

(* SysdarftConsole/DebugAction.cpp 32-35: at_breakpoint, while *)
fun pause_loop :: "calculator \<Rightarrow> request list list \<Rightarrow> (server_state, unit) run" where
  "pause_loop bc sched s =
     (if \<not> breakpoint_triggered s then (Inr (), s)
      else (case sched of
          [] \<Rightarrow> (Inl Waiting, s)
        | qs # rest \<Rightarrow> (case forR qs (serve_request bc) (s\<lparr>requests := rest\<rparr>) of
            (Inl e, s') \<Rightarrow> (Inl e, s')
          | (Inr _, s') \<Rightarrow> pause_loop bc rest s')))"

declare pause_loop.simps [simp del]

(* SysdarftConsole/DebugAction.cpp 23-38: at_breakpoint *)
definition at_breakpoint :: "calculator \<Rightarrow> u64 \<Rightarrow> u8 \<Rightarrow> width_and_operands \<Rightarrow> (server_state, unit) run" where
  "at_breakpoint bc ip opc args =
     thenR (modifyR (\<lambda>s. s\<lparr>dbg_actual_ip := ip, dbg_opcode := opc, dbg_args := Some args\<rparr>))
     (bindR (getR requests) (\<lambda>sched.
      thenR (pause_loop bc sched) (modifyR (\<lambda>s. s\<lparr>dbg_args := None\<rparr>))))"

(* SysdarftConsole/RemoteDebugServer.cpp 56-58: RemoteDebugServer *)
definition remote_hooks :: "calculator \<Rightarrow> server_state debug_hooks" where
  "remote_hooks bc = \<lparr>is_break_here = \<lambda>_. remote_is_break_here bc,
     breakpoint_handler = \<lambda>_ ip opc args. at_breakpoint bc ip opc args\<rparr>"

section \<open>Runs that keep a predicate and end in an exception at worst\<close>

text \<open>
  \<open>ends_well P m\<close>: from a state with \<open>P\<close> the run leaves one with \<open>P\<close>, and when it
  throws, it is an exception that \<open>catch (std::exception &)\<close> matches.
\<close>

definition ends_well :: "('s \<Rightarrow> bool) \<Rightarrow> ('s, 'a) run \<Rightarrow> bool" where
  "ends_well P m \<longleftrightarrow> (\<forall>s. P s \<longrightarrow> P (snd (m s)) \<and> (\<forall>e. fst (m s) = Inl e \<longrightarrow> derived_from_exception e))"

named_theorems well_intros \<open>runs that end well\<close>

lemma well_parts [well_intros]:
  "ends_well P (returnR x)" "derived_from_exception e \<Longrightarrow> ends_well P (throwR e)" "ends_well P (getR f)"
  "(\<And>s. P s \<Longrightarrow> P (g s)) \<Longrightarrow> ends_well P (modifyR g)"
  by (simp_all add: ends_well_def returnR_def throwR_def)

lemma well_load [well_intros]: "ends_well P (load f)"
  by (simp add: ends_well_def)

lemma well_bindR [well_intros]:
  assumes "ends_well P m" and "\<And>x. ends_well P (f x)"
  shows "ends_well P (bindR m f)"
  using assms by (fastforce simp: ends_well_def bindR_def split: prod.split sum.split)

lemma well_thenR [well_intros]: "ends_well P m \<Longrightarrow> ends_well P k \<Longrightarrow> ends_well P (thenR m k)"
  by (simp add: thenR_def well_bindR)

lemma well_tryR [well_intros]:
  assumes "ends_well P m" and "\<And>e. derived_from_exception e \<Longrightarrow> ends_well P (h e)"
  shows "ends_well P (tryR m h)"
  using assms by (fastforce simp: ends_well_def tryR_def split: prod.split sum.split)

lemma well_cases [well_intros]:
  "(b \<Longrightarrow> ends_well P m) \<Longrightarrow> (\<not> b \<Longrightarrow> ends_well P k) \<Longrightarrow> ends_well P (if b then m else k)"
  "(\<And>a c. ends_well P (f a c)) \<Longrightarrow> ends_well P (case x of (a, c) \<Rightarrow> f a c)"
  "ends_well P n \<Longrightarrow> (\<And>a. ends_well P (g a)) \<Longrightarrow> ends_well P (case y of None \<Rightarrow> n | Some a \<Rightarrow> g a)"
  "(\<And>x. ends_well P (f' x)) \<Longrightarrow> ends_well P (let x = t in f' x)"
  by (simp_all split: prod.split option.split)

lemma well_liftE: "(\<And>e. x = Inl e \<Longrightarrow> derived_from_exception e) \<Longrightarrow> ends_well P (liftE x)"
  by (cases x) (auto intro: well_intros)

lemma derived_from_exception_simps [simp]:
  "derived_from_exception StdException" "derived_from_exception IllegalInstruction"
  "derived_from_exception IllegalMemoryAccessException" "derived_from_exception SysdarftCodeExpressionError"
  "derived_from_exception SysdarftBaseError"
  by (simp_all add: derived_from_exception_def derived_from_base_def)

lemma well_keeps: "ends_well P m \<Longrightarrow> keeps P m"
  by (simp add: ends_well_def keeps_def)

lemma well_no_error: "ends_well P m \<Longrightarrow> P s \<Longrightarrow> m s = (Inl e, s') \<Longrightarrow> derived_from_exception e"
  by (metis ends_well_def fst_conv)

subsection \<open>Encoding operands\<close>

lemma well_code_buffer [well_intros]: "ends_well P (code_buffer_push n (Some bs))" if "\<And>s b. P s \<Longrightarrow> P (s @ b)"
  unfolding code_buffer_push_def using that by (auto intro: well_intros)

lemma well_push8 [well_intros]: "ends_well (\<lambda>_. True) (code_buffer_push8 b)"
  unfolding code_buffer_push8_def by (intro well_intros)

lemma well_execute_bc [well_intros]: "ends_well P (liftE (execute_bc bc t))"
  by (rule well_liftE) (auto simp: execute_bc_def split: prod.splits if_splits)

lemma well_encode [well_intros]:
  "ends_well (\<lambda>_. True) (encode_register p)" "ends_well (\<lambda>_. True) (encode_memory_width_prefix t)"
  "ends_well (\<lambda>_. True) (encode_constant bc p)"
  unfolding encode_register_def encode_memory_width_prefix_def encode_constant_def push_register_def Let_def
  by (intro well_intros; simp)+

lemma well_encode_each [well_intros]: "ends_well (\<lambda>_. True) (encode_each_parameter bc t)"
  unfolding encode_each_parameter_def Let_def by (intro well_intros; simp)

lemma well_encode_memory [well_intros]: "ends_well (\<lambda>_. True) (encode_memory bc p)"
  unfolding encode_memory_def Let_def by (intro well_intros; simp)

lemma well_encode_target: "ends_well (\<lambda>_. True) (encode_target bc t)"
proof -
  have "derived_from_exception e" if "parse t = Inl e" for e
    using that by (auto simp: parse_def Let_def split: if_splits option.splits)
  then have "ends_well (\<lambda>_. True) (liftE (parse t))" by (rule well_liftE)
  then show ?thesis unfolding encode_target_def by (intro well_intros; simp)
qed

lemma encode_into_error: "encode_into bc t = Inl e \<Longrightarrow> derived_from_exception e"
  using well_no_error [OF well_encode_target [of bc t]] by (auto simp: encode_into_def split: prod.splits sum.splits)

lemma encode_each_error: "encode_each bc ts = Inl e \<Longrightarrow> derived_from_exception e"
  by (induction ts) (auto dest: encode_into_error simp: map_result_def split: sum.splits)


subsection \<open>Reading and writing the machine\<close>

lemma well_read_memory:
  assumes "0 < n" and "n < 2 ^ 63"
  shows "ends_well ui_inv (read_memory a (of_nat n))"
proof -
  have "fst (read_memory a (of_nat n) s) = Inl e \<Longrightarrow> derived_from_exception e" if "mem_inv s" for s :: "'z ui_state_scheme" and e
    using read_memory_rejects [OF that assms(2), of a] read_memory_flat [OF that, of a n] assms(1)
    by (cases "unat (TotalMemory s) < unat a + n") (auto simp: in_memory_def)
  then show ?thesis by (auto simp: ends_well_def ui_inv_def)
qed

lemma well_write_memory:
  assumes "0 < n" and "n < 2 ^ 63" and "n \<le> length bs"
  shows "ends_well ui_inv (write_memory a bs (of_nat n))"
proof -
  have "fst (write_memory a bs (of_nat n) s) = Inl e \<Longrightarrow> derived_from_exception e" if "mem_inv s" for s :: "'z ui_state_scheme" and e
    using write_memory_rejects [OF that assms(2), of a] write_memory_flat [OF that _ assms(3), of a] assms(1)
    by (cases "unat (TotalMemory s) < unat a + n") (auto simp: in_memory_def)
  then show ?thesis
    using keeps_ui_write [of a bs "of_nat n"] by (auto simp: ends_well_def ui_inv_def keeps_def)
qed

lemma well_operand_sizes [well_intros]:
  "ends_well ui_inv (read_memory a 1)" "ends_well ui_inv (read_memory a 2)"
  "ends_well ui_inv (read_memory a 4)" "ends_well ui_inv (read_memory a 8)"
  "ends_well ui_inv (read_memory a VIDEO_MEMORY_SIZE)"
  "ends_well ui_inv (write_memory a (word_to_bytes 8 v) 1)" "ends_well ui_inv (write_memory a (word_to_bytes 8 v) 2)"
  "ends_well ui_inv (write_memory a (word_to_bytes 8 v) 4)" "ends_well ui_inv (write_memory a (word_to_bytes 8 v) 8)"
  using well_read_memory [of 1 a] well_read_memory [of 2 a] well_read_memory [of 4 a] well_read_memory [of 8 a]
    well_read_memory [of "unat VIDEO_MEMORY_SIZE" a]
    well_write_memory [of 1 "word_to_bytes 8 v" a] well_write_memory [of 2 "word_to_bytes 8 v" a]
    well_write_memory [of 4 "word_to_bytes 8 v" a] well_write_memory [of 8 "word_to_bytes 8 v" a]
  by (simp_all add: VIDEO_MEMORY_SIZE_def VIDEO_MEMORY_END_def VIDEO_MEMORY_START_def)

lemma register_access_error:
  "do_access_register_based_on_table w i r = Inl e \<Longrightarrow> derived_from_exception e"
  "store_value_to_register_based_on_table w i v r = Inl e \<Longrightarrow> derived_from_exception e"
  unfolding do_access_register_based_on_table_def store_value_to_register_based_on_table_def map_result_def
    load_Register_def load_ExtendedRegister_def load_HalfExtendedRegister_def load_FullyExtendedRegister_def
    store_Register_def store_ExtendedRegister_def store_HalfExtendedRegister_def store_FullyExtendedRegister_def
  by (simp split: if_splits sum.splits)+


lemma well_register_operand [well_intros]:
  "ends_well ui_inv (read_register w i)" "ends_well ui_inv (write_register w i v)"
  unfolding read_register_def write_register_def store_def
  by (auto simp: ends_well_def liftE_def bindR_def returnR_def throwR_def split: sum.splits
      dest: register_access_error)

lemma well_dbg_access [well_intros]: "ends_well ui_inv (dbg_get_val x)" "ends_well ui_inv (dbg_set_val x v)"
  by (cases x; auto simp: dbg_store_register_eq dbg_access_memory_def dbg_access_memory_at_def dbg_store_memory_def
      intro!: well_intros)+

lemma well_dbg_decode [well_intros]:
  "ends_well (\<lambda>_. True) dbg_pop8" "ends_well (\<lambda>_. True) (dbg_pop_bytes n)"
  "ends_well (\<lambda>_. True) (dbg_pop_code k)" "ends_well (\<lambda>_. True) dbg_pop_code8"
  "ends_well (\<lambda>_. True) dbg_decode_register" "ends_well (\<lambda>_. True) dbg_decode_constant"
  "ends_well (\<lambda>_. True) (dbg_access_register r w i)"
proof -
  show 1: "ends_well (\<lambda>_. True) dbg_pop8"
    unfolding dbg_pop8_def by (intro well_intros; simp)
  then show 2: "ends_well (\<lambda>_. True) (dbg_pop_bytes n)" for n
    by (induction n) (auto intro!: well_intros)
  then show 3: "ends_well (\<lambda>_. True) (dbg_pop_code k)" for k
    unfolding dbg_pop_code_def by (intro well_intros; simp)
  then show 4: "ends_well (\<lambda>_. True) dbg_pop_code8"
    unfolding dbg_pop_code8_def by (intro well_intros; simp)
  then show "ends_well (\<lambda>_. True) dbg_decode_register"
    unfolding dbg_decode_register_def set_literal_def by (intro well_intros; simp)
  from 3 4 show "ends_well (\<lambda>_. True) dbg_decode_constant"
    unfolding dbg_decode_constant_def dbg_pop_code16_def dbg_pop_code32_def dbg_pop_code64_def
    by (intro well_intros; simp)
  show "ends_well (\<lambda>_. True) (dbg_access_register r w i)"
    unfolding dbg_access_register_eq by (rule well_liftE) (rule register_access_error)
qed

lemma well_dbg_parameters [well_intros]:
  "ends_well (\<lambda>_. True) (dbg_decode_each_parameter r)" "ends_well (\<lambda>_. True) (dbg_decode_signed_parameter r)"
proof -
  have "ends_well P (liftE (dbg_signed_offset w v))" for P :: "debugger_operand_state \<Rightarrow> bool" and w v
    by (rule well_liftE) (auto simp: dbg_signed_offset_def split: if_splits)
  then show "ends_well (\<lambda>_. True) (dbg_decode_signed_parameter r)"
    unfolding dbg_decode_signed_parameter_def by (intro well_intros; simp)
  show "ends_well (\<lambda>_. True) (dbg_decode_each_parameter r)"
    unfolding dbg_decode_each_parameter_def by (intro well_intros; simp)
qed

lemma well_dbg_decode_operand: "ends_well (\<lambda>_. True) (dbg_decode_operand r)"
proof -
  have "ends_well P (liftE (dbg_decode_ratio b))" for P :: "debugger_operand_state \<Rightarrow> bool" and b
    by (rule well_liftE) (auto simp: dbg_decode_ratio_def split: if_splits)
  moreover have "ends_well P (liftE (dbg_width_literal b))" for P :: "debugger_operand_state \<Rightarrow> bool" and b
    by (rule well_liftE) (auto simp: dbg_width_literal_def split: if_splits)
  ultimately have "ends_well (\<lambda>_. True) (dbg_decode_memory r)"
    unfolding dbg_decode_memory_def set_literal_def by (intro well_intros; simp)
  then show ?thesis unfolding dbg_decode_operand_def by (intro well_intros; simp)
qed

lemma well_debugger_operand [well_intros]: "ends_well P (liftE (debugger_operand r code))"
  using well_no_error [OF well_dbg_decode_operand [of r]]
  by (intro well_liftE) (auto simp: debugger_operand_def split: prod.splits sum.splits)

text \<open>The operand depends on the registers at the time it is decoded.\<close>

lemma well_bind_operand [well_intros]:
  assumes "\<And>x. ends_well P (f x)"
  shows "ends_well P (bindR (load (\<lambda>r. debugger_operand r code)) (\<lambda>op. bindR (liftE op) f))"
proof -
  have "bindR (load (\<lambda>r. debugger_operand r code)) (\<lambda>op. bindR (liftE op) f) s
      = bindR (liftE (debugger_operand (Registers s) code)) f s" for s
    by simp
  moreover have "ends_well P (bindR (liftE (debugger_operand r code)) f)" for r
    using assms by (intro well_intros)
  ultimately show ?thesis by (simp add: ends_well_def)
qed

lemma well_target_access [well_intros]:
  "ends_well ui_inv (absolute_target_access code)" "ends_well ui_inv (absolute_target_store code v)"
  unfolding absolute_target_access_def absolute_target_store_def by (intro well_intros)+


lemma well_check_condition [well_intros]: "ends_well ui_inv (check_one_level_of_condition c)"
proof (induction c rule: check_one_level_of_condition.induct)
  case 1
  show ?case by (simp add: well_intros)
next
  case (2 condType t1 t2 code1 code2 c1 c2)
  then show ?case unfolding check_one_level_of_condition.simps by (intro well_intros; simp)
qed

lemma parseValEqual_error: "parseValEqual bc s = Inl e \<Longrightarrow> derived_from_exception e"
  by (auto simp: parseValEqual_def dest: encode_into_error split: prod.splits sum.splits)

lemma parse_error:
  "parseExpression bc s = Inl e \<Longrightarrow> derived_from_exception e"
  "parseLogical bc ct s = Inl e \<Longrightarrow> derived_from_exception e"
proof (induction bc s and bc ct s arbitrary: e and e rule: parseExpression_parseLogical.induct)
  case (1 bc s)
  from "1.prems" show ?case
    unfolding parseExpression.simps [of bc s] map_result_def
    using "1.IH" parseValEqual_error by (fastforce split: option.splits sum.splits)
next
  case (2 bc ct s)
  from "2.prems" show ?case
    unfolding parseLogical.simps [of bc ct s] using "2.IH" by (fastforce split: sum.splits)
qed

lemma well_is_condition_met [well_intros]: "ends_well ui_inv (is_condition_met bc cond)"
proof -
  have "ends_well ui_inv (liftE (parseExpression bc cond))" by (rule well_liftE) (rule parse_error)
  then show ?thesis unfolding is_condition_met_def by (intro well_intros)
qed

section \<open>The invariant under the debugger\<close>

lemma ui_inv_server_updates [simp]:
  fixes s :: server_state
  shows "ui_inv (breakpoint_list_update f s) = ui_inv s" "ui_inv (watch_list_update g s) = ui_inv s"
    "ui_inv (s\<lparr>skip_bios_ip_check := c\<rparr>) = ui_inv s" "ui_inv (s\<lparr>breakpoint_triggered := c\<rparr>) = ui_inv s"
    "ui_inv (s\<lparr>manual_stop := c\<rparr>) = ui_inv s" "ui_inv (s\<lparr>stepi := c\<rparr>) = ui_inv s"
    "ui_inv (s\<lparr>dbg_actual_ip := ip\<rparr>) = ui_inv s" "ui_inv (s\<lparr>dbg_opcode := opc\<rparr>) = ui_inv s"
    "ui_inv (s\<lparr>dbg_args := a\<rparr>) = ui_inv s" "ui_inv (s\<lparr>requests := qs\<rparr>) = ui_inv s"
  by (simp_all add: ui_inv_def mem_inv_def)

lemma well_breakpoint_loop [well_intros]: "ends_well ui_inv (breakpoint_loop bc addr bps)"
  by (induction bc addr bps rule: breakpoint_loop.induct) (auto intro!: well_intros)

lemma well_watch_loop [well_intros]: "ends_well ui_inv (watch_loop seen ws hit)"
  by (induction seen ws hit rule: watch_loop.induct) (auto intro!: well_intros)

lemma well_if_breakpoint: "ends_well ui_inv (if_breakpoint_body bc)" "ends_well ui_inv (if_breakpoint bc)"
proof -
  show "ends_well ui_inv (if_breakpoint_body bc)"
    unfolding if_breakpoint_body_def by (intro well_intros; simp)
  then show "ends_well ui_inv (if_breakpoint bc)"
    unfolding if_breakpoint_def by (intro well_intros; simp)
qed

text \<open>
  Every request ends well but a \<open>Stepi\<close> with an empty expression and a \<open>DisassembleMemory\<close> that
  begins at or behind the end of the memory, which takes a block that is not there. An address
  below the video memory is in the memory of every machine.
\<close>

fun defined_request :: "request \<Rightarrow> bool" where
  "defined_request (Stepi (Some json)) \<longleftrightarrow> json ''Expression'' \<noteq> Some (JString [])"
| "defined_request (DisassembleMemory (Some json)) \<longleftrightarrow>
     (\<forall>t a. json ''Begin'' = Some (JString t) \<longrightarrow> area_address t = Inr a \<longrightarrow> a < VIDEO_MEMORY_START)"
| "defined_request q \<longleftrightarrow> True"

lemma well_json [well_intros]: "ends_well P (json_string json key)"
  unfolding json_string_def by (auto intro!: well_intros split: option.splits json_value.splits)

lemma well_catch [well_intros]: "ends_well P m \<Longrightarrow> ends_well P (catch_exception r m)"
  unfolding catch_exception_def by (intro well_intros; simp)

lemma well_set_breakpoint: "ends_well ui_inv (handle_setBreakpoint bc b)"
proof -
  have "ends_well ui_inv (liftE (parseExpression bc cond))" for cond
    by (rule well_liftE) (rule parse_error)
  moreover have "ends_well ui_inv (delete_breakpoint addr)" for addr
    unfolding delete_breakpoint_def by (intro well_intros; simp)
  ultimately show ?thesis
    unfolding handle_setBreakpoint_def Let_def by (intro well_intros; simp)
qed

lemma well_action: "ends_well ui_inv (handle_action bc b)"
proof -
  have "ends_well ui_inv (action_body expr ops)" for expr ops
    unfolding action_body_def by (auto intro!: well_intros split: list.splits)
  moreover have "ends_well ui_inv (liftE (encode_each bc ts))" for ts
    by (rule well_liftE) (rule encode_each_error)
  ultimately show ?thesis
    unfolding handle_action_def Let_def by (intro well_intros; simp)
qed

lemma well_watcher: "ends_well ui_inv (handle_watcher bc b)"
proof -
  have "ends_well ui_inv (liftE (encode_into bc t))" for t by (rule well_liftE) (rule encode_into_error)
  then show ?thesis unfolding handle_watcher_def Let_def by (intro well_intros; simp)
qed

lemma ui_inv_stepi: "keeps ui_inv (handle_stepi b)"
  unfolding handle_stepi_def catch_exception_def json_string_def
  by (auto intro!: keeps_intros split: option.splits json_value.splits list.splits)

lemma well_stepi: "defined_request (Stepi b) \<Longrightarrow> ends_well ui_inv (handle_stepi b)"
  unfolding handle_stepi_def catch_exception_def json_string_def
  by (auto simp: capitalization_def intro!: well_intros split: option.splits json_value.splits list.splits)

lemma well_read_each [well_intros]: "ends_well ui_inv (read_each a n)"
  by (induction n arbitrary: a) (auto intro!: well_intros)

lemma well_show_context [well_intros]: "ends_well ui_inv (show_context ip)"
  unfolding show_context_def area_text_def show_next_8_instructions_def Let_def by (intro well_intros; simp)

lemma well_show: "ends_well ui_inv handle_showContext" "ends_well ui_inv handle_showBreakpoint"
  unfolding handle_showContext_def handle_showBreakpoint_def by (intro well_intros; simp)+

lemma area_address_error: "area_address t = Inl e \<Longrightarrow> derived_from_exception e"
  by (auto simp: area_address_def stoull_def split: list.splits prod.splits if_splits)

lemma well_area [well_intros]: "ends_well P (area_of_request json)"
proof -
  have "ends_well P (liftE (area_address t))" for t by (rule well_liftE) (rule area_address_error)
  then show ?thesis unfolding area_of_request_def by (intro well_intros; simp)
qed

lemma area_of_request_result:
  assumes "area_of_request json s = (Inr (a, b), s')"
  shows "a < b" "\<exists>t. json ''Begin'' = Some (JString t) \<and> area_address t = Inr a"
  using assms unfolding area_of_request_def json_string_def
  by (auto simp: bindR_def returnR_def throwR_def liftE_def split: option.splits json_value.splits sum.splits if_splits)

text \<open>A bind whose first part is known to give only results of a kind.\<close>

lemma well_bindR_result:
  assumes "ends_well P m" and "\<And>x s s'. m s = (Inr x, s') \<Longrightarrow> ends_well P (f x)"
  shows "ends_well P (bindR m f)"
  using assms by (fastforce simp: ends_well_def bindR_def split: prod.split sum.split)

lemma well_pull_data: "ends_well ui_inv (handle_pull_data b)"
proof -
  have read: "ends_well ui_inv (read_memory a (b - a + 1) :: (server_state, u8 list) run)" if "a < b" and "\<not> 2 ^ 63 \<le> unat (b - a + 1)" for a b :: u64
  proof (cases "b - a + 1 = 0")
    case False
    then have "0 < unat (b - a + 1)" by (simp add: unat_gt_0)
    with that(2) well_read_memory [of "unat (b - a + 1)" a] show ?thesis by simp
  next
    case True
    then have "b = a - 1" by (simp add: algebra_simps eq_diff_eq)
    have "a = 0"
    proof (rule ccontr)
      assume "a \<noteq> 0"
      then have "unat (a - 1) < unat a" by (simp add: unat_minus_one unat_gt_0)
      with that(1) \<open>b = a - 1\<close> show False by (simp add: word_less_nat_alt)
    qed
    have "fst (read_memory 0 0 s) \<noteq> Inl e" if "ui_inv s" for s :: server_state and e
      using that by (simp add: read_memory_def memcpy_from_block_def ui_inv_def mem_inv_def Let_def BLOCK_SIZE_def)
    with True \<open>a = 0\<close> show ?thesis by (simp add: ends_well_def)
  qed
  show ?thesis
    unfolding handle_pull_data_def
    by (auto split: option.split simp: Let_def intro!: well_intros well_bindR_result read dest: area_of_request_result(1))
qed

text \<open>What the handler reads is in the memory, if it begins there.\<close>

lemma area_read:
  assumes "ui_inv s" and "a < b" and "a < VIDEO_MEMORY_START"
  shows "min a (TotalMemory s) = a" "\<exists>buffer. read_memory a (min (b - a) (TotalMemory s - a)) s = (Inr buffer, s)"
proof -
  let ?size = "min (b - a) (TotalMemory s - a)"
  have "unat VIDEO_MEMORY_START < unat (TotalMemory s)"
    using assms(1) by (simp add: ui_inv_def mem_inv_def video_block_def BLOCK_SIZE_def VIDEO_MEMORY_START_def)
  with assms(3) have a: "unat a < unat (TotalMemory s)" by (simp add: word_less_nat_alt)
  then show "min a (TotalMemory s) = a" by (simp add: min_def word_le_nat_alt)
  have "unat ?size \<le> unat (TotalMemory s - a)" by (simp add: word_le_nat_alt [symmetric])
  also have "\<dots> = unat (TotalMemory s) - unat a" using a by (simp add: unat_sub word_le_nat_alt)
  finally have "in_memory s a (unat ?size)" using a by (simp add: in_memory_def)
  from read_memory_flat [OF _ this] assms(1) show "\<exists>buffer. read_memory a ?size s = (Inr buffer, s)"
    by (simp add: ui_inv_def)
qed

lemma well_disassemble_area: "a < b \<Longrightarrow> a < VIDEO_MEMORY_START \<Longrightarrow> ends_well ui_inv (disassemble_area a b)"
  unfolding ends_well_def
proof (intro allI impI)
  fix s :: server_state
  assume area: "a < b" "a < VIDEO_MEMORY_START" and inv: "ui_inv s"
  obtain buffer where "read_memory a (min (b - a) (TotalMemory s - a)) s = (Inr buffer, s)"
    using area_read(2) [OF inv area] by blast
  moreover obtain t where "disassemble_code no_brackets False buffer a [] = Inr t"
    using disassemble_code_returns [of no_brackets buffer a "[]"] by blast
  ultimately have "disassemble_area a b s = (Inr (Accepted t), s)"
    using area_read(1) [OF inv area] by (simp add: disassemble_area_def Let_def bindR_def liftE_def returnR_def)
  with inv show "ui_inv (snd (disassemble_area a b s))
      \<and> (\<forall>e. fst (disassemble_area a b s) = Inl e \<longrightarrow> derived_from_exception e)" by simp
qed

lemma well_disassemble:
  assumes "defined_request (DisassembleMemory b)"
  shows "ends_well ui_inv (handle_disassemble b)"
proof (cases b)
  case None
  then show ?thesis unfolding handle_disassemble_def by (simp add: well_intros)
next
  case (Some json)
  have "ends_well ui_inv (bindR (area_of_request json) (\<lambda>(a, e). disassemble_area a e))"
  proof (rule well_bindR_result [OF well_area])
    fix x and s s' :: server_state
    assume run: "area_of_request json s = (Inr x, s')"
    obtain a e where x: "x = (a, e)" by fastforce
    with area_of_request_result [OF run [unfolded x]] assms Some have "a < e" "a < VIDEO_MEMORY_START" by auto
    then have "ends_well ui_inv (disassemble_area a e)" by (rule well_disassemble_area)
    with x show "ends_well ui_inv (case x of (a, e) \<Rightarrow> disassemble_area a e)" by simp
  qed
  from well_catch [OF this] show ?thesis
    unfolding handle_disassemble_def Some option.case
    by (intro well_bindR [OF well_parts(3)] well_cases(1) well_parts(1))
qed

lemma looking_requests:
  "only_looks handle_showContext" "only_looks handle_showBreakpoint" "only_looks (handle_disassemble b)"
  "only_looks (handle_pull_data b)"
proof -
  have json: "only_looks (json_string json key)" for json key
    unfolding json_string_def by (auto intro!: look_intros split: option.splits json_value.splits)
  have area: "only_looks (area_of_request json)" for json
    unfolding area_of_request_def by (intro look_intros json)
  show "only_looks handle_showContext" "only_looks handle_showBreakpoint"
    unfolding handle_showContext_def handle_showBreakpoint_def by (intro look_intros)+
  show "only_looks (handle_disassemble b)" "only_looks (handle_pull_data b)"
    unfolding handle_disassemble_def disassemble_area_def handle_pull_data_def catch_exception_def
    by (intro look_intros area)+
qed

lemma well_message: "ends_well ui_inv (handle_message m)"
  unfolding handle_message_def by (intro well_intros; simp add: try_add_input_def)

lemma well_continue: "ends_well ui_inv handle_continue"
  unfolding handle_continue_def by (intro well_intros; simp)

lemmas well_handlers = well_set_breakpoint well_action well_watcher well_message well_continue well_show well_pull_data

lemma well_serve: "defined_request q \<Longrightarrow> ends_well ui_inv (serve bc q)"
  by (cases q) (simp_all add: well_handlers well_stepi well_disassemble del: defined_request.simps(2))

lemma keeps_serve [keeps_intros]: "keeps ui_inv (serve bc q)"
  by (cases q) (simp_all add: well_handlers [THEN well_keeps] ui_inv_stepi looks_keeps looking_requests)


lemma keeps_serve_request [keeps_intros]: "keeps ui_inv (serve_request bc q)"
  unfolding serve_request_def by (intro keeps_intros)

lemma pause_loop_ui_inv: "ui_inv s \<Longrightarrow> ui_inv (snd (pause_loop bc sched s))"
proof (induction sched arbitrary: s)
  case Nil
  then show ?case by (simp add: pause_loop.simps)
next
  case (Cons qs sched)
  obtain r s' where run: "forR qs (serve_request bc) (s\<lparr>requests := sched\<rparr>) = (r, s')" by fastforce
  have "keeps ui_inv (forR qs (serve_request bc))" by (intro keeps_intros)
  from keepsD [OF this _ run] Cons.prems have "ui_inv s'" by simp
  with Cons run show ?case by (subst pause_loop.simps) (auto split: sum.split)
qed

lemma remote_hooks_well_behaved: "well_behaved (remote_hooks bc)"
proof -
  have "keeps ui_inv next_batch"
    by (auto simp: keeps_def next_batch_def run_simps split: list.split)
  then have "keeps ui_inv (remote_is_break_here bc)"
    unfolding remote_is_break_here_def by (intro keeps_intros well_keeps [OF well_if_breakpoint(2)])
  moreover have "keeps ui_inv (at_breakpoint bc ip opc args)" for ip opc args
    unfolding at_breakpoint_def using pause_loop_ui_inv by (intro keeps_intros keepsI; simp)
  ultimately show ?thesis by (simp add: well_behaved_def remote_hooks_def)
qed

text \<open>
  C12: the machine with the remote debugger attached keeps its invariant during the whole
  boot, for every guest, every behaviour of the user and the devices, and every sequence of
  requests to the debugger, including those that write registers and memory.
\<close>

theorem debugged_boot_keeps_machine_inv:
  assumes "ui_inv s"
  shows "ui_inv (snd (Boot (remote_hooks bc) headless sched s))"
  using remote_hooks_well_behaved assms by (rule Boot_ui_inv)


section \<open>Where the machine stops\<close>

text \<open>Reading operands and checking conditions leaves the machine as it is.\<close>

lemma absolute_target_access_state: "snd (absolute_target_access code s) = s"
proof -
  have "snd (dbg_get_val x s) = s" for x
    by (cases x) (simp_all add: read_register_run returnR_def throwR_def dbg_access_memory_def
        dbg_access_memory_at_def snd_bindR_same)
  then show ?thesis
    by (auto simp: absolute_target_access_def liftE_def bindR_def returnR_def throwR_def split: sum.split)
qed

lemma check_condition_state: "snd (check_one_level_of_condition c s) = s"
proof (induction c arbitrary: s rule: check_one_level_of_condition.induct)
  case 1
  show ?case by (simp add: returnR_def)
next
  case (2 condType t1 t2 code1 code2 c1 c2)
  then show ?case
    by (simp add: snd_bindR_same absolute_target_access_state returnR_def)
qed

lemma is_condition_met_state: "snd (is_condition_met bc cond s) = s"
  by (auto simp: is_condition_met_def liftE_def bindR_def returnR_def throwR_def check_condition_state
      split: sum.split)

text \<open>
  The breakpoints and watches of the theorem below: conditions and operands as they are meant,
  in place of their texts and bytes. A breakpoint without condition always stops.
\<close>

type_synonym breakpoint = "(u64 \<times> u64) \<times> condition option"

definition breakpoint_text :: "condition option \<Rightarrow> string" where
  "breakpoint_text c = (case c of None \<Rightarrow> [] | Some c \<Rightarrow> condition_text c)"

definition breakpoint_holds :: "server_state \<Rightarrow> condition option \<Rightarrow> bool" where
  "breakpoint_holds s c = (case c of None \<Rightarrow> True | Some c \<Rightarrow> condition_holds s c)"

definition hits :: "server_state \<Rightarrow> breakpoint list \<Rightarrow> bool" where
  "hits s bps \<longleftrightarrow> (\<exists>((cb, ip), c) \<in> set bps.
     cb + ip = CodeBase (Registers s) + InstructionPointer (Registers s) \<and> breakpoint_holds s c)"

definition changed :: "server_state \<Rightarrow> (code_operand \<times> u64) list \<Rightarrow> bool" where
  "changed s ws \<longleftrightarrow> (\<exists>(x, v) \<in> set ws. operand_value s x \<noteq> v)"

lemma views_of_machine [simp]:
  fixes s :: server_state
  shows "flat (s\<lparr>breakpoint_triggered := c\<rparr>) = flat s" "flat (s\<lparr>watch_list := wl\<rparr>) = flat s"
    "mem_inv (s\<lparr>breakpoint_triggered := c\<rparr>) = mem_inv s" "mem_inv (s\<lparr>watch_list := wl\<rparr>) = mem_inv s"
  by (simp_all add: fun_eq_iff flat_def mem_inv_def)

lemma operand_views [simp]:
  fixes s :: server_state
  shows "operand_value (s\<lparr>breakpoint_triggered := c\<rparr>) x = operand_value s x"
    "operand_value (s\<lparr>watch_list := wl\<rparr>) x = operand_value s x"
    "readable (s\<lparr>breakpoint_triggered := c\<rparr>) x = readable s x"
    "readable (s\<lparr>watch_list := wl\<rparr>) x = readable s x"
  by (simp_all add: operand_value_def readable_def debug_address_def split: operand.split)

lemma condition_views [simp]:
  fixes s :: server_state
  shows "condition_holds (s\<lparr>breakpoint_triggered := c\<rparr>) d = condition_holds s d"
    "condition_ok (s\<lparr>breakpoint_triggered := c\<rparr>) d = condition_ok s d"
  by (induction d) simp_all

definition breakpoints_ok :: "server_state \<Rightarrow> breakpoint list \<Rightarrow> bool" where
  "breakpoints_ok s bps \<longleftrightarrow> (\<forall>(a, c) \<in> set bps. \<forall>d. c = Some d \<longrightarrow> condition_ok s d)"

lemma breakpoint_loop_run:
  assumes "bc_prints_literals bc" and "mem_inv s" and "breakpoints_ok s bps"
  shows "breakpoint_loop bc (CodeBase (Registers s) + InstructionPointer (Registers s))
      (map (\<lambda>(a, c). (a, breakpoint_text c)) bps) s
    = (Inr (hits s bps), if hits s bps then s\<lparr>breakpoint_triggered := True\<rparr> else s)"
  using assms(3)
proof (induction bps)
  case Nil
  then show ?case by (simp add: hits_def returnR_def)
next
  case (Cons bp bps)
  obtain cb ip c where bp: "bp = ((cb, ip), c)" by (metis surj_pair)
  have met: "is_condition_met bc (breakpoint_text c) s = (Inr (breakpoint_holds s c), s)"
    using breakpoint_condition_met [OF assms(1,2)] Cons.prems bp
    by (cases c) (auto simp: breakpoint_text_def breakpoint_holds_def breakpoints_ok_def is_condition_met_def returnR_def)
  have "breakpoints_ok s bps" using Cons.prems by (simp add: breakpoints_ok_def)
  note IH = Cons.IH [OF this]
  show ?case
  proof (cases "cb + ip = CodeBase (Registers s) + InstructionPointer (Registers s) \<and> breakpoint_holds s c")
    case True
    then have "hits s (bp # bps)" by (simp add: hits_def bp)
    with True met show ?thesis by (simp add: bp run_simps)
  next
    case False
    then have "hits s (bp # bps) = hits s bps" by (auto simp: hits_def bp)
    with False met IH show ?thesis by (auto simp: bp run_simps)
  qed
qed

lemma watch_loop_run:
  assumes "mem_inv s" and "\<forall>(x, v) \<in> set ws. readable s x"
    and "watch_list s = seen @ map (\<lambda>(x, v). (operand_bytes x, v)) ws"
  shows "watch_loop seen (map (\<lambda>(x, v). (operand_bytes x, v)) ws) hit s
    = (Inr (hit \<or> changed s ws),
       s\<lparr>watch_list := seen @ map (\<lambda>(x, v). (operand_bytes x, operand_value s x)) ws\<rparr>)"
  using assms
proof (induction ws arbitrary: seen hit s)
  case Nil
  then show ?case by (simp add: changed_def returnR_def)
next
  case (Cons w ws)
  obtain x v where w: "w = (x, v)" by fastforce
  let ?s = "s\<lparr>watch_list := seen @ (operand_bytes x, operand_value s x) # map (\<lambda>(x, v). (operand_bytes x, v)) ws\<rparr>"
  have acc: "absolute_target_access (operand_bytes x) s = (Inr (operand_value s x), s)"
    using Cons.prems absolute_target_access_value [of s x] by (simp add: w)
  have changed: "changed s (w # ws) \<longleftrightarrow> operand_value s x \<noteq> v \<or> changed s ws" "changed ?s ws = changed s ws"
    by (auto simp: changed_def w)
  show ?case
  proof (cases "operand_value s x = v")
    case True
    have "watch_loop (seen @ [(operand_bytes x, v)]) (map (\<lambda>(x, v). (operand_bytes x, v)) ws) hit s
        = (Inr (hit \<or> changed s ws), s\<lparr>watch_list := (seen @ [(operand_bytes x, v)])
            @ map (\<lambda>(x, v). (operand_bytes x, operand_value s x)) ws\<rparr>)"
      using Cons.prems by (intro Cons.IH) (simp_all add: w)
    with True acc changed show ?thesis by (simp add: w run_simps)
  next
    case False
    have "watch_loop (seen @ [(operand_bytes x, operand_value s x)]) (map (\<lambda>(x, v). (operand_bytes x, v)) ws) True ?s
        = (Inr (True \<or> changed ?s ws), ?s\<lparr>watch_list := (seen @ [(operand_bytes x, operand_value s x)])
            @ map (\<lambda>(x, v). (operand_bytes x, operand_value ?s x)) ws\<rparr>)"
      using Cons.prems by (intro Cons.IH) (simp_all add: w case_prod_unfold)
    with False acc changed show ?thesis by (simp add: w run_simps case_prod_unfold)
  qed
qed



subsection \<open>A condition that fails\<close>

lemma is_condition_met_same: "is_condition_met bc cond s = (r, s') \<Longrightarrow> s' = s"
  using is_condition_met_state [of bc cond s] by simp

lemma absolute_target_access_same: "absolute_target_access code s = (r, s') \<Longrightarrow> s' = s"
  using absolute_target_access_state [of code s] by simp

lemma breakpoint_loop_throws: "breakpoint_loop bc addr bps s = (Inl e, s') \<Longrightarrow> s' = s"
  by (induction bc addr bps rule: breakpoint_loop.induct)
    (auto simp: bindR_def thenR_def returnR_def dest: is_condition_met_same split: if_splits prod.splits sum.splits)

lemma breakpoint_loop_no_stop: "breakpoint_loop bc addr bps s = (Inr False, s') \<Longrightarrow> s' = s"
  by (induction bc addr bps rule: breakpoint_loop.induct)
    (auto simp: bindR_def thenR_def returnR_def dest: is_condition_met_same split: if_splits prod.splits sum.splits)

lemma watch_loop_triggered:
  "watch_loop seen ws hit s = (r, s') \<Longrightarrow> breakpoint_triggered s' = breakpoint_triggered s"
proof (induction seen ws hit arbitrary: s rule: watch_loop.induct)
  case (2 seen target last_value ws hit)
  obtain r1 where acc: "absolute_target_access target s = (r1, s)"
    using absolute_target_access_state [of target s] by (metis prod.collapse)
  show ?case
  proof (cases r1)
    case (Inl e)
    with acc "2.prems" show ?thesis by (simp add: bindR_def)
  next
    case (Inr v)
    with acc "2.prems" "2.IH"(1) [of v "s\<lparr>watch_list := seen @ (target, v) # ws\<rparr>"] "2.IH"(2) [of v s]
    show ?thesis by (auto simp: bindR_def thenR_def split: if_splits)
  qed
qed (simp add: returnR_def)

lemma if_breakpoint_throws:
  assumes "if_breakpoint_body bc s = (Inl e, s')"
  shows "\<not> breakpoint_triggered s'"
proof -
  let ?s = "s\<lparr>breakpoint_triggered := False\<rparr>"
  let ?addr = "CodeBase (Registers s) + InstructionPointer (Registers s)"
  obtain r1 s1 where loop: "breakpoint_loop bc ?addr (breakpoint_list s) ?s = (r1, s1)" by fastforce
  obtain r2 s2 where watches: "watch_loop [] (watch_list s1) False s1 = (r2, s2)" by fastforce
  note cases = assms [unfolded if_breakpoint_body_def bindR_def thenR_def returnR_def]
  show ?thesis
  proof (cases r1)
    case (Inl e1)
    with loop breakpoint_loop_throws [of bc ?addr "breakpoint_list s" ?s e1 s1] cases show ?thesis
      by (auto split: if_splits)
  next
    case (Inr stop)
    with loop cases have "\<not> stop" by (auto split: if_splits)
    with Inr loop have "s1 = ?s" using breakpoint_loop_no_stop [of bc ?addr "breakpoint_list s" ?s s1] by simp
    with watches watch_loop_triggered [of "[]" "watch_list s1" False s1 r2 s2] cases Inr loop \<open>\<not> stop\<close> show ?thesis
      by (auto split: if_splits sum.splits)
  qed
qed

text \<open>
  When checking a breakpoint or a watch throws, for instance because its operand lies
  outside of the memory, the CPU is told to stop, but the pause ends at once, without waiting
  for a request: the flag it waits for has been cleared and is only set after the check.
\<close>

theorem failing_check_does_not_pause:
  assumes "ui_inv s" and "if_breakpoint_body bc s = (Inl e, s')"
  shows "if_breakpoint bc s = (Inr True, s')
    \<and> at_breakpoint bc ip opc args s' = (Inr (), s'\<lparr>dbg_actual_ip := ip, dbg_opcode := opc, dbg_args := None\<rparr>)"
proof -
  have "derived_from_exception e" using well_no_error [OF well_if_breakpoint(1) assms] .
  then have "if_breakpoint bc s = (Inr True, s')"
    using assms(2) by (simp add: if_breakpoint_def tryR_def returnR_def)
  moreover have "\<not> breakpoint_triggered s'" using assms(2) by (rule if_breakpoint_throws)
  ultimately show ?thesis
    by (simp add: at_breakpoint_def pause_loop.simps bindR_def thenR_def)
qed


section \<open>The pause ends\<close>

definition running :: "server_state \<Rightarrow> bool" where
  "running s \<longleftrightarrow> \<not> breakpoint_triggered s"

lemma running_updates [simp]:
  "running (s\<lparr>Registers := r\<rparr>) = running s" "running (s\<lparr>Memory := m\<rparr>) = running s"
  "running (breakpoint_list_update f s) = running s" "running (watch_list_update g s) = running s"
  "running (s\<lparr>stepi := c\<rparr>) = running s" "running (s\<lparr>manual_stop := c\<rparr>) = running s"
  "running (s\<lparr>requests := qs\<rparr>) = running s" "running (s\<lparr>breakpoint_triggered := False\<rparr>)"
  "running (s\<lparr>debugger_pause_blocked_int_0x14 := c\<rparr>) = running s" "running (try_add_input k s) = running s"
  by (simp_all add: running_def try_add_input_def)

lemma keeps_running_access [keeps_intros]:
  "keeps running (load f)" "keeps running (store g)" "keeps running (read_memory a n)"
  "keeps running (write_memory a bs n)"
proof -
  show "keeps running (load f)" "keeps running (store g)" "keeps running (read_memory a n)"
    by (simp_all add: keeps_def)
  show "keeps running (write_memory a bs n)"
  proof (rule keepsI)
    fix s assume "running s"
    moreover obtain m where "snd (write_memory a bs n s) = s\<lparr>Memory := m\<rparr>"
      using write_memory_memory_only [of s a bs n] by (auto simp: memory_only_def)
    ultimately show "running (snd (write_memory a bs n s))" by simp
  qed
qed

lemma keeps_running_dbg [keeps_intros]:
  "keeps running (absolute_target_access code)" "keeps running (dbg_get_val x)" "keeps running (dbg_set_val x v)"
proof -
  show get: "keeps running (dbg_get_val x)" for x
    by (cases x) (auto simp: read_register_def dbg_access_memory_def dbg_access_memory_at_def intro!: keeps_intros)
  show "keeps running (dbg_set_val x v)" for x
    by (cases x) (auto simp: dbg_store_register_def dbg_store_memory_def intro!: keeps_intros)
  show "keeps running (absolute_target_access code)"
    unfolding absolute_target_access_def by (intro keeps_intros get)
qed

lemma keeps_running_requests:
  "keeps running (handle_action bc b)" "keeps running (handle_setBreakpoint bc b)"
  "keeps running (handle_watcher bc b)" "keeps running (handle_stepi b)"
  "keeps running (handle_message t)" "keeps running handle_continue"
proof -
  have json: "keeps running (json_string json key)" for json key
    unfolding json_string_def by (auto intro!: keeps_intros split: option.splits json_value.splits)
  have "keeps running (action_body expr ops)" for expr ops
    unfolding action_body_def by (auto intro!: keeps_intros split: list.splits)
  then show "keeps running (handle_action bc b)"
    unfolding handle_action_def catch_exception_def Let_def by (intro keeps_intros json; simp)
  show "keeps running (handle_setBreakpoint bc b)"
    unfolding handle_setBreakpoint_def delete_breakpoint_def catch_exception_def Let_def
    by (intro keeps_intros json; simp)
  show "keeps running (handle_watcher bc b)"
    unfolding handle_watcher_def catch_exception_def Let_def by (intro keeps_intros json; simp)
  show "keeps running (handle_stepi b)"
    unfolding handle_stepi_def catch_exception_def
    by (auto intro!: keeps_intros json split: option.splits list.splits)
  show "keeps running (handle_message t)"
    unfolding handle_message_def by (intro keeps_intros looks_keeps [OF look_show_context]; simp)
  show "keeps running handle_continue"
    unfolding handle_continue_def by (intro keeps_intros; simp)
qed

lemma keeps_running_serve [keeps_intros]: "keeps running (serve_request bc q)"
proof -
  have "keeps running (serve bc q)" by (cases q) (simp_all add: keeps_running_requests looks_keeps looking_requests)
  then show ?thesis unfolding serve_request_def by (intro keeps_intros)
qed

lemma serve_request_returns:
  assumes "defined_request q" and "ui_inv s"
  obtains s' where "serve_request bc q s = (Inr (), s')" and "ui_inv s'" and "running s \<or> q = Continue \<Longrightarrow> running s'"
proof -
  obtain r s' where run: "serve bc q s = (r, s')" by fastforce
  have "serve_request bc q s = (Inr (), s')"
    using run well_no_error [OF well_serve [OF assms(1)] assms(2), of bc]
    by (cases r) (auto simp: serve_request_def tryR_def bindR_def returnR_def derived_from_exception_def derived_from_base_def)
  moreover have "ui_inv s'"
    using keepsD [OF keeps_serve assms(2) run] .
  moreover have "running s'" if "running s \<or> q = Continue"
    using that
  proof
    assume "running s"
    then show ?thesis using keepsD [OF keeps_running_serve [of bc q] _ \<open>serve_request bc q s = _\<close>] by simp
  next
    assume "q = Continue"
    with run show ?thesis
      by (auto simp: handle_continue_def bindR_def thenR_def returnR_def running_def split: if_splits)
  qed
  ultimately show thesis by (rule that)
qed

lemma serve_batch_returns:
  assumes "\<forall>q\<in>set qs. defined_request q" and "ui_inv s"
  obtains s' where "forR qs (serve_request bc) s = (Inr (), s')" and "ui_inv s'"
    and "running s \<or> Continue \<in> set qs \<Longrightarrow> running s'"
  using assms
proof (induction qs arbitrary: s thesis)
  case Nil
  show ?case by (rule Nil(1)) (use Nil in \<open>simp_all add: returnR_def\<close>)
next
  case (Cons q qs)
  from serve_request_returns [of q s bc] Cons.prems obtain s1 where 1: "serve_request bc q s = (Inr (), s1)"
    "ui_inv s1" "running s \<or> q = Continue \<Longrightarrow> running s1" by auto
  from Cons.IH [of s1] Cons.prems 1 obtain s2 where 2: "forR qs (serve_request bc) s1 = (Inr (), s2)"
    "ui_inv s2" "running s1 \<or> Continue \<in> set qs \<Longrightarrow> running s2" by auto
  show ?case
    by (rule Cons.prems(1) [of s2]) (use 1 2 in \<open>auto simp: thenR_def bindR_def\<close>)
qed

lemma pause_loop_returns:
  assumes "\<forall>q\<in>set (concat sched). defined_request q" and "ui_inv s" and "running s \<or> Continue \<in> set (concat sched)"
  shows "\<exists>s'. pause_loop bc sched s = (Inr (), s') \<and> running s'"
  using assms
proof (induction sched arbitrary: s)
  case Nil
  then show ?case by (simp add: pause_loop.simps running_def)
next
  case (Cons qs sched)
  show ?case
  proof (cases "running s")
    case True
    then show ?thesis by (simp add: pause_loop.simps running_def)
  next
    case False
    have "\<forall>q\<in>set qs. defined_request q" and "ui_inv (s\<lparr>requests := sched\<rparr>)" using Cons.prems by simp_all
    from serve_batch_returns [OF this, of bc] obtain s' where s': "forR qs (serve_request bc) (s\<lparr>requests := sched\<rparr>) = (Inr (), s')"
      "ui_inv s'" "running s \<or> Continue \<in> set qs \<Longrightarrow> running s'" by auto
    with False Cons.prems Cons.IH [of s'] show ?thesis
      by (subst pause_loop.simps) (auto simp: running_def)
  qed
qed

text \<open>
  C32: the requests that show something of the machine, its context, its breakpoints, a dump of
  its memory or a listing of its code, change nothing, neither in the machine nor in the
  debugger, whatever the body of the request is and whether they are answered or refused.
\<close>

theorem looking_changes_nothing:
  assumes "q \<in> {ShowContext, ShowBreakpoint, DisassembleMemory b, PullData b}"
  shows "snd (serve bc q s) = s"
  using assms looking_requests by (auto simp: only_looks_def)

text \<open>
  C15: a paused machine goes on as soon as a request to continue has been served, whatever the
  requests before it do, unless one of them is a \<open>Stepi\<close> with an empty expression or a
  \<open>DisassembleMemory\<close> of an area that may begin behind the memory, whose behaviour is undefined.
\<close>

theorem continue_ends_pause:
  assumes "ui_inv s" and "\<forall>q\<in>set (concat (requests s)). defined_request q"
    and "Continue \<in> set (concat (requests s))"
  shows "\<exists>s'. at_breakpoint bc ip opc args s = (Inr (), s') \<and> \<not> breakpoint_triggered s'"
proof -
  let ?s = "s\<lparr>dbg_actual_ip := ip, dbg_opcode := opc, dbg_args := Some args\<rparr>"
  from pause_loop_returns [of "requests s" ?s bc] assms obtain s' where
    "pause_loop bc (requests s) ?s = (Inr (), s')" "running s'" by auto
  then show ?thesis by (simp add: at_breakpoint_def thenR_def bindR_def running_def)
qed


section \<open>Setting and deleting breakpoints\<close>

lemma process_base16_address: "process_base16 (address_literal a) = to_string (unat a)"
proof -
  have "CHR ''X'' \<notin> set (''0x'' @ to_hex (unat a))" using to_hex_class(2) by auto
  then have "replace_scan ''0X'' ''0x'' (''0x'' @ to_hex (unat a)) = ''0x'' @ to_hex (unat a)"
    by (intro replace_scan_missing [of "CHR ''X''"]) simp_all
  moreover have "CHR ''X'' \<notin> set (to_hex (unat a))" using to_hex_class(2) by blast
  then have "replace_scan ''0X'' ''0x'' (''0X'' @ to_hex (unat a)) = ''0x'' @ to_hex (unat a)"
    using replace_scan_missing [of "CHR ''X''" "''0X''" "to_hex (unat a)"] by simp
  ultimately have "process_base16 (address_literal a) = process_base16 (''0X'' @ to_hex (unat a))"
    by (simp add: process_base16_def address_literal_def)
  then show ?thesis using process_base16_hex [of "unat a"] unat_u64_less [of a] by simp
qed

lemma address_calculated:
  assumes "bc_prints_literals bc"
  shows "\<exists>t. execute_bc bc (process_base16 (address_literal a)) = Inr t \<and> strtoull_or_zero t = a"
proof -
  have "\<not> digit_val (CHR 0x0A) < 10" by code_simp
  then show ?thesis
    using assms strtoull_decimal [of "unat a" "[CHR 0x0A]"] unat_u64_less [of a]
    by (simp add: process_base16_address bc_prints_literals_def execute_bc_def strtoull_or_zero_def)
qed

text \<open>The body of a request for a code base, an instruction pointer and a condition.\<close>

definition breakpoint_body :: "u64 \<Rightarrow> u64 \<Rightarrow> string \<Rightarrow> body" where
  "breakpoint_body cb ip cond = Some (map_of [(''CB'', JString (address_literal cb)),
     (''IP'', JString (address_literal ip)), (''Condition'', JString cond)])"

lemma set_breakpoint_request:
  assumes "bc_prints_literals bc"
  shows "handle_setBreakpoint bc (breakpoint_body cb ip cond) s =
    (if capitalization cond = ''DELETE'' then delete_breakpoint (cb + ip) s
     else catch_exception (Refused ''Conditional Expression Error: '')
       (thenR (if cond = [] then returnR () else bindR (liftE (parseExpression bc cond)) (\<lambda>_. returnR ()))
       (thenR (modifyR (breakpoint_list_update (map_put (cb, ip) cond))) (returnR (Accepted ''Success'')))) s)"
proof -
  from address_calculated [OF assms] obtain t u where
    "execute_bc bc (process_base16 (address_literal cb)) = Inr t" "strtoull_or_zero t = cb"
    "execute_bc bc (process_base16 (address_literal ip)) = Inr u" "strtoull_or_zero u = ip" by metis
  then show ?thesis
    by (simp add: handle_setBreakpoint_def breakpoint_body_def json_string_def bindR_def returnR_def)
qed

definition linear_address :: "(u64 \<times> u64) \<times> string \<Rightarrow> u64" where
  "linear_address e = fst (fst e) + snd (fst e)"

lemma breakpoint_set:
  assumes "bc_prints_literals bc" and "condition_asm c"
  shows "handle_setBreakpoint bc (breakpoint_body cb ip (condition_text c)) s
    = (Inr (Accepted ''Success''), breakpoint_list_update (map_put (cb, ip) (condition_text c)) s)"
proof -
  have "toupper (CHR ''v'') \<noteq> CHR ''D''" "toupper (CHR ''a'') \<noteq> CHR ''D''"
    "toupper (CHR ''o'') \<noteq> CHR ''D''" "toupper (CHR ''n'') \<noteq> CHR ''D''" by code_simp+
  then have "capitalization (condition_text c) \<noteq> ''DELETE''" and "condition_text c \<noteq> []"
    using condition_text_head [of c] by (auto simp: capitalization_def)
  moreover have "parseExpression bc (condition_text c) = Inr (Some (parsed_condition c), [])"
    using parseExpression_text [OF assms, of "[]"] by simp
  ultimately show ?thesis
    by (simp add: set_breakpoint_request [OF assms(1)] catch_exception_def tryR_def thenR_def bindR_def returnR_def)
qed

lemma breakpoint_deleted:
  assumes "bc_prints_literals bc"
  shows "\<exists>s' reply. handle_setBreakpoint bc (breakpoint_body cb ip ''delete'') s = (Inr (Refused reply), s')
    \<and> (if \<exists>e\<in>set (breakpoint_list s). linear_address e = cb + ip
       then \<exists>us e vs. breakpoint_list s = us @ e # vs \<and> s' = s\<lparr>breakpoint_list := us @ vs\<rparr>
         \<and> linear_address e = cb + ip \<and> (\<forall>u\<in>set us. linear_address u \<noteq> cb + ip)
       else s' = s)"
proof -
  let ?P = "\<lambda>e. linear_address e = cb + ip"
  have "capitalization ''delete'' = ''DELETE''" by code_simp
  moreover have "(\<lambda>((cb', ip'), _). cb' + ip' = cb + ip) = ?P"
    by (simp add: linear_address_def case_prod_unfold fun_eq_iff)
  ultimately have run: "handle_setBreakpoint bc (breakpoint_body cb ip ''delete'') s = (case map_erase_first ?P (breakpoint_list s) of
      Some bps \<Rightarrow> (Inr (Refused (''Breakpoint deleted at: '' @ address_literal (cb + ip))), s\<lparr>breakpoint_list := bps\<rparr>)
    | None \<Rightarrow> (Inr (Refused (''No breakpoint found at: '' @ address_literal (cb + ip))), s))"
    by (simp add: set_breakpoint_request [OF assms] delete_breakpoint_def thenR_def bindR_def returnR_def
        split: option.split)
  show ?thesis
  proof (cases "map_erase_first ?P (breakpoint_list s)")
    case None
    then show ?thesis using run map_erase_first_none [of ?P "breakpoint_list s"] by auto
  next
    case (Some bps)
    from map_erase_first_some [OF Some] obtain us e vs where e: "breakpoint_list s = us @ e # vs" "bps = us @ vs"
      "linear_address e = cb + ip" "\<forall>u\<in>set us. linear_address u \<noteq> cb + ip" by blast
    then have "\<exists>e\<in>set (breakpoint_list s). linear_address e = cb + ip" by simp
    moreover have "\<exists>reply. handle_setBreakpoint bc (breakpoint_body cb ip ''delete'') s
        = (Inr (Refused reply), s\<lparr>breakpoint_list := us @ vs\<rparr>)"
      unfolding run Some e(2) option.case by blast
    ultimately show ?thesis using e by (metis (no_types))
  qed
qed

text \<open>
  C33: a request with a well-formed condition enters the breakpoint, replacing one with the
  same code base and instruction pointer and leaving the others; a request with the condition
  \<open>delete\<close> removes the first breakpoint of the same linear address, in the order of code base
  and instruction pointer, and no other.
\<close>

theorem breakpoints_set_and_deleted:
  assumes "bc_prints_literals bc" and "condition_asm c" and "ordered_map (breakpoint_list s)"
  shows "(\<exists>s'. serve bc (SetBreakpoint (breakpoint_body cb ip (condition_text c))) s = (Inr (Accepted ''Success''), s')
      \<and> map_of (breakpoint_list s') = (map_of (breakpoint_list s))((cb, ip) \<mapsto> condition_text c)
      \<and> ordered_map (breakpoint_list s'))
    \<and> (\<exists>s' reply. serve bc (SetBreakpoint (breakpoint_body cb ip ''delete'')) s = (Inr (Refused reply), s')
      \<and> (if \<exists>e\<in>set (breakpoint_list s). linear_address e = cb + ip
         then \<exists>us e vs. breakpoint_list s = us @ e # vs \<and> s' = s\<lparr>breakpoint_list := us @ vs\<rparr>
           \<and> linear_address e = cb + ip \<and> (\<forall>u\<in>set us. linear_address u \<noteq> cb + ip)
         else s' = s))"
  using breakpoint_set [OF assms(1,2), of cb ip s] breakpoint_deleted [OF assms(1), of cb ip s] assms(3)
  by simp

section \<open>A concrete server\<close>

definition demo_server :: "sysdarft_register_t \<Rightarrow> server_state" where
  "demo_server r = cpu_state.extend (demo_cpu r) (server_state.fields [] [] True True False False 0 0 None [])"

lemma demo_server_simps [simp]:
  "Registers (demo_server r) = r" "TotalMemory (demo_server r) = 0x100000" "ui_inv (demo_server r)" "mem_inv (demo_server r)"
  "breakpoint_list (demo_server r) = []" "watch_list (demo_server r) = []" "skip_bios_ip_check (demo_server r)"
  "\<not> stepi (demo_server r)" "\<not> manual_stop (demo_server r)" "requests (demo_server r) = []"
  using demo_cpu_simps(3) [of r]
  by (simp_all add: demo_server_def cpu_state.extend_def server_state.fields_def ui_inv_def mem_inv_def)


theorem debugged_boot_keeps_machine_inv_witness:
  "ui_inv (snd (Boot (remote_hooks plain_bc) True [[KeyPressed 3], []]
     ((demo_server new_registers)\<lparr>requests := [[Stepi None, Continue]]\<rparr>)))"
  by (rule debugged_boot_keeps_machine_inv) simp

definition register_is_zero :: condition where
  "register_is_zero = ValEqual (Direct (RegisterCode prefix_64bit 8)) (Direct (ConstantCode prefix_64bit 0))"

lemma demo_register: "register_value (new_registers\<lparr>DataBase := d\<rparr>) prefix_64bit 8 = 0" "register_value new_registers prefix_64bit 8 = 0"
  "valid_register prefix_64bit 8"
  by (simp_all add: register_value_def do_access_register_based_on_table_def load_FullyExtendedRegister_def
      new_registers_def valid_register_def)

lemma mem_inv_breakpoint_list [simp]:
  fixes s :: server_state
  shows "mem_inv (s\<lparr>breakpoint_list := bl\<rparr>) = mem_inv s" "mem_inv (s\<lparr>requests := qs\<rparr>) = mem_inv s"
  by (simp_all add: mem_inv_def)


theorem continue_ends_pause_witness:
  "\<exists>s'. at_breakpoint plain_bc 0 OPCODE_HLT (0, []) ((demo_server new_registers)\<lparr>requests := [[Message ''Status''], [Continue]]\<rparr>)
    = (Inr (), s') \<and> \<not> breakpoint_triggered s'"
  by (rule continue_ends_pause) simp_all

theorem breakpoints_set_and_deleted_witness:
  "\<exists>s'. serve plain_bc (SetBreakpoint (breakpoint_body 16 32 (condition_text register_is_zero))) (demo_server new_registers)
      = (Inr (Accepted ''Success''), s')
    \<and> map_of (breakpoint_list s') = [(16, 32) \<mapsto> condition_text register_is_zero]"
proof -
  have "bc_prints_literals plain_bc" by (simp add: bc_prints_literals_def plain_bc_def)
  moreover have "condition_asm register_is_zero" using demo_register(3) by (simp add: register_is_zero_def)
  ultimately show ?thesis
    using breakpoints_set_and_deleted [of plain_bc register_is_zero "demo_server new_registers" 16 32] by auto
qed

definition far_operand :: code_operand where
  "far_operand = MemoryCode prefix_8bit (RegisterCode prefix_64bit 8) (RegisterCode prefix_64bit 8)
     (RegisterCode prefix_64bit 8) 0x01"

theorem failing_check_does_not_pause_witness:
  "let s = (demo_server (new_registers\<lparr>DataBase := 0x100000\<rparr>))\<lparr>watch_list := [(operand_bytes far_operand, 0)],
       requests := [[Message ''context'']]\<rparr> in
   \<exists>s' s''. if_breakpoint plain_bc s = (Inr True, s') \<and> requests s' = requests s
     \<and> at_breakpoint plain_bc 0 OPCODE_HLT (0, []) s' = (Inr (), s'') \<and> requests s'' = requests s"
proof -
  let ?r = "new_registers\<lparr>DataBase := 0x100000\<rparr>"
  let ?s = "(demo_server ?r)\<lparr>watch_list := [(operand_bytes far_operand, 0)], requests := [[Message ''context'']]\<rparr>"
  let ?t = "?s\<lparr>breakpoint_triggered := False\<rparr>"
  have wf: "wf_operand far_operand" using demo_register(3) by (simp add: far_operand_def is_ratio_def)
  have op: "operand_meaning ?r (low16 far_operand) = MemoryOperand 0 prefix_8bit"
    using demo_register(1) by (simp add: far_operand_def sign_extend_from_def)
  have "mem_inv ?t" by simp
  then have "read_memory 0x100000 1 ?t = (Inl IllegalMemoryAccessException, ?t)"
    using read_memory_rejects [of ?t 1 "0x100000"] by simp
  then have "absolute_target_access (operand_bytes far_operand) ?t = (Inl IllegalMemoryAccessException, ?t)"
    using debugger_operand_decodes [OF wf, of ?r] op
    by (auto simp: absolute_target_access_def dbg_access_memory_def dbg_access_memory_at_def run_simps)
  then have body: "if_breakpoint_body plain_bc ?s = (Inl IllegalMemoryAccessException, ?t)"
    by (simp add: if_breakpoint_body_def bindR_def thenR_def returnR_def)
  have "ui_inv ?s" by simp
  from failing_check_does_not_pause [OF this body, of 0 OPCODE_HLT "(0, [])"] show ?thesis
    unfolding Let_def by (intro exI conjI) (auto intro!: exI)
qed

theorem looking_changes_nothing_witness:
  "snd (serve plain_bc (PullData (Some (\<lambda>k. Some (JString (if k = ''Begin'' then ''0x10'' else ''31'')))))
     (demo_server new_registers)) = demo_server new_registers"
  by (rule looking_changes_nothing [of _ "Some (\<lambda>k. Some (JString (if k = ''Begin'' then ''0x10'' else ''31'')))"]) simp

text \<open>
  A listing that begins at the end of the memory or behind it takes no bytes, but takes them of
  a block that does not exist.
\<close>

theorem listing_behind_memory_undefined:
  assumes "mem_inv s" and "TotalMemory s \<le> a" and "a < b"
  shows "fst (disassemble_area a b s) = Inl UndefinedBehaviour"
proof -
  have "unat (TotalMemory s) div BLOCK_SIZE = length (Memory s)" "unat (TotalMemory s) mod BLOCK_SIZE = 0"
    using assms(1) by (simp_all add: mem_inv_def BLOCK_SIZE_def)
  then have "read_memory (TotalMemory s) 0 s = (Inl UndefinedBehaviour, s)"
    by (simp add: read_memory_def memcpy_from_block_def)
  moreover have "min a (TotalMemory s) = TotalMemory s" using assms(2) by (simp add: min_def)
  ultimately show ?thesis by (simp add: disassemble_area_def Let_def bindR_def)
qed

end
