(* ===== verification/Linker.thy ===== *)
theory Linker
  imports Operand_Encoder Cxx_Map
begin

text \<open>
  The linker (\<open>coding/Linker.cpp\<close>): it joins the symbols of the objects that the assembler
  made, writes the addresses of the symbols over the placeholders in the code, computes the
  data expressions, and puts the code of the objects one behind the other. Indices and sizes
  of containers are natural numbers; the texts of the exceptions are left out.
\<close>

section \<open>Objects\<close>

(* include/EncodingDecoding.h 589-595: line_marker_t *)
record line_marker_t =
  line_marker_name :: string
  marker_position :: u64
  is_defined :: bool
  referenced :: bool
  loc_it_appeared_in_cur_blk :: "nat list"

(* include/EncodingDecoding.h 690-695: data_expression_identifier *)
record data_expression_identifier =
  data_appearance :: nat
  data_byte_count :: nat
  data_string :: string

(* include/EncodingDecoding.h 697-702: object_t *)
record object_t =
  code :: "u8 list list"
  symbol_table :: "line_marker_t list"
  data_expression_identifiers :: "data_expression_identifier list"

section \<open>Placeholders\<close>

(* coding/Linker.cpp 23-31: encode_constant_from_uint64_t *)
definition encode_constant_from_uint64_t :: "u64 \<Rightarrow> u8 list" where
  "encode_constant_from_uint64_t val = CONSTANT_PREFIX # prefix_64bit # word_to_bytes 8 val"

(* coding/Linker.cpp 33-35: tmp_address_hex *)
definition tmp_address_hex :: "u8 list" where
  "tmp_address_hex = [0x02, 0x64, 0xFF, 0xFF, 0xFF, 0xFF, 0xFF, 0xFF, 0xFF, 0xFF]"

text \<open>The loop: from one occurrence the search goes on behind it.\<close>

(* coding/Linker.cpp 43-55: countSequence, loop *)
fun count_scan :: "u8 list \<Rightarrow> u8 list \<Rightarrow> nat" where
  "count_scan sequence [] = 0"
| "count_scan sequence (b # bs) =
     (if prefix sequence (b # bs) then Suc (count_scan sequence (drop (length sequence - 1) bs))
      else count_scan sequence bs)"

(* coding/Linker.cpp 37-56: countSequence *)
definition countSequence :: "u8 list \<Rightarrow> u8 list \<Rightarrow> nat" where
  "countSequence data sequence =
     (if sequence = [] \<or> length data < length sequence then 0 else count_scan sequence data)"

(* coding/Linker.cpp 69-77: replaceSequence, first occurrence *)
fun replace_first :: "u8 list \<Rightarrow> u8 list \<Rightarrow> u8 list \<Rightarrow> u8 list" where
  "replace_first target replacement [] = []"
| "replace_first target replacement (b # bs) =
     (if prefix target (b # bs) then replacement @ drop (length target) (b # bs)
      else b # replace_first target replacement bs)"

(* coding/Linker.cpp 58-78: replaceSequence *)
definition replaceSequence :: "u8 list \<Rightarrow> u8 list \<Rightarrow> u8 list \<Rightarrow> u8 list" where
  "replaceSequence original target replacement =
     (if target = [] then original else replace_first target replacement original)"

section \<open>Symbols\<close>

(* coding/Linker.cpp 83-87: symbol_t *)
record symbol_t =
  address :: u64
  sym_referenced :: bool
  defined :: bool

type_synonym symbols = "(string \<times> symbol_t) list"

text \<open>\<open>unified_symbol_table[name]\<close> makes an entry of zeroes when there is none.\<close>

definition symbol_ref :: "symbols \<Rightarrow> string \<Rightarrow> symbol_t" where
  "symbol_ref tab name = (case map_of tab name of Some r \<Rightarrow> r
     | None \<Rightarrow> \<lparr>address = 0, sym_referenced = False, defined = False\<rparr>)"

(* coding/Linker.cpp 95-116: SysdarftLink, register all symbols *)
definition register_symbol :: "line_marker_t \<Rightarrow> symbols \<Rightarrow> cpu_error + symbols" where
  "register_symbol symbol tab =
     (let name = line_marker_name symbol in
      if is_defined symbol \<and> (case map_of tab name of Some r \<Rightarrow> defined r | None \<Rightarrow> False) then Inl SysdarftLinkerError
      else
        let tab1 = (if is_defined symbol
              then map_put name ((symbol_ref tab name)\<lparr>address := marker_position symbol, defined := True\<rparr>) tab
              else tab)
        in Inr (if referenced symbol
              then map_put name ((symbol_ref tab1 name)\<lparr>sym_referenced := True\<rparr>) tab1
              else tab1))"

fun register_symbols :: "line_marker_t list \<Rightarrow> symbols \<Rightarrow> cpu_error + symbols" where
  "register_symbols [] tab = Inr tab"
| "register_symbols (m # ms) tab = (case register_symbol m tab of Inl e \<Rightarrow> Inl e | Inr tab' \<Rightarrow> register_symbols ms tab')"

section \<open>Linking an object\<close>

text \<open>Indexing a vector outside of it is undefined.\<close>

(* coding/Linker.cpp 136-141: SysdarftLink, one reference *)
definition resolve :: "u8 list \<Rightarrow> nat \<Rightarrow> u8 list list \<Rightarrow> cpu_error + u8 list list" where
  "resolve replacement i c =
     (if \<not> i < length c then Inl UndefinedBehaviour
      else if countSequence (c ! i) tmp_address_hex \<noteq> 1 then Inl SysdarftLinkerError
      else Inr (c[i := replaceSequence (c ! i) tmp_address_hex replacement]))"

fun resolve_all :: "(nat \<times> u8 list) list \<Rightarrow> u8 list list \<Rightarrow> cpu_error + u8 list list" where
  "resolve_all [] c = Inr c"
| "resolve_all ((i, replacement) # rs) c =
     (case resolve replacement i c of Inl e \<Rightarrow> Inl e | Inr c' \<Rightarrow> resolve_all rs c')"

(* coding/Linker.cpp 122-143: SysdarftLink, replace line markers *)
fun link_symbols :: "symbols \<Rightarrow> line_marker_t list \<Rightarrow> u8 list list \<Rightarrow> cpu_error + u8 list list" where
  "link_symbols tab [] c = Inr c"
| "link_symbols tab (symbol # ms) c =
     (case map_of tab (line_marker_name symbol) of
        None \<Rightarrow> Inl SysdarftLinkerError
      | Some r \<Rightarrow>
          if \<not> defined r then Inl SysdarftLinkerError
          else (case resolve_all (map (\<lambda>i. (i, encode_constant_from_uint64_t (address r)))
                                    (loc_it_appeared_in_cur_blk symbol)) c of
                  Inl e \<Rightarrow> Inl e
                | Inr c' \<Rightarrow> link_symbols tab ms c'))"

(* coding/Linker.cpp 149-157: SysdarftLink, markers of a data expression *)
fun replace_markers :: "symbols \<Rightarrow> line_marker_t list \<Rightarrow> string \<Rightarrow> cpu_error + string" where
  "replace_markers tab [] expression = Inr expression"
| "replace_markers tab (m # ms) expression =
     (case map_of tab (line_marker_name m) of
        None \<Rightarrow> Inl SysdarftLinkerError
      | Some r \<Rightarrow> replace_markers tab ms
          (replace_all expression (line_marker_name m) (to_string (unat (address r)))))"

text \<open>
  The shift and the bytes of the number are defined for 1 to 8 bytes; the assembler only asks
  for 1, 2, 4 and 8.
\<close>

(* coding/Linker.cpp 163-174: SysdarftLink, emplace data *)
definition data_sequence :: "nat \<Rightarrow> int \<Rightarrow> cpu_error + u8 list" where
  "data_sequence n data =
     (if n = 0 \<or> 8 < n then Inl UndefinedBehaviour
      else let compliment = drop_bit (64 - n * 8) (0xFFFFFFFFFFFFFFFF :: u64);
               raw_data = (of_int data :: u64) AND compliment
           in Inr (word_to_bytes n raw_data))"

(* coding/Linker.cpp 145-177: SysdarftLink, process data *)
fun link_data :: "calculator \<Rightarrow> symbols \<Rightarrow> line_marker_t list \<Rightarrow> data_expression_identifier list \<Rightarrow>
    u8 list list \<Rightarrow> cpu_error + u8 list list" where
  "link_data bc tab ms [] c = Inr c"
| "link_data bc tab ms (d # ds) c =
     (case replace_markers tab ms (data_string d) of
        Inl e \<Rightarrow> Inl e
      | Inr expression \<Rightarrow>
     (case execute_bc bc (process_base16 expression) of
        Inl e \<Rightarrow> Inl e
      | Inr processed_expression \<Rightarrow>
     (case data_sequence (data_byte_count d) (strtoll 10 processed_expression) of
        Inl e \<Rightarrow> Inl e
      | Inr bytes \<Rightarrow>
          if \<not> data_appearance d < length c then Inl UndefinedBehaviour
          else link_data bc tab ms ds (c[data_appearance d := bytes]))))"

(* coding/Linker.cpp 120-178: SysdarftLink, one object *)
definition link_object :: "calculator \<Rightarrow> symbols \<Rightarrow> object_t \<Rightarrow> cpu_error + u8 list list" where
  "link_object bc tab obj =
     (case link_symbols tab (symbol_table obj) (code obj) of
        Inl e \<Rightarrow> Inl e
      | Inr c \<Rightarrow> link_data bc tab (symbol_table obj) (data_expression_identifiers obj) c)"

fun link_objects :: "calculator \<Rightarrow> symbols \<Rightarrow> object_t list \<Rightarrow> cpu_error + u8 list list list" where
  "link_objects bc tab [] = Inr []"
| "link_objects bc tab (obj # objs) =
     (case link_object bc tab obj of
        Inl e \<Rightarrow> Inl e
      | Inr c \<Rightarrow> map_result ((#) c) (link_objects bc tab objs))"

(* coding/Linker.cpp 187-213: SysdarftLink, unified symbol table *)
definition output_symbols :: "bool \<Rightarrow> symbols \<Rightarrow> line_marker_t list" where
  "output_symbols verbose tab =
     map (\<lambda>(name, r). \<lparr>line_marker_name = name, marker_position = address r, is_defined = False,
       referenced = False, loc_it_appeared_in_cur_blk = []\<rparr>)
       (filter (\<lambda>(_, r). verbose \<or> sym_referenced r) tab)"

(* coding/Linker.cpp 80-216: SysdarftLink *)
definition SysdarftLink :: "calculator \<Rightarrow> bool \<Rightarrow> object_t list \<Rightarrow> cpu_error + object_t" where
  "SysdarftLink bc verbose objects =
     (case register_symbols (concat (map symbol_table objects)) [] of
        Inl e \<Rightarrow> Inl e
      | Inr tab \<Rightarrow>
     (case link_objects bc tab objects of
        Inl e \<Rightarrow> Inl e
      | Inr codes \<Rightarrow> Inr \<lparr>code = concat codes, symbol_table = output_symbols verbose tab,
          data_expression_identifiers = []\<rparr>))"

section \<open>The placeholder\<close>

lemma length_tmp [simp]: "length tmp_address_hex = 10"
  by (simp add: tmp_address_hex_def)

lemma tmp_not_Nil [simp]: "tmp_address_hex \<noteq> []"
  by (simp add: tmp_address_hex_def)

lemma length_encode_constant [simp]: "length (encode_constant_from_uint64_t a) = 10"
  by (simp add: encode_constant_from_uint64_t_def)

text \<open>No proper end of the placeholder is its beginning, so that occurrences never overlap.\<close>

lemma tmp_border:
  assumes "0 < k" and "k < 10"
  shows "tmp_address_hex ! k \<noteq> tmp_address_hex ! 0"
proof -
  have "list_all (\<lambda>k. tmp_address_hex ! k \<noteq> tmp_address_hex ! 0) [1..<10]" by code_simp
  with assms show ?thesis by (simp add: list_all_iff)
qed

lemma tmp_no_overlap:
  assumes "prefix tmp_address_hex (b # pre @ tmp_address_hex @ post)"
  shows "9 \<le> length pre"
proof (rule ccontr)
  assume "\<not> 9 \<le> length pre"
  then have k: "0 < Suc (length pre)" "Suc (length pre) < 10" by simp_all
  from assms obtain zs where zs: "b # pre @ tmp_address_hex @ post = tmp_address_hex @ zs" by (auto elim: prefixE)
  have "tmp_address_hex ! Suc (length pre) = (b # pre @ tmp_address_hex @ post) ! Suc (length pre)"
    unfolding zs using k by (simp add: nth_append)
  also have "\<dots> = tmp_address_hex ! 0" by (simp add: nth_append)
  finally show False using tmp_border [OF k] by simp
qed

lemma count_scan_placed: "1 \<le> count_scan tmp_address_hex (pre @ tmp_address_hex @ post)"
proof (induction pre)
  case Nil
  obtain b bs where "tmp_address_hex @ post = b # bs" by (cases "tmp_address_hex @ post") simp_all
  moreover have "prefix tmp_address_hex (tmp_address_hex @ post)" by simp
  ultimately show ?case by (metis count_scan.simps(2) append_Nil le_numeral_extra(4) plus_1_eq_Suc le_add1)
next
  case (Cons b pre)
  then show ?case by auto
qed

lemma replace_first_placed:
  assumes "count_scan tmp_address_hex (pre @ tmp_address_hex @ post) = 1"
  shows "replace_first tmp_address_hex r (pre @ tmp_address_hex @ post) = pre @ r @ post"
  using assms
proof (induction pre)
  case Nil
  obtain b bs where bs: "tmp_address_hex @ post = b # bs" by (cases "tmp_address_hex @ post") simp_all
  have "prefix tmp_address_hex (tmp_address_hex @ post)" by simp
  with bs have "replace_first tmp_address_hex r (tmp_address_hex @ post) = r @ drop 10 (tmp_address_hex @ post)"
    by simp
  then show ?case by simp
next
  case (Cons b pre)
  show ?case
  proof (cases "prefix tmp_address_hex (b # pre @ tmp_address_hex @ post)")
    case True
    from tmp_no_overlap [OF this] have "drop 9 (pre @ tmp_address_hex @ post) = drop 9 pre @ tmp_address_hex @ post"
      by simp
    with True Cons.prems count_scan_placed [of "drop 9 pre" post] show ?thesis by simp
  next
    case False
    with Cons show ?thesis by simp
  qed
qed

lemma count_scan_found:
  "0 < count_scan sequence xs \<Longrightarrow> \<exists>pre post. xs = pre @ sequence @ post"
proof (induction sequence xs rule: count_scan.induct)
  case (2 sequence b bs)
  show ?case
  proof (cases "prefix sequence (b # bs)")
    case True
    then obtain post where "b # bs = sequence @ post" by (auto elim: prefixE)
    then have "b # bs = [] @ sequence @ post" by simp
    then show ?thesis by blast
  next
    case False
    with 2 obtain pre post where "bs = pre @ sequence @ post" by auto
    then have "b # bs = (b # pre) @ sequence @ post" by simp
    then show ?thesis by blast
  qed
qed simp

text \<open>The only placeholder of an instruction is replaced, and nothing else.\<close>

lemma replace_placeholder:
  assumes "countSequence xs tmp_address_hex = 1"
  obtains pre post where "xs = pre @ tmp_address_hex @ post"
    and "\<And>r. replaceSequence xs tmp_address_hex r = pre @ r @ post"
proof -
  from assms have "count_scan tmp_address_hex xs = 1" by (simp add: countSequence_def split: if_splits)
  moreover from this obtain pre post where "xs = pre @ tmp_address_hex @ post"
    using count_scan_found [of tmp_address_hex xs] by auto
  ultimately show thesis
    using that [of pre post] replace_first_placed [of pre post] by (simp add: replaceSequence_def)
qed

section \<open>Resolving references\<close>

lemma resolve_all_append:
  "resolve_all (rs @ ss) c = (case resolve_all rs c of Inl e \<Rightarrow> Inl e | Inr c' \<Rightarrow> resolve_all ss c')"
  by (induction rs c rule: resolve_all.induct) (auto split: sum.splits)

lemma resolve_all_ok:
  assumes "resolve_all rs c = Inr c'" and "distinct (map fst rs)"
  shows "length c' = length c \<and> (\<forall>i r. (i, r) \<in> set rs \<longrightarrow> i < length c
      \<and> countSequence (c ! i) tmp_address_hex = 1 \<and> c' ! i = replaceSequence (c ! i) tmp_address_hex r)
    \<and> (\<forall>i. i \<notin> fst ` set rs \<longrightarrow> c' ! i = c ! i)"
  using assms
proof (induction rs c rule: resolve_all.induct)
  case (2 i r rs c)
  from "2.prems"(1) obtain c1 where c1: "resolve r i c = Inr c1" "resolve_all rs c1 = Inr c'"
    by (auto split: sum.splits)
  then have i: "i < length c" "countSequence (c ! i) tmp_address_hex = 1"
    "c1 = c[i := replaceSequence (c ! i) tmp_address_hex r]"
    by (auto simp: resolve_def split: if_splits)
  have IH: "length c' = length c1" "\<And>j q. (j, q) \<in> set rs \<Longrightarrow> j < length c1
      \<and> countSequence (c1 ! j) tmp_address_hex = 1 \<and> c' ! j = replaceSequence (c1 ! j) tmp_address_hex q"
    "\<And>j. j \<notin> fst ` set rs \<Longrightarrow> c' ! j = c1 ! j"
    using "2.IH" [OF c1] "2.prems"(2) by auto
  have "j \<noteq> i" if "(j, q) \<in> set rs" for j q using that "2.prems"(2) by (auto simp: image_iff)
  then have same: "c1 ! j = c ! j" if "(j, q) \<in> set rs" for j q using that i(1,3) by (metis nth_list_update_neq)
  have "i \<notin> fst ` set rs" using "2.prems"(2) by simp
  with IH(3) [of i] i have "c' ! i = replaceSequence (c ! i) tmp_address_hex r" by simp
  moreover have "\<And>j q. (j, q) \<in> set rs \<Longrightarrow> j < length c
      \<and> countSequence (c ! j) tmp_address_hex = 1 \<and> c' ! j = replaceSequence (c ! j) tmp_address_hex q"
    using IH(2) same i(3) by fastforce
  ultimately show ?case using IH(1,3) i by auto
qed simp

definition marker_refs :: "symbols \<Rightarrow> line_marker_t \<Rightarrow> (nat \<times> u8 list) list" where
  "marker_refs tab m = map (\<lambda>i. (i, encode_constant_from_uint64_t (address (symbol_ref tab (line_marker_name m)))))
     (loc_it_appeared_in_cur_blk m)"

lemma link_symbols_ok:
  assumes "link_symbols tab ms c = Inr c'"
  shows "resolve_all (concat (map (marker_refs tab) ms)) c = Inr c'"
    and "\<forall>m\<in>set ms. \<exists>r. map_of tab (line_marker_name m) = Some r \<and> defined r"
  using assms
  by (induction tab ms c rule: link_symbols.induct)
    (auto simp: marker_refs_def symbol_ref_def resolve_all_append split: option.splits sum.splits if_splits)


section \<open>The table of symbols\<close>

text \<open>The definitions among some markers: names and positions.\<close>

definition definitions :: "line_marker_t list \<Rightarrow> (string \<times> u64) list" where
  "definitions ms = map (\<lambda>m. (line_marker_name m, marker_position m)) (filter is_defined ms)"

lemma definitions_simps [simp]:
  "definitions [] = []"
  "definitions (m # ms) = (if is_defined m then [(line_marker_name m, marker_position m)] else []) @ definitions ms"
  by (simp_all add: definitions_def)

lemma symbol_ref_put [simp]:
  "ordered_map tab \<Longrightarrow> symbol_ref (map_put n r tab) k = (if k = n then r else symbol_ref tab k)"
  by (simp add: symbol_ref_def)

lemma defined_symbol_ref: "defined (symbol_ref tab n) \<longleftrightarrow> (\<exists>r. map_of tab n = Some r \<and> defined r)"
  by (auto simp: symbol_ref_def split: option.splits)

lemma case_defined: "(case map_of tab n of Some r \<Rightarrow> defined r | None \<Rightarrow> False) \<longleftrightarrow> defined (symbol_ref tab n)"
  by (simp add: symbol_ref_def split: option.splits)

text \<open>Registering a symbol fails exactly if it defines a name a second time.\<close>

lemma register_symbol_result:
  assumes "ordered_map tab"
  shows "case register_symbol m tab of
      Inl e \<Rightarrow> e = SysdarftLinkerError \<and> is_defined m \<and> defined (symbol_ref tab (line_marker_name m))
    | Inr tab' \<Rightarrow> \<not> (is_defined m \<and> defined (symbol_ref tab (line_marker_name m))) \<and> ordered_map tab'
        \<and> (\<forall>n. defined (symbol_ref tab' n) \<longleftrightarrow> defined (symbol_ref tab n) \<or> (is_defined m \<and> n = line_marker_name m))
        \<and> (\<forall>n. address (symbol_ref tab' n)
             = (if is_defined m \<and> n = line_marker_name m then marker_position m else address (symbol_ref tab n)))
        \<and> (\<forall>n. sym_referenced (symbol_ref tab' n) \<longleftrightarrow> sym_referenced (symbol_ref tab n) \<or> (referenced m \<and> n = line_marker_name m))
        \<and> fst ` set tab' = fst ` set tab \<union> (if is_defined m \<or> referenced m then {line_marker_name m} else {})"
  using assms
  by (auto simp: register_symbol_def Let_def case_defined simp flip: set_map simp: set_map_put)

lemma register_symbols_result:
  assumes "ordered_map tab"
  shows "case register_symbols ms tab of
      Inl e \<Rightarrow> e = SysdarftLinkerError
        \<and> \<not> (distinct (map fst (definitions ms)) \<and> (\<forall>n\<in>fst ` set (definitions ms). \<not> defined (symbol_ref tab n)))
    | Inr tab' \<Rightarrow> distinct (map fst (definitions ms)) \<and> (\<forall>n\<in>fst ` set (definitions ms). \<not> defined (symbol_ref tab n))
        \<and> ordered_map tab'
        \<and> (\<forall>n. defined (symbol_ref tab' n) \<longleftrightarrow> defined (symbol_ref tab n) \<or> n \<in> fst ` set (definitions ms))
        \<and> (\<forall>n. address (symbol_ref tab' n)
             = (case map_of (definitions ms) n of Some a \<Rightarrow> a | None \<Rightarrow> address (symbol_ref tab n)))
        \<and> (\<forall>n. sym_referenced (symbol_ref tab' n) \<longleftrightarrow> sym_referenced (symbol_ref tab n)
             \<or> (\<exists>m\<in>set ms. referenced m \<and> n = line_marker_name m))
        \<and> fst ` set tab' = fst ` set tab \<union> {line_marker_name m |m. m \<in> set ms \<and> (is_defined m \<or> referenced m)}"
  using assms
proof (induction ms tab rule: register_symbols.induct)
  case (2 m ms tab)
  show ?case
  proof (cases "register_symbol m tab")
    case (Inl e)
    with register_symbol_result [OF "2.prems", of m] show ?thesis by auto
  next
    case (Inr tab1)
    note step = register_symbol_result [OF "2.prems", of m, unfolded Inr sum.case]
    have ord: "ordered_map tab1" using step by blast
    have "map_of (definitions ms) n = None" if "n \<notin> fst ` set (definitions ms)" for n
      using that by (simp add: map_of_eq_None_iff)
    note IH = "2.IH" [OF Inr ord] this
    show ?thesis
    proof (cases "register_symbols ms tab1")
      case (Inl e)
      with IH(1) step \<open>register_symbol m tab = Inr tab1\<close> show ?thesis by (auto simp: image_iff)
    next
      case (Inr tab2)
      have eq: "register_symbols (m # ms) tab = Inr tab2"
        using \<open>register_symbol m tab = Inr tab1\<close> Inr by simp
      note IH' = IH(1) [unfolded Inr sum.case]
      show ?thesis unfolding eq sum.case
      proof (intro conjI)
        show "ordered_map tab2" using IH' by blast
        show "\<forall>n. address (symbol_ref tab2 n)
             = (case map_of (definitions (m # ms)) n of Some a \<Rightarrow> a | None \<Rightarrow> address (symbol_ref tab n))"
          using IH' step IH(2) by (auto split: option.splits)
        show "distinct (map fst (definitions (m # ms)))" using IH' step by auto
        show "\<forall>n\<in>fst ` set (definitions (m # ms)). \<not> defined (symbol_ref tab n)" using IH' step by auto
        show "\<forall>n. defined (symbol_ref tab2 n) \<longleftrightarrow> defined (symbol_ref tab n) \<or> n \<in> fst ` set (definitions (m # ms))"
          using IH' step by auto
        show "\<forall>n. sym_referenced (symbol_ref tab2 n) \<longleftrightarrow> sym_referenced (symbol_ref tab n)
             \<or> (\<exists>m'\<in>set (m # ms). referenced m' \<and> n = line_marker_name m')" using IH' step by auto
        show "fst ` set tab2 = fst ` set tab \<union> {line_marker_name m' |m'. m' \<in> set (m # ms) \<and> (is_defined m' \<or> referenced m')}"
          using IH' step by (auto split: if_splits)
      qed
    qed
  qed
qed auto


text \<open>The table of a link: what it says of every name.\<close>

definition all_symbols :: "object_t list \<Rightarrow> line_marker_t list" where
  "all_symbols objs = concat (map symbol_table objs)"

lemma unified_table:
  "case register_symbols (all_symbols objs) [] of
      Inl e \<Rightarrow> e = SysdarftLinkerError \<and> \<not> distinct (map fst (definitions (all_symbols objs)))
    | Inr tab \<Rightarrow> distinct (map fst (definitions (all_symbols objs))) \<and> ordered_map tab
        \<and> (\<forall>n. defined (symbol_ref tab n) \<longleftrightarrow> n \<in> fst ` set (definitions (all_symbols objs)))
        \<and> (\<forall>(n, a)\<in>set (definitions (all_symbols objs)). address (symbol_ref tab n) = a)
        \<and> (\<forall>n. sym_referenced (symbol_ref tab n) \<longleftrightarrow> (\<exists>m\<in>set (all_symbols objs). referenced m \<and> n = line_marker_name m))
        \<and> fst ` set tab = {line_marker_name m |m. m \<in> set (all_symbols objs) \<and> (is_defined m \<or> referenced m)}"
  using register_symbols_result [of "[]" "all_symbols objs"]
  by (auto simp: symbol_ref_def [of "[]"] split: sum.splits option.splits)

section \<open>The layout of the code\<close>

text \<open>
  What the assembler promises of an object: no line has two references, and the place of a
  data expression has the size of the number, is no reference and belongs to one expression only. \<open>Assembler\<close> proves it of
  every object it makes.
\<close>

definition reference_lines :: "object_t \<Rightarrow> nat list" where
  "reference_lines obj = concat (map loc_it_appeared_in_cur_blk (symbol_table obj))"

definition data_ok :: "u8 list list \<Rightarrow> data_expression_identifier \<Rightarrow> bool" where
  "data_ok c d \<longleftrightarrow> data_appearance d < length c \<and> length (c ! data_appearance d) = data_byte_count d
     \<and> data_byte_count d \<in> {1, 2, 4, 8}"

definition wf_object :: "object_t \<Rightarrow> bool" where
  "wf_object obj \<longleftrightarrow> distinct (reference_lines obj)
     \<and> distinct (map data_appearance (data_expression_identifiers obj)) \<and> (\<forall>i\<in>set (reference_lines obj). i < length (code obj))
     \<and> (\<forall>d\<in>set (data_expression_identifiers obj). data_ok (code obj) d \<and> data_appearance d \<notin> set (reference_lines obj))"

lemma resolve_all_layout:
  "resolve_all rs c = Inr c' \<Longrightarrow> (\<forall>(i, r)\<in>set rs. length r = 10) \<Longrightarrow> map length c' = map length c"
proof (induction rs c rule: resolve_all.induct)
  case (2 i r rs c)
  then obtain c1 where c1: "resolve r i c = Inr c1" "resolve_all rs c1 = Inr c'"
    by (auto split: sum.splits)
  then have i: "i < length c" "countSequence (c ! i) tmp_address_hex = 1"
    "c1 = c[i := replaceSequence (c ! i) tmp_address_hex r]"
    by (auto simp: resolve_def split: if_splits)
  from replace_placeholder [OF i(2)] obtain pre post where "c ! i = pre @ tmp_address_hex @ post"
    "replaceSequence (c ! i) tmp_address_hex r = pre @ r @ post" by metis
  with "2.prems"(2) have "length (replaceSequence (c ! i) tmp_address_hex r) = length (c ! i)" by simp
  then have "map length c1 = map length c" unfolding i(3) map_update
    by (metis i(1) list_update_id nth_map)
  with "2.IH" [OF c1] "2.prems"(2) show ?case by simp
qed simp

lemma marker_refs_lengths: "\<forall>(i, r)\<in>set (concat (map (marker_refs tab) ms)). length r = 10"
  by (auto simp: marker_refs_def)

lemma fst_marker_refs [simp]:
  "map fst (concat (map (marker_refs tab) (symbol_table obj))) = reference_lines obj"
  unfolding reference_lines_def by (induction "symbol_table obj" arbitrary: obj rule: list.induct)
    (auto simp: marker_refs_def map_concat comp_def)

lemma length_data_sequence: "data_sequence n v = Inr bytes \<Longrightarrow> length bytes = n"
  by (auto simp: data_sequence_def Let_def split: if_splits)

text \<open>The mask changes nothing: the bytes are the lowest ones of the two's complement.\<close>

lemma data_sequence_bytes: "data_sequence n v = Inr bytes \<Longrightarrow> bytes = word_to_bytes n (of_int v :: u64)"
proof -
  have ones: "(0xFFFFFFFFFFFFFFFF :: u64) = - 1" by simp
  assume "data_sequence n v = Inr bytes"
  then have n: "0 < n" "n \<le> 8" and bytes: "bytes = word_to_bytes n ((of_int v :: u64) AND drop_bit (64 - n * 8) (- 1))"
    unfolding data_sequence_def Let_def ones by (auto split: if_splits)
  show "bytes = word_to_bytes n (of_int v :: u64)" unfolding bytes
  proof (rule nth_equalityI)
    fix i assume "i < length (word_to_bytes n ((of_int v :: u64) AND drop_bit (64 - n * 8) (- 1)))"
    then have i: "i < n" by simp
    show "word_to_bytes n ((of_int v :: u64) AND drop_bit (64 - n * 8) (- 1)) ! i
        = word_to_bytes n (of_int v :: u64) ! i"
    proof (rule bit_word_eqI)
      fix j assume "j < LENGTH(8)"
      then have j: "j < 8" by simp
      have "i * 8 + 8 \<le> n * 8" using i by linarith
      with j n have "8 * i + j < 64 - (64 - n * 8)" "8 * i + j < 64" by linarith+
      with i j show "bit (word_to_bytes n ((of_int v :: u64) AND drop_bit (64 - n * 8) (- 1)) ! i) j
          = bit (word_to_bytes n (of_int v :: u64) ! i) j"
        by (simp add: bit_ucast_iff bit_drop_bit_eq bit_and_iff bit_mask_iff)
    qed
  qed simp
qed

text \<open>Data goes to its places, and only there.\<close>

definition data_value :: "calculator \<Rightarrow> symbols \<Rightarrow> line_marker_t list \<Rightarrow> data_expression_identifier \<Rightarrow> u8 list \<Rightarrow> bool" where
  "data_value bc tab ms d bytes \<longleftrightarrow> (\<exists>e p. replace_markers tab ms (data_string d) = Inr e
     \<and> execute_bc bc (process_base16 e) = Inr p \<and> bytes = word_to_bytes (data_byte_count d) (of_int (strtoll 10 p) :: u64))"

lemma link_data_ok:
  assumes "link_data bc tab ms ds c = Inr c'" and "\<forall>d\<in>set ds. data_ok c d" and "distinct (map data_appearance ds)"
  shows "map length c' = map length c \<and> (\<forall>i. i \<notin> data_appearance ` set ds \<longrightarrow> c' ! i = c ! i)
    \<and> (\<forall>d\<in>set ds. data_value bc tab ms d (c' ! data_appearance d))"
  using assms
proof (induction bc tab ms ds c rule: link_data.induct)
  case (2 bc tab ms d ds c)
  from "2.prems"(1) obtain e p bytes where step: "replace_markers tab ms (data_string d) = Inr e"
    "execute_bc bc (process_base16 e) = Inr p" "data_sequence (data_byte_count d) (strtoll 10 p) = Inr bytes"
    "data_appearance d < length c" "link_data bc tab ms ds (c[data_appearance d := bytes]) = Inr c'"
    by (auto split: sum.splits if_splits)
  have len: "map length (c[data_appearance d := bytes]) = map length c"
    using length_data_sequence [OF step(3)] "2.prems"(2) step(4)
    by (simp add: map_update data_ok_def list_update_same_conv)
  have "\<forall>d'\<in>set ds. data_ok (c[data_appearance d := bytes]) d'"
    using "2.prems"(2) len by (metis data_ok_def length_map list.set_intros(2) nth_map)
  then have IH: "map length c' = map length (c[data_appearance d := bytes])
      \<and> (\<forall>i. i \<notin> data_appearance ` set ds \<longrightarrow> c' ! i = c[data_appearance d := bytes] ! i)
      \<and> (\<forall>d\<in>set ds. data_value bc tab ms d (c' ! data_appearance d))"
    using "2.IH" [OF step(1,2,3)] step(4,5) "2.prems"(3) by simp
  then have "c' ! data_appearance d = bytes" using "2.prems"(3) step(4) by simp
  then have "data_value bc tab ms d (c' ! data_appearance d)"
    using step(1,2) data_sequence_bytes [OF step(3)] by (auto simp: data_value_def)
  with IH len show ?case by auto
qed simp

section \<open>Linked objects\<close>

text \<open>Line \<open>l'\<close> is line \<open>l\<close> with its only placeholder replaced by the constant \<open>a\<close>.\<close>

definition points_to :: "u8 list \<Rightarrow> u8 list \<Rightarrow> u64 \<Rightarrow> bool" where
  "points_to l l' a \<longleftrightarrow> countSequence l tmp_address_hex = 1
     \<and> (\<exists>pre post. l = pre @ tmp_address_hex @ post \<and> l' = pre @ encode_constant_from_uint64_t a @ post)"

lemma points_to_placed:
  assumes "points_to (us @ tmp_address_hex @ vs) l' a"
  shows "l' = us @ encode_constant_from_uint64_t a @ vs"
proof -
  let ?l = "us @ tmp_address_hex @ vs"
  from assms obtain pre post where l: "?l = pre @ tmp_address_hex @ post" "l' = pre @ encode_constant_from_uint64_t a @ post"
    and one: "count_scan tmp_address_hex ?l = 1"
    by (auto simp: points_to_def countSequence_def split: if_splits)
  have "replace_first tmp_address_hex r ?l = us @ r @ vs" for r using one by (rule replace_first_placed)
  moreover have "replace_first tmp_address_hex r ?l = pre @ r @ post" for r
    using one unfolding l(1) by (rule replace_first_placed)
  ultimately show ?thesis using l(2) by metis
qed

lemma link_object_ok:
  assumes "link_object bc tab obj = Inr c" and "wf_object obj"
  shows "map length c = map length (code obj)"
    and "\<forall>m\<in>set (symbol_table obj). defined (symbol_ref tab (line_marker_name m))"
    and "m \<in> set (symbol_table obj) \<Longrightarrow> i \<in> set (loc_it_appeared_in_cur_blk m)
      \<Longrightarrow> points_to (code obj ! i) (c ! i) (address (symbol_ref tab (line_marker_name m)))"
    and "i \<notin> set (reference_lines obj) \<Longrightarrow> i \<notin> data_appearance ` set (data_expression_identifiers obj)
      \<Longrightarrow> c ! i = code obj ! i"
    and "d \<in> set (data_expression_identifiers obj) \<Longrightarrow> data_value bc tab (symbol_table obj) d (c ! data_appearance d)"
proof -
  from assms(1) obtain c1 where c1: "link_symbols tab (symbol_table obj) (code obj) = Inr c1"
    "link_data bc tab (symbol_table obj) (data_expression_identifiers obj) c1 = Inr c"
    by (auto simp: link_object_def split: sum.splits)
  note res = link_symbols_ok [OF c1(1)]
  have len1: "map length c1 = map length (code obj)"
    by (rule resolve_all_layout [OF res(1) marker_refs_lengths])
  have "data_ok c1 d" if "d \<in> set (data_expression_identifiers obj)" for d
    using assms(2) that len1 unfolding wf_object_def data_ok_def by (metis length_map nth_map)
  then have data: "map length c = map length c1"
    "\<And>i. i \<notin> data_appearance ` set (data_expression_identifiers obj) \<Longrightarrow> c ! i = c1 ! i"
    "\<And>d. d \<in> set (data_expression_identifiers obj) \<Longrightarrow> data_value bc tab (symbol_table obj) d (c ! data_appearance d)"
    using link_data_ok [OF c1(2)] assms(2) by (auto simp: wf_object_def)
  show "data_value bc tab (symbol_table obj) d (c ! data_appearance d)"
    if "d \<in> set (data_expression_identifiers obj)" using that by (rule data(3))
  show "map length c = map length (code obj)" using data(1) len1 by simp
  show "\<forall>m\<in>set (symbol_table obj). defined (symbol_ref tab (line_marker_name m))"
    using res(2) by (simp add: defined_symbol_ref)
  have refs: "distinct (map fst (concat (map (marker_refs tab) (symbol_table obj))))"
    using assms(2) by (simp add: wf_object_def)
  note resolved = resolve_all_ok [OF res(1) refs]
  show "points_to (code obj ! i) (c ! i) (address (symbol_ref tab (line_marker_name m)))"
    if m: "m \<in> set (symbol_table obj)" "i \<in> set (loc_it_appeared_in_cur_blk m)"
  proof -
    let ?r = "encode_constant_from_uint64_t (address (symbol_ref tab (line_marker_name m)))"
    have "(i, ?r) \<in> set (concat (map (marker_refs tab) (symbol_table obj)))"
      using m by (auto simp: marker_refs_def)
    with resolved have one: "countSequence (code obj ! i) tmp_address_hex = 1"
      and "c1 ! i = replaceSequence (code obj ! i) tmp_address_hex ?r" by blast+
    moreover have "i \<in> set (reference_lines obj)" using m by (auto simp: reference_lines_def)
    then have "i \<notin> data_appearance ` set (data_expression_identifiers obj)"
      using assms(2) by (auto simp: wf_object_def)
    then have "c ! i = c1 ! i" by (rule data(2))
    ultimately show ?thesis
      using replace_placeholder [OF one] unfolding points_to_def by metis
  qed
  show "c ! i = code obj ! i" if "i \<notin> set (reference_lines obj)"
    "i \<notin> data_appearance ` set (data_expression_identifiers obj)"
  proof -
    have "i \<notin> fst ` set (concat (map (marker_refs tab) (symbol_table obj)))"
      using that(1) by (metis fst_marker_refs set_map)
    with resolved have "c1 ! i = code obj ! i" by blast
    with data(2) [OF that(2)] show ?thesis by simp
  qed
qed

lemma link_objects_all2:
  "link_objects bc tab objs = Inr codes \<longleftrightarrow> list_all2 (\<lambda>obj c. link_object bc tab obj = Inr c) objs codes"
proof (induction objs arbitrary: codes)
  case (Cons obj objs)
  show ?case by (cases codes) (auto simp: Cons.IH [symmetric] map_result_def split: sum.splits)
qed auto

lemma SysdarftLink_cases:
  assumes "SysdarftLink bc v objs = Inr linked"
  obtains tab codes where "register_symbols (all_symbols objs) [] = Inr tab"
    "list_all2 (\<lambda>obj c. link_object bc tab obj = Inr c) objs codes"
    "code linked = concat codes" "symbol_table linked = output_symbols v tab"
    "data_expression_identifiers linked = []"
  using assms by (auto simp: SysdarftLink_def all_symbols_def link_objects_all2 [symmetric] split: sum.splits)

text \<open>The lines of an object in the linked code.\<close>

lemma nth_concat_block:
  assumes "length (concat us) = n" and "i < length c"
  shows "concat (us @ c # vs) ! (n + i) = c ! i"
  using assms by (simp add: nth_append)

lemma concat_layout:
  "list_all2 (\<lambda>obj c. map length c = map length (code obj)) objs codes
     \<Longrightarrow> map length (concat codes) = map length (concat (map code objs))"
  by (induction rule: list_all2_induct) auto

lemma linked_layout:
  assumes "list_all2 (\<lambda>obj c. link_object bc tab obj = Inr c) objs codes" and "\<forall>obj\<in>set objs. wf_object obj"
  shows "map length (concat codes) = map length (concat (map code objs))"
  using assms by (intro concat_layout) (auto simp: list_all2_conv_all_nth link_object_ok(1))

lemma linked_block:
  assumes "SysdarftLink bc v objs = Inr linked" and "\<forall>obj\<in>set objs. wf_object obj" and "objs = us @ obj # vs"
  obtains tab c where "register_symbols (all_symbols objs) [] = Inr tab" "link_object bc tab obj = Inr c" "wf_object obj"
    "\<And>i. i < length (code obj) \<Longrightarrow> code linked ! (length (concat (map code us)) + i) = c ! i"
proof -
  from assms(1) obtain tab codes where tab: "register_symbols (all_symbols objs) [] = Inr tab"
    and codes: "list_all2 (\<lambda>obj c. link_object bc tab obj = Inr c) objs codes"
    and linked: "code linked = concat codes"
    by (rule SysdarftLink_cases)
  from codes obtain cs c cs' where cs: "codes = cs @ c # cs'" "link_object bc tab obj = Inr c"
      "list_all2 (\<lambda>obj c. link_object bc tab obj = Inr c) us cs"
    unfolding assms(3) list_all2_append1 list_all2_Cons1 by auto
  have wf: "wf_object obj" "\<forall>obj\<in>set us. wf_object obj" using assms(2,3) by simp_all
  have "length (concat cs) = length (concat (map code us))"
    using linked_layout [OF cs(3) wf(2)] by (rule map_eq_imp_length_eq)
  moreover have "length c = length (code obj)"
    using link_object_ok(1) [OF cs(2) wf(1)] by (rule map_eq_imp_length_eq)
  ultimately have "\<And>i. i < length (code obj) \<Longrightarrow> code linked ! (length (concat (map code us)) + i) = c ! i"
    unfolding linked cs(1) by (metis nth_concat_block)
  with that tab cs(2) wf(1) show thesis by blast
qed

lemma link_correct:
  assumes "SysdarftLink bc v objs = Inr linked" and "\<forall>obj\<in>set objs. wf_object obj"
  shows "map length (code linked) = map length (concat (map code objs))
    \<and> distinct (map fst (definitions (all_symbols objs)))
    \<and> (\<forall>us obj vs m i. objs = us @ obj # vs \<longrightarrow> m \<in> set (symbol_table obj)
         \<longrightarrow> i \<in> set (loc_it_appeared_in_cur_blk m)
         \<longrightarrow> (\<exists>a. (line_marker_name m, a) \<in> set (definitions (all_symbols objs))
               \<and> points_to (code obj ! i) (code linked ! (length (concat (map code us)) + i)) a))"
proof -
  from assms(1) obtain tab codes where tab: "register_symbols (all_symbols objs) [] = Inr tab"
    and codes: "list_all2 (\<lambda>obj c. link_object bc tab obj = Inr c) objs codes"
    and linked: "code linked = concat codes"
    by (rule SysdarftLink_cases)
  note table = unified_table [of objs, unfolded tab sum.case]
  have "\<exists>a. (line_marker_name m, a) \<in> set (definitions (all_symbols objs))
      \<and> points_to (code obj ! i) (code linked ! (length (concat (map code us)) + i)) a"
    if split: "objs = us @ obj # vs" and m: "m \<in> set (symbol_table obj)" "i \<in> set (loc_it_appeared_in_cur_blk m)"
    for us obj vs m i
  proof -
    obtain c where c: "link_object bc tab obj = Inr c" "wf_object obj"
      "\<And>i. i < length (code obj) \<Longrightarrow> code linked ! (length (concat (map code us)) + i) = c ! i"
      using linked_block [OF assms split] tab by (metis Inr_inject)
    have "i \<in> set (reference_lines obj)" using m by (auto simp: reference_lines_def)
    with c(2,3) have at: "code linked ! (length (concat (map code us)) + i) = c ! i" by (simp add: wf_object_def)
    let ?a = "address (symbol_ref tab (line_marker_name m))"
    have "defined (symbol_ref tab (line_marker_name m))" using link_object_ok(2) [OF c(1,2)] m by blast
    then have "line_marker_name m \<in> fst ` set (definitions (all_symbols objs))" using table by blast
    then have "(line_marker_name m, ?a) \<in> set (definitions (all_symbols objs))" using table by auto
    with link_object_ok(3) [OF c(1,2) m] at show ?thesis by auto
  qed
  with table linked_layout [OF codes assms(2)] linked show ?thesis by simp
qed

text \<open>
  C7: linking is correct. From objects that the assembler made, a link that succeeds keeps
  every line of code at its place and at its size; every symbol that occurs has exactly one
  definition; and every reference in the code is replaced by the 64-bit constant of the
  address at which its symbol is defined, the rest of the line staying as it is.
\<close>

theorem linking_resolves_references:
  assumes "SysdarftLink bc v objs = Inr linked" and "\<forall>obj\<in>set objs. wf_object obj"
  shows "map length (code linked) = map length (concat (map code objs))
    \<and> distinct (map fst (definitions (all_symbols objs)))
    \<and> (\<forall>us obj vs m i. objs = us @ obj # vs \<longrightarrow> m \<in> set (symbol_table obj)
         \<longrightarrow> i \<in> set (loc_it_appeared_in_cur_blk m)
         \<longrightarrow> (\<exists>a. (line_marker_name m, a) \<in> set (definitions (all_symbols objs))
               \<and> points_to (code obj ! i) (code linked ! (length (concat (map code us)) + i)) a))"
  using assms by (rule link_correct)

text \<open>Two objects: the first calls and stores the address of a label of the second.\<close>

definition demo_objects :: "object_t list" where
  "demo_objects = [
     \<lparr>code = [0x30 # tmp_address_hex, replicate 2 0],
      symbol_table = [\<lparr>line_marker_name = ''start'', marker_position = 0x100, is_defined = True, referenced = False,
          loc_it_appeared_in_cur_blk = []\<rparr>,
        \<lparr>line_marker_name = ''target'', marker_position = 0, is_defined = False, referenced = True,
          loc_it_appeared_in_cur_blk = [0]\<rparr>],
      data_expression_identifiers = [\<lparr>data_appearance = 1, data_byte_count = 2, data_string = ''target''\<rparr>]\<rparr>,
     \<lparr>code = [[0x00]],
      symbol_table = [\<lparr>line_marker_name = ''target'', marker_position = 0x10D, is_defined = True, referenced = False,
          loc_it_appeared_in_cur_blk = []\<rparr>],
      data_expression_identifiers = []\<rparr>]"

definition demo_calculator :: calculator where
  "demo_calculator input = (0, input @ [CHR 0x0A])"

lemma demo_objects_wf: "\<forall>obj\<in>set demo_objects. wf_object obj"
proof -
  have "list_all wf_object demo_objects" by code_simp
  then show ?thesis by (simp add: list_all_iff)
qed

lemma demo_objects_linked:
  "map_result code (SysdarftLink demo_calculator False demo_objects)
     = Inr [[0x30, 0x02, 0x64, 0x0D, 0x01, 0, 0, 0, 0, 0, 0], [0x0D, 0x01], [0x00]]"
  by code_simp

theorem linking_resolves_references_witness:
  "\<exists>linked. SysdarftLink demo_calculator False demo_objects = Inr linked
     \<and> code linked = [[0x30, 0x02, 0x64, 0x0D, 0x01, 0, 0, 0, 0, 0, 0], [0x0D, 0x01], [0x00]]
     \<and> (\<exists>a. (''target'', a) \<in> set (definitions (all_symbols demo_objects))
          \<and> points_to (code (demo_objects ! 0) ! 0) (code linked ! 0) a)"
proof -
  obtain linked where l: "SysdarftLink demo_calculator False demo_objects = Inr linked"
    "code linked = [[0x30, 0x02, 0x64, 0x0D, 0x01, 0, 0, 0, 0, 0, 0], [0x0D, 0x01], [0x00]]"
    using demo_objects_linked by (auto simp: map_result_def split: sum.splits)
  have "demo_objects = [] @ demo_objects ! 0 # [demo_objects ! 1]"
    and "symbol_table (demo_objects ! 0) ! 1 \<in> set (symbol_table (demo_objects ! 0))"
    and "0 \<in> set (loc_it_appeared_in_cur_blk (symbol_table (demo_objects ! 0) ! 1))"
    by (simp_all add: demo_objects_def)
  note * = linking_resolves_references [OF l(1) demo_objects_wf, THEN conjunct2, THEN conjunct2, rule_format, OF this]
  have "line_marker_name (symbol_table (demo_objects ! 0) ! 1) = ''target''" by (simp add: demo_objects_def)
  with * l show ?thesis by simp
qed

section \<open>Programs that are refused\<close>

text \<open>
  C39: a name that is defined twice is always a linker error, whichever objects define it and in
  whatever order; and if a name occurs in an object (even if it is only declared there) and
  nothing defines it, no code is produced.
\<close>

theorem link_refuses_bad_symbols:
  "(\<not> distinct (map fst (definitions (all_symbols objs))) \<longrightarrow> SysdarftLink bc v objs = Inl SysdarftLinkerError)
   \<and> (\<forall>m\<in>set (all_symbols objs). line_marker_name m \<notin> fst ` set (definitions (all_symbols objs))
        \<longrightarrow> (\<forall>linked. SysdarftLink bc v objs \<noteq> Inr linked))"
proof (intro conjI impI ballI allI notI)
  assume "\<not> distinct (map fst (definitions (all_symbols objs)))"
  then have "register_symbols (all_symbols objs) [] = Inl SysdarftLinkerError"
    using unified_table [of objs] by (cases "register_symbols (all_symbols objs) []") auto
  then show "SysdarftLink bc v objs = Inl SysdarftLinkerError"
    by (simp add: SysdarftLink_def all_symbols_def)
next
  fix m linked
  assume m: "m \<in> set (all_symbols objs)" "line_marker_name m \<notin> fst ` set (definitions (all_symbols objs))"
    and "SysdarftLink bc v objs = Inr linked"
  from this(3) obtain tab codes where tab: "register_symbols (all_symbols objs) [] = Inr tab"
    and codes: "list_all2 (\<lambda>obj c. link_object bc tab obj = Inr c) objs codes"
    by (rule SysdarftLink_cases)
  from m(1) obtain obj where obj: "obj \<in> set objs" "m \<in> set (symbol_table obj)"
    by (auto simp: all_symbols_def)
  from codes obj(1) obtain c where "link_object bc tab obj = Inr c"
    by (auto simp: list_all2_conv_all_nth in_set_conv_nth)
  then obtain c1 where "link_symbols tab (symbol_table obj) (code obj) = Inr c1"
    by (auto simp: link_object_def split: sum.splits)
  with link_symbols_ok(2) [OF this] obj(2) have "defined (symbol_ref tab (line_marker_name m))"
    by (simp add: defined_symbol_ref)
  with unified_table [of objs] tab m(2) show False by auto
qed

theorem link_refuses_bad_symbols_witness:
  "SysdarftLink demo_calculator False (demo_objects @ [demo_objects ! 1]) = Inl SysdarftLinkerError
   \<and> (\<forall>linked. SysdarftLink demo_calculator False [demo_objects ! 0] \<noteq> Inr linked)"
proof -
  have "\<not> distinct (map fst (definitions (all_symbols (demo_objects @ [demo_objects ! 1]))))" by code_simp
  then have "SysdarftLink demo_calculator False (demo_objects @ [demo_objects ! 1]) = Inl SysdarftLinkerError"
    using link_refuses_bad_symbols by blast
  moreover have "symbol_table (demo_objects ! 0) ! 1 \<in> set (all_symbols [demo_objects ! 0])"
    "line_marker_name (symbol_table (demo_objects ! 0) ! 1) \<notin> fst ` set (definitions (all_symbols [demo_objects ! 0]))"
    by (simp_all add: demo_objects_def all_symbols_def definitions_def)
  then have "\<forall>linked. SysdarftLink demo_calculator False [demo_objects ! 0] \<noteq> Inr linked"
    using link_refuses_bad_symbols by blast
  ultimately show ?thesis by blast
qed

section \<open>Addresses as data\<close>

text \<open>Replacing a text that does not occur changes nothing.\<close>

lemma replace_scan_no_sublist: "\<not> sublist target s \<Longrightarrow> replace_scan target rep s = s"
  by (induction target rep s rule: replace_scan.induct) (auto simp: sublist_Cons_right)

lemma replace_all_no_sublist:
  assumes "\<not> sublist target s"
  shows "replace_all s target rep = s"
proof -
  have "filter (\<lambda>c. c \<noteq> CHR '' '') s = s" if "target = '' ''"
    using assms that by (auto simp: filter_id_conv) (metis sublist_appendI split_list append_Cons append_Nil)
  with assms show ?thesis by (auto simp: replace_all_def replace_scan_no_sublist)
qed

lemma to_string_digits: "list_all isdigit (to_string n)"
proof (rule to_base_all)
  fix d :: nat
  assume "d < 10"
  moreover have "list_all (\<lambda>d. isdigit (digit_char d)) [0..<10]" by code_simp
  ultimately show "isdigit (digit_char d)" by (simp add: list_all_iff)
qed simp

text \<open>The names of markers begin with a letter, an underscore or a dot.\<close>

definition marker_name_ok :: "string \<Rightarrow> bool" where
  "marker_name_ok n \<longleftrightarrow> n \<noteq> [] \<and> \<not> isdigit (hd n)"

lemma name_not_in_number: "marker_name_ok n \<Longrightarrow> \<not> sublist n (to_string k)"
  using to_string_digits [of k] set_mono_sublist [of n "to_string k"]
  by (cases n) (auto simp: marker_name_ok_def list_all_iff)

lemma replace_markers_number:
  assumes "\<forall>m\<in>set ms. marker_name_ok (line_marker_name m) \<and> line_marker_name m \<in> fst ` set tab"
  shows "replace_markers tab ms (to_string k) = Inr (to_string k)"
  using assms
proof (induction ms)
  case (Cons m ms)
  then obtain r where "map_of tab (line_marker_name m) = Some r"
    by (metis list.set_intros(1) map_of_eq_None_iff not_Some_eq)
  with Cons show ?case by (simp add: replace_all_no_sublist name_not_in_number)
qed simp

text \<open>An expression that is the name of a marker becomes its address.\<close>

lemma replace_markers_name:
  assumes "\<forall>m\<in>set ms. marker_name_ok (line_marker_name m) \<and> line_marker_name m \<in> fst ` set tab
      \<and> (line_marker_name m \<noteq> n \<longrightarrow> \<not> sublist (line_marker_name m) n)"
    and "n \<in> line_marker_name ` set ms"
  shows "replace_markers tab ms n = Inr (to_string (unat (address (symbol_ref tab n))))"
  using assms
proof (induction ms)
  case (Cons m ms)
  then obtain r where r: "map_of tab (line_marker_name m) = Some r"
    by (metis list.set_intros(1) map_of_eq_None_iff not_Some_eq)
  show ?case
  proof (cases "line_marker_name m = n")
    case True
    moreover have "n \<noteq> []" using Cons.prems(1) True by (auto simp: marker_name_ok_def)
    ultimately show ?thesis
      using r Cons.prems(1) by (simp add: replace_all_whole replace_markers_number symbol_ref_def)
  next
    case False
    with Cons r show ?thesis by (simp add: replace_all_no_sublist)
  qed
qed simp

lemma search_base16_none: "CHR ''x'' \<notin> set s \<Longrightarrow> search_from base16_pattern n s = None"
proof (induction s arbitrary: n)
  case Nil
  show ?case by (rule search_base16_Nil)
next
  case (Cons c s)
  have "\<not> prefix ''0x'' (c # s)" using Cons.prems by (cases s) auto
  then have "matches base16_pattern Some ([], n, c # s) = None"
    by (auto simp: base16_pattern_def matches_Lit)
  with Cons show ?case by (subst search_from.simps) simp
qed

lemma process_base16_decimal: "process_base16 (to_string k) = to_string k"
proof -
  have "\<not> isdigit (CHR ''X'')" "\<not> isdigit (CHR ''x'')" by code_simp+
  with to_string_digits [of k] have "CHR ''X'' \<notin> set (to_string k)" "CHR ''x'' \<notin> set (to_string k)"
    by (auto simp: list_all_iff)
  then show ?thesis
    using replace_scan_missing [of "CHR ''X''" "''0X''" "to_string k"] search_base16_none [of "to_string k" 0]
    by (simp add: process_base16_def regex_iterator_def)
qed



text \<open>
  Names are replaced as texts in data expressions: with the labels \<open>a\<close> at 1 and \<open>ab\<close> at 2, the
  expression \<open>ab\<close> becomes \<open>1b\<close>.
\<close>

theorem data_names_replaced_as_texts:
  "replace_markers [(''a'', \<lparr>address = 1, sym_referenced = False, defined = True\<rparr>),
      (''ab'', \<lparr>address = 2, sym_referenced = False, defined = True\<rparr>)]
     [\<lparr>line_marker_name = ''a'', marker_position = 1, is_defined = True, referenced = False, loc_it_appeared_in_cur_blk = []\<rparr>,
      \<lparr>line_marker_name = ''ab'', marker_position = 2, is_defined = True, referenced = False, loc_it_appeared_in_cur_blk = []\<rparr>]
     ''ab'' = Inr ''1b''"
  by code_simp

end
