(* ===== verification/Assembler.thy ===== *)
theory Assembler
  imports Linker Instruction_Encoder Regex_Language
begin

text \<open>
  The assembler (\<open>coding/Assembler.cpp\<close>): it turns the lines of a preprocessed file into an
  object, one entry of code per line, with the labels and the places that refer to them. The
  progress output is left out. The objects are shown to be what the linker expects, and the
  labels to stand at the addresses of the lines that follow them.
\<close>

section \<open>Texts in a line\<close>

text \<open>\<open>std::to_string(static_cast<int>(c))\<close>: \<open>char\<close> is signed.\<close>

definition char_to_decimal :: "char \<Rightarrow> string" where
  "char_to_decimal c = (if char_code c < 128 then to_string (char_code c)
     else CHR ''-'' # to_string (256 - char_code c))"

(* coding/Assembler.cpp 44-44: ascii_value_pattern *)
definition ascii_value_pattern :: rx where
  "ascii_value_pattern = Seqs [Lit [CHR 0x27], Cap 1 (Star (Chr (\<lambda>c. c \<noteq> CHR 0x27))), Lit [CHR 0x27]]"

(* coding/Assembler.cpp 49-69: process_ascii_value, matches *)
fun ascii_replacements :: "(string \<times> captures) list \<Rightarrow> cpu_error + (string \<times> string) list" where
  "ascii_replacements [] = Inr []"
| "ascii_replacements ((full_match, caps) # ms) =
     (case group 1 caps of
        [c] \<Rightarrow> map_result ((#) (full_match, char_to_decimal c)) (ascii_replacements ms)
      | _ \<Rightarrow> Inl StdException)"

(* coding/Assembler.cpp 45-76: process_ascii_value *)
definition process_ascii_value :: "string \<Rightarrow> cpu_error + string" where
  "process_ascii_value input =
     map_result (foldl (\<lambda>s (target, rep). replace_all s target rep) input)
       (ascii_replacements (regex_iterator ascii_value_pattern input))"

(* coding/Assembler.cpp 78-86: code_size_now *)
fun code_size_now :: "u8 list list \<Rightarrow> u64" where
  "code_size_now [] = 0"
| "code_size_now (line # c) = of_nat (length line) + code_size_now c"

(* coding/Assembler.cpp 90-90: resvb_pattern *)
definition resvb_pattern :: rx where
  "resvb_pattern = Seqs [Blanks, ILit ''.resvb'', Plus Blank, Lit ''<'', Cap 1 (Star Dot), Lit ''>'', Blanks]"

text \<open>\<open>None\<close> when the line is no such directive.\<close>

(* coding/Assembler.cpp 88-105: process_resvb *)
definition process_resvb :: "calculator \<Rightarrow> string \<Rightarrow> cpu_error + u8 list option" where
  "process_resvb bc input =
     (case regex_search resvb_pattern input of
        None \<Rightarrow> Inr None
      | Some (_, _, caps, _) \<Rightarrow>
          (case execute_bc bc (process_base16 (group 1 caps)) of
             Inl e \<Rightarrow> Inl e
           | Inr processed \<Rightarrow> Inr (Some (replicate (nat (strtoll 10 processed)) 0))))"

(* coding/Assembler.cpp 107-140: unescapeString *)
fun unescapeString :: "string \<Rightarrow> string" where
  "unescapeString [] = []"
| "unescapeString [c] = [c]"
| "unescapeString (c # d # cs) =
     (if c = CHR 0x5C then
        (if d = CHR ''n'' then [CHR 0x0A]
         else if d = CHR ''t'' then [CHR 0x09]
         else if d = CHR ''r'' then [CHR 0x0D]
         else if d = CHR 0x5C then [CHR 0x5C]
         else if d = CHR 0x27 then [CHR 0x27]
         else if d = CHR 0x22 then [CHR 0x22]
         else [CHR 0x5C, d]) @ unescapeString cs
      else c # unescapeString (d # cs))"

definition dquote :: char where "dquote = CHR 0x22"

(* coding/Assembler.cpp 144-144: string_pattern *)
definition string_pattern :: rx where
  "string_pattern = Seqs [Blanks, ILit ''.string'', Plus Blank, Lit ''<'', Blanks, Lit [dquote],
     Cap 1 (Star Dot), Lit [dquote], Blanks, Lit ''>'', Blanks]"

text \<open>
  From the first quotation mark to the last; if there is only one, the positions are equal.
  \<open>code.push_back(c)\<close> converts the character to a byte.
\<close>

definition char_byte :: "char \<Rightarrow> u8" where "char_byte c = of_nat (char_code c)"

(* coding/Assembler.cpp 153-167: process_string, quotation marks *)
definition between_quotes :: "string \<Rightarrow> string option" where
  "between_quotes s = (let behind = dropWhile (\<lambda>c. c \<noteq> dquote) s in
     if behind = [] \<or> dquote \<notin> set (tl behind) then None
     else Some (rev (tl (dropWhile (\<lambda>c. c \<noteq> dquote) (rev (tl behind))))))"

(* coding/Assembler.cpp 142-177: process_string *)
definition process_string :: "string \<Rightarrow> cpu_error + u8 list option" where
  "process_string input =
     (case regex_search string_pattern input of
        None \<Rightarrow> Inr None
      | Some _ \<Rightarrow>
          (case between_quotes (unescapeString input) of
             None \<Rightarrow> Inl SysdarftAssemblerError
           | Some inner \<Rightarrow> Inr (Some (map char_byte inner))))"

(* coding/Assembler.cpp 181-181: data_pattern *)
definition data_pattern :: rx where
  "data_pattern = Seqs [Blanks, Lit ''.'', Cap 1 (Alts [Lit ''8'', Lit ''16'', Lit ''32'', Lit ''64'']),
     ILit ''bit_data'', Plus Blank, Lit ''<'', Cap 2 (Star Dot), Lit ''>'', Blanks]"

text \<open>The size and the expression; the place is set by the caller.\<close>

(* coding/Assembler.cpp 179-192: process_data *)
definition process_data :: "string \<Rightarrow> (nat \<times> string) option" where
  "process_data input =
     (case regex_search data_pattern input of
        None \<Rightarrow> None
      | Some (_, _, caps, _) \<Rightarrow> Some (nat (strtoll 10 (group 1 caps)) div 8, group 2 caps))"

section \<open>Markers\<close>

(* include/EncodingDecoding.h 653-653: line_mark_pattern *)
definition line_mark_pattern :: rx where
  "line_mark_pattern = Seqs [Bol, Blanks, Cap 1 (Seq (Chr name_start) (Star (Chr name_char))), Blanks,
     Lit '':'', Blanks, Eol]"

(* coding/Assembler.cpp 208-231: SysdarftAssemble, emplace_marker *)
fun emplace_marker :: "string \<Rightarrow> u64 \<Rightarrow> line_marker_t list \<Rightarrow> cpu_error + line_marker_t list" where
  "emplace_marker marker offset [] = Inr [\<lparr>line_marker_name = marker, marker_position = offset, is_defined = True,
     referenced = False, loc_it_appeared_in_cur_blk = []\<rparr>]"
| "emplace_marker marker offset (m # ms) =
     (if line_marker_name m = marker
      then if is_defined m then Inl SysdarftAssemblerError
           else Inr (m\<lparr>is_defined := True, marker_position := offset\<rparr> # ms)
      else map_result ((#) m) (emplace_marker marker offset ms))"

(* coding/Assembler.cpp 233-250: SysdarftAssemble, add_marker_reference *)
fun add_marker_reference :: "string \<Rightarrow> nat \<Rightarrow> line_marker_t list \<Rightarrow> line_marker_t list" where
  "add_marker_reference marker offset [] = [\<lparr>line_marker_name = marker, marker_position = 0, is_defined = False,
     referenced = True, loc_it_appeared_in_cur_blk = [offset]\<rparr>]"
| "add_marker_reference marker offset (m # ms) =
     (if line_marker_name m = marker
      then m\<lparr>loc_it_appeared_in_cur_blk := loc_it_appeared_in_cur_blk m @ [offset], referenced := True\<rparr> # ms
      else m # add_marker_reference marker offset ms)"

text \<open>
  The name of a marker becomes part of a pattern. Names consist of letters, digits,
  underscores and dots, as the patterns for labels and \<open>.lab\<close> prescribe; a dot stands for any
  character.
\<close>

(* coding/Assembler.cpp 331-331: SysdarftAssemble, marker name *)
definition name_rx :: "string \<Rightarrow> rx" where
  "name_rx name = foldr (\<lambda>c r. Seq (if c = CHR ''.'' then Dot else Chr ((=) c)) r) name Eps"

(* coding/Assembler.cpp 331-331: SysdarftAssemble, marker *)
definition marker_pattern :: "string \<Rightarrow> rx" where
  "marker_pattern name = Seqs [Cap 1 (Star Dot),
     Cap 2 (Seqs [Lit ''<'', Blanks, name_rx name, Blanks, Lit ''>'']), Cap 3 (Star Dot)]"

text \<open>The first marker with an operand in the line, and the text of that operand.\<close>

(* coding/Assembler.cpp 328-337: SysdarftAssemble, appearances of marker operand *)
fun marker_operand :: "line_marker_t list \<Rightarrow> string \<Rightarrow> (string \<times> string) option" where
  "marker_operand [] line = None"
| "marker_operand (m # ms) line =
     (case regex_search (marker_pattern (line_marker_name m)) line of
        Some (_, _, caps, _) \<Rightarrow> Some (line_marker_name m, group 2 caps)
      | None \<Rightarrow> marker_operand ms line)"

section \<open>Lines\<close>

record asm_state =
  instruction_buffer_set :: "u8 list list"
  appeared_line_markers :: "line_marker_t list"
  data_processors :: "data_expression_identifier list"

definition placeholder_text :: string where
  "placeholder_text = ''<$64(0xFFFFFFFFFFFFFFFF)>''"

definition emplace_code :: "u8 list \<Rightarrow> asm_state \<Rightarrow> asm_state" where
  "emplace_code bytes s = s\<lparr>instruction_buffer_set := instruction_buffer_set s @ [bytes]\<rparr>"

(* coding/Assembler.cpp 327-345: SysdarftAssemble, instruction *)
definition assemble_instruction :: "calculator \<Rightarrow> string \<Rightarrow> asm_state \<Rightarrow> cpu_error + asm_state" where
  "assemble_instruction bc line s =
     (case marker_operand (appeared_line_markers s) line of
        None \<Rightarrow> (case encode_instruction bc line [] of
            (Inl e, _) \<Rightarrow> Inl e
          | (Inr _, bytes) \<Rightarrow> Inr (emplace_code bytes s))
      | Some (name, operand) \<Rightarrow>
          (case encode_instruction bc (replace_all line operand placeholder_text) [] of
             (Inl e, _) \<Rightarrow> Inl e
           | (Inr _, bytes) \<Rightarrow> Inr (emplace_code bytes
               (s\<lparr>appeared_line_markers := add_marker_reference name (length (instruction_buffer_set s) - 1)
                    (appeared_line_markers s)\<rparr>))))"

(* coding/Assembler.cpp 314-325: SysdarftAssemble, ASCII and data *)
definition assemble_data_line :: "calculator \<Rightarrow> string \<Rightarrow> asm_state \<Rightarrow> cpu_error + asm_state" where
  "assemble_data_line bc line s =
     (case process_ascii_value line of
        Inl e \<Rightarrow> Inl e
      | Inr line' \<Rightarrow>
          (case process_data line' of
             Some (n, expression) \<Rightarrow> Inr (emplace_code (replicate n 0)
               (s\<lparr>data_processors := data_processors s @
                  [\<lparr>data_appearance = length (instruction_buffer_set s) - 1, data_byte_count = n,
                    data_string = expression\<rparr>]\<rparr>))
           | None \<Rightarrow> assemble_instruction bc line' s))"

(* coding/Assembler.cpp 296-306: SysdarftAssemble, offsets *)
definition expand_offsets :: "u64 \<Rightarrow> u64 \<Rightarrow> string \<Rightarrow> string" where
  "expand_offsets origin here line =
     (let line1 = (if occurs ''@@'' line then replace_all line ''@@'' (to_string (unat origin)) else line)
      in if occurs ''@'' line1 then replace_all line1 ''@'' (to_string (unat here)) else line1)"

(* coding/Assembler.cpp 287-349: SysdarftAssemble, code of a line *)
definition assemble_code_line :: "calculator \<Rightarrow> u64 \<Rightarrow> string \<Rightarrow> asm_state \<Rightarrow> cpu_error + asm_state" where
  "assemble_code_line bc origin line s =
     (case process_string line of
        Inl e \<Rightarrow> Inl e
      | Inr (Some bytes) \<Rightarrow> Inr (emplace_code bytes s)
      | Inr None \<Rightarrow>
          let line' = expand_offsets origin (code_size_now (instruction_buffer_set s) + origin) line in
          (case process_resvb bc line' of
             Inl e \<Rightarrow> Inl e
           | Inr (Some bytes) \<Rightarrow> Inr (emplace_code bytes s)
           | Inr None \<Rightarrow> assemble_data_line bc line' s))"

(* coding/Assembler.cpp 203-206: SysdarftAssemble, is_line_empty *)
definition is_line_empty :: "string \<Rightarrow> bool" where
  "is_line_empty line \<longleftrightarrow> replace_all line '' '' [] = []"

(* coding/Assembler.cpp 256-350: SysdarftAssemble, loop *)
definition assemble_line :: "calculator \<Rightarrow> u64 \<Rightarrow> string \<Rightarrow> asm_state \<Rightarrow> cpu_error + asm_state" where
  "assemble_line bc origin line s =
     (if is_line_empty line then Inr s
      else case regex_match line_mark_pattern line of
        Some caps \<Rightarrow> map_result (\<lambda>ms. s\<lparr>appeared_line_markers := ms\<rparr>)
          (emplace_marker (group 1 caps) (code_size_now (instruction_buffer_set s) + origin) (appeared_line_markers s))
      | None \<Rightarrow>
          (case assemble_code_line bc origin line s of
             Inl e \<Rightarrow> Inl (if derived_from_exception e then SysdarftAssemblerError else e)
           | Inr s' \<Rightarrow> Inr s'))"

fun assemble_lines :: "calculator \<Rightarrow> u64 \<Rightarrow> string list \<Rightarrow> asm_state \<Rightarrow> cpu_error + asm_state" where
  "assemble_lines bc origin [] s = Inr s"
| "assemble_lines bc origin (line # file) s =
     (case assemble_line bc origin line s of Inl e \<Rightarrow> Inl e | Inr s' \<Rightarrow> assemble_lines bc origin file s')"

text \<open>The object, the origin for the next file, and the markers without their places.\<close>

(* coding/Assembler.cpp 194-369: SysdarftAssemble *)
definition SysdarftAssemble :: "calculator \<Rightarrow> u8 list list \<Rightarrow> string list \<Rightarrow> u64 \<Rightarrow> line_marker_t list \<Rightarrow>
    cpu_error + object_t \<times> u64 \<times> line_marker_t list" where
  "SysdarftAssemble bc buffer file origin markers =
     (case assemble_lines bc origin file \<lparr>instruction_buffer_set = buffer @ [[]], appeared_line_markers = markers,
          data_processors = []\<rparr> of
        Inl e \<Rightarrow> Inl e
      | Inr s \<Rightarrow>
          let c = tl (instruction_buffer_set s) in
          Inr (\<lparr>code = c, symbol_table = appeared_line_markers s, data_expression_identifiers = data_processors s\<rparr>,
            origin + code_size_now c,
            map (\<lambda>m. m\<lparr>loc_it_appeared_in_cur_blk := []\<rparr>) (appeared_line_markers s)))"

section \<open>Names and sizes from patterns\<close>

lemma name_start_not_digit: "name_start c \<Longrightarrow> \<not> isdigit c"
  by (auto simp: name_start_def isdigit_def between_def)

lemma label_name_ok:
  assumes "regex_match line_mark_pattern line = Some caps"
  shows "marker_name_ok (group 1 caps) \<and> (\<forall>c\<in>set (group 1 caps). name_char c)"
proof -
  have "\<exists>n v. accepts (Seq (Chr name_start) (Star (Chr name_char))) n (group 1 caps) v"
    using assms by (rule group_accepted) (auto simp: line_mark_pattern_def)
  then show ?thesis
    using name_start_not_digit by (auto simp: accepts_parts marker_name_ok_def name_char_def)
qed

text \<open>The sizes of data are those the linker handles.\<close>

lemma process_data_size:
  assumes "process_data line = Some (n, expression)"
  shows "n \<in> {1, 2, 4, 8}"
proof -
  from assms obtain j t caps rest where s: "regex_search data_pattern line = Some (j, t, caps, rest)"
    and n: "n = nat (strtoll 10 (group 1 caps)) div 8"
    by (auto simp: process_data_def split: option.splits)
  have "\<exists>k v. accepts (Alts [Lit ''8'', Lit ''16'', Lit ''32'', Lit ''64'']) k (group 1 caps) v"
    using s by (rule group_accepted_search) (auto simp: data_pattern_def Plus_def)
  then have "group 1 caps \<in> {''8'', ''16'', ''32'', ''64''}" by (auto simp: accepts_parts)
  moreover have "strtoll 10 ''8'' = 8" "strtoll 10 ''16'' = 16" "strtoll 10 ''32'' = 32" "strtoll 10 ''64'' = 64"
    by code_simp+
  ultimately show ?thesis unfolding n by auto
qed

section \<open>What the assembler promises\<close>

text \<open>A defined marker stands at the address of the line of code behind it, or of the end.\<close>

definition placed :: "u64 \<Rightarrow> u8 list list \<Rightarrow> line_marker_t \<Rightarrow> bool" where
  "placed origin c m \<longleftrightarrow> (is_defined m \<longrightarrow>
     (\<exists>k\<le>length c. marker_position m = origin + code_size_now (take k c)))"

definition marker_lines :: "line_marker_t list \<Rightarrow> nat list" where
  "marker_lines ms = concat (map loc_it_appeared_in_cur_blk ms)"

lemma code_size_append [simp]: "code_size_now (c @ d) = code_size_now c + code_size_now d"
  by (induction c) simp_all

lemma placed_grows: "placed origin c m \<Longrightarrow> placed origin (c @ d) m"
proof -
  have "take k (c @ d) = take k c" if "k \<le> length c" for k using that by simp
  moreover have "length c \<le> length (c @ d)" by simp
  moreover assume "placed origin c m"
  ultimately show ?thesis unfolding placed_def by (metis le_trans)
qed

lemma data_ok_grows: "data_ok c d \<Longrightarrow> data_ok (c @ e) d"
  by (auto simp: data_ok_def nth_append)

text \<open>
  The invariant of the loop, for the code \<open>c\<close> behind the empty entry: the object made so far
  is well-formed, its markers stand where they say, and they have proper names.
\<close>

definition object_so_far :: "u8 list list \<Rightarrow> asm_state \<Rightarrow> object_t" where
  "object_so_far c s = \<lparr>code = c, symbol_table = appeared_line_markers s, data_expression_identifiers = data_processors s\<rparr>"

definition asm_inv :: "u64 \<Rightarrow> u8 list list \<Rightarrow> asm_state \<Rightarrow> bool" where
  "asm_inv origin c s \<longleftrightarrow> instruction_buffer_set s = [] # c \<and> wf_object (object_so_far c s)
     \<and> (\<forall>m\<in>set (appeared_line_markers s). placed origin c m \<and> marker_name_ok (line_marker_name m))"

lemma asm_inv_iff:
  "asm_inv origin c s \<longleftrightarrow> instruction_buffer_set s = [] # c
     \<and> distinct (marker_lines (appeared_line_markers s)) \<and> distinct (map data_appearance (data_processors s))
     \<and> (\<forall>i\<in>set (marker_lines (appeared_line_markers s)). i < length c)
     \<and> (\<forall>d\<in>set (data_processors s). data_ok c d \<and> data_appearance d \<notin> set (marker_lines (appeared_line_markers s)))
     \<and> (\<forall>m\<in>set (appeared_line_markers s). placed origin c m \<and> marker_name_ok (line_marker_name m))"
proof -
  have "reference_lines (object_so_far c s) = marker_lines (appeared_line_markers s)"
    by (simp add: reference_lines_def object_so_far_def marker_lines_def)
  then show ?thesis unfolding asm_inv_def wf_object_def by (simp add: object_so_far_def)
qed

lemma asm_inv_emplace:
  "asm_inv origin c s \<Longrightarrow> asm_inv origin (c @ [b]) (emplace_code b s)"
  by (auto simp: asm_inv_iff emplace_code_def placed_grows data_ok_grows less_SucI)

lemma marker_lines_reference:
  "set (marker_lines (add_marker_reference name i ms)) = insert i (set (marker_lines ms))"
  "distinct (marker_lines ms) \<Longrightarrow> i \<notin> set (marker_lines ms) \<Longrightarrow> distinct (marker_lines (add_marker_reference name i ms))"
proof -
  show same: "set (marker_lines (add_marker_reference name i ms)) = insert i (set (marker_lines ms))" for name i ms
    by (induction name i ms rule: add_marker_reference.induct) (auto simp: marker_lines_def)
  show "distinct (marker_lines (add_marker_reference name i ms))"
    if "distinct (marker_lines ms)" "i \<notin> set (marker_lines ms)" for ms
    using that
  proof (induction name i ms rule: add_marker_reference.induct)
    case (2 name i m ms)
    have "marker_lines (m # ms) = loc_it_appeared_in_cur_blk m @ marker_lines ms" for m ms
      by (simp add: marker_lines_def)
    with 2 same [of name i ms] show ?case by auto
  qed (simp add: marker_lines_def)
qed

lemma markers_reference:
  assumes "m \<in> set (add_marker_reference name i ms)" and "name \<in> line_marker_name ` set ms"
  shows "\<exists>m'\<in>set ms. line_marker_name m = line_marker_name m' \<and> is_defined m = is_defined m'
    \<and> marker_position m = marker_position m'"
  using assms by (induction name i ms rule: add_marker_reference.induct) (auto split: if_splits)

lemma asm_inv_reference:
  assumes inv: "asm_inv origin c s" and name: "name \<in> line_marker_name ` set (appeared_line_markers s)"
  shows "asm_inv origin (c @ [b]) (emplace_code b (s\<lparr>appeared_line_markers :=
    add_marker_reference name (length (instruction_buffer_set s) - 1) (appeared_line_markers s)\<rparr>))"
proof -
  let ?ms = "add_marker_reference name (length c) (appeared_line_markers s)"
  let ?s = "emplace_code b (s\<lparr>appeared_line_markers := ?ms\<rparr>)"
  have len: "length (instruction_buffer_set s) - 1 = length c" using inv by (simp add: asm_inv_iff)
  have fresh: "length c \<notin> set (marker_lines (appeared_line_markers s))" using inv by (auto simp: asm_inv_iff)
  have "\<forall>d\<in>set (data_processors s). data_appearance d \<noteq> length c" using inv by (auto simp: asm_inv_iff data_ok_def)
  moreover have "placed origin (c @ [b]) m \<and> marker_name_ok (line_marker_name m)" if "m \<in> set ?ms" for m
    using markers_reference [OF that name] inv placed_grows [of origin c _ "[b]"]
    by (fastforce simp: asm_inv_iff placed_def)
  ultimately have "asm_inv origin (c @ [b]) ?s"
    using inv fresh marker_lines_reference [where name = name and i = "length c" and ms = "appeared_line_markers s"]
    by (auto simp: asm_inv_iff emplace_code_def data_ok_grows less_SucI)
  then show ?thesis unfolding len .
qed

lemma marker_operand_name: "marker_operand ms line = Some (name, t) \<Longrightarrow> name \<in> line_marker_name ` set ms"
  by (induction ms line rule: marker_operand.induct) (auto split: option.splits)

lemma assemble_instruction_inv:
  assumes "assemble_instruction bc line s = Inr s'" and "asm_inv origin c s"
  shows "\<exists>b. asm_inv origin (c @ [b]) s'"
  using assms
  by (auto simp: assemble_instruction_def dest!: marker_operand_name split: option.splits prod.splits sum.splits
      intro!: exI asm_inv_emplace asm_inv_reference [simplified])

lemma assemble_data_line_inv:
  assumes "assemble_data_line bc line s = Inr s'" and inv: "asm_inv origin c s"
  shows "\<exists>b. asm_inv origin (c @ [b]) s'"
proof (cases "process_ascii_value line")
  case (Inr line')
  show ?thesis
  proof (cases "process_data line'")
    case None
    with assms Inr show ?thesis by (auto simp: assemble_data_line_def intro: assemble_instruction_inv)
  next
    case (Some r)
    obtain n expression where r: "r = (n, expression)" by (cases r)
    let ?d = "\<lparr>data_appearance = length c, data_byte_count = n, data_string = expression\<rparr>"
    have s': "s' = emplace_code (replicate n 0) (s\<lparr>data_processors := data_processors s @ [?d]\<rparr>)"
      using assms Inr Some r by (simp add: assemble_data_line_def asm_inv_iff)
    have "length c \<notin> data_appearance ` set (data_processors s)" using inv by (auto simp: asm_inv_iff data_ok_def)
    moreover have "data_ok (c @ [replicate n 0]) ?d"
      using process_data_size [of line' n expression] Some r by (simp add: data_ok_def)
    ultimately have "asm_inv origin (c @ [replicate n 0]) s'"
      using inv by (auto simp: asm_inv_iff s' emplace_code_def placed_grows data_ok_grows less_SucI)
    then show ?thesis by blast
  qed
qed (use assms in \<open>simp add: assemble_data_line_def\<close>)

lemma assemble_code_line_inv:
  assumes "assemble_code_line bc origin line s = Inr s'" and "asm_inv origin c s"
  shows "\<exists>b. asm_inv origin (c @ [b]) s'"
  using assms
  by (auto simp: assemble_code_line_def Let_def split: sum.splits option.splits
      intro: exI asm_inv_emplace assemble_data_line_inv)

lemma emplace_marker_result:
  assumes "emplace_marker name a ms = Inr ms'"
  shows "marker_lines ms' = marker_lines ms"
    and "m \<in> set ms' \<Longrightarrow> (is_defined m \<and> line_marker_name m = name \<and> marker_position m = a) \<or> m \<in> set ms"
  using assms
  by (induction name a ms arbitrary: ms' rule: emplace_marker.induct)
    (auto simp: marker_lines_def map_result_def split: if_splits sum.splits)

lemma asm_inv_marker:
  assumes "emplace_marker name (code_size_now (instruction_buffer_set s) + origin) (appeared_line_markers s) = Inr ms'"
    and "asm_inv origin c s" and "marker_name_ok name"
  shows "asm_inv origin c (s\<lparr>appeared_line_markers := ms'\<rparr>)"
proof -
  note new = emplace_marker_result [OF assms(1)]
  have "code_size_now (instruction_buffer_set s) + origin = origin + code_size_now (take (length c) c)"
    using assms(2) by (simp add: asm_inv_iff)
  then have "placed origin c m \<and> marker_name_ok (line_marker_name m)" if "m \<in> set ms'" for m
    using new(2) [OF that] assms(2,3) by (auto simp: asm_inv_iff placed_def)
  with assms(2) new(1) show ?thesis by (simp add: asm_inv_iff)
qed

lemma assemble_line_inv:
  assumes "assemble_line bc origin line s = Inr s'" and inv: "asm_inv origin c s"
  shows "\<exists>c'. asm_inv origin c' s'"
proof (cases "regex_match line_mark_pattern line")
  case None
  with assms show ?thesis
    by (auto simp: assemble_line_def split: if_splits sum.splits dest: assemble_code_line_inv)
next
  case (Some caps)
  from label_name_ok [OF this] have "marker_name_ok (group (Suc 0) caps)" by simp
  with Some assms show ?thesis
    by (auto simp: assemble_line_def map_result_def split: if_splits sum.splits
        intro!: exI [of _ c] asm_inv_marker)
qed

lemma assemble_lines_inv:
  "assemble_lines bc origin ls s = Inr s' \<Longrightarrow> asm_inv origin c s \<Longrightarrow> \<exists>c'. asm_inv origin c' s'"
proof (induction ls arbitrary: c s)
  case (Cons line ls)
  then show ?case by (fastforce split: sum.splits dest: assemble_line_inv)
qed auto

text \<open>Markers as the preprocessor leaves them.\<close>

definition fresh_marker :: "line_marker_t \<Rightarrow> bool" where
  "fresh_marker m \<longleftrightarrow> \<not> is_defined m \<and> loc_it_appeared_in_cur_blk m = [] \<and> marker_name_ok (line_marker_name m)"

lemma assemble_result:
  assumes "SysdarftAssemble bc [] file origin markers = Inr (obj, origin', markers')"
    and "\<forall>m\<in>set markers. fresh_marker m"
  shows "wf_object obj \<and> origin' = origin + code_size_now (code obj)
    \<and> (\<forall>m\<in>set (symbol_table obj). placed origin (code obj) m \<and> marker_name_ok (line_marker_name m))"
proof -
  let ?s0 = "\<lparr>instruction_buffer_set = [] @ [[]], appeared_line_markers = markers, data_processors = []\<rparr>"
  from assms(1) obtain s where s: "assemble_lines bc origin file ?s0 = Inr s"
    "obj = object_so_far (tl (instruction_buffer_set s)) s"
    "origin' = origin + code_size_now (tl (instruction_buffer_set s))"
    by (auto simp: SysdarftAssemble_def object_so_far_def Let_def split: sum.splits)
  have "marker_lines markers = []" using assms(2) by (auto simp: marker_lines_def fresh_marker_def)
  then have "asm_inv origin [] ?s0" using assms(2) by (simp add: asm_inv_iff fresh_marker_def placed_def)
  from assemble_lines_inv [OF s(1) this] obtain c where "asm_inv origin c s" ..
  moreover from this have "obj = object_so_far c s" "tl (instruction_buffer_set s) = c" using s(2) by (simp_all add: asm_inv_iff)
  ultimately show ?thesis using s(3) by (simp add: asm_inv_def) (simp add: object_so_far_def)
qed

section \<open>Labels stand where they are defined\<close>

text \<open>Code is only appended, and a definition stays.\<close>

definition extends :: "asm_state \<Rightarrow> asm_state \<Rightarrow> bool" where
  "extends s s' \<longleftrightarrow> prefix (instruction_buffer_set s) (instruction_buffer_set s')
     \<and> set (definitions (appeared_line_markers s)) \<subseteq> set (definitions (appeared_line_markers s'))"

lemma extends_refl [simp]: "extends s s"
  by (simp add: extends_def)

lemma extends_trans: "extends s s1 \<Longrightarrow> extends s1 s2 \<Longrightarrow> extends s s2"
  by (auto simp: extends_def)

lemma definitions_reference [simp]:
  "name \<in> line_marker_name ` set ms \<Longrightarrow> definitions (add_marker_reference name i ms) = definitions ms"
  by (induction name i ms rule: add_marker_reference.induct) auto

lemma definitions_emplace:
  assumes "emplace_marker name a ms = Inr ms'"
  shows "set (definitions ms') = insert (name, a) (set (definitions ms))"
  using assms
  by (induction name a ms arbitrary: ms' rule: emplace_marker.induct)
    (auto simp: map_result_def split: if_splits sum.splits)

lemma extends_emplace: "extends s (emplace_code b (s\<lparr>data_processors := ds\<rparr>))" "extends s (emplace_code b s)"
  by (simp_all add: extends_def emplace_code_def)

lemma extends_reference:
  "name \<in> line_marker_name ` set (appeared_line_markers s)
     \<Longrightarrow> extends s (emplace_code b (s\<lparr>appeared_line_markers := add_marker_reference name i (appeared_line_markers s)\<rparr>))"
  by (simp add: extends_def emplace_code_def)

lemma assemble_line_extends:
  assumes "assemble_line bc origin line s = Inr s'"
  shows "extends s s'"
proof -
  have "extends s s'" if "assemble_code_line bc origin line s = Inr s'"
    using that
    by (auto simp: assemble_code_line_def assemble_data_line_def assemble_instruction_def Let_def extends_emplace
        split: sum.splits option.splits prod.splits intro!: extends_reference dest!: marker_operand_name)
  with assms show ?thesis
    by (auto simp: assemble_line_def map_result_def extends_def split: if_splits sum.splits option.splits
        dest: definitions_emplace)
qed

lemma assemble_lines_extends: "assemble_lines bc origin ls s = Inr s' \<Longrightarrow> extends s s'"
proof (induction ls arbitrary: s)
  case (Cons l ls)
  then obtain s1 where "assemble_line bc origin l s = Inr s1" "assemble_lines bc origin ls s1 = Inr s'"
    by (auto split: sum.splits)
  with Cons.IH assemble_line_extends extends_trans show ?case by blast
qed simp

lemma assemble_lines_append:
  "assemble_lines bc origin (ls @ ls') s =
     (case assemble_lines bc origin ls s of Inl e \<Rightarrow> Inl e | Inr s' \<Rightarrow> assemble_lines bc origin ls' s')"
  by (induction ls arbitrary: s) (auto split: sum.splits)

text \<open>The number of entries of code that the lines before a label make.\<close>

definition code_lines :: "calculator \<Rightarrow> u64 \<Rightarrow> line_marker_t list \<Rightarrow> string list \<Rightarrow> nat" where
  "code_lines bc origin markers ls =
     (case assemble_lines bc origin ls \<lparr>instruction_buffer_set = [[]], appeared_line_markers = markers, data_processors = []\<rparr> of
        Inr s \<Rightarrow> length (instruction_buffer_set s) - 1
      | Inl _ \<Rightarrow> 0)"

definition label_line :: "string \<Rightarrow> string \<Rightarrow> bool" where
  "label_line line name \<longleftrightarrow> \<not> is_line_empty line \<and> (\<exists>caps. regex_match line_mark_pattern line = Some caps \<and> group 1 caps = name)"

lemma label_defined:
  assumes "SysdarftAssemble bc [] (pre @ line # post) origin markers = Inr (obj, origin', markers')"
    and "label_line line name" and "\<forall>m\<in>set markers. fresh_marker m"
  shows "code_lines bc origin markers pre \<le> length (code obj)"
    and "(name, origin + code_size_now (take (code_lines bc origin markers pre) (code obj))) \<in> set (definitions (symbol_table obj))"
proof -
  let ?s0 = "\<lparr>instruction_buffer_set = [[]], appeared_line_markers = markers, data_processors = []\<rparr>"
  from assms(1) obtain s3 where s3: "assemble_lines bc origin (pre @ line # post) ?s0 = Inr s3"
    "code obj = tl (instruction_buffer_set s3)" "symbol_table obj = appeared_line_markers s3"
    by (auto simp: SysdarftAssemble_def Let_def split: sum.splits)
  then obtain s1 s2 where s1: "assemble_lines bc origin pre ?s0 = Inr s1" and s2: "assemble_line bc origin line s1 = Inr s2"
    and post: "assemble_lines bc origin post s2 = Inr s3"
    by (auto simp: assemble_lines_append split: sum.splits)
  have "marker_lines markers = []" using assms(3) by (auto simp: marker_lines_def fresh_marker_def)
  then have "asm_inv origin [] ?s0" using assms(3) by (simp add: asm_inv_iff fresh_marker_def placed_def)
  from assemble_lines_inv [OF s1 this] obtain c where c: "instruction_buffer_set s1 = [] # c" by (auto simp: asm_inv_iff)
  then have k: "code_lines bc origin markers pre = length c" by (simp add: code_lines_def s1)
  have ext: "extends s1 s3"
    using assemble_line_extends [OF s2] assemble_lines_extends [OF post] by (rule extends_trans)
  then obtain d where d: "instruction_buffer_set s3 = [] # c @ d" using c by (auto simp: extends_def prefix_def)
  then show "code_lines bc origin markers pre \<le> length (code obj)" using s3(2) k by simp
  have "(name, code_size_now (instruction_buffer_set s1) + origin) \<in> set (definitions (appeared_line_markers s2))"
    using s2 assms(2) definitions_emplace
    by (fastforce simp: assemble_line_def label_line_def map_result_def split: sum.splits)
  then have "(name, code_size_now c + origin) \<in> set (definitions (symbol_table obj))"
    using assemble_lines_extends [OF post] c s3(3) by (auto simp: extends_def)
  then show "(name, origin + code_size_now (take (code_lines bc origin markers pre) (code obj))) \<in> set (definitions (symbol_table obj))"
    using d s3(2) k by (simp add: add.commute)
qed


section \<open>References as operands\<close>

lemma placeholder_operand:
  "operand_bytes (Direct (ConstantCode prefix_64bit (- 1))) = tmp_address_hex"
  "operand_bytes (Direct (ConstantCode prefix_64bit a)) = encode_constant_from_uint64_t a"
proof -
  show "operand_bytes (Direct (ConstantCode prefix_64bit (- 1))) = tmp_address_hex" by code_simp
  show "operand_bytes (Direct (ConstantCode prefix_64bit a)) = encode_constant_from_uint64_t a"
    by (simp add: encode_constant_from_uint64_t_def)
qed

text \<open>
  The linker gives the instruction with the placeholder the address as its operand.
\<close>

lemma linked_operand:
  assumes "points_to (instruction_bytes c) l' a"
    and "code_operands c = us @ Direct (ConstantCode prefix_64bit (- 1)) # vs"
  shows "l' = instruction_bytes (c\<lparr>code_operands := us @ Direct (ConstantCode prefix_64bit a) # vs\<rparr>)"
proof -
  let ?pre = "code_opcode c # (if code_width c = 0 then [] else [code_width c]) @ concat (map operand_bytes us)"
  let ?post = "concat (map operand_bytes vs)"
  have bytes: "instruction_bytes (c\<lparr>code_operands := us @ x # vs\<rparr>) = ?pre @ operand_bytes x @ ?post" for x
    by (simp add: instruction_bytes_def)
  have "c\<lparr>code_operands := us @ Direct (ConstantCode prefix_64bit (- 1)) # vs\<rparr> = c" using assms(2) by (cases c) simp
  then have "instruction_bytes c = ?pre @ tmp_address_hex @ ?post"
    using bytes [of "Direct (ConstantCode prefix_64bit (- 1))"] by (simp only: placeholder_operand(1))
  with assms(1) have "points_to (?pre @ tmp_address_hex @ ?post) l' a" by (simp only:)
  from points_to_placed [OF this] have "l' = ?pre @ encode_constant_from_uint64_t a @ ?post" .
  then show ?thesis unfolding bytes placeholder_operand(2) .
qed

text \<open>
  C8: a resolved reference is what the CPU executes. When the line of an instruction with the
  placeholder as an operand has been linked to an address, the CPU decodes the linked bytes as
  that instruction, with the address as a 64-bit constant for that operand and all other
  operands as they were.
\<close>

theorem linked_reference_decoded:
  assumes "points_to (instruction_bytes c) l' a"
    and "code_operands c = us @ Direct (ConstantCode prefix_64bit (- 1)) # vs" and "wf_instruction c"
    and "code_at s (l' @ rest)"
  shows "pop_instruction_from_ip_and_increase_ip s
    = (Inr \<lparr>opcode = code_opcode c, width = code_width c, operands =
         map (operand_meaning (Registers s)) us @ ConstantOperand a prefix_64bit # map (operand_meaning (Registers s)) vs\<rparr>,
       advance (length l') s)"
proof -
  let ?c = "c\<lparr>code_operands := us @ Direct (ConstantCode prefix_64bit a) # vs\<rparr>"
  have l': "l' = instruction_bytes ?c" using assms(1,2) by (rule linked_operand)
  have "wf_instruction ?c" using assms(2,3) by (auto simp: wf_instruction_def split: option.splits)
  from pop_instruction_at [OF _ this] assms(4) l' show ?thesis
    by (simp add: instruction_meaning_def truncate_to_def take_bit_word_eq_self)
qed

text \<open>A jump to a label: the line with the placeholder in its place is the text of an instruction.\<close>

definition demo_jump :: code_instruction where
  "demo_jump = \<lparr>code_opcode = OPCODE_JMP, code_width = 0,
     code_operands = [Direct (RegisterCode prefix_64bit 0xA2), Direct (ConstantCode prefix_64bit (- 1))]\<rparr>"

lemma ones_hex: "to_hex 18446744073709551615 = ''FFFFFFFFFFFFFFFF''"
proof -
  have "digit_char 15 = CHR ''F''" by code_simp
  then show ?thesis by (simp add: to_base.simps)
qed

lemma demo_jump_texts:
  "unat (truncate_to prefix_64bit (- 1)) = 18446744073709551615"
  "register_text prefix_64bit 0xA2 = ''%CB''" "bits_text prefix_64bit = ''64''"
proof -
  have "truncate_to prefix_64bit (- 1) = 18446744073709551615" by code_simp
  then show "unat (truncate_to prefix_64bit (- 1)) = 18446744073709551615" by simp
qed code_simp+

lemma demo_jump_parsed:
  "map parsed_operand (code_operands demo_jump) = [register_target ''%CB'', constant_target ''64'' ''0XFFFFFFFFFFFFFFFF'']"
  by (simp add: demo_jump_def demo_jump_texts ones_hex)

lemma demo_jump_text: "instruction_text demo_jump = ''JMP <%CB>, <$64(0xFFFFFFFFFFFFFFFF)>''"
proof -
  have "map_option (\<lambda>e. (mnemonic e, require_width e)) (find_opcode OPCODE_JMP) = Some (''JMP'', False)" by code_simp
  then show ?thesis by (auto simp: demo_jump_def instruction_text_def demo_jump_texts ones_hex)
qed

lemma demo_jump_facts:
  "wf_instruction demo_jump" "list_all asm_operand (code_operands demo_jump)"
  "list_all (width_consistent (code_width demo_jump)) (map parsed_operand (code_operands demo_jump))"
  "OperandSanityCheck (code_opcode demo_jump) (map parsed_operand (code_operands demo_jump)) = Inr ()"
  "instruction_bytes demo_jump = [0x30, 0x01, 0x64, 0xA2] @ tmp_address_hex"
  unfolding demo_jump_parsed by code_simp+

theorem linked_reference_decoded_witness:
  "fst (pop_instruction_from_ip_and_increase_ip
     (code_machine [0x30, 0x01, 0x64, 0xA2, 0x02, 0x64, 0x0F, 0x01, 0, 0, 0, 0, 0, 0]))
   = Inr \<lparr>opcode = OPCODE_JMP, width = 0, operands = [RegisterOperand prefix_64bit 0xA2, ConstantOperand 0x10F prefix_64bit]\<rparr>"
proof -
  let ?l = "[0x30, 0x01, 0x64, 0xA2, 0x02, 0x64, 0x0F, 0x01, 0, 0, 0, 0, 0, 0] :: u8 list"
  have "encode_constant_from_uint64_t 0x10F = [0x02, 0x64, 0x0F, 0x01, 0, 0, 0, 0, 0, 0]"
    "countSequence (instruction_bytes demo_jump) tmp_address_hex = 1" by code_simp+
  then have "points_to (instruction_bytes demo_jump) ?l 0x10F"
    unfolding points_to_def demo_jump_facts(5)
    by (intro conjI exI [of _ "[0x30, 0x01, 0x64, 0xA2]"] exI [of _ "[]"]) simp_all
  moreover have "code_operands demo_jump = [Direct (RegisterCode prefix_64bit 0xA2)] @ Direct (ConstantCode prefix_64bit (- 1)) # []"
    by (simp add: demo_jump_def)
  moreover have "code_at (code_machine ?l) (?l @ [])" using code_at_code_machine [of ?l] by simp
  ultimately have "pop_instruction_from_ip_and_increase_ip (code_machine ?l)
    = (Inr \<lparr>opcode = code_opcode demo_jump, width = code_width demo_jump, operands =
         map (operand_meaning (Registers (code_machine ?l))) [Direct (RegisterCode prefix_64bit 0xA2)]
         @ ConstantOperand 0x10F prefix_64bit # map (operand_meaning (Registers (code_machine ?l))) []\<rparr>,
       advance (length ?l) (code_machine ?l))"
    by (rule linked_reference_decoded [OF _ _ demo_jump_facts(1)])
  then show ?thesis by (simp add: demo_jump_def)
qed

text \<open>
  An operand that names a marker: the line is assembled with the placeholder, and the place is
  noted at the marker.
\<close>

lemma assemble_reference:
  assumes "bc_prints_literals bc" and "marker_operand (appeared_line_markers s) line = Some (name, operand)"
    and "replace_all line operand placeholder_text = instruction_text c" and "wf_instruction c"
    and "list_all asm_operand (code_operands c)"
    and "list_all (width_consistent (code_width c)) (map parsed_operand (code_operands c))"
    and "OperandSanityCheck (code_opcode c) (map parsed_operand (code_operands c)) = Inr ()"
  shows "assemble_instruction bc line s = Inr (emplace_code (instruction_bytes c)
    (s\<lparr>appeared_line_markers := add_marker_reference name (length (instruction_buffer_set s) - 1) (appeared_line_markers s)\<rparr>))"
  using assms encode_instruction_text [OF assms(1,4-7), of "[]"] by (simp add: assemble_instruction_def)


end
