(* ===== verification/Pre_Processor.thy ===== *)
theory Pre_Processor
  imports Assembler Whole_Words
begin

text \<open>
  The preprocessor of the assembler (\<open>coding/HeadersAndDefinitions.cpp\<close>,
  \<open>coding/PreProcessor.cpp\<close>): includes, definitions and conditions, comments, labels that
  belong to a label before them, \<open>.org\<close>, \<open>.lab\<close> and \<open>.equ\<close>. The files on disk are an argument
  (\<open>file_system\<close>), and so are the programs \<open>grep\<close> and \<open>sed\<close>. Warnings and progress are only
  printed and left out; the texts of the exceptions are left out too.
\<close>

section \<open>Files and tools\<close>

text \<open>The lines of a file, if it can be opened.\<close>

type_synonym file_system = "string \<Rightarrow> string list option"

text \<open>\<open>grep -E key\<close> and \<open>sed -E script\<close> on an input: exit status and output.\<close>

record equ_tools =
  grep_tool :: "string \<Rightarrow> string \<Rightarrow> int"
  sed_tool :: "string \<Rightarrow> string \<Rightarrow> int \<times> string"

text \<open>\<open>std::map::emplace\<close> leaves an entry that is there.\<close>

definition map_emplace :: "'k::linorder \<Rightarrow> 'v \<Rightarrow> ('k \<times> 'v) list \<Rightarrow> ('k \<times> 'v) list" where
  "map_emplace k v m = (case map_of m k of Some _ \<Rightarrow> m | None \<Rightarrow> map_put k v m)"

(* include/EncodingDecoding.h 676-681: include_file_t *)
record include_file_t =
  file_name :: string
  appearance_at_line_num :: nat
  file_content :: "string list"

type_synonym definitions_t = "(string \<times> string) list"

section \<open>Headers and definitions\<close>

(* coding/HeadersAndDefinitions.cpp 25-25: ifdef_pattern, name *)
definition macro_name :: rx where
  "macro_name = Alt (Plus (Chr (\<lambda>c. between (CHR ''A'') (CHR ''Z'') c \<or> between (CHR ''a'') (CHR ''z'') c \<or> c = CHR ''_'')))
     (Plus (Chr (\<lambda>c. between (CHR ''A'') (CHR ''Z'') c \<or> between (CHR ''a'') (CHR ''z'') c
        \<or> between (CHR ''0'') (CHR ''9'') c \<or> c = CHR ''_'')))"

(* coding/HeadersAndDefinitions.cpp 24-24: include_pattern *)
definition include_pattern :: rx where
  "include_pattern = Seqs [Blanks, ILit ''%include'', Plus Blank, Lit [dquote], Cap 1 (Star Dot), Lit [dquote], Blanks]"

(* coding/HeadersAndDefinitions.cpp 25-25: ifdef_pattern *)
definition ifdef_pattern :: rx where
  "ifdef_pattern = Seqs [Blanks, ILit ''%ifdef'', Plus Blank, Cap 1 macro_name, Blanks]"

(* coding/HeadersAndDefinitions.cpp 26-26: ifndef_pattern *)
definition ifndef_pattern :: rx where
  "ifndef_pattern = Seqs [Blanks, ILit ''%ifndef'', Plus Blank, Cap 1 macro_name, Blanks]"

(* coding/HeadersAndDefinitions.cpp 27-27: define_pattern *)
definition define_pattern :: rx where
  "define_pattern = Seqs [Blanks, ILit ''%define'', Plus Blank, Cap 1 macro_name, Cap 2 (Star Dot)]"

(* coding/HeadersAndDefinitions.cpp 28-28: else_pattern *)
definition else_pattern :: rx where "else_pattern = Seqs [Blanks, ILit ''%else'', Blanks]"

(* coding/HeadersAndDefinitions.cpp 29-29: endif_pattern *)
definition endif_pattern :: rx where "endif_pattern = Seqs [Blanks, Lit ''%endif'', Blanks]"

(* coding/HeadersAndDefinitions.cpp 30-30: warning_pattern *)
definition warning_pattern :: rx where
  "warning_pattern = Seqs [Blanks, Lit ''%warning'', Plus Blank, Cap 1 (Star Dot)]"

(* coding/HeadersAndDefinitions.cpp 31-31: error_pattern *)
definition error_pattern :: rx where
  "error_pattern = Seqs [Blanks, Lit ''%error'', Plus Blank, Cap 1 (Star Dot)]"

definition matches_whole :: "rx \<Rightarrow> string \<Rightarrow> bool" where
  "matches_whole r line \<longleftrightarrow> regex_match r line \<noteq> None"

text \<open>
  Opening the file: under its name, or else under the first of the paths. The stream is opened
  again for every further path while it is open, which fails and sets its error state.
\<close>

(* coding/HeadersAndDefinitions.cpp 40-57: process_include, opening the file *)
definition open_include :: "file_system \<Rightarrow> string list \<Rightarrow> string \<Rightarrow> string list option" where
  "open_include fs include_path include_file =
     (case fs include_file of
        Some content \<Rightarrow> Some content
      | None \<Rightarrow> (case include_path of
          [] \<Rightarrow> None
        | path # paths \<Rightarrow> (case fs (path @ ''/'' @ include_file) of
            None \<Rightarrow> None
          | Some content \<Rightarrow> if paths = [] then Some content else None)))"

(* coding/HeadersAndDefinitions.cpp 33-69: process_include *)
definition process_include :: "file_system \<Rightarrow> string list \<Rightarrow> string \<Rightarrow> nat \<Rightarrow> cpu_error + include_file_t" where
  "process_include fs include_path line line_number =
     (let include_file = (case regex_match include_pattern line of Some caps \<Rightarrow> group 1 caps | None \<Rightarrow> [])
      in case open_include fs include_path include_file of
           None \<Rightarrow> Inl SysdarftPreProcessorError
         | Some content \<Rightarrow> Inr \<lparr>file_name = include_file, appearance_at_line_num = line_number, file_content = content\<rparr>)"

(* coding/HeadersAndDefinitions.cpp 71-81: process_define *)
definition process_define :: "string \<Rightarrow> definitions_t \<Rightarrow> string \<times> definitions_t" where
  "process_define line defs =
     (case regex_match define_pattern line of
        None \<Rightarrow> (line, defs)
      | Some caps \<Rightarrow>
          let marco_name = replace_all (group 1 caps) '' '' [];
              marco_value = replace_all (group 2 caps) '' '' []
          in (''.equ '' @ [CHR 0x27] @ marco_name @ [CHR 0x27] @ '', '' @ [CHR 0x27] @ marco_value @ [CHR 0x27],
              map_emplace marco_name marco_value defs))"

(* coding/HeadersAndDefinitions.cpp 97-102: directive_parameter_extraction *)
definition directive_parameter_extraction :: "string \<Rightarrow> rx \<Rightarrow> string" where
  "directive_parameter_extraction line pattern = (case regex_match pattern line of Some caps \<Rightarrow> group 1 caps | None \<Rightarrow> [])"

(* coding/PreProcessor.cpp 45-56: truncateAfterSemicolonOrHash *)
definition truncateAfterSemicolonOrHash :: "string \<Rightarrow> string" where
  "truncateAfterSemicolonOrHash input = takeWhile (\<lambda>c. c \<noteq> CHR '';'' \<and> c \<noteq> CHR ''#'') input"

definition tab_text :: string where "tab_text = [CHR 0x09]"

record head_state =
  inside_ifdef :: bool
  requested_marco_present :: bool
  macro_definitions :: definitions_t
  header_files :: "include_file_t list"

text \<open>One line: what becomes of it.\<close>

(* coding/HeadersAndDefinitions.cpp 134-178: HeadProcess, loop *)
definition head_line :: "file_system \<Rightarrow> string list \<Rightarrow> nat \<Rightarrow> string \<Rightarrow> head_state \<Rightarrow> cpu_error + string \<times> head_state" where
  "head_line fs include_path line_number source s =
     (let line = truncateAfterSemicolonOrHash (replace_all source tab_text ''    '') in
      if matches_whole endif_pattern line
      then Inr ([], s\<lparr>inside_ifdef := False, requested_marco_present := False\<rparr>)
      else if inside_ifdef s \<and> \<not> requested_marco_present s
      then Inr ([], if matches_whole else_pattern line then s\<lparr>requested_marco_present := True\<rparr> else s)
      else if matches_whole include_pattern line
      then map_result (\<lambda>f. ([], s\<lparr>header_files := header_files s @ [f]\<rparr>)) (process_include fs include_path line line_number)
      else if matches_whole define_pattern line
      then let (line', defs) = process_define line (macro_definitions s) in Inr (line', s\<lparr>macro_definitions := defs\<rparr>)
      else if matches_whole ifdef_pattern line
      then Inr ([], s\<lparr>inside_ifdef := True, requested_marco_present :=
        map_of (macro_definitions s) (directive_parameter_extraction line ifdef_pattern) \<noteq> None\<rparr>)
      else if matches_whole ifndef_pattern line
      then Inr ([], s\<lparr>inside_ifdef := True, requested_marco_present :=
        map_of (macro_definitions s) (directive_parameter_extraction line ifndef_pattern) = None\<rparr>)
      else if matches_whole warning_pattern line then Inr (line, s)
      else if matches_whole error_pattern line then Inl SysdarftPreProcessorError
      else Inr (line, s))"

fun head_lines :: "file_system \<Rightarrow> string list \<Rightarrow> nat \<Rightarrow> string list \<Rightarrow> head_state \<Rightarrow> cpu_error + string list \<times> head_state" where
  "head_lines fs include_path line_number [] s = Inr ([], s)"
| "head_lines fs include_path line_number (l # ls) s =
     (case head_line fs include_path (Suc line_number) l s of
        Inl e \<Rightarrow> Inl e
      | Inr (l', s') \<Rightarrow> map_result (\<lambda>(ls', s''). (l' # ls', s'')) (head_lines fs include_path (Suc line_number) ls s'))"

(* coding/HeadersAndDefinitions.cpp 126-179: HeadProcess *)
definition HeadProcess :: "file_system \<Rightarrow> string list \<Rightarrow> string list \<Rightarrow> definitions_t \<Rightarrow> include_file_t list \<Rightarrow>
    cpu_error + string list \<times> definitions_t \<times> include_file_t list" where
  "HeadProcess fs include_path lines defs headers =
     map_result (\<lambda>(lines', s). (lines', macro_definitions s, header_files s))
       (head_lines fs include_path 0 lines \<lparr>inside_ifdef = False, requested_marco_present = False,
          macro_definitions = defs, header_files = headers\<rparr>)"

section \<open>Labels below labels\<close>

record register_state =
  upper_line_marker :: string
  marker_result :: "string list"
  sub_linemarkers :: "(string \<times> string) list"
  current_file_section :: "string list"
  processed_file_sections :: "string list list"

fun map_lines :: "(string \<Rightarrow> cpu_error + string) \<Rightarrow> string list \<Rightarrow> cpu_error + string list" where
  "map_lines f [] = Inr []"
| "map_lines f (l # ls) = (case f l of Inl e \<Rightarrow> Inl e | Inr l' \<Rightarrow> map_result ((#) l') (map_lines f ls))"

(* coding/PreProcessor.cpp 123-183: line_marker_register, loop *)
definition register_line :: "bracket_regex \<Rightarrow> string \<Rightarrow> register_state \<Rightarrow> cpu_error + register_state" where
  "register_line brackets source s =
     (if matches_whole line_mark_pattern source then
        let bare = replace_all (replace_all (replace_all source '' '' []) tab_text []) '':'' [] in
        if occurs ''.'' bare then
          let line = upper_line_marker s @ replace_all bare ''.'' ''_'' in
          if line \<in> set (marker_result s) then Inl SysdarftPreProcessorError
          else Inr (s\<lparr>sub_linemarkers := map_emplace bare line (sub_linemarkers s),
                 marker_result := marker_result s @ [line],
                 current_file_section := current_file_section s @ [line @ '':'']\<rparr>)
        else
          (case map_lines (replace_words brackets True (sub_linemarkers s)) (current_file_section s @ [bare @ '':'']) of
             Inl e \<Rightarrow> Inl e
           | Inr sec \<Rightarrow>
               if bare \<in> set (marker_result s) then Inl SysdarftPreProcessorError
               else Inr (s\<lparr>processed_file_sections := processed_file_sections s @ [sec], current_file_section := [],
                      sub_linemarkers := [], upper_line_marker := bare, marker_result := marker_result s @ [bare]\<rparr>))
      else Inr (s\<lparr>current_file_section := current_file_section s @ [source]\<rparr>))"

fun register_lines :: "bracket_regex \<Rightarrow> string list \<Rightarrow> register_state \<Rightarrow> cpu_error + register_state" where
  "register_lines brackets [] s = Inr s"
| "register_lines brackets (l # ls) s = (case register_line brackets l s of Inl e \<Rightarrow> Inl e | Inr s' \<Rightarrow> register_lines brackets ls s')"

text \<open>The new lines and the names of the labels.\<close>

(* coding/PreProcessor.cpp 114-209: line_marker_register *)
definition line_marker_register :: "bracket_regex \<Rightarrow> string list \<Rightarrow> cpu_error + string list \<times> string list" where
  "line_marker_register brackets lines =
     (case register_lines brackets lines \<lparr>upper_line_marker = [], marker_result = [], sub_linemarkers = [],
          current_file_section = [], processed_file_sections = []\<rparr> of
        Inl e \<Rightarrow> Inl e
      | Inr s \<Rightarrow> map_result (\<lambda>sec. (concat (processed_file_sections s @ [sec]), marker_result s))
          (map_lines (replace_words brackets False (sub_linemarkers s)) (current_file_section s)))"

section \<open>Declarative directives\<close>

(* coding/PreProcessor.cpp 27-27: org_pattern *)
definition org_pattern :: rx where
  "org_pattern = Seqs [Blanks, ILit ''.org'', Plus Blank,
     Cap 1 (Alt (Seq (ILit ''0x'') (Plus (Chr hex_digit))) (Plus Digit)), Blanks]"

definition lab_name :: rx where
  "lab_name = Seq (Chr name_start) (Star (Chr name_char))"

(* coding/PreProcessor.cpp 28-29: lab_pattern *)
definition lab_pattern :: rx where
  "lab_pattern = Seqs [Blanks, ILit ''.lab'', Plus Blank,
     Cap 1 (Seq lab_name (Star (Seqs [Blanks, Lit '','', Blanks, lab_name]))), Blanks]"

definition no_quote :: "char \<Rightarrow> bool" where "no_quote c \<longleftrightarrow> c \<noteq> CHR 0x27"

(* coding/PreProcessor.cpp 30-30: equ_pattern *)
definition equ_pattern :: rx where
  "equ_pattern = Seqs [Blanks, ILit ''.equ'', Plus Blank, Lit [CHR 0x27], Cap 1 (Star (Chr no_quote)), Lit [CHR 0x27],
     Blanks, Lit '','', Blanks, Lit [CHR 0x27], Cap 2 (Star (Chr no_quote)), Lit [CHR 0x27], Blanks]"

text \<open>\<open>std::getline\<close> with a delimiter: nothing follows a delimiter at the end.\<close>

fun split_at :: "char \<Rightarrow> string \<Rightarrow> string \<Rightarrow> string list" where
  "split_at d item [] = (if item = [] then [] else [item])"
| "split_at d item (c # cs) = (if c = d then item # split_at d [] cs else split_at d (item @ [c]) cs)"

(* coding/PreProcessor.cpp 32-43: splitString *)
definition splitString :: "string \<Rightarrow> char \<Rightarrow> string list" where
  "splitString input delimiter = split_at delimiter [] input"

record pp_state =
  defined_line_marker :: "line_marker_t list"
  org :: u64
  equ_replacement :: "(string \<times> string) list"
  pp_definition :: definitions_t

(* coding/PreProcessor.cpp 250-259: process_org *)
definition process_org :: "string \<Rightarrow> pp_state \<Rightarrow> pp_state" where
  "process_org input s = (case regex_search org_pattern input of
     None \<Rightarrow> s
   | Some (_, _, caps, _) \<Rightarrow> s\<lparr>org := of_int (strtoll 10 (process_base16 (group 1 caps)))\<rparr>)"

text \<open>A marker that is declared and not yet defined, unless one of that name is there.\<close>

(* coding/PreProcessor.cpp 282-290: process_lab, declaration *)
definition declare_marker :: "string \<Rightarrow> line_marker_t list \<Rightarrow> line_marker_t list" where
  "declare_marker name ms =
     (if name \<in> line_marker_name ` set ms then ms
      else ms @ [\<lparr>line_marker_name = name, marker_position = 0, is_defined = False, referenced = False,
             loc_it_appeared_in_cur_blk = []\<rparr>])"

(* coding/PreProcessor.cpp 261-293: process_lab *)
definition process_lab :: "string \<Rightarrow> pp_state \<Rightarrow> pp_state" where
  "process_lab input s = (case regex_search lab_pattern input of
     None \<Rightarrow> s
   | Some (_, _, caps, _) \<Rightarrow> s\<lparr>defined_line_marker :=
       fold declare_marker (splitString (replace_all (group 1 caps) '' '' []) (CHR '','')) (defined_line_marker s)\<rparr>)"

(* coding/PreProcessor.cpp 295-304: process_equ *)
definition process_equ :: "string \<Rightarrow> pp_state \<Rightarrow> pp_state" where
  "process_equ input s = (case regex_search equ_pattern input of
     None \<Rightarrow> s
   | Some (_, _, caps, _) \<Rightarrow> s\<lparr>equ_replacement := map_emplace (group 1 caps) (group 2 caps) (equ_replacement s)\<rparr>)"

text \<open>With \<open>grep\<close> and \<open>sed\<close>, or as whole words.\<close>

(* coding/PreProcessor.cpp 306-336: sed_equ *)
fun sed_equ :: "equ_tools \<Rightarrow> bracket_regex \<Rightarrow> bool \<Rightarrow> (string \<times> string) list \<Rightarrow> string \<Rightarrow> cpu_error + string" where
  "sed_equ tools brackets regex [] input = Inr input"
| "sed_equ tools brackets regex ((key, val) # equs) input =
     (if regex then
        let status = grep_tool tools key input in
        if status = 0 then
          (case sed_tool tools (''s/'' @ key @ ''/'' @ val @ ''/g'') input of
             (sed_status, sed_stdout) \<Rightarrow>
               if sed_status \<noteq> 0 then Inl SysdarftPreProcessorError
               else sed_equ tools brackets regex equs sed_stdout)
        else if status = 127 then Inl SysdarftPreProcessorError
        else sed_equ tools brackets regex equs input
      else if occurs key input then
        (case replace_whole_word brackets input key val of
           Inl e \<Rightarrow> Inl e
         | Inr input' \<Rightarrow> sed_equ tools brackets regex equs input')
      else sed_equ tools brackets regex equs input)"

section \<open>Preprocessing a file\<close>

text \<open>The header that was included in a line, and a name that is not empty.\<close>

(* coding/PreProcessor.cpp 361-371: PreProcess, is_header_in_this_line *)
definition is_header_in_this_line :: "include_file_t list \<Rightarrow> nat \<Rightarrow> include_file_t option" where
  "is_header_in_this_line headers n =
     (case find (\<lambda>h. appearance_at_line_num h = n) headers of
        Some h \<Rightarrow> if file_name h = [] then None else Some h
      | None \<Rightarrow> None)"

text \<open>
  The directives at the beginning of a file, up to the first line that is none. \<open>include\<close>
  preprocesses a header.
\<close>

(* coding/PreProcessor.cpp 396-448: PreProcess, declarative directives *)
fun declarative_lines :: "(include_file_t \<Rightarrow> pp_state \<Rightarrow> cpu_error + pp_state) \<Rightarrow> include_file_t list \<Rightarrow> nat \<Rightarrow>
    string list \<Rightarrow> pp_state \<Rightarrow> cpu_error + string list \<times> pp_state" where
  "declarative_lines include headers n [] s = Inr ([], s)"
| "declarative_lines include headers n (l # ls) s =
     (case (case is_header_in_this_line headers (Suc n) of None \<Rightarrow> Inr s | Some h \<Rightarrow> include h s) of
        Inl e \<Rightarrow> Inl e
      | Inr s1 \<Rightarrow>
          let line = truncateAfterSemicolonOrHash l;
              go_on = (\<lambda>l' s'. map_result (\<lambda>(ls', s''). (l' # ls', s'')) (declarative_lines include headers (Suc n) ls s'))
          in if is_line_empty line then go_on line s1
             else if matches_whole org_pattern line then go_on [] (process_org line s1)
             else if matches_whole lab_pattern line then go_on [] (process_lab line s1)
             else if matches_whole equ_pattern line then go_on [] (process_equ line s1)
             else Inr (line # ls, s1))"

text \<open>
  A header is preprocessed for its directives; its lines are dropped. \<open>depth\<close> is how deep
  includes can be nested before the stack is exhausted, which is undefined.
\<close>

(* coding/PreProcessor.cpp 406-419: PreProcess, header *)
definition include_header :: "file_system \<Rightarrow> string list \<Rightarrow>
    (string list \<Rightarrow> include_file_t list \<Rightarrow> pp_state \<Rightarrow> cpu_error + string list \<times> pp_state) \<Rightarrow>
    include_file_t \<Rightarrow> pp_state \<Rightarrow> cpu_error + pp_state" where
  "include_header fs include_path preprocess header s =
     (case HeadProcess fs include_path (file_content header) (pp_definition s) [] of
        Inl e \<Rightarrow> Inl e
      | Inr (content, defs, headers) \<Rightarrow> map_result snd (preprocess content headers (s\<lparr>pp_definition := defs\<rparr>)))"

(* coding/PreProcessor.cpp 338-454: PreProcess *)
fun PreProcess :: "equ_tools \<Rightarrow> bracket_regex \<Rightarrow> file_system \<Rightarrow> string list \<Rightarrow> bool \<Rightarrow> nat \<Rightarrow> string list \<Rightarrow>
    include_file_t list \<Rightarrow> pp_state \<Rightarrow> cpu_error + string list \<times> pp_state" where
  "PreProcess tools brackets fs include_path regex 0 lines headers s = Inl UndefinedBehaviour"
| "PreProcess tools brackets fs include_path regex (Suc depth) lines headers s =
     (case line_marker_register brackets
         (map (\<lambda>l. replace_all (truncateAfterSemicolonOrHash l) tab_text ''    '') lines) of
        Inl e \<Rightarrow> Inl e
      | Inr (lines1, markers) \<Rightarrow>
     (case declarative_lines
         (include_header fs include_path (PreProcess tools brackets fs include_path regex depth))
         headers 0 lines1 (s\<lparr>defined_line_marker := fold declare_marker markers (defined_line_marker s)\<rparr>) of
        Inl e \<Rightarrow> Inl e
      | Inr (lines2, s2) \<Rightarrow>
          map_result (\<lambda>lines3. (lines3, s2)) (map_lines (sed_equ tools brackets regex (equ_replacement s2)) lines2)))"


section \<open>Lines keep their numbers\<close>

text \<open>
  The line numbers at which headers are included, and those of error messages, refer to the
  source: no step adds or removes a line.
\<close>

lemma head_lines_length: "head_lines fs ip n ls s = Inr (ls', s') \<Longrightarrow> length ls' = length ls"
  by (induction ls arbitrary: n s ls') (auto simp: map_result_def split: sum.splits prod.splits)

lemma map_lines_length: "map_lines f ls = Inr ls' \<Longrightarrow> length ls' = length ls"
  by (induction ls arbitrary: ls') (auto simp: map_result_def split: sum.splits)

lemma register_line_length:
  "register_line brackets l s = Inr s' \<Longrightarrow>
     length (concat (processed_file_sections s')) + length (current_file_section s')
       = Suc (length (concat (processed_file_sections s)) + length (current_file_section s))"
  by (auto simp: register_line_def Let_def split: if_splits sum.splits dest: map_lines_length)

lemma register_lines_length:
  "register_lines brackets ls s = Inr s' \<Longrightarrow>
     length (concat (processed_file_sections s')) + length (current_file_section s')
       = length ls + length (concat (processed_file_sections s)) + length (current_file_section s)"
  by (induction ls arbitrary: s) (auto split: sum.splits dest!: register_line_length)

lemma line_marker_register_length:
  "line_marker_register brackets ls = Inr (ls', markers) \<Longrightarrow> length ls' = length ls"
  by (auto simp: line_marker_register_def map_result_def split: sum.splits
      dest!: register_lines_length map_lines_length)

lemma declarative_lines_length:
  "declarative_lines include headers n ls s = Inr (ls', s') \<Longrightarrow> length ls' = length ls"
proof (induction ls arbitrary: n s ls')
  case (Cons l ls)
  then show ?case
    by (auto simp: Let_def map_result_def split: sum.splits prod.splits if_splits)
qed simp

lemma PreProcess_length:
  assumes "PreProcess tools brackets fs ip regex depth ls headers s = Inr (ls', s')"
  shows "length ls' = length ls"
  using assms
  by (cases depth) (auto simp: map_result_def split: sum.splits prod.splits
      dest!: line_marker_register_length declarative_lines_length map_lines_length)

section \<open>Markers\<close>

text \<open>What the preprocessor keeps of the table of markers: proper names, each once, nothing defined.\<close>

definition markers_ok :: "line_marker_t list \<Rightarrow> bool" where
  "markers_ok ms \<longleftrightarrow> (\<forall>m\<in>set ms. fresh_marker m) \<and> distinct (map line_marker_name ms)"

lemma declare_marker_ok: "markers_ok ms \<Longrightarrow> marker_name_ok name \<Longrightarrow> markers_ok (declare_marker name ms)"
  by (auto simp: markers_ok_def declare_marker_def fresh_marker_def)

lemma fold_declare_ok: "markers_ok ms \<Longrightarrow> \<forall>n\<in>set names. marker_name_ok n \<Longrightarrow> markers_ok (fold declare_marker names ms)"
  by (induction names arbitrary: ms) (auto simp: declare_marker_ok)

lemma replace_scan_single: "replace_scan [c] [d] s = map (\<lambda>x. if x = c then d else x) s"
  by (induction s) auto

lemma replace_scan_erase: "replace_scan [c] [] s = filter (\<lambda>x. x \<noteq> c) s"
  by (induction s) auto

lemma replace_all_erase: "replace_all s [c] [] = filter (\<lambda>x. x \<noteq> c) s"
  by (simp add: replace_all_def replace_scan_erase)

lemma hd_filter_not: "P x \<Longrightarrow> \<forall>y\<in>set ys. P y \<Longrightarrow> filter P (ys @ x # zs) \<noteq> []"
  by auto

text \<open>A label line without blanks and colon is not empty and begins with no digit.\<close>

lemma bare_label_ok:
  assumes "matches_whole line_mark_pattern line"
  shows "marker_name_ok (replace_all (replace_all (replace_all line '' '' []) tab_text []) '':'' [])"
proof -
  from assms obtain a c b d e where line: "line = a @ (c # b) @ d @ '':'' @ e" and a: "\<forall>x\<in>set a. isspace x" and c: "name_start c"
    using regex_match_accepts [of line_mark_pattern line]
    by (auto simp: matches_whole_def line_mark_pattern_def accepts_parts)
  let ?keep = "\<lambda>x. x \<noteq> CHR '' '' \<and> x \<noteq> CHR 0x09 \<and> x \<noteq> CHR '':''"
  have "?keep c" using c by (auto simp: name_start_def between_def)
  then have "filter ?keep line = filter ?keep a @ c # filter ?keep (b @ d @ '':'' @ e)" unfolding line by auto
  moreover have "\<not> isdigit x" if "isspace x" for x using that by (auto simp: isspace_def isdigit_def)
  then have "\<forall>x\<in>set (filter ?keep a). \<not> isdigit x" using a by auto
  ultimately have "marker_name_ok (filter ?keep line)"
    using name_start_not_digit [OF c] unfolding marker_name_ok_def by (cases "filter ?keep a") auto
  moreover have "replace_all (replace_all (replace_all line '' '' []) tab_text []) '':'' [] = filter ?keep line"
    by (simp add: replace_all_erase tab_text_def conj_ac)
  ultimately show ?thesis by simp
qed

lemma register_line_names:
  assumes "register_line brackets l s = Inr s'" and "\<forall>n\<in>set (marker_result s). marker_name_ok n"
    and "upper_line_marker s = [] \<or> marker_name_ok (upper_line_marker s)"
  shows "(\<forall>n\<in>set (marker_result s'). marker_name_ok n) \<and> (upper_line_marker s' = [] \<or> marker_name_ok (upper_line_marker s'))"
proof (cases "matches_whole line_mark_pattern l")
  case True
  let ?bare = "replace_all (replace_all (replace_all l '' '' []) tab_text []) '':'' []"
  have bare: "marker_name_ok ?bare" using True by (rule bare_label_ok)
  have "replace_all ?bare ''.'' ''_'' = map (\<lambda>x. if x = CHR ''.'' then CHR ''_'' else x) ?bare"
    by (simp add: replace_all_def [of ?bare] replace_scan_single)
  moreover have "\<not> isdigit (CHR ''_'')" by code_simp
  ultimately have "marker_name_ok (upper_line_marker s @ replace_all ?bare ''.'' ''_'')"
    using bare assms(3) by (cases ?bare; cases "upper_line_marker s") (auto simp: marker_name_ok_def)
  with True bare assms show ?thesis by (auto simp: register_line_def Let_def split: if_splits sum.splits)
qed (use assms in \<open>auto simp: register_line_def\<close>)

lemma register_lines_names:
  assumes "register_lines brackets ls s = Inr s'" and "\<forall>n\<in>set (marker_result s). marker_name_ok n"
    and "upper_line_marker s = [] \<or> marker_name_ok (upper_line_marker s)"
  shows "\<forall>n\<in>set (marker_result s'). marker_name_ok n"
  using assms
proof (induction ls arbitrary: s)
  case (Cons l ls)
  then obtain s1 where s1: "register_line brackets l s = Inr s1" "register_lines brackets ls s1 = Inr s'"
    by (auto split: sum.splits)
  from register_line_names [OF s1(1) Cons.prems(2,3)] Cons.IH [OF s1(2)] show ?case by blast
qed simp

lemma line_marker_register_names:
  "line_marker_register brackets ls = Inr (ls', markers) \<Longrightarrow> \<forall>n\<in>set markers. marker_name_ok n"
  by (auto simp: line_marker_register_def map_result_def split: sum.splits dest!: register_lines_names)


lemma split_at_run: "d \<notin> set xs \<Longrightarrow> split_at d item (xs @ ys) = split_at d (item @ xs) ys"
  by (induction xs arbitrary: item) auto

text \<open>The items of a list of labels, without the spaces.\<close>

definition no_space :: "char \<Rightarrow> bool" where "no_space c \<longleftrightarrow> c \<noteq> CHR '' ''"

lemma blank_parts:
  assumes "\<forall>x\<in>set a. isspace x"
  shows "CHR '','' \<notin> set (filter no_space a)" and "\<forall>x\<in>set (filter no_space a). \<not> isdigit x"
proof -
  have "\<not> isspace (CHR '','')" by (simp add: isspace_def)
  moreover have "\<not> isdigit x" if "isspace x" for x using that by (auto simp: isspace_def isdigit_def)
  ultimately show "CHR '','' \<notin> set (filter no_space a)" "\<forall>x\<in>set (filter no_space a). \<not> isdigit x"
    using assms by auto
qed

lemma lab_name_parts:
  assumes "accepts lab_name n u v"
  shows "filter no_space u = u" and "CHR '','' \<notin> set u" and "marker_name_ok u"
proof -
  from assms obtain c b where u: "u = c # b" "name_start c" "\<forall>x\<in>set b. name_char x"
    by (auto simp: lab_name_def accepts_parts)
  have "\<not> name_char (CHR '' '')" "\<not> name_char (CHR '','')" by code_simp+
  moreover have "name_char c" using u(2) by (simp add: name_char_def)
  ultimately show "filter no_space u = u" "CHR '','' \<notin> set u"
    using u by (auto simp: filter_id_conv no_space_def)
  show "marker_name_ok u" using u(1,2) name_start_not_digit by (simp add: marker_name_ok_def)
qed

lemma blanks_name_ok: "\<forall>x\<in>set a. \<not> isdigit x \<Longrightarrow> marker_name_ok u \<Longrightarrow> marker_name_ok (a @ u)"
  by (cases a) (auto simp: marker_name_ok_def)

lemma name_blanks_ok: "marker_name_ok u \<Longrightarrow> marker_name_ok (u @ a)"
  by (auto simp: marker_name_ok_def)

lemma lab_items:
  assumes "accepts (Star (Seqs [Blanks, Lit '','', Blanks, lab_name])) n w v" and "marker_name_ok item"
  shows "\<forall>p\<in>set (split_at (CHR '','') item (filter no_space w)). marker_name_ok p"
  using assms
proof (induction "Star (Seqs [Blanks, Lit '','', Blanks, lab_name])" n w v arbitrary: item rule: accepts.induct)
  case (acc_Star_Nil n v)
  then show ?case by simp
next
  case (acc_Star n u w v)
  from acc_Star.hyps(1) obtain a b x k y where u: "u = a @ '','' @ b @ x" "\<forall>x\<in>set a. isspace x"
    "\<forall>x\<in>set b. isspace x" "accepts lab_name k x y"
    by (auto simp: accepts_parts)
  have "no_space (CHR '','')" by (simp add: no_space_def)
  then have "filter no_space (u @ w)
      = filter no_space a @ CHR '','' # (filter no_space b @ x) @ filter no_space w"
    using lab_name_parts(1) [OF u(4)] unfolding u(1) by simp
  moreover have "CHR '','' \<notin> set (filter no_space b @ x)"
    using blank_parts(1) [OF u(3)] lab_name_parts(2) [OF u(4)] by simp
  ultimately have split: "split_at (CHR '','') item (filter no_space (u @ w))
      = (item @ filter no_space a) # split_at (CHR '','') (filter no_space b @ x) (filter no_space w)"
    using split_at_run [OF blank_parts(1) [OF u(2)], of item]
      split_at_run [of "CHR '',''" "filter no_space b @ x" "[]" "filter no_space w"] by simp
  have "marker_name_ok (filter no_space b @ x)"
    using blank_parts(2) [OF u(3)] lab_name_parts(3) [OF u(4)] by (rule blanks_name_ok)
  from acc_Star.hyps(5) [OF this] show ?case
    unfolding split using name_blanks_ok [OF acc_Star.prems] by simp
qed

lemma process_lab_names:
  assumes "regex_search lab_pattern input = Some (j, t, caps, rest)"
  shows "\<forall>p\<in>set (splitString (replace_all (group 1 caps) '' '' []) (CHR '','')). marker_name_ok p"
proof -
  have "\<exists>n v. accepts (Seq lab_name (Star (Seqs [Blanks, Lit '','', Blanks, lab_name]))) n (group 1 caps) v"
    using assms by (rule group_accepted_search) (auto simp: lab_pattern_def Plus_def lab_name_def)
  then obtain n u w v where g: "group 1 caps = u @ w" "accepts lab_name n u (w @ v)"
    "accepts (Star (Seqs [Blanks, Lit '','', Blanks, lab_name])) (n + length u) w v" by blast
  have "replace_all (group 1 caps) '' '' [] = u @ filter no_space w"
    using lab_name_parts(1) [OF g(2)] unfolding g(1) replace_all_erase
    by (simp add: no_space_def [abs_def])
  then have "splitString (replace_all (group 1 caps) '' '' []) (CHR '','') = split_at (CHR '','') u (filter no_space w)"
    using split_at_run [OF lab_name_parts(2) [OF g(2)], of "[]"] by (simp add: splitString_def)
  with lab_items [OF g(3) lab_name_parts(3) [OF g(2)]] show ?thesis by simp
qed

lemma process_directives_ok:
  "markers_ok (defined_line_marker s) \<Longrightarrow> markers_ok (defined_line_marker (process_lab l s))"
  "defined_line_marker (process_org l s) = defined_line_marker s"
  "defined_line_marker (process_equ l s) = defined_line_marker s"
  by (auto simp: process_lab_def process_org_def process_equ_def split: option.splits prod.splits
      intro!: fold_declare_ok dest!: process_lab_names)

lemma declarative_lines_ok:
  assumes "declarative_lines include headers n ls s = Inr (ls', s')" and "markers_ok (defined_line_marker s)"
    and "\<And>h s s'. include h s = Inr s' \<Longrightarrow> markers_ok (defined_line_marker s) \<Longrightarrow> markers_ok (defined_line_marker s')"
  shows "markers_ok (defined_line_marker s')"
  using assms(1,2)
proof (induction ls arbitrary: n s ls')
  case (Cons l ls)
  from Cons.prems(1) obtain s1 where
    s1: "(case is_header_in_this_line headers (Suc n) of None \<Rightarrow> Inr s | Some h \<Rightarrow> include h s) = Inr s1"
    by (auto split: sum.splits)
  with Cons.prems(2) assms(3) have "markers_ok (defined_line_marker s1)" by (auto split: option.splits)
  then show ?case
    using Cons.prems(1) Cons.IH process_directives_ok s1
    by (auto simp: Let_def map_result_def split: if_splits sum.splits prod.splits)
qed simp

lemma PreProcess_markers:
  "PreProcess tools brackets fs ip regex depth ls headers s = Inr (ls', s') \<Longrightarrow> markers_ok (defined_line_marker s)
     \<Longrightarrow> markers_ok (defined_line_marker s')"
proof (induction depth arbitrary: ls headers s ls' s')
  case (Suc depth)
  obtain ls1 markers where reg: "line_marker_register brackets
      (map (\<lambda>l. replace_all (truncateAfterSemicolonOrHash l) tab_text ''    '') ls) = Inr (ls1, markers)"
    using Suc.prems(1) by (auto split: sum.splits)
  have ok: "markers_ok (fold declare_marker markers (defined_line_marker s))"
    using Suc.prems(2) line_marker_register_names [OF reg] by (rule fold_declare_ok)
  show ?case
    using Suc.prems(1) ok Suc.IH unfolding PreProcess.simps reg
    by (auto simp: map_result_def include_header_def split: sum.splits prod.splits elim!: declarative_lines_ok)
qed simp


section \<open>Includes\<close>

text \<open>A line as \<open>HeadProcess\<close> looks at it.\<close>

definition stripped :: "string \<Rightarrow> string" where
  "stripped line = truncateAfterSemicolonOrHash (replace_all line tab_text ''    '')"

text \<open>The names that the lines of a file include, whatever the conditions around them.\<close>

definition included_names :: "string list \<Rightarrow> string list" where
  "included_names ls = map (\<lambda>l. directive_parameter_extraction (stripped l) include_pattern)
     (filter (\<lambda>l. matches_whole include_pattern (stripped l)) ls)"

definition read_header :: "file_system \<Rightarrow> string list \<Rightarrow> include_file_t \<Rightarrow> bool" where
  "read_header fs ip h \<longleftrightarrow> open_include fs ip (file_name h) = Some (file_content h)"

lemma head_line_headers:
  assumes "head_line fs ip n l s = Inr (l', s')"
  shows "header_files s' = header_files s
    \<or> (\<exists>h. header_files s' = header_files s @ [h] \<and> read_header fs ip h \<and> file_name h \<in> set (included_names [l]))"
  using assms
  by (auto simp: head_line_def Let_def process_include_def map_result_def read_header_def included_names_def
      stripped_def directive_parameter_extraction_def split: if_splits sum.splits prod.splits option.splits)

lemma head_lines_headers:
  assumes "head_lines fs ip n ls s = Inr (ls', s')"
  shows "\<forall>h\<in>set (header_files s'). h \<in> set (header_files s) \<or> read_header fs ip h \<and> file_name h \<in> set (included_names ls)"
  using assms
proof (induction ls arbitrary: n s ls')
  case (Cons l ls)
  then obtain l1 s1 ls1 where s1: "head_line fs ip (Suc n) l s = Inr (l1, s1)" "head_lines fs ip (Suc n) ls s1 = Inr (ls1, s')"
    by (auto simp: map_result_def split: sum.splits prod.splits)
  have "set (included_names (l # ls)) = set (included_names [l]) \<union> set (included_names ls)"
    by (auto simp: included_names_def)
  with head_line_headers [OF s1(1)] Cons.IH [OF s1(2)] show ?case by auto
qed simp

lemma HeadProcess_headers:
  assumes "HeadProcess fs ip ls defs [] = Inr (ls', defs', headers)"
  shows "\<forall>h\<in>set headers. read_header fs ip h \<and> file_name h \<in> set (included_names ls)"
  using assms by (auto simp: HeadProcess_def map_result_def split: sum.splits prod.splits dest!: head_lines_headers)

text \<open>No step but an exhausted stack has undefined behaviour.\<close>

definition well_defined :: "cpu_error + 'a \<Rightarrow> bool" where "well_defined r \<longleftrightarrow> r \<noteq> Inl UndefinedBehaviour"

lemma well_defined_simps [simp]:
  "well_defined (Inr x)" "well_defined (Inl e) \<longleftrightarrow> e \<noteq> UndefinedBehaviour"
  "well_defined (map_result f r) \<longleftrightarrow> well_defined r"
  by (auto simp: well_defined_def map_result_def split: sum.splits)

lemma well_defined_case:
  "well_defined r \<Longrightarrow> (\<And>x. r = Inr x \<Longrightarrow> well_defined (f x)) \<Longrightarrow> well_defined (case r of Inl e \<Rightarrow> Inl e | Inr x \<Rightarrow> f x)"
  by (cases r) auto

lemma well_defined_map_lines: "(\<And>l. well_defined (f l)) \<Longrightarrow> well_defined (map_lines f ls)"
  by (induction ls) (auto intro!: well_defined_case)

lemma well_defined_head_lines: "well_defined (head_lines fs ip n ls s)"
proof (induction ls arbitrary: n s)
  case (Cons l ls)
  have "well_defined (head_line fs ip (Suc n) l s)"
    by (auto simp: head_line_def Let_def process_include_def split: option.splits prod.splits)
  then show ?case unfolding head_lines.simps using Cons by (auto intro!: well_defined_case)
qed simp

lemma well_defined_HeadProcess: "well_defined (HeadProcess fs ip ls defs headers)"
  by (simp add: HeadProcess_def well_defined_head_lines)

lemma well_defined_words:
  assumes "\<forall>t. well_defined (brackets t)"
  shows "well_defined (replace_whole_word brackets l t r)"
    and "well_defined (replace_words brackets guarded subs l)"
    and "well_defined (sed_equ tools brackets regex subs l)"
proof -
  have t: "well_defined (target_rx brackets t)" for t using assms by (simp add: target_rx_def)
  show word: "well_defined (replace_whole_word brackets l t r)" for l t r
    unfolding replace_whole_word_def
    by (rule well_defined_case [OF t]) (auto split: option.splits prod.splits list.splits)
  show "well_defined (replace_words brackets guarded subs l)" for l
    by (induction subs arbitrary: l) (auto intro!: well_defined_case word)
  show "well_defined (sed_equ tools brackets regex subs l)" for l
    by (induction subs arbitrary: l)
      (auto simp: Let_def intro!: well_defined_case word split: prod.splits)
qed

lemma well_defined_register:
  assumes "\<forall>t. well_defined (brackets t)"
  shows "well_defined (line_marker_register brackets ls)"
proof -
  note words = well_defined_map_lines [OF well_defined_words(2) [OF assms]]
  have line: "well_defined (register_line brackets l s)" for l s
    by (auto simp: register_line_def Let_def intro!: well_defined_case words)
  have "well_defined (register_lines brackets ls s)" for s
    by (induction ls arbitrary: s) (auto intro!: well_defined_case line)
  then show ?thesis unfolding line_marker_register_def by (intro well_defined_case) (auto intro: words)
qed

lemma well_defined_declarative:
  assumes "\<And>h s. h \<in> set headers \<Longrightarrow> well_defined (include h s)"
  shows "well_defined (declarative_lines include headers n ls s)"
proof (induction ls arbitrary: n s)
  case (Cons l ls)
  have "h \<in> set headers" if "is_header_in_this_line headers k = Some h" for h k
    using that by (auto simp: is_header_in_this_line_def find_Some_iff split: option.splits if_splits)
  then have "well_defined (case is_header_in_this_line headers (Suc n) of None \<Rightarrow> Inr s | Some h \<Rightarrow> include h s)"
    using assms by (auto split: option.splits)
  then show ?case unfolding declarative_lines.simps by (rule well_defined_case) (simp add: Let_def Cons)
qed simp

text \<open>
  C37: preprocessing ends, for every program whose headers do not include themselves: if the
  files can be ranked so that a header only includes files of a lower rank, and the headers of
  a file are below \<open>k\<close>, a stack for \<open>k + 1\<close> nested files suffices.
\<close>

theorem includes_terminate:
  assumes "\<forall>f content. open_include fs ip f = Some content \<longrightarrow> (\<forall>g\<in>set (included_names content). rank g < (rank f :: nat))"
    and "\<forall>t. well_defined (brackets t)"
    and "\<forall>h\<in>set headers. read_header fs ip h \<and> rank (file_name h) < k"
  shows "well_defined (PreProcess tools brackets fs ip regex (Suc k) ls headers s)"
  using assms(3)
proof (induction k arbitrary: ls headers s rule: less_induct)
  case (less k)
  note words = well_defined_map_lines [OF well_defined_words(3) [OF assms(2)]]
  have incl: "well_defined (include_header fs ip (PreProcess tools brackets fs ip regex k) h s)"
    if h: "h \<in> set headers" for h s
    unfolding include_header_def
  proof (rule well_defined_case [OF well_defined_HeadProcess], clarsimp)
    fix content defs headers'
    assume hp: "HeadProcess fs ip (file_content h) (pp_definition s) [] = Inr (content, defs, headers')"
    from h less.prems have rank: "rank (file_name h) < k" "open_include fs ip (file_name h) = Some (file_content h)"
      by (auto simp: read_header_def)
    then obtain k' where k: "k = Suc k'" by (cases k) auto
    have "\<forall>h'\<in>set headers'. read_header fs ip h' \<and> rank (file_name h') < k'"
      using HeadProcess_headers [OF hp] assms(1) rank unfolding k by fastforce
    with less.IH [of k'] show "well_defined (PreProcess tools brackets fs ip regex k content headers' (s\<lparr>pp_definition := defs\<rparr>))"
      unfolding k by simp
  qed
  show ?case
    unfolding PreProcess.simps prod.case_eq_if
    by (rule well_defined_case [OF well_defined_register [OF assms(2)]],
        rule well_defined_case [OF well_defined_declarative [OF incl]]) (simp_all add: words)
qed

section \<open>Conditions\<close>

lemma skip_lines:
  assumes "\<forall>l\<in>set body. \<not> matches_whole endif_pattern (stripped l) \<and> \<not> matches_whole else_pattern (stripped l)"
    and "inside_ifdef s" and "\<not> requested_marco_present s"
  shows "head_lines fs ip n (body @ rest) s =
    map_result (\<lambda>(ls, s'). (replicate (length body) [] @ ls, s')) (head_lines fs ip (n + length body) rest s)"
  using assms(1)
proof (induction body arbitrary: n)
  case Nil
  then show ?case by (simp add: map_result_def split: sum.split)
next
  case (Cons l body)
  then have "head_line fs ip (Suc n) l s = Inr ([], s)"
    using assms(2,3) by (simp add: head_line_def stripped_def)
  with Cons show ?case by (auto simp: map_result_def split: sum.splits)
qed

text \<open>
  C39: code under a condition that does not hold has no effect. The lines from \<open>%ifdef\<close> of an
  undefined name, or \<open>%ifndef\<close> of a defined one, to \<open>%endif\<close> become empty; no header in them is
  read, no name defined, no \<open>%error\<close> raised, and the lines behind them are processed as they
  would be without the block.
\<close>

theorem skipped_block:
  assumes "\<not> inside_ifdef s" and "\<not> requested_marco_present s"
    and "\<not> matches_whole endif_pattern (stripped open_line)" and "\<not> matches_whole include_pattern (stripped open_line)"
    and "\<not> matches_whole define_pattern (stripped open_line)"
    and "matches_whole ifdef_pattern (stripped open_line)
        \<and> map_of (macro_definitions s) (directive_parameter_extraction (stripped open_line) ifdef_pattern) = None
      \<or> \<not> matches_whole ifdef_pattern (stripped open_line) \<and> matches_whole ifndef_pattern (stripped open_line)
        \<and> map_of (macro_definitions s) (directive_parameter_extraction (stripped open_line) ifndef_pattern) \<noteq> None"
    and "\<forall>l\<in>set body. \<not> matches_whole endif_pattern (stripped l) \<and> \<not> matches_whole else_pattern (stripped l)"
    and "matches_whole endif_pattern (stripped end_line)"
  shows "head_lines fs ip n (open_line # body @ end_line # rest) s =
    map_result (\<lambda>(ls, s'). (replicate (length body + 2) [] @ ls, s')) (head_lines fs ip (n + length body + 2) rest s)"
proof -
  let ?s = "s\<lparr>inside_ifdef := True, requested_marco_present := False\<rparr>"
  have first: "head_line fs ip (Suc n) open_line s = Inr ([], ?s)"
    using assms(1-6) by (auto simp: head_line_def stripped_def [symmetric] Let_def)
  have last: "head_line fs ip (Suc (Suc n + length body)) end_line ?s = Inr ([], s)"
    using assms(1,2,8) by (simp add: head_line_def stripped_def [symmetric] Let_def)
  then have tail: "head_lines fs ip (Suc n + length body) (end_line # rest) ?s
      = map_result (\<lambda>(ls, s'). ([] # ls, s')) (head_lines fs ip (n + length body + 2) rest s)"
    by simp
  have skip: "head_lines fs ip (Suc n) (body @ end_line # rest) ?s = map_result (\<lambda>(ls, s'). (replicate (length body) [] @ ls, s'))
      (map_result (\<lambda>(ls, s'). ([] # ls, s')) (head_lines fs ip (n + length body + 2) rest s))"
    unfolding tail [symmetric] using skip_lines [OF assms(7)] by simp
  have "replicate (length body) [] @ [] # ls = [] # replicate (length body) [] @ ls" for ls :: "string list"
    using replicate_append_same [of "length body" "[] :: string"] by (metis append_Cons append_Nil append_assoc)
  then show ?thesis
    unfolding append_Cons head_lines.simps(2) first sum.case prod.case skip
    by (cases "head_lines fs ip (n + length body + 2) rest s") (auto simp: map_result_def)
qed



theorem skipped_block_witness:
  "head_lines (\<lambda>_. None) [] 0 [''%ifdef DEBUG ; only then'', ''%include missing'', ''%error no'', ''  %endif'', ''NOP'']
       \<lparr>inside_ifdef = False, requested_marco_present = False, macro_definitions = [(''A'', ''1'')], header_files = []\<rparr>
     = Inr ([[], [], [], [], ''NOP''],
         \<lparr>inside_ifdef = False, requested_marco_present = False, macro_definitions = [(''A'', ''1'')], header_files = []\<rparr>)"
proof -
  let ?s = "\<lparr>inside_ifdef = False, requested_marco_present = False, macro_definitions = [(''A'', ''1'')], header_files = []\<rparr>"
  have open_line: "\<not> matches_whole endif_pattern (stripped ''%ifdef DEBUG ; only then'')"
    "\<not> matches_whole include_pattern (stripped ''%ifdef DEBUG ; only then'')"
    "\<not> matches_whole define_pattern (stripped ''%ifdef DEBUG ; only then'')"
    "matches_whole ifdef_pattern (stripped ''%ifdef DEBUG ; only then'')"
    "map_of (macro_definitions ?s) (directive_parameter_extraction (stripped ''%ifdef DEBUG ; only then'') ifdef_pattern) = None"
    by code_simp+
  have "list_all (\<lambda>l. \<not> matches_whole endif_pattern (stripped l) \<and> \<not> matches_whole else_pattern (stripped l))
      [''%include missing'', ''%error no'']" by code_simp
  note body = this [unfolded list_all_iff]
  have "matches_whole endif_pattern (stripped ''  %endif'')" by code_simp
  with skipped_block [of ?s, OF _ _ open_line(1-3) _ body] open_line(4,5)
  have "head_lines (\<lambda>_. None) [] 0 (''%ifdef DEBUG ; only then'' # [''%include missing'', ''%error no''] @ ''  %endif'' # [''NOP'']) ?s
    = map_result (\<lambda>(ls, s'). (replicate (length [''%include missing'', ''%error no''] + 2) [] @ ls, s'))
        (head_lines (\<lambda>_. None) [] (0 + length [''%include missing'', ''%error no''] + 2) [''NOP''] ?s)" by simp
  moreover have "head_lines (\<lambda>_. None) [] (0 + length [''%include missing'', ''%error no''] + 2) [''NOP''] ?s = Inr ([''NOP''], ?s)"
    by code_simp
  ultimately show ?thesis by (simp add: map_result_def)
qed

text \<open>
  When the condition holds, \<open>%else\<close> is not recognised: it stays in the file, and so do the lines
  behind it.
\<close>

theorem else_branch_kept:
  "map_result fst (HeadProcess (\<lambda>_. None) [] [''%ifdef A'', ''NOP'', ''%else'', ''HLT'', ''%endif''] [(''A'', ''1'')] [])
     = Inr [[], ''NOP'', ''%else'', ''HLT'', []]"
  by code_simp

text \<open>
  The first alternative for the name of a macro has no digits, and the rest of the line is its
  value: \<open>%define A1 2\<close> defines \<open>A\<close> as \<open>12\<close>, and \<open>%ifdef A1\<close> does not find it.
\<close>

theorem macro_name_cut_at_digit:
  "map_result (fst \<circ> snd) (HeadProcess (\<lambda>_. None) [] [''%define A1 2''] [] []) = Inr [(''A'', ''12'')]
   \<and> map_result fst (HeadProcess (\<lambda>_. None) [] [''%ifdef A1'', ''NOP'', ''%endif''] [(''A'', ''12'')] []) = Inr [[], [], []]"
  by code_simp

text \<open>A header in the first of two include paths is not found: the stream is opened twice.\<close>

theorem include_path_of_two:
  "open_include (map_of [(''inc/a.h'', [])]) [''inc''] ''a.h'' = Some []
   \<and> open_include (map_of [(''inc/a.h'', [])]) [''inc'', ''lib''] ''a.h'' = None"
  by code_simp

definition demo_headers :: file_system where
  "demo_headers = map_of [(''a.h'', [''%include '' @ [dquote] @ ''b.h'' @ [dquote]]), (''b.h'', [''.org 0x100''])]"

definition idle_tools :: equ_tools where
  "idle_tools = \<lparr>grep_tool = \<lambda>_ _. 1, sed_tool = \<lambda>_ input. (0, input)\<rparr>"

theorem includes_terminate_witness:
  "well_defined (PreProcess idle_tools no_brackets demo_headers [] False 3 [[], ''NOP'']
     [\<lparr>file_name = ''a.h'', appearance_at_line_num = 1, file_content = [''%include '' @ [dquote] @ ''b.h'' @ [dquote]]\<rparr>]
     \<lparr>defined_line_marker = [], org = 0, equ_replacement = [], pp_definition = []\<rparr>)"
proof -
  let ?rank = "\<lambda>f. if f = ''a.h'' then 1 else 0 :: nat"
  let ?h = "\<lparr>file_name = ''a.h'', appearance_at_line_num = 1, file_content = [''%include '' @ [dquote] @ ''b.h'' @ [dquote]]\<rparr>"
  have names: "included_names [''%include '' @ [dquote] @ ''b.h'' @ [dquote]] = [''b.h'']" "included_names [''.org 0x100''] = []"
    by code_simp+
  have "\<forall>f content. open_include demo_headers [] f = Some content \<longrightarrow> (\<forall>g\<in>set (included_names content). ?rank g < ?rank f)"
    using names by (auto simp: open_include_def demo_headers_def split: option.splits if_splits)
  moreover have "\<forall>t. well_defined (no_brackets t)" by (simp add: no_brackets_def)
  moreover have "\<forall>h\<in>set [?h]. read_header demo_headers [] h \<and> ?rank (file_name h) < 2"
    by (simp add: read_header_def open_include_def demo_headers_def)
  ultimately have "well_defined (PreProcess idle_tools no_brackets demo_headers [] False (Suc 2) [[], ''NOP''] [?h]
     \<lparr>defined_line_marker = [], org = 0, equ_replacement = [], pp_definition = []\<rparr>)"
    by (rule includes_terminate)
  then show ?thesis by (simp only: numeral_3_eq_3 numeral_2_eq_2)
qed

end
