(* ===== verification/Main_Compile.thy ===== *)
theory Main_Compile
  imports Pre_Processor
begin

text \<open>
  The compilation of source files to a binary (\<open>SysdarftConsole/MainCompile.cpp\<close>): reading,
  preprocessing, assembling and linking, the format of the output, and the reader of that
  format in the disassembler. Files on disk are arguments; messages are left out.
\<close>

section \<open>Files\<close>

(* SysdarftConsole/MainCompile.cpp 58-66: file_attr_t *)
record file_attr_t =
  file_symbol_table :: "line_marker_t list"
  file_code :: "u8 list list"
  file_lines :: "string list"
  file_object :: object_t
  attr_filename :: string
  file_definition :: definitions_t
  file_header_files :: "include_file_t list"

definition empty_object :: object_t where
  "empty_object = \<lparr>code = [], symbol_table = [], data_expression_identifiers = []\<rparr>"

definition rethrown :: "cpu_error \<Rightarrow> cpu_error + 'a \<Rightarrow> cpu_error + 'a" where
  "rethrown err r = (case r of Inl e \<Rightarrow> Inl (if derived_from_exception e then err else e) | Inr x \<Rightarrow> Inr x)"

fun map_files :: "('f \<Rightarrow> cpu_error + 'g) \<Rightarrow> 'f list \<Rightarrow> cpu_error + 'g list" where
  "map_files f [] = Inr []"
| "map_files f (x # xs) = (case f x of Inl e \<Rightarrow> Inl e | Inr y \<Rightarrow> map_result ((#) y) (map_files f xs))"

text \<open>For loops that also carry the origin along.\<close>

fun fold_files :: "('f \<Rightarrow> u64 \<Rightarrow> cpu_error + 'g \<times> u64) \<Rightarrow> 'f list \<Rightarrow> u64 \<Rightarrow> cpu_error + 'g list \<times> u64" where
  "fold_files f [] origin = Inr ([], origin)"
| "fold_files f (x # xs) origin =
     (case f x origin of
        Inl e \<Rightarrow> Inl e
      | Inr (y, origin') \<Rightarrow> map_result (\<lambda>(ys, origin''). (y # ys, origin'')) (fold_files f xs origin'))"

(* SysdarftConsole/MainCompile.cpp 176-208: ReadFiles *)
definition ReadFiles :: "file_system \<Rightarrow> string list \<Rightarrow> cpu_error + file_attr_t list" where
  "ReadFiles fs source_files = map_files (\<lambda>name. case fs name of
       None \<Rightarrow> Inl SysdarftAssemblerError
     | Some ls \<Rightarrow> Inr \<lparr>file_symbol_table = [], file_code = [], file_lines = ls, file_object = empty_object,
         attr_filename = name, file_definition = [], file_header_files = []\<rparr>) source_files"

(* SysdarftConsole/MainCompile.cpp 96-119: PreProcess, headers *)
definition preprocess_head :: "file_system \<Rightarrow> string list \<Rightarrow> file_attr_t \<Rightarrow> cpu_error + file_attr_t" where
  "preprocess_head fs include_path f = rethrown StdException (map_result
     (\<lambda>(ls, defs, headers). f\<lparr>file_lines := ls, file_definition := defs, file_header_files := headers\<rparr>)
     (HeadProcess fs include_path (file_lines f) (file_definition f) (file_header_files f)))"

(* SysdarftConsole/MainCompile.cpp 121-145: PreProcess, files *)
definition preprocess_file :: "equ_tools \<Rightarrow> bracket_regex \<Rightarrow> file_system \<Rightarrow> string list \<Rightarrow> bool \<Rightarrow> nat \<Rightarrow>
    file_attr_t \<Rightarrow> u64 \<Rightarrow> cpu_error + file_attr_t \<times> u64" where
  "preprocess_file tools brackets fs include_path regex depth f origin = rethrown StdException (map_result
     (\<lambda>(ls, s). (f\<lparr>file_lines := ls, file_symbol_table := defined_line_marker s, file_definition := pp_definition s\<rparr>, org s))
     (PreProcess tools brackets fs include_path regex depth (file_lines f) (file_header_files f)
       \<lparr>defined_line_marker = file_symbol_table f, org = origin, equ_replacement = [], pp_definition = file_definition f\<rparr>))"

(* SysdarftConsole/MainCompile.cpp 94-146: PreProcess *)
definition PreProcess_files :: "equ_tools \<Rightarrow> bracket_regex \<Rightarrow> file_system \<Rightarrow> string list \<Rightarrow> bool \<Rightarrow> nat \<Rightarrow>
    file_attr_t list \<Rightarrow> u64 \<Rightarrow> cpu_error + file_attr_t list \<times> u64" where
  "PreProcess_files tools brackets fs include_path regex depth files origin =
     (case map_files (preprocess_head fs include_path) files of
        Inl e \<Rightarrow> Inl e
      | Inr files' \<Rightarrow> fold_files (preprocess_file tools brackets fs include_path regex depth) files' origin)"

(* SysdarftConsole/MainCompile.cpp 152-159: Assemble, one file *)
definition assemble_file :: "calculator \<Rightarrow> file_attr_t \<Rightarrow> u64 \<Rightarrow> cpu_error + file_attr_t \<times> u64" where
  "assemble_file bc f origin = rethrown StdException (map_result
     (\<lambda>(obj, origin', markers). (f\<lparr>file_object := obj, file_code := code obj, file_symbol_table := markers\<rparr>, origin'))
     (SysdarftAssemble bc (file_code f) (file_lines f) origin (file_symbol_table f)))"

(* SysdarftConsole/MainCompile.cpp 148-161: Assemble *)
definition Assemble :: "calculator \<Rightarrow> file_attr_t list \<Rightarrow> u64 \<Rightarrow> cpu_error + file_attr_t list \<times> u64" where
  "Assemble bc files origin = fold_files (assemble_file bc) files origin"

(* SysdarftConsole/MainCompile.cpp 163-174: Archive *)
definition Archive :: "file_attr_t list \<Rightarrow> object_t list" where
  "Archive files = map file_object files"

section \<open>The output\<close>

(* include/SysdarftMain.h 111-111: COMPILATION_MODE *)
datatype COMPILATION_MODE = BIN | EXE | SYS

(* SysdarftConsole/MainCompile.cpp 24-25: EXE_MAGIC, SYS_MAGIC *)
definition magic :: "COMPILATION_MODE \<Rightarrow> u32" where
  "magic mode = (if mode = EXE then 0x00455845 else 0x00535953)"

(* SysdarftConsole/MainCompile.cpp 35-53: generate_symbol_table, entry *)
definition symbol_entry :: "line_marker_t \<Rightarrow> u8 list" where
  "symbol_entry symbol =
     word_to_bytes 2 (of_nat (length (line_marker_name symbol)) :: u16)
     @ map char_byte (line_marker_name symbol) @ word_to_bytes 8 (marker_position symbol)"

(* SysdarftConsole/MainCompile.cpp 28-56: generate_symbol_table *)
definition generate_symbol_table :: "object_t \<Rightarrow> u8 list" where
  "generate_symbol_table obj =
     word_to_bytes 8 (of_nat (length (symbol_table obj)) :: u64) @ concat (map symbol_entry (symbol_table obj))"

(* SysdarftConsole/MainCompile.cpp 210-238: LinkedWrite *)
definition LinkedWrite :: "object_t \<Rightarrow> COMPILATION_MODE \<Rightarrow> u8 list" where
  "LinkedWrite linked mode =
     (if mode = BIN then concat (code linked)
      else word_to_bytes 4 (magic mode) @ generate_symbol_table linked @ concat (code linked))"

(* SysdarftConsole/MainCompile.cpp 252-291: compile_to_binary *)
definition compile_to_binary :: "calculator \<Rightarrow> equ_tools \<Rightarrow> bracket_regex \<Rightarrow> file_system \<Rightarrow> bool \<Rightarrow> nat \<Rightarrow>
    string list \<Rightarrow> bool \<Rightarrow> COMPILATION_MODE \<Rightarrow> string list \<Rightarrow> cpu_error + u8 list" where
  "compile_to_binary bc tools brackets fs verbose depth source_files regex mode include_path =
     (case ReadFiles fs source_files of
        Inl e \<Rightarrow> Inl e
      | Inr files \<Rightarrow>
     (case PreProcess_files tools brackets fs include_path regex depth files 0 of
        Inl e \<Rightarrow> Inl e
      | Inr (files1, origin) \<Rightarrow>
     (case Assemble bc files1 origin of
        Inl e \<Rightarrow> Inl e
      | Inr (files2, _) \<Rightarrow>
          map_result (\<lambda>linked. LinkedWrite linked mode) (SysdarftLink bc verbose (Archive files2)))))"

section \<open>Reading the output\<close>

(* SysdarftConsole/MainCompile.cpp 293-304: pop_num_from_vec *)
definition pop_num_from_vec :: "nat \<Rightarrow> (u8 list, u8 list) run" where
  "pop_num_from_vec n vec =
     (if length vec < n then (Inl SysdarftDisassemblerError, vec) else (Inr (take n vec), drop n vec))"

(* SysdarftConsole/MainCompile.cpp 306-317: pop_str_from_vec *)
definition pop_str_from_vec :: "(u8 list, string) run" where
  "pop_str_from_vec =
     bindR (pop_num_from_vec 2) (\<lambda>bytes vec.
       let len = unat (word_of_bytes bytes :: u16) in
       if length vec < len then (Inl SysdarftDisassemblerError, vec)
       else (Inr (map byte_char (take len vec)), drop len vec))"

(* SysdarftConsole/MainCompile.cpp 367-371: disassemble, symbol table *)
fun read_symbols :: "nat \<Rightarrow> (u64 \<times> string) list \<Rightarrow> (u8 list, (u64 \<times> string) list) run" where
  "read_symbols 0 tab = returnR tab"
| "read_symbols (Suc n) tab =
     bindR pop_str_from_vec (\<lambda>entry.
     bindR (pop_num_from_vec 8) (\<lambda>bytes.
     read_symbols n (map_emplace (word_of_bytes bytes) entry tab)))"

text \<open>The mode found in the file, its symbols in the order of their addresses, and the code.\<close>

(* SysdarftConsole/MainCompile.cpp 346-377: disassemble, format *)
definition read_binary :: "COMPILATION_MODE \<Rightarrow> u8 list \<Rightarrow> cpu_error + COMPILATION_MODE \<times> (u64 \<times> string) list \<times> u8 list" where
  "read_binary mode bytes =
     (let mode1 = (if 3 \<le> length bytes \<and> take 3 bytes = [0x45, 0x58, 0x45] then EXE else mode);
          mode2 = (if 3 \<le> length bytes \<and> take 3 bytes = [0x53, 0x59, 0x53] then SYS else mode1)
      in if mode2 = BIN then Inr (BIN, [], bytes)
         else case bindR (pop_num_from_vec 4) (\<lambda>m.
             if word_of_bytes m \<noteq> magic EXE \<and> word_of_bytes m \<noteq> magic SYS then throwR SysdarftDisassemblerError
             else bindR (pop_num_from_vec 8) (\<lambda>n. bindR (read_symbols (unat (word_of_bytes n :: u64)) []) (\<lambda>tab.
               returnR (if word_of_bytes m = magic EXE then EXE else SYS, tab)))) bytes of
           (Inl e, _) \<Rightarrow> Inl e
         | (Inr (m, tab), rest) \<Rightarrow> Inr (m, tab, rest))"

section \<open>The format of the output\<close>

lemma byte_char_char_byte [simp]: "byte_char (char_byte c) = c"
  by (simp add: byte_char_def char_byte_def unat_of_nat)

lemma pop_num_written [simp]: "length bs = n \<Longrightarrow> pop_num_from_vec n (bs @ rest) = (Inr bs, rest)"
  by (simp add: pop_num_from_vec_def)

lemma pop_str_written:
  assumes "length name < 2 ^ 16"
  shows "pop_str_from_vec (word_to_bytes 2 (of_nat (length name) :: u16) @ map char_byte name @ rest) = (Inr name, rest)"
  using assms by (simp add: pop_str_from_vec_def bindR_def Let_def unat_of_nat take_bit_eq_mod comp_def)

lemma read_symbols_written:
  assumes "\<forall>m\<in>set ms. length (line_marker_name m) < 2 ^ 16"
  shows "read_symbols (length ms) tab (concat (map symbol_entry ms) @ rest)
    = (Inr (fold (\<lambda>m. map_emplace (marker_position m) (line_marker_name m)) ms tab), rest)"
  using assms
proof (induction ms arbitrary: tab)
  case (Cons m ms)
  then have "pop_str_from_vec (symbol_entry m @ rest') = (Inr (line_marker_name m), word_to_bytes 8 (marker_position m) @ rest')" for rest'
    using pop_str_written [of "line_marker_name m"] by (simp add: symbol_entry_def)
  with Cons show ?case by (simp add: bindR_def)
qed (simp add: returnR_def)

lemma written_binary_read:
  assumes "mode \<noteq> BIN" and "\<forall>m\<in>set (symbol_table linked). length (line_marker_name m) < 2 ^ 16"
    and "length (symbol_table linked) < 2 ^ 64"
  shows "read_binary requested (LinkedWrite linked mode) = Inr (mode,
    fold (\<lambda>m. map_emplace (marker_position m) (line_marker_name m)) (symbol_table linked) [], concat (code linked))"
proof -
  have magic: "word_to_bytes 4 (magic EXE) = [0x45, 0x58, 0x45, 0x00]" "word_to_bytes 4 (magic SYS) = [0x53, 0x59, 0x53, 0x00]"
    "word_of_bytes [0x45, 0x58, 0x45, 0x00] = magic EXE" "word_of_bytes [0x53, 0x59, 0x53, 0x00] = magic SYS"
    "magic EXE \<noteq> magic SYS"
    by code_simp+
  let ?ms = "symbol_table linked"
  have n: "unat (word_of_bytes (word_to_bytes 8 (of_nat (length ?ms) :: u64)) :: u64) = length ?ms"
    using assms(3) by (simp add: unat_of_nat take_bit_eq_mod)
  have pop4: "pop_num_from_vec 4 (a # b # c # d # rest) = (Inr [a, b, c, d], rest)" for a b c d rest
    by (simp add: pop_num_from_vec_def)
  have "read_symbols (length ?ms) [] (concat (map symbol_entry ?ms) @ concat (code linked))
    = (Inr (fold (\<lambda>m. map_emplace (marker_position m) (line_marker_name m)) ?ms []), concat (code linked))"
    by (rule read_symbols_written [OF assms(2)])
  with magic n pop4 assms(1) show ?thesis
    by (cases mode) (simp_all add: read_binary_def LinkedWrite_def generate_symbol_table_def Let_def bindR_def returnR_def)
qed

text \<open>
  What the linker writes is what the disassembler reads. From a file in the EXE or SYS format
  it reads back the mode, the code, and the name of every address that has a symbol; of
  several symbols at one address the first one of the table is kept.
\<close>

theorem binary_round_trip:
  assumes "mode \<noteq> BIN" and "\<forall>m\<in>set (symbol_table linked). length (line_marker_name m) < 2 ^ 16"
    and "length (symbol_table linked) < 2 ^ 64"
  shows "read_binary requested (LinkedWrite linked mode) = Inr (mode,
    fold (\<lambda>m. map_emplace (marker_position m) (line_marker_name m)) (symbol_table linked) [], concat (code linked))"
  using assms by (rule written_binary_read)

theorem binary_round_trip_witness:
  "read_binary BIN (LinkedWrite \<lparr>code = [[0x00], [0x30, 0x31]], symbol_table = [\<lparr>line_marker_name = ''main'', marker_position = 0x7C01,
       is_defined = False, referenced = False, loc_it_appeared_in_cur_blk = []\<rparr>], data_expression_identifiers = []\<rparr> EXE)
     = Inr (EXE, [(0x7C01, ''main'')], [0x00, 0x30, 0x31])"
  using binary_round_trip [of EXE "\<lparr>code = [[0x00], [0x30, 0x31]], symbol_table = [\<lparr>line_marker_name = ''main'', marker_position = 0x7C01,
       is_defined = False, referenced = False, loc_it_appeared_in_cur_blk = []\<rparr>], data_expression_identifiers = []\<rparr>" BIN]
  by (simp add: map_emplace_def)

text \<open>Code in the plain format that begins with the letters of the other formats is not read as code.\<close>

theorem plain_code_taken_for_a_format:
  "LinkedWrite \<lparr>code = [[0x53, 0x59, 0x53, 0x01]], symbol_table = [], data_expression_identifiers = []\<rparr> BIN = [0x53, 0x59, 0x53, 0x01]
   \<and> read_binary BIN [0x53, 0x59, 0x53, 0x01] = Inl SysdarftDisassemblerError"
  by code_simp

section \<open>From source files to addresses\<close>

lemma fold_files_append:
  assumes "fold_files f (us @ x # vs) origin = Inr (ys, origin')"
  obtains us' y vs' o1 o2 where "ys = us' @ y # vs'" "fold_files f us origin = Inr (us', o1)" "f x o1 = Inr (y, o2)"
    "fold_files f vs o2 = Inr (vs', origin')"
  using assms
proof (induction us arbitrary: origin ys thesis)
  case Nil
  then show ?case by (fastforce simp: map_result_def split: sum.splits prod.splits)
next
  case (Cons u us)
  then obtain y1 o1 ys1 where u: "f u origin = Inr (y1, o1)" "fold_files f (us @ x # vs) o1 = Inr (ys1, origin')" "ys = y1 # ys1"
    by (auto simp: map_result_def split: sum.splits prod.splits)
  obtain us' y vs' o2 o3 where "ys1 = us' @ y # vs'" "fold_files f us o1 = Inr (us', o2)" "f x o2 = Inr (y, o3)"
    "fold_files f vs o3 = Inr (vs', origin')"
    using Cons.IH [OF _ u(2)] by metis
  with u show ?case by (intro Cons.prems(1) [of "y1 # us'"]) (simp_all add: map_result_def)
qed

text \<open>Files as they are handed to the assembler.\<close>

definition ready :: "file_attr_t \<Rightarrow> bool" where
  "ready f \<longleftrightarrow> file_code f = [] \<and> (\<forall>m\<in>set (file_symbol_table f). fresh_marker m)"

lemma assemble_file_result:
  assumes "assemble_file bc f origin = Inr (f', origin')"
  shows "\<exists>markers. SysdarftAssemble bc (file_code f) (file_lines f) origin (file_symbol_table f) = Inr (file_object f', origin', markers)"
  using assms by (auto simp: assemble_file_def rethrown_def map_result_def split: sum.splits prod.splits)

lemma Assemble_objects:
  assumes "Assemble bc files origin = Inr (files', origin')" and "\<forall>f\<in>set files. ready f"
  shows "(\<forall>obj\<in>set (Archive files'). wf_object obj) \<and> origin' = origin + code_size_now (concat (map code (Archive files')))"
  using assms unfolding Assemble_def
proof (induction files arbitrary: origin files')
  case (Cons f files)
  then obtain f1 o1 fs1 where f1: "assemble_file bc f origin = Inr (f1, o1)"
    "fold_files (assemble_file bc) files o1 = Inr (fs1, origin')" "files' = f1 # fs1"
    by (auto simp: map_result_def split: sum.splits prod.splits)
  from assemble_file_result [OF f1(1)] Cons.prems(2) obtain markers where
    "SysdarftAssemble bc [] (file_lines f) origin (file_symbol_table f) = Inr (file_object f1, o1, markers)"
    by (auto simp: ready_def)
  from assemble_result [OF this] Cons.prems(2) have "wf_object (file_object f1)" "o1 = origin + code_size_now (code (file_object f1))"
    by (auto simp: ready_def)
  with Cons.IH [OF f1(2)] Cons.prems(2) show ?case by (simp add: f1(3) Archive_def)
qed (simp add: Archive_def)

lemma code_size_layout: "map length c = map length d \<Longrightarrow> code_size_now (take n c) = code_size_now (take n d)"
proof (induction c arbitrary: d n)
  case (Cons l c)
  then obtain l' d' where "d = l' # d'" by (cases d) auto
  with Cons show ?case by (cases n) auto
qed simp

lemma code_size_bytes: "code_size_now c = of_nat (length (concat c))"
  by (induction c) simp_all

lemma map_files_all:
  assumes "map_files f xs = Inr ys" and "\<And>x y. x \<in> set xs \<Longrightarrow> f x = Inr y \<Longrightarrow> P y"
  shows "\<forall>y\<in>set ys. P y"
  using assms
proof (induction xs arbitrary: ys)
  case (Cons x xs)
  then obtain y1 ys1 where "f x = Inr y1" "map_files f xs = Inr ys1" "ys = y1 # ys1"
    by (auto simp: map_result_def split: sum.splits)
  with Cons show ?case by (metis list.set_intros(1,2) set_ConsD)
qed simp

lemma fold_files_all:
  assumes "fold_files f xs origin = Inr (ys, origin')" and "\<And>x y o1 o2. x \<in> set xs \<Longrightarrow> f x o1 = Inr (y, o2) \<Longrightarrow> P y"
  shows "\<forall>y\<in>set ys. P y"
  using assms
proof (induction xs arbitrary: ys origin)
  case (Cons x xs)
  then obtain y1 o1 ys1 where "f x origin = Inr (y1, o1)" "fold_files f xs o1 = Inr (ys1, origin')" "ys = y1 # ys1"
    by (auto simp: map_result_def split: sum.splits prod.splits)
  with Cons show ?case by (metis list.set_intros(1,2) set_ConsD)
qed simp

text \<open>Whatever files are read, preprocessing makes them ready.\<close>

lemma preprocessed_ready:
  assumes "ReadFiles fs names = Inr files"
    and "PreProcess_files tools brackets fs2 ip regex depth files origin = Inr (files1, origin1)"
  shows "\<forall>f\<in>set files1. ready f"
proof -
  let ?new = "\<lambda>f. file_code f = [] \<and> markers_ok (file_symbol_table f)"
  have "\<forall>f\<in>set files. ?new f"
    using assms(1) unfolding ReadFiles_def by (rule map_files_all) (auto simp: markers_ok_def split: option.splits)
  moreover from assms(2) obtain files0 where files0: "map_files (preprocess_head fs2 ip) files = Inr files0"
    "fold_files (preprocess_file tools brackets fs2 ip regex depth) files0 origin = Inr (files1, origin1)"
    by (auto simp: PreProcess_files_def split: sum.splits)
  ultimately have "\<forall>f\<in>set files0. ?new f"
    by (intro map_files_all [OF files0(1)])
      (auto simp: preprocess_head_def rethrown_def map_result_def split: sum.splits prod.splits)
  then have "\<forall>f\<in>set files1. ?new f"
    by (intro fold_files_all [OF files0(2)])
      (auto simp: preprocess_file_def rethrown_def map_result_def split: sum.splits prod.splits dest!: PreProcess_markers)
  then show ?thesis by (auto simp: ready_def markers_ok_def)
qed

text \<open>
  The entry of the linked code in front of which a label stands: behind the entries of the
  files before, and of the lines before it in its file.
\<close>

definition label_entry :: "calculator \<Rightarrow> u64 \<Rightarrow> object_t list \<Rightarrow> file_attr_t \<Rightarrow> string list \<Rightarrow> nat" where
  "label_entry bc origin objs f pre = (let c = concat (map code objs) in
     length c + code_lines bc (origin + code_size_now c) (file_symbol_table f) pre)"

lemma take_concat_codes:
  assumes "k \<le> length (code obj)"
  shows "take (length (concat (map code us)) + k) (concat (map code (us @ obj # vs))) = concat (map code us) @ take k (code obj)"
  using assms by simp

lemma label_resolved:
  assumes ready: "\<forall>f\<in>set files1. ready f"
    and asm: "Assemble bc files1 origin = Inr (files2, origin')"
    and link: "SysdarftLink bc v (Archive files2) = Inr linked"
    and f: "files1 = us @ f # vs" "file_lines f = pre @ line # post" "label_line line name"
    and ref: "Archive files2 = us2 @ obj # vs2" "m \<in> set (symbol_table obj)" "line_marker_name m = name"
      "i \<in> set (loc_it_appeared_in_cur_blk m)"
  shows "points_to (code obj ! i) (code linked ! (length (concat (map code us2)) + i))
    (origin + of_nat (length (concat (take (label_entry bc origin (take (length us) (Archive files2)) f pre) (code linked)))))"
proof -
  obtain us' f' vs' o1 o2 where parts: "files2 = us' @ f' # vs'" "fold_files (assemble_file bc) us origin = Inr (us', o1)"
    "assemble_file bc f o1 = Inr (f', o2)"
    using asm unfolding Assemble_def f(1) by (rule fold_files_append)
  have "length us' = length us" using parts(2)
    by (induction us arbitrary: us' origin) (auto simp: map_result_def split: sum.splits prod.splits)
  then have front: "take (length us) (Archive files2) = Archive us'" by (simp add: parts(1) Archive_def)
  let ?objs = "Archive files2" and ?c = "concat (map code (Archive us'))"
  have o1: "o1 = origin + code_size_now ?c"
    using Assemble_objects [of bc us origin us' o1] parts(2) ready f(1) by (simp add: Assemble_def)
  from assemble_file_result [OF parts(3)] ready f(1,2) obtain markers where
    a: "SysdarftAssemble bc [] (pre @ line # post) o1 (file_symbol_table f) = Inr (file_object f', o2, markers)"
    by (auto simp: ready_def)
  have fresh: "\<forall>m\<in>set (file_symbol_table f). fresh_marker m" using ready f(1) by (auto simp: ready_def)
  let ?k = "code_lines bc o1 (file_symbol_table f) pre"
  have k: "?k \<le> length (code (file_object f'))"
    and "(name, o1 + code_size_now (take ?k (code (file_object f')))) \<in> set (definitions (symbol_table (file_object f')))"
    using label_defined [OF a f(3) fresh] by blast+
  then have here: "(name, o1 + code_size_now (take ?k (code (file_object f')))) \<in> set (definitions (all_symbols ?objs))"
    by (auto simp: parts(1) Archive_def all_symbols_def definitions_def)
  have wf: "\<forall>obj\<in>set ?objs. wf_object obj" using Assemble_objects [OF asm ready] by blast
  note linked = link_correct [OF link wf]
  from linked ref obtain a where there: "(name, a) \<in> set (definitions (all_symbols ?objs))"
    and points: "points_to (code obj ! i) (code linked ! (length (concat (map code us2)) + i)) a" by blast
  from linked here there have "a = o1 + code_size_now (take ?k (code (file_object f')))"
    by (meson eq_key_imp_eq_value)
  also have "\<dots> = origin + code_size_now (take (length ?c + ?k) (concat (map code ?objs)))"
  proof -
    have "?objs = Archive us' @ file_object f' # Archive vs'" by (simp add: parts(1) Archive_def)
    then have "take (length ?c + ?k) (concat (map code ?objs)) = ?c @ take ?k (code (file_object f'))"
      using take_concat_codes [OF k, of "Archive us'" "Archive vs'"] by metis
    then show ?thesis unfolding o1 by (simp only: code_size_append add.assoc)
  qed
  also have "\<dots> = origin + code_size_now (take (length ?c + ?k) (code linked))"
    using linked code_size_layout by metis
  finally show ?thesis
    using points by (simp add: label_entry_def Let_def front o1 code_size_bytes)
qed



text \<open>Two files: a jump in the first to a label in the second.\<close>

definition demo_sources :: file_system where
  "demo_sources = map_of [(''a.asm'', [''.org 0x100'', ''.lab end'', ''JMP <%CB>, <end>'']), (''b.asm'', [''end:'', ''NOP''])]"

definition end_marker :: line_marker_t where
  "end_marker = \<lparr>line_marker_name = ''end'', marker_position = 0, is_defined = False, referenced = False,
     loc_it_appeared_in_cur_blk = []\<rparr>"

definition demo_file :: "string \<Rightarrow> string list \<Rightarrow> line_marker_t list \<Rightarrow> file_attr_t" where
  "demo_file name ls ms = \<lparr>file_symbol_table = ms, file_code = [], file_lines = ls, file_object = empty_object,
     attr_filename = name, file_definition = [], file_header_files = []\<rparr>"

definition demo_preprocessed :: "file_attr_t list" where
  "demo_preprocessed = [demo_file ''a.asm'' [[], [], ''JMP <%CB>, <end>''] [end_marker],
     demo_file ''b.asm'' [''end:'', ''NOP''] [end_marker]]"

definition demo_objs :: "object_t list" where
  "demo_objs = [\<lparr>code = [[0x30, 0x01, 0x64, 0xA2] @ tmp_address_hex],
       symbol_table = [end_marker\<lparr>referenced := True, loc_it_appeared_in_cur_blk := [0]\<rparr>], data_expression_identifiers = []\<rparr>,
     \<lparr>code = [[0x00]], symbol_table = [end_marker\<lparr>marker_position := 0x10E, is_defined := True\<rparr>], data_expression_identifiers = []\<rparr>]"

lemma demo_read:
  "ReadFiles demo_sources [''a.asm'', ''b.asm''] = Inr [demo_file ''a.asm'' [''.org 0x100'', ''.lab end'', ''JMP <%CB>, <end>''] [],
     demo_file ''b.asm'' [''end:'', ''NOP''] []]"
  by code_simp

lemma demo_preprocess:
  "PreProcess_files idle_tools no_brackets demo_sources [] False 1
     [demo_file ''a.asm'' [''.org 0x100'', ''.lab end'', ''JMP <%CB>, <end>''] [], demo_file ''b.asm'' [''end:'', ''NOP''] []] 0
   = Inr (demo_preprocessed, 0x100)"
  by code_simp

lemma demo_calculator_ok: "bc_prints_literals demo_calculator"
  by (simp add: bc_prints_literals_def demo_calculator_def)

lemma demo_assemble_jump:
  "SysdarftAssemble demo_calculator [] [[], [], ''JMP <%CB>, <end>''] 0x100 [end_marker]
   = Inr (demo_objs ! 0, 0x10E, [end_marker\<lparr>referenced := True\<rparr>])"
proof -
  let ?l = "''JMP <%CB>, <end>''"
  let ?s = "\<lparr>instruction_buffer_set = [[]], appeared_line_markers = [end_marker], data_processors = []\<rparr>"
  have lines: "is_line_empty []" "\<not> is_line_empty ?l" "regex_match line_mark_pattern ?l = None" "process_string ?l = Inr None"
    "expand_offsets 0x100 (code_size_now [[]] + 0x100) ?l = ?l" "process_resvb demo_calculator ?l = Inr None"
    "process_ascii_value ?l = Inr ?l" "process_data ?l = None"
    "marker_operand [end_marker] ?l = Some (''end'', ''<end>'')"
    "replace_all ?l ''<end>'' placeholder_text = ''JMP <%CB>, <$64(0xFFFFFFFFFFFFFFFF)>''"
    by code_simp+
  have "assemble_instruction demo_calculator ?l ?s = Inr (emplace_code (instruction_bytes demo_jump)
      (?s\<lparr>appeared_line_markers := add_marker_reference ''end'' 0 [end_marker]\<rparr>))"
    using assemble_reference [OF demo_calculator_ok, of ?s ?l "''end''" "''<end>''" demo_jump] lines(9,10) demo_jump_facts demo_jump_text
    by simp
  then have "assemble_line demo_calculator 0x100 ?l ?s = Inr (emplace_code (instruction_bytes demo_jump)
      (?s\<lparr>appeared_line_markers := add_marker_reference ''end'' 0 [end_marker]\<rparr>))"
    using lines by (simp add: assemble_line_def assemble_code_line_def assemble_data_line_def)
  then have "assemble_lines demo_calculator 0x100 [[], [], ?l] ?s = Inr (emplace_code (instruction_bytes demo_jump)
      (?s\<lparr>appeared_line_markers := add_marker_reference ''end'' 0 [end_marker]\<rparr>))"
    using lines(1) by (simp add: assemble_line_def [of _ _ "[]"])
  then show ?thesis
    by (simp add: SysdarftAssemble_def emplace_code_def demo_jump_facts(5) demo_objs_def end_marker_def)
qed

lemma demo_assemble_label:
  "SysdarftAssemble demo_calculator [] [''end:'', ''NOP''] 0x10E [end_marker]
   = Inr (demo_objs ! 1, 0x10F, [end_marker\<lparr>marker_position := 0x10E, is_defined := True\<rparr>])"
  by code_simp

lemma demo_assemble:
  "\<exists>files2. Assemble demo_calculator demo_preprocessed 0x100 = Inr (files2, 0x10F) \<and> Archive files2 = demo_objs"
proof -
  have "demo_objs = [demo_objs ! 0, demo_objs ! 1]" by (simp add: demo_objs_def)
  then show ?thesis
    using demo_assemble_jump demo_assemble_label
    by (simp add: Assemble_def demo_preprocessed_def demo_file_def assemble_file_def rethrown_def map_result_def Archive_def)
qed

lemma demo_link:
  "\<exists>linked. SysdarftLink demo_calculator False demo_objs = Inr linked
     \<and> code linked = [[0x30, 0x01, 0x64, 0xA2, 0x02, 0x64, 0x0E, 0x01, 0, 0, 0, 0, 0, 0], [0x00]]"
proof -
  have "map_result code (SysdarftLink demo_calculator False demo_objs)
      = Inr [[0x30, 0x01, 0x64, 0xA2, 0x02, 0x64, 0x0E, 0x01, 0, 0, 0, 0, 0, 0], [0x00]]" by code_simp
  then show ?thesis by (auto simp: map_result_def split: sum.splits)
qed



section \<open>The steps keep their contracts\<close>



text \<open>
  C35: the objects of the assembler are what the linker relies on. From markers as the
  preprocessor leaves them: no line has two references, data has its place and its size, every
  defined label stands at the address of a line of code or of the end, and the origin of the
  next file lies behind the code.
\<close>

theorem assembled_objects_well_formed:
  assumes "SysdarftAssemble bc [] ls origin markers = Inr (obj, origin', markers')"
    and "\<forall>m\<in>set markers. fresh_marker m"
  shows "wf_object obj \<and> origin' = origin + code_size_now (code obj)
    \<and> (\<forall>m\<in>set (symbol_table obj). placed origin (code obj) m \<and> marker_name_ok (line_marker_name m))"
  using assms by (rule assemble_result)

theorem assembled_objects_well_formed_witness:
  "wf_object (demo_objs ! 1) \<and> (0x10F :: u64) = 0x10E + code_size_now (code (demo_objs ! 1))"
proof -
  have "fresh_marker end_marker" by code_simp
  with assembled_objects_well_formed [OF demo_assemble_label] show ?thesis by simp
qed


end
