(* ===== verification/Binary_Listing.thy ===== *)
theory Binary_Listing
  imports Main_Compile Code_Listing
begin

text \<open>
  The disassembler of the command line (\<open>disassemble\<close> in \<open>SysdarftConsole/MainCompile.cpp\<close>
  and its loop in \<open>SysdarftConsole/SysdarftMain.cpp\<close>): the binary that the linker writes is
  printed with its table of symbols and the listing of its code.
\<close>

section \<open>Printing\<close>

text \<open>
  \<open>std::hex\<close> stays set in the output stream: the flag \<open>hex_base\<close> says whether numbers are
  printed in base 16, and is part of the result.
\<close>

(* SysdarftConsole/MainCompile.cpp 319-327: print_table *)
definition print_table :: "bool \<Rightarrow> (u64 \<times> string) list \<Rightarrow> string \<times> bool" where
  "print_table hex_base table =
     (''SYMBOL TABLE - SIZE '' @ to_base (if hex_base then 16 else 10) (length table) @ '':'' @ newline_text
       @ concat (map (\<lambda>(value, entry). hex_width 16 (unat value) @ replicate 29 (CHR '' '') @ entry @ newline_text) table)
       @ newline_text @ newline_text,
      hex_base \<or> table \<noteq> [])"

definition format_name :: "COMPILATION_MODE \<Rightarrow> string" where
  "format_name mode = (case mode of BIN \<Rightarrow> ''BIN'' | EXE \<Rightarrow> ''EXE'' | SYS \<Rightarrow> ''SYS'')"

text \<open>\<open>content\<close> is \<open>None\<close> when there is no such file, whose size is asked for first.\<close>

(* SysdarftConsole/MainCompile.cpp 329-386: disassemble *)
definition disassemble :: "bracket_regex \<Rightarrow> bool \<Rightarrow> string \<Rightarrow> u8 list option \<Rightarrow> u64 \<Rightarrow> COMPILATION_MODE \<Rightarrow> bool
    \<Rightarrow> cpu_error + string \<times> bool" where
  "disassemble brackets verbose binary_filename content origin mode hex_base =
     (case content of
        None \<Rightarrow> Inl StdException
      | Some bytes \<Rightarrow>
          (case read_binary mode bytes of
             Inl e \<Rightarrow> Inl e
           | Inr (file_mode, table, assembled) \<Rightarrow>
               let (table_text, hex') = (if file_mode = BIN then ([], hex_base) else print_table hex_base table) in
               map_result (\<lambda>result. (newline_text @ binary_filename @ ''        FORMAT    '' @ format_name file_mode
                   @ newline_text @ newline_text @ table_text @ result @ newline_text, hex'))
                 (disassemble_code brackets verbose assembled origin table)))"

(* SysdarftConsole/SysdarftMain.cpp 319-332: main, disassembled files *)
fun disassemble_files :: "bracket_regex \<Rightarrow> bool \<Rightarrow> (string \<Rightarrow> u8 list option) \<Rightarrow> u64 \<Rightarrow> COMPILATION_MODE \<Rightarrow> bool \<Rightarrow> string list
    \<Rightarrow> cpu_error + string" where
  "disassemble_files brackets verbose files origin mode hex_base [] = Inr []"
| "disassemble_files brackets verbose files origin mode hex_base (name # names) =
     (case disassemble brackets verbose name (files name) origin mode hex_base of
        Inl e \<Rightarrow> Inl e
      | Inr (t, hex') \<Rightarrow> map_result ((@) t) (disassemble_files brackets verbose files origin mode hex' names))"

section \<open>From the linker to the listing\<close>


definition demo_linked :: object_t where
  "demo_linked = \<lparr>code = [[0x00], [0xFF], [0x40]], symbol_table = [\<lparr>line_marker_name = ''stop'', marker_position = 0x7C02,
     is_defined = True, referenced = False, loc_it_appeared_in_cur_blk = []\<rparr>], data_expression_identifiers = []\<rparr>"


text \<open>
  After a table with entries the stream prints in base 16: the size of the table of the next
  file is printed so, 10 entries as \<open>A\<close>.
\<close>

theorem later_table_size_in_base_16:
  "snd (print_table False [(0x7C00, ''main'')])
   \<and> prefix ''SYMBOL TABLE - SIZE A:'' (fst (print_table True (map (\<lambda>i. (of_nat i, ''label'')) [0..<10])))"
proof -
  have "to_hex 10 = ''A''" by code_simp
  then show ?thesis by (simp add: print_table_def)
qed

end
