(* ===== verification/Spec2Isabelle.thy ===== *)
theory Spec2Isabelle
  imports Debug_Server Binary_Listing
begin

text \<open>
  \<^bold>\<open>Sysdarft\<close> is an emulator of a 64-bit machine of its own design (\<open>src/\<close>, C++20): a CPU
  with its memory, registers, interruptions and instruction set, a text display with a
  keyboard, disks and a real-time clock on a port bus, an assembler and disassembler for
  the machine's code, and a remote debugging console. This library models the emulated
  machine, the tools that make and read its code, and the debugger, and proves what makes
  them correct.

  \<^bold>\<open>Parts and theories.\<close> The classes of the emulator form one inheritance chain, and so do
  the records of the model, each extending the one before it; every operation is stated for
  all extensions of the record it works on.

  \<^item> \<open>Prelude\<close>: machine integers as words, the exceptions, runs of member functions
    (\<open>('s, 'a) run\<close>: outcome and state, the state surviving an exception as it does in
    C++), the predicate \<open>keeps\<close>, little-endian byte views.
  \<^item> \<open>Sysdarft_Memory\<close> (\<open>include/SysdarftMemory.h\<close>, \<open>cpu/SysdarftMemory.cpp\<close>): the block
    memory. It refines a flat byte store (locale \<open>byte_memory\<close>, interpreted on the code's
    accesses as \<open>ram\<close>); accesses out of range are refused without effect.
  \<^item> \<open>Sysdarft_Register\<close> (\<open>include/SysdarftRegister.h\<close>): the register file with the classes
    that alias each other (locale \<open>register_class\<close>, interpreted for the four widths), and
    its image in memory.
  \<^item> \<open>Curses_UI\<close> (\<open>SysdarftCursesUI.cpp\<close>): video memory, cursor, scrolling, keyboard.
  \<^item> \<open>Instruction_Set\<close> (\<open>include/InstructionSet.h\<close>): opcodes and the instruction table.
  \<^item> \<open>IO_Hub\<close> (\<open>SysdarftIOHub.cpp\<close>, \<open>include/SysdarftDisks.inl\<close>,
    \<open>ext_dev/RealTimeClock.cpp\<close>): byte streams (locale \<open>fifo_queue\<close>), devices and the
    routing of ports to them (locale \<open>port_device\<close>), disks and the clock.
  \<^item> \<open>Operand_Decoder\<close> (\<open>cpu/SysdarftCPUDecoder.cpp\<close>): fetching code, decoding operands and
    instructions, reading and writing operands.
  \<^item> \<open>Cpu_Interruption\<close> (\<open>cpu/SysdarftCPUInterruption.cpp\<close>): the interruption table, saving
    and restoring the CPU state, the interruptions the hardware serves.
  \<^item> \<open>Executor_Base\<close>, \<open>Ops_Arithmetic\<close>, \<open>Ops_Logic\<close>, \<open>Ops_Data\<close>, \<open>Ops_Control\<close>
    (\<open>cpu/Operations/\<close>): the instructions, one definition \<open>exec_\<dots>\<close> per member function.
  \<^item> \<open>Instruction_Exec\<close> (\<open>cpu/SysdarftInstructionExec.cpp\<close>): the map from opcodes to
    procedures and the execution of one instruction with its error handlers.
  \<^item> \<open>Sysdarft_CPU\<close> (\<open>cpu/SysdarftCPU.cpp\<close>): the constructor and the boot loop.
  \<^item> \<open>Cxx_Strings\<close>, \<open>Cxx_Regex\<close>: what the coding sources use of the C++ library, the
    conversions between numbers and text and a backtracking matcher for the ECMAScript
    expressions of \<open>std::regex\<close>.
  \<^item> \<open>Code_Buffer\<close> (\<open>include/EncodingDecoding.h\<close>): the byte buffer of the encoder and decoder,
    an instance of \<open>fifo_queue\<close>.
  \<^item> \<open>Code_Format\<close>: the machine's code as an abstract syntax with its bytes and its meaning,
    the specification that ties the three components below and the CPU together.
  \<^item> \<open>Disassembler\<close> (\<open>coding/DecodeTarget.cpp\<close>, \<open>coding/DecodeInstruction.cpp\<close>).
  \<^item> \<open>Operand_Encoder\<close> (\<open>coding/EncodeTarget.cpp\<close>), \<open>Instruction_Encoder\<close>
    (\<open>coding/EncodeInstruction.cpp\<close>, \<open>coding/OperandSanity.cpp\<close>): from a line of assembly
    to bytes. The external calculator \<open>bc\<close> is a parameter; the only law used of it,
    \<open>bc_prints_literals\<close>, is that it prints a decimal literal as it is.
  \<^item> \<open>Regex_Language\<close>, \<open>Regex_Replace\<close>: what an expression accepts, as an inductive relation;
    the matcher of \<open>Cxx_Regex\<close> finds a match exactly if there is one, and reports as groups
    only texts that the expressions of the groups accept. \<open>std::regex_replace\<close>.
  \<^item> \<open>Whole_Words\<close> (\<open>replace_whole_word\<close> in \<open>coding/PreProcessor.cpp\<close>): replacing names.
  \<^item> \<open>Linker\<close> (\<open>coding/Linker.cpp\<close>), \<open>Assembler\<close> (\<open>coding/Assembler.cpp\<close>),
    \<open>Pre_Processor\<close> (\<open>coding/HeadersAndDefinitions.cpp\<close>, \<open>coding/PreProcessor.cpp\<close>),
    \<open>Main_Compile\<close> (\<open>SysdarftConsole/MainCompile.cpp\<close>): from source files to a binary and its
    header. Files on disk, \<open>grep\<close> and \<open>sed\<close> are parameters. \<open>wf_object\<close> is the contract
    between assembler and linker, \<open>markers_ok\<close> the one between preprocessor and assembler;
    \<open>points_to\<close> says that a line of linked code holds an address.
  \<^item> \<open>Code_Listing\<close> (\<open>disassemble_code\<close> in \<open>SysdarftConsole/DisassembleAnArea.cpp\<close>,
    \<open>xxd_like_dump\<close> in \<open>SysdarftConsole/ShowContext.cpp\<close>), \<open>Binary_Listing\<close> (\<open>disassemble\<close> in
    \<open>SysdarftConsole/MainCompile.cpp\<close>): the listing of code with its symbols, and of a binary.
    \<open>image_listing\<close> says how an image of instructions and data is to be listed.
  \<^item> \<open>Machine_Context\<close> (\<open>show_context\<close> in \<open>SysdarftConsole/ShowContext.cpp\<close>): what the
    debugger shows of a paused machine.
  \<^item> \<open>Cxx_Map\<close>: \<open>std::map\<close> as the list of its entries in the order of the keys.
  \<^item> \<open>Debugger_Operand\<close> (\<open>SysdarftConsole/debugger_operand.cpp\<close>), \<open>Debug_Conditions\<close>
    (\<open>SysdarftConsole/ConditionalExpression.cpp\<close>), \<open>Debug_Server\<close> (the hooks of the CPU in
    \<open>RemoteDebugServer.cpp\<close> and \<open>DebugConsole.cpp\<close>, and the requests):
    operands and conditions as the debugger reads them, breakpoints, watches, pauses. The
    requests of the clients are a schedule; the body of a request is a map from field names to
    values, and the texts of exceptions are left out.

  \<^bold>\<open>What is shown.\<close> An invariant of the machine (whole blocks of memory, the cursor on the
  screen) is kept by every instruction on every path and by the whole boot, for every guest
  program, every behaviour of the other threads and every debugger that keeps it itself;
  the boot ends when the guest halts. The memory refines a flat store. Operands, the stack,
  calls, saved registers, interruptions and disk sectors satisfy their round trips. The
  arithmetic is related to arithmetic on numbers, with the carry, and the rotations to those
  of the word library. The CPU and the disassembler read the same code format, and the
  assembler gives back the bytes of every instruction the disassembler prints. From the
  source files to the binary, every operand that names a label holds the address of the place
  at which the label stands, and the CPU decodes it as that constant. What the linker
  writes, the disassembler lists with its symbols, its instructions and its data. The debugger
  stops exactly at breakpoints whose condition holds, and keeps the invariant of the machine;
  what it shows is the state of the machine, which showing does not change. Error paths are stated with the state they leave. Where the code does
  not do what it means to, the property states what it does, for example that the 64-bit
  carry is never set or that four jumps have no procedure.

  \<^bold>\<open>Bounds and schedules.\<close> Other threads (console, GUI, devices, debugger) are an explicit
  schedule of events. The loops that wait for them, the one of the keyboard interruption,
  the boot loop and the pause of the debugger, recurse over that schedule: when it ends while the loop still waits, the
  outcome is \<open>Waiting\<close>, and the liveness properties state which schedules suffice. The
  preprocessor recurses into headers up to a depth, the stack of the host; \<open>includes_terminate\<close>
  says which depth is enough. The loops of the listings end because every call of the disassembler takes a byte. All other
  loops are structural. A C++ operation whose result is undefined gives
  \<open>UndefinedBehaviour\<close>, which no handler catches.

  \<^bold>\<open>Not modelled.\<close> The curses, SFML and crow libraries and what is only glue around them
  (GUI window, transport of the requests, logging, argument processing, the printing of
  debug builds),
  the sound thread, the host's memory limits (allocations below 2^63 bytes succeed), mutexes
  other than the one of the device requests, and the sharing of one image file by two disk
  controllers. The hosts are little endian.
\<close>

end
